(* ===== verification/Prelude.thy ===== *)
theory Prelude
  imports Main "HOL-Library.Word" "HOL-Library.AList"
begin

text \<open>
  Types, automation and generic lemmas that the component theories share:
  the machine integer types, bytes, Qt's hash tables as association lists, and two interfaces
  (a keyed store, and a machine whose steps keep an invariant) that the components are
  instances of.
\<close>

unbundle bit_operations_syntax

subsection \<open>Machine integers and strings\<close>

type_synonym u8 = "8 word"
type_synonym u16 = "16 word"
type_synonym u32 = "32 word"
type_synonym u64 = "64 word"

type_synonym byte = u8
type_synonym bytes = "byte list"

text \<open>
  \<open>QString\<close> values are only stored, compared and tested for emptiness by the modelled code,
  so they are HOL strings. Account ids (\<open>int64_t\<close>) are mathematical integers; the casts
  to \<open>uint64_t\<close> are written out.
\<close>

type_synonym qstring = string
type_synonym userid = int

definition u64_of_int :: "int \<Rightarrow> u64" where
  "u64_of_int i = word_of_int i"

definition int_of_i32 :: "int \<Rightarrow> int" where
  \<comment> \<open>\<open>static_cast<int>\<close> of a wider integer: keep 32 bits, read as two's complement\<close>
  "int_of_i32 i = sint (word_of_int i :: u32)"

lemma unat_of_nat_small: "n < 2 ^ LENGTH('a) \<Longrightarrow> unat (word_of_nat n :: 'a::len word) = n"
  by (simp add: unsigned_of_nat take_bit_nat_eq_self)

lemma uint_of_nat_small: "n < 2 ^ LENGTH('a) \<Longrightarrow> uint (word_of_nat n :: 'a::len word) = int n"
  by (simp add: unat_of_nat_small uint_nat)

subsection \<open>Fact collections\<close>

named_theorems msg_simps \<open>definitions of the message builders\<close>
named_theorems inv_defs \<open>definitions of the invariants\<close>
named_theorems handler_defs \<open>definitions of the command handlers\<close>

subsection \<open>Qt hash tables\<close>

text \<open>
  A \<open>QHash\<close> is the list of its entries in iteration order. Qt leaves that order
  unspecified, so no statement of the development fixes where an insertion puts a new entry
  beyond what holds for every order of the table it starts from; an assignment through an
  iterator (\<open>it->field = ...\<close>) keeps the entry in place.
\<close>

type_synonym ('k, 'v) qhash = "('k \<times> 'v) list"

abbreviation qfind :: "('k, 'v) qhash \<Rightarrow> 'k \<Rightarrow> 'v option" where
  "qfind \<equiv> map_of"

abbreviation qinsert :: "'k \<Rightarrow> 'v \<Rightarrow> ('k, 'v) qhash \<Rightarrow> ('k, 'v) qhash" where
  "qinsert \<equiv> AList.update"

abbreviation qremove :: "'k \<Rightarrow> ('k, 'v) qhash \<Rightarrow> ('k, 'v) qhash" where
  "qremove \<equiv> AList.delete"

abbreviation qkeys :: "('k, 'v) qhash \<Rightarrow> 'k list" where
  "qkeys h \<equiv> map fst h"

abbreviation qvalues :: "('k, 'v) qhash \<Rightarrow> 'v list" where
  "qvalues h \<equiv> map snd h"

abbreviation qvalue :: "('k, 'v) qhash \<Rightarrow> 'k \<Rightarrow> 'v \<Rightarrow> 'v" where
  "qvalue h k d \<equiv> (case map_of h k of None \<Rightarrow> d | Some v \<Rightarrow> v)"

definition qmodify :: "'k \<Rightarrow> ('v \<Rightarrow> 'v) \<Rightarrow> ('k, 'v) qhash \<Rightarrow> ('k, 'v) qhash" where
  "qmodify k f h = (case qfind h k of None \<Rightarrow> h | Some v \<Rightarrow> qinsert k (f v) h)"

definition qdistinct :: "('k, 'v) qhash \<Rightarrow> bool" where
  "qdistinct h \<longleftrightarrow> distinct (qkeys h)"

lemma qdistinct_Nil [simp]: "qdistinct []"
  by (simp add: qdistinct_def)

lemma qdistinct_qinsert [simp]: "qdistinct h \<Longrightarrow> qdistinct (qinsert k v h)"
  by (simp add: qdistinct_def distinct_update)

lemma qdistinct_qremove [simp]: "qdistinct h \<Longrightarrow> qdistinct (qremove k h)"
  by (simp add: qdistinct_def distinct_delete)

lemma qfind_qinsert: "qfind (qinsert k v h) k' = (if k' = k then Some v else qfind h k')"
  by (simp add: update_conv')

lemma qfind_qremove: "qfind (qremove k h) k' = (if k' = k then None else qfind h k')"
  by (simp add: delete_conv')

lemma qkeys_qinsert: "set (qkeys (qinsert k v h)) = insert k (set (qkeys h))"
  by (induction h) auto

lemma qkeys_qremove: "set (qkeys (qremove k h)) = set (qkeys h) - {k}"
  by (auto simp: AList.delete_eq)

lemma qfind_in_set: "qdistinct h \<Longrightarrow> qfind h k = Some v \<longleftrightarrow> (k, v) \<in> set h"
  by (simp add: qdistinct_def)

lemma set_qremove: "set (qremove k h) = {(k', v). (k', v) \<in> set h \<and> k' \<noteq> k}"
  by (auto simp: AList.delete_eq)

lemma set_qinsert:
  "qdistinct h \<Longrightarrow> set (qinsert k v h) = insert (k, v) {(k', v'). (k', v') \<in> set h \<and> k' \<noteq> k}"
proof (induction h)
  case Nil
  then show ?case by simp
next
  case (Cons p h)
  obtain k1 v1 where p: "p = (k1, v1)" by (cases p)
  from Cons.prems p have "qdistinct h" and "k1 \<notin> fst ` set h"
    by (auto simp: qdistinct_def)
  with Cons.IH p show ?case
    by (cases "k1 = k") (auto simp: image_iff)
qed

lemma length_qinsert_new: "k \<notin> set (qkeys h) \<Longrightarrow> length (qinsert k v h) = Suc (length h)"
  by (induction h) auto

lemma length_qinsert_old: "k \<in> set (qkeys h) \<Longrightarrow> length (qinsert k v h) = length h"
  by (induction h) auto

lemma length_qinsert_le: "length (qinsert k v h) \<le> Suc (length h)"
  by (induction h) auto

lemma qinsert_new: "k \<notin> set (qkeys h) \<Longrightarrow> qinsert k v h = h @ [(k, v)]"
  by (induction h) auto

lemma length_qremove_le: "length (qremove k h) \<le> length h"
  by (simp add: AList.delete_eq)

lemma length_qremove_in:
  "qdistinct h \<Longrightarrow> k \<in> set (qkeys h) \<Longrightarrow> Suc (length (qremove k h)) = length h"
proof (induction h)
  case Nil
  then show ?case by simp
next
  case (Cons p h)
  obtain k1 v1 where p: "p = (k1, v1)" by (cases p)
  from Cons.prems have d: "qdistinct h" by (simp add: qdistinct_def)
  show ?case
  proof (cases "k1 = k")
    case True
    with Cons.prems p have "k \<notin> fst ` set h" by (simp add: qdistinct_def)
    then have "qremove k h = h" by (rule delete_id)
    with True p show ?thesis by simp
  next
    case False
    with Cons.prems p have "k \<in> set (qkeys h)" by auto
    with Cons.IH d have "Suc (length (qremove k h)) = length h" by blast
    with False p show ?thesis by simp
  qed
qed

lemma qremove_Nil_iff: "qremove k h = [] \<longleftrightarrow> set (qkeys h) \<subseteq> {k}"
  by (auto simp: AList.delete_eq filter_empty_conv)

text \<open>
  The interface the rest of the server uses: a keyed store whose lookups see the last
  insertion or removal of their key, and only that. Its client lemmas are the frame rules of
  an update in place.
\<close>

locale keyed_store =
  fixes find :: "'s \<Rightarrow> 'k \<Rightarrow> 'v option"
    and ins :: "'k \<Rightarrow> 'v \<Rightarrow> 's \<Rightarrow> 's"
    and rem :: "'k \<Rightarrow> 's \<Rightarrow> 's"
    and invar :: "'s \<Rightarrow> bool"
  assumes find_ins: "find (ins k v s) k' = (if k' = k then Some v else find s k')"
    and find_rem: "find (rem k s) k' = (if k' = k then None else find s k')"
    and invar_ins: "invar s \<Longrightarrow> invar (ins k v s)"
    and invar_rem: "invar s \<Longrightarrow> invar (rem k s)"
begin

definition modify :: "'k \<Rightarrow> ('v \<Rightarrow> 'v) \<Rightarrow> 's \<Rightarrow> 's" where
  "modify k f s = (case find s k of None \<Rightarrow> s | Some v \<Rightarrow> ins k (f v) s)"

lemma find_modify:
  "find (modify k f s) k' = (if k' = k then map_option f (find s k) else find s k')"
  by (simp add: modify_def find_ins split: option.split)

lemma invar_modify: "invar s \<Longrightarrow> invar (modify k f s)"
  by (simp add: modify_def invar_ins split: option.split)

lemma find_ins_rem: "find (ins k v (rem k s)) = find (ins k v s)"
  by (rule ext) (simp add: find_ins find_rem)

lemma find_ins_commute: "k \<noteq> k' \<Longrightarrow> find (ins k v (ins k' v' s)) = find (ins k' v' (ins k v s))"
  by (rule ext) (simp add: find_ins)

end

interpretation qh: keyed_store qfind qinsert qremove qdistinct
  by unfold_locales (simp_all add: qfind_qinsert qfind_qremove)

lemma qmodify_eq: "qmodify k f h = qh.modify k f h"
  by (simp add: qmodify_def qh.modify_def)

lemma qfind_qmodify:
  "qfind (qmodify k f h) k' = (if k' = k then map_option f (qfind h k) else qfind h k')"
  unfolding qmodify_eq by (rule qh.find_modify)

lemma qdistinct_qmodify [simp]: "qdistinct h \<Longrightarrow> qdistinct (qmodify k f h)"
  unfolding qmodify_eq by (rule qh.invar_modify)

lemma qkeys_qmodify [simp]: "set (qkeys (qmodify k f h)) = set (qkeys h)"
proof (cases "qfind h k")
  case None
  then show ?thesis by (simp add: qmodify_def)
next
  case (Some v)
  then have "k \<in> set (qkeys h)" by (force dest: map_of_SomeD)
  with Some show ?thesis by (simp only: qmodify_def option.case qkeys_qinsert insert_absorb)
qed

lemma set_qmodify:
  "qdistinct h \<Longrightarrow> set (qmodify k f h) = (\<lambda>(k', v). (k', if k' = k then f v else v)) ` set h"
proof -
  assume d: "qdistinct h"
  show ?thesis
  proof (cases "qfind h k")
    case None
    then have "\<And>v. (k, v) \<notin> set h" using d by (auto simp: qdistinct_def)
    then have "(\<lambda>(k', v). (k', if k' = k then f v else v)) p = p" if "p \<in> set h" for p
      using that by (cases p) auto
    with None show ?thesis by (simp add: qmodify_def)
  next
    case (Some v)
    then have v: "(k, v') \<in> set h \<longleftrightarrow> v' = v" for v'
      using d by (auto simp: qfind_in_set [symmetric])
    then show ?thesis
      using d Some by (auto simp: qmodify_def set_qinsert image_iff split: if_splits) force+
  qed
qed

lemma length_qmodify [simp]: "length (qmodify k f h) = length h"
  by (auto simp: qmodify_def map_of_eq_None_iff length_qinsert_old split: option.split
      dest!: map_of_SomeD intro!: length_qinsert_old) force

lemma qmodify_Nil_iff [simp]: "qmodify k f h = [] \<longleftrightarrow> h = []"
  by (metis length_qmodify length_0_conv)

lemma qkey_in: "(k, v) \<in> set h \<Longrightarrow> k \<in> set (qkeys h)"
  by force

lemma qvalue_in: "(k, v) \<in> set h \<Longrightarrow> v \<in> set (qvalues h)"
  by force

subsection \<open>Runs of a machine with an invariant\<close>

text \<open>
  A component is a step function on its state; \<open>ok\<close> says which events its environment
  may send. An invariant of the single step holds after every run.
\<close>

locale invariant_machine =
  fixes step :: "'s \<Rightarrow> 'e \<Rightarrow> 's"
    and ok :: "'e \<Rightarrow> bool"
    and I :: "'s \<Rightarrow> bool"
  assumes step_inv: "I s \<Longrightarrow> ok e \<Longrightarrow> I (step s e)"
begin

lemma run_inv: "I s \<Longrightarrow> list_all ok es \<Longrightarrow> I (foldl step s es)"
  by (induction es arbitrary: s) (auto intro: step_inv)

lemma prefix_inv: "I s \<Longrightarrow> list_all ok (es @ fs) \<Longrightarrow> I (foldl step s es)"
  by (simp add: run_inv)

end

text \<open>
  The same with a resource that every step uses up by at most one (a counter that must not
  wrap): the invariant holds as long as the run is short enough for it.
\<close>

locale bounded_machine =
  fixes step :: "'s \<Rightarrow> 'e \<Rightarrow> 's"
    and used :: "'s \<Rightarrow> nat"
    and costs :: "'e \<Rightarrow> bool"
    and bound :: nat
    and I :: "'s \<Rightarrow> bool"
  assumes bstep_inv: "I s \<Longrightarrow> (costs e \<Longrightarrow> used s < bound) \<Longrightarrow> I (step s e)"
    and bstep_used: "used (step s e) \<le> used s + (if costs e then 1 else 0)"
begin

lemma bounded_run_inv: "I s \<Longrightarrow> used s + length (filter costs es) \<le> bound \<Longrightarrow> I (foldl step s es)"
proof (induction es arbitrary: s)
  case Nil
  then show ?case by simp
next
  case (Cons e es)
  have "I (step s e)" using Cons.prems by (intro bstep_inv) simp_all
  moreover have "used (step s e) + length (filter costs es) \<le> bound"
    using bstep_used [of s e] Cons.prems(2) by (simp split: if_splits)
  ultimately show ?case by (simp add: Cons.IH)
qed

end

subsection \<open>Lists\<close>

definition removeAll_ids :: "'a \<Rightarrow> 'a list \<Rightarrow> 'a list" where
  \<comment> \<open>\<open>QVector::removeAll\<close>\<close>
  "removeAll_ids x xs = filter (\<lambda>y. y \<noteq> x) xs"

lemma set_removeAll_ids [simp]: "set (removeAll_ids x xs) = set xs - {x}"
  by (auto simp: removeAll_ids_def)

lemma find_Some_iff_ex: "(\<exists>x. List.find P xs = Some x) \<longleftrightarrow> (\<exists>x \<in> set xs. P x)"
  by (auto simp: find_Some_iff) (metis find_None_iff find_Some_iff option.exhaust)

lemma find_SomeD: "List.find P xs = Some x \<Longrightarrow> x \<in> set xs \<and> P x"
  by (auto simp: find_Some_iff)

subsection \<open>Decimal numbers\<close>

definition digit_char :: "nat \<Rightarrow> char" where
  "digit_char d = char_of (48 + d)"

function show_nat :: "nat \<Rightarrow> string" where
  "show_nat n = (if n < 10 then [digit_char n] else show_nat (n div 10) @ [digit_char (n mod 10)])"
  by pat_completeness auto
termination by (relation "measure id") auto

declare show_nat.simps [simp del]

definition qstring_number :: "int \<Rightarrow> qstring" where
  \<comment> \<open>\<open>QString::number\<close>\<close>
  "qstring_number i = (if i < 0 then CHR ''-'' # show_nat (nat (- i)) else show_nat (nat i))"

end
