(* ===== verification/Json.thy ===== *)
theory Json
  imports Prelude
begin

text \<open>
  JSON values as Qt represents them, and the byte array functions the text scanners use. Byte
  arrays that hold text are HOL strings.
\<close>

subsection \<open>JSON values\<close>

text \<open>
  \<open>QJsonValue\<close> and \<open>QJsonObject\<close>. An object is the list of its entries in key
  order with each key once, as Qt keeps it, so equality of objects is equality of lists. The
  modelled code reads every number as an integer, and the model's numbers are integers.
\<close>

datatype json =
    JUndefined
  | JNull
  | JBool bool
  | JNum int
  | JString qstring
  | JArray "json list"
  | JObject "(qstring \<times> json) list"

type_synonym json_object = "(qstring \<times> json) list"

definition jvalue :: "json_object \<Rightarrow> qstring \<Rightarrow> json" where
  "jvalue obj key = (case map_of obj key of None \<Rightarrow> JUndefined | Some v \<Rightarrow> v)"

definition jcontains :: "json_object \<Rightarrow> qstring \<Rightarrow> bool" where
  "jcontains obj key \<longleftrightarrow> map_of obj key \<noteq> None"

fun jtoString :: "json \<Rightarrow> qstring" where
  "jtoString (JString s) = s" | "jtoString _ = []"

fun jtoArray :: "json \<Rightarrow> json list" where
  "jtoArray (JArray xs) = xs" | "jtoArray _ = []"

fun jtoObject :: "json \<Rightarrow> json_object" where
  "jtoObject (JObject obj) = obj" | "jtoObject _ = []"

fun jtoBool :: "bool \<Rightarrow> json \<Rightarrow> bool" where
  "jtoBool d (JBool b) = b" | "jtoBool d _ = d"

definition jmissing :: "json \<Rightarrow> bool" where
  \<comment> \<open>\<open>isUndefined() || isNull()\<close>\<close>
  "jmissing v \<longleftrightarrow> v = JUndefined \<or> v = JNull"

fun jtoInt :: "int \<Rightarrow> json \<Rightarrow> int" where
  \<comment> \<open>\<open>QJsonValue::toInt\<close>: the default for anything but a number in the range of \<open>int\<close>\<close>
  "jtoInt d (JNum n) = (if - (2 ^ 31) \<le> n \<and> n < 2 ^ 31 then n else d)"
| "jtoInt d _ = d"

subsection \<open>Text\<close>

definition is_space :: "char \<Rightarrow> bool" where
  \<comment> \<open>what \<open>QByteArray::trimmed\<close> strips\<close>
  "is_space c \<longleftrightarrow> c \<in> {CHR '' '', CHR 0x09, CHR 0x0A, CHR 0x0B, CHR 0x0C, CHR 0x0D}"

definition dropWhileEnd :: "(char \<Rightarrow> bool) \<Rightarrow> string \<Rightarrow> string" where
  "dropWhileEnd P s = rev (dropWhile P (rev s))"

definition trimmed :: "string \<Rightarrow> string" where
  "trimmed s = dropWhileEnd is_space (dropWhile is_space s)"

lemma dropWhileEnd_id: "s \<noteq> [] \<Longrightarrow> \<not> P (last s) \<Longrightarrow> dropWhileEnd P s = s"
  by (cases s rule: rev_cases) (simp_all add: dropWhileEnd_def)

fun index_of :: "string \<Rightarrow> string \<Rightarrow> nat option" where
  \<comment> \<open>\<open>indexOf\<close>\<close>
  "index_of pat [] = (if pat = [] then Some 0 else None)"
| "index_of pat (c # cs) =
     (if take (length pat) (c # cs) = pat then Some 0 else map_option Suc (index_of pat cs))"

definition index_from :: "string \<Rightarrow> string \<Rightarrow> nat \<Rightarrow> nat option" where
  "index_from pat s pos = (if pos > length s then None else map_option ((+) pos) (index_of pat (drop pos s)))"

definition qmid :: "string \<Rightarrow> nat \<Rightarrow> int \<Rightarrow> string" where
  \<comment> \<open>\<open>mid(pos, len)\<close>: a negative length means up to the end\<close>
  "qmid s pos len = (if len < 0 then drop pos s else take (nat len) (drop pos s))"

fun split_on :: "char \<Rightarrow> string \<Rightarrow> string list" where
  "split_on d [] = [[]]"
| "split_on d (c # cs) =
     (if c = d then [] # split_on d cs
      else (case split_on d cs of [] \<Rightarrow> [[c]] | x # xs \<Rightarrow> (c # x) # xs))"

definition asciiLower :: "string \<Rightarrow> string" where
  "asciiLower = map (\<lambda>c. let n = of_char c :: nat in if 65 \<le> n \<and> n \<le> 90 then char_of (n + 32) else c)"

lemma index_of_bound: "index_of pat s = Some i \<Longrightarrow> i + length pat \<le> length s"
proof (induction s arbitrary: i)
  case (Cons c cs)
  then show ?case
    by (auto split: if_splits) (metis length_Cons length_take min.cobounded1)
qed (auto split: if_splits)

lemma index_of_append: "index_of pat s = Some i \<Longrightarrow> index_of pat (s @ r) = Some i"
proof (induction s arbitrary: i)
  case Nil
  then show ?case by (cases r) (auto split: if_splits)
next
  case (Cons c cs)
  have t: "take (length pat) (c # cs @ r) = take (length pat) (c # cs)" if "length pat \<le> length (c # cs)"
    using that by (metis append_Cons append_Nil2 diff_is_0_eq' take0 take_append)
  from index_of_bound [OF Cons.prems] have "length pat \<le> length (c # cs)" by simp
  with Cons t show ?case by (auto split: if_splits)
qed

lemma index_of_skip:
  "d \<notin> set x \<Longrightarrow> index_of (d # pat) (x @ y) = map_option ((+) (length x)) (index_of (d # pat) y)"
  by (induction x) (cases "index_of (d # pat) y"; auto)+

lemma index_from_bound: "index_from pat s pos = Some i \<Longrightarrow> pos \<le> i \<and> i + length pat \<le> length s"
  using index_of_bound [of pat "drop pos s"] by (fastforce simp: index_from_def split: if_splits)

lemma split_on_no: "d \<notin> set x \<Longrightarrow> split_on d (x @ d # y) = x # split_on d y"
  by (induction x) auto

lemma split_on_last: "d \<notin> set x \<Longrightarrow> split_on d x = [x]"
  by (induction x) auto

end
