(* ===== verification/Broker.thy ===== *)
theory Broker
  imports Json "HOL-Library.Char_ord" "HOL-Library.Multiset"
begin

text \<open>
  The summon broker of \<open>src/bloodborne_summon_broker.cpp\<close>: players advertise signs,
  others search for them and claim one, and the claim is handed to the advertiser when it polls
  again. Byte arrays and strings are HOL strings here. Qt's JSON writer, Base64 and hexadecimal
  number parsing are not part of the repository and are the fields of a record of parameters.
\<close>

subsection \<open>Parameters\<close>

record qt_functions =
  qt_toJson :: "json_object \<Rightarrow> string"           \<comment> \<open>\<open>QJsonDocument::toJson(Compact)\<close>\<close>
  qt_fromBase64 :: "string \<Rightarrow> string"             \<comment> \<open>empty when the decoding aborts\<close>
  qt_toBase64 :: "string \<Rightarrow> string"
  qt_toULongLong16 :: "string \<Rightarrow> nat option"      \<comment> \<open>\<open>None\<close>: not ok\<close>

subsection \<open>Reading fields\<close>

fun OptionalInteger_value :: "json \<Rightarrow> int option" where
  "OptionalInteger_value (JNum n) = Some n" | "OptionalInteger_value _ = None"

definition OptionalInteger :: "json_object \<Rightarrow> qstring \<Rightarrow> int option" where
  "OptionalInteger obj key = OptionalInteger_value (jvalue obj key)"

definition Integer :: "json_object \<Rightarrow> qstring \<Rightarrow> int \<Rightarrow> int" where
  "Integer obj key fallback =
     (case OptionalInteger_value (jvalue obj key) of None \<Rightarrow> fallback | Some n \<Rightarrow> n)"

definition RecordKey :: "qstring \<Rightarrow> int \<Rightarrow> qstring" where
  "RecordKey sessionId userId = sessionId @ CHR '':'' # qstring_number userId"

definition signSession :: "json_object \<Rightarrow> qstring" where
  "signSession obj = jtoString (jvalue obj ''SessionId'')"

definition advertisementKey :: "json_object \<Rightarrow> qstring" where
  "advertisementKey adv = RecordKey (signSession adv) (Integer adv ''UserId'' (- 1))"

definition SameIfPresent :: "json_object \<Rightarrow> json_object \<Rightarrow> qstring \<Rightarrow> bool" where
  "SameIfPresent request sign key \<longleftrightarrow>
     jmissing (jvalue request key) \<or> jvalue request key = jvalue sign key"

definition ForceConsumeRequested :: "json_object \<Rightarrow> bool" where
  "ForceConsumeRequested request \<longleftrightarrow>
     jtoBool False (jvalue request ''Force'') \<or> jtoBool False (jvalue request ''SeamlessLeave'')"

definition HostPlacementMap :: "qt_functions \<Rightarrow> string \<Rightarrow> int option" where
  "HostPlacementMap qt placement =
     (if take 2 placement \<noteq> ''1,'' then None
      else if CHR '','' \<notin> set (drop 2 placement) then None
      else (case qt_toULongLong16 qt (takeWhile (\<lambda>c. c \<noteq> CHR '','') (drop 2 placement)) of
              None \<Rightarrow> None
            | Some packedMap \<Rightarrow>
                if packedMap = 0 \<or> packedMap > 2 ^ 32 - 1 then None else Some (int packedMap)))"

definition int_of_i64 :: "int \<Rightarrow> int" where
  \<comment> \<open>the result of an operation on \<open>qint64\<close> in two's complement, where it wraps around\<close>
  "int_of_i64 i = sint (word_of_int i :: u64)"

definition squaredDistance :: "json_object \<Rightarrow> json_object \<Rightarrow> int" where
  "squaredDistance request sign =
     (let delta = (\<lambda>k. int_of_i64 (Integer request k 0 - Integer sign k 0));
          square = (\<lambda>k. int_of_i64 (delta k * delta k))
      in int_of_i64 (int_of_i64 (square ''PosX'' + square ''PosY'') + square ''PosZ''))"

definition MatchesSearch :: "json_object \<Rightarrow> json_object \<Rightarrow> bool \<Rightarrow> bool" where
  "MatchesSearch request sign anywhereSummons \<longleftrightarrow>
     (let requester = Integer request ''UserId'' (- 1);
          summonTypes = map (\<lambda>f. int_of_i32 (Integer f ''SummonType'' 0))
            (filter (\<lambda>f. jcontains f ''SummonType'')
              (map jtoObject (jtoArray (jvalue request ''SummonTypeList''))));
          requestWord = jtoString (jvalue request ''SummonWord'');
          signWord = jtoString (jvalue sign ''SummonWord'');
          requestLevel = Integer request ''MatchingLevel'' (- 1);
          signLevel = Integer sign ''MatchingLevel'' (- 1);
          distance = Integer request ''DistanceThreshold'' (- 1)
      in \<not> (Integer sign ''UserId'' (- 1) = requester \<or> signSession sign = signSession request) \<and>
         SameIfPresent request sign ''SummonDataVersion'' \<and> SameIfPresent request sign ''SummonMethod'' \<and>
         (anywhereSummons \<or> (SameIfPresent request sign ''AreaId'' \<and>
            SameIfPresent request sign ''AreaRegionId'' \<and> SameIfPresent request sign ''ChannelId'')) \<and>
         (summonTypes = [] \<or> int_of_i32 (Integer sign ''SummonType'' 0) \<in> set summonTypes) \<and>
         (requestWord = [] \<or> requestWord = signWord) \<and>
         \<not> (\<not> anywhereSummons \<and> requestWord = [] \<and> requestLevel \<ge> 0 \<and> signLevel \<ge> 0 \<and>
            \<bar>int_of_i64 (requestLevel - signLevel)\<bar> > 10 + requestLevel div 5) \<and>
         \<not> (\<not> anywhereSummons \<and> distance \<ge> 0 \<and> jcontains request ''PosX'' \<and>
            jcontains request ''PosY'' \<and> jcontains request ''PosZ'' \<and>
            squaredDistance request sign > int_of_i64 (distance * distance)))"

subsection \<open>The top-level members of a JSON text\<close>

text \<open>
  The scanner works on the text between the braces; an index of the code is here the rest of the
  text from that index on.
\<close>

definition is_sep_space :: "char \<Rightarrow> bool" where
  "is_sep_space c \<longleftrightarrow> c \<in> {CHR '' '', CHR 0x09, CHR 0x0D, CHR 0x0A}"

fun scan_key :: "bool \<Rightarrow> string \<Rightarrow> (string \<times> string) option" where
  \<comment> \<open>the key up to its closing quote, and the rest from that quote on\<close>
  "scan_key escaped [] = None"
| "scan_key escaped (c # cs) =
     (if \<not> escaped \<and> c = CHR 0x22 then Some ([], c # cs)
      else map_option (\<lambda>(k, r). (c # k, r)) (scan_key (\<not> escaped \<and> c = CHR 0x5C) cs))"

fun scan_value :: "bool \<Rightarrow> bool \<Rightarrow> int \<Rightarrow> int \<Rightarrow> string \<Rightarrow> string \<times> string" where
  \<comment> \<open>the value up to the comma that ends it, and the rest from that comma on\<close>
  "scan_value inString escaped objectDepth arrayDepth [] = ([], [])"
| "scan_value inString escaped objectDepth arrayDepth (c # cs) =
     (if inString
      then apfst ((#) c)
        (scan_value (\<not> (\<not> escaped \<and> c = CHR 0x22)) (\<not> escaped \<and> c = CHR 0x5C) objectDepth arrayDepth cs)
      else if c = CHR 0x22 then apfst ((#) c) (scan_value True False objectDepth arrayDepth cs)
      else if c = CHR ''{'' then apfst ((#) c) (scan_value False escaped (objectDepth + 1) arrayDepth cs)
      else if c = CHR ''}'' then apfst ((#) c) (scan_value False escaped (objectDepth - 1) arrayDepth cs)
      else if c = CHR ''['' then apfst ((#) c) (scan_value False escaped objectDepth (arrayDepth + 1) cs)
      else if c = CHR '']'' then apfst ((#) c) (scan_value False escaped objectDepth (arrayDepth - 1) cs)
      else if c = CHR '','' \<and> objectDepth = 0 \<and> arrayDepth = 0 then ([], c # cs)
      else apfst ((#) c) (scan_value False escaped objectDepth arrayDepth cs))"

lemma scan_key_length: "scan_key e cs = Some (k, r) \<Longrightarrow> length r \<le> length cs"
  by (induction e cs arbitrary: k r rule: scan_key.induct) (auto split: if_splits)

lemma scan_value_length: "length (snd (scan_value s e od ad cs)) \<le> length cs"
  by (induction s e od ad cs rule: scan_value.induct) (auto simp: le_Suc_eq)

definition scan_member :: "string \<Rightarrow> ((string \<times> string) \<times> string) option" where
  \<comment> \<open>one member from its opening quote on: its key and raw text, and the rest\<close>
  "scan_member inp =
     (case inp of
        [] \<Rightarrow> None
      | c # cs \<Rightarrow>
          if c \<noteq> CHR 0x22 then None
          else (case scan_key False cs of
                  None \<Rightarrow> None
                | Some (key, r) \<Rightarrow>
                    (let r1 = dropWhile is_sep_space (tl r) in
                     case r1 of
                       [] \<Rightarrow> None
                     | d # r2 \<Rightarrow>
                         if d \<noteq> CHR '':'' then None
                         else (let (_, r3) = scan_value False False 0 0 r2
                               in Some ((key, dropWhileEnd is_sep_space
                                           (take (length inp - length r3) inp)), r3)))))"

lemma scan_member_length: "scan_member inp = Some (m, r) \<Longrightarrow> length r < length inp"
proof -
  assume a: "scan_member inp = Some (m, r)"
  then obtain c cs where t: "inp = c # cs" by (auto simp: scan_member_def split: list.splits)
  from a t obtain key q where k: "scan_key False cs = Some (key, q)"
    by (auto simp: scan_member_def split: if_splits option.splits)
  from a t k obtain d r2 where d: "dropWhile is_sep_space (tl q) = d # r2"
    and r: "r = snd (scan_value False False 0 0 r2)"
    by (auto simp: scan_member_def Let_def case_prod_unfold split: if_splits list.splits)
  have "length r \<le> length r2" unfolding r by (rule scan_value_length)
  moreover have "length (d # r2) \<le> length (tl q)" unfolding d [symmetric] by (rule length_dropWhile_le)
  moreover have "length (tl q) \<le> length cs" using scan_key_length [OF k] by simp
  ultimately show ?thesis using t by simp
qed

function members_loop :: "string \<Rightarrow> (string \<times> string) list option" where
  \<comment> \<open>\<open>None\<close>: the code returns an empty list\<close>
  "members_loop inp =
     (let rest = dropWhile (\<lambda>c. c = CHR '','' \<or> is_sep_space c) inp in
      if rest = [] then Some []
      else (case scan_member rest of
              None \<Rightarrow> None
            | Some (m, r) \<Rightarrow> map_option ((#) m) (members_loop r)))"
  by pat_completeness auto
termination
proof (relation "measure length")
  fix inp rest m and y :: "(string \<times> string) \<times> string" and r
  assume "rest = dropWhile (\<lambda>c. c = CHR '','' \<or> is_sep_space c) inp" "scan_member rest = Some y" "(m, r) = y"
  then have "length r < length rest" "length rest \<le> length inp"
    using scan_member_length [of rest m r] by (auto intro: length_dropWhile_le)
  then show "(r, inp) \<in> measure length" by simp
qed simp

declare members_loop.simps [simp del]

definition TopLevelMembers :: "string \<Rightarrow> (string \<times> string) list" where
  "TopLevelMembers rawObject =
     (let raw = trimmed rawObject in
      if length raw < 2 \<or> hd raw \<noteq> CHR ''{'' \<or> last raw \<noteq> CHR ''}'' then []
      else (case members_loop (butlast (tl raw)) of None \<Rightarrow> [] | Some ms \<Rightarrow> ms))"

definition TopLevelMembersExceptEnvelope :: "string \<Rightarrow> string list" where
  "TopLevelMembersExceptEnvelope rawObject =
     map snd (filter (\<lambda>m. fst m \<noteq> ''MessageId'' \<and> fst m \<noteq> ''ResKind'') (TopLevelMembers rawObject))"

definition BuildClaimDeliveryResponse :: "string \<Rightarrow> string" where
  "BuildClaimDeliveryResponse rawClaim =
     (let members = TopLevelMembersExceptEnvelope rawClaim in
      if members = [] then []
      else ''{'' @ CHR 0x22 # ''ResKind'' @ CHR 0x22 # '':0,'' @ CHR 0x22 # ''MessageId'' @ CHR 0x22 # '':''
           @ CHR 0x22 # ''SummonDataCreateResponse'' @ CHR 0x22 # concat (map ((#) CHR '','') members) @ ''}'')"

subsection \<open>What a search returns for a sign\<close>

definition CompactJsonValue :: "qt_functions \<Rightarrow> json \<Rightarrow> string" where
  "CompactJsonValue qt v =
     (let raw = qt_toJson qt [(''_'', v)] in
      if CHR '':'' \<notin> set raw then []
      else let colon = length (takeWhile (\<lambda>c. c \<noteq> CHR '':'') raw)
           in if length raw < colon + 2 \<or> last raw \<noteq> CHR ''}'' then []
              else take (length raw - colon - 2) (drop (colon + 1) raw))"

definition BuildRawMember :: "qt_functions \<Rightarrow> string \<Rightarrow> json \<Rightarrow> string" where
  "BuildRawMember qt key v =
     (let rawValue = CompactJsonValue qt v in
      if rawValue = [] then [] else CHR 0x22 # key @ CHR 0x22 # CHR '':'' # rawValue)"

definition spoofFields :: "string list" where
  "spoofFields = [''AreaId'', ''AreaRegionId'', ''ChannelId'', ''MatchingLevel'', ''PosX'', ''PosY'', ''PosZ'']"

definition ShouldSpoofAdvertisementField :: "string \<Rightarrow> bool" where
  "ShouldSpoofAdvertisementField key \<longleftrightarrow> key \<in> set spoofFields"

definition SummonDataWithAvailableResult :: "qt_functions \<Rightarrow> json_object \<Rightarrow> qstring option" where
  "SummonDataWithAvailableResult qt advertisement =
     (if Integer advertisement ''SummonDataVersion'' (- 1) \<noteq> 3 then None
      else let payload = qt_fromBase64 qt (jtoString (jvalue advertisement ''SummonData''))
           in if length payload \<noteq> 0xE0 \<or> payload ! 0x79 \<noteq> CHR 0x00 then None
              else Some (qt_toBase64 qt (payload[0x79 := CHR 0x01])))"

definition join_members :: "string list \<Rightarrow> string" where
  \<comment> \<open>\<open>appendMember\<close> of each: empty ones are skipped, commas go between\<close>
  "join_members ms =
     (case filter (\<lambda>m. m \<noteq> []) ms of [] \<Rightarrow> [] | m # ms' \<Rightarrow> m @ concat (map ((#) CHR '','') ms'))"

definition PrepareAdvertisementForSearch ::
  "qt_functions \<Rightarrow> string \<Rightarrow> json_object \<Rightarrow> json_object \<Rightarrow> bool \<Rightarrow> string" where
  "PrepareAdvertisementForSearch qt rawAdvertisement advertisement request spoofLocation =
     (let members = TopLevelMembers rawAdvertisement in
      if members = [] then rawAdvertisement
      else
        (let summonData = SummonDataWithAvailableResult qt advertisement;
             present = map (\<lambda>(key, raw).
               if key = ''SummonData'' \<and> summonData \<noteq> None
               then BuildRawMember qt key (JString (the summonData))
               else if spoofLocation \<and> ShouldSpoofAdvertisementField key \<and> \<not> jmissing (jvalue request key)
               then BuildRawMember qt key (jvalue request key)
               else raw) members;
             added = (if spoofLocation
               then map (\<lambda>key. BuildRawMember qt key (jvalue request key))
                      (filter (\<lambda>key. key \<notin> set (map fst members) \<and> \<not> jmissing (jvalue request key)) spoofFields)
               else [])
         in ''{'' @ join_members (present @ added) @ ''}''))"

subsection \<open>The broker\<close>

datatype State = Advertised | Preparing | Claimed | Delivered | Consumed
datatype ClaimStatus = ClaimClaimed | AlreadyClaimed | ClaimNotFound | Conflict

record Record =
  rc_state :: State
  rc_advertisement :: json_object
  rc_rawAdvertisement :: string
  rc_claim :: json_object
  rc_rawClaim :: string
  rc_hostPlacement :: string
  rc_preparationRequester :: int
  rc_updatedAtMs :: int

record SummonBroker =
  sb_ttlMs :: int
  sb_seamlessTtlMs :: int
  sb_seamlessCoop :: bool
  sb_seamlessAnywhereSummons :: bool
  sb_records :: "(qstring, Record) qhash"

record Options =
  op_ttlMs :: int
  op_seamlessTtlMs :: int
  op_seamlessCoop :: bool
  op_seamlessAnywhereSummons :: bool

definition Options_default :: Options where
  "Options_default = \<lparr>op_ttlMs = 130000, op_seamlessTtlMs = 15 * 60 * 1000, op_seamlessCoop = False,
     op_seamlessAnywhereSummons = False\<rparr>"

definition SummonBroker_new :: "Options \<Rightarrow> SummonBroker" where
  "SummonBroker_new options =
     (let ttl = max 1 (op_ttlMs options)
      in \<lparr>sb_ttlMs = ttl, sb_seamlessTtlMs = max ttl (op_seamlessTtlMs options),
          sb_seamlessCoop = op_seamlessCoop options,
          sb_seamlessAnywhereSummons = (op_seamlessAnywhereSummons options \<or> op_seamlessCoop options),
          sb_records = []\<rparr>)"

definition IsSeamlessActiveState :: "State \<Rightarrow> bool" where
  "IsSeamlessActiveState state \<longleftrightarrow> state \<in> {Preparing, Claimed, Delivered}"

definition expired :: "SummonBroker \<Rightarrow> int \<Rightarrow> Record \<Rightarrow> bool" where
  "expired b nowMs r \<longleftrightarrow>
     nowMs - rc_updatedAtMs r >
       (if sb_seamlessCoop b \<and> IsSeamlessActiveState (rc_state r) then sb_seamlessTtlMs b else sb_ttlMs b)"

definition PurgeExpiredLocked :: "int \<Rightarrow> SummonBroker \<Rightarrow> SummonBroker" where
  "PurgeExpiredLocked nowMs b = b\<lparr>sb_records := filter (\<lambda>(_, r). \<not> expired b nowMs r) (sb_records b)\<rparr>"

record AdvertiseResult =
  ar_state :: State
  ar_pendingClaim :: string
  ar_pendingHostPlacement :: string

definition Advertise ::
  "qt_functions \<Rightarrow> json_object \<Rightarrow> string \<Rightarrow> int \<Rightarrow> SummonBroker \<Rightarrow> AdvertiseResult \<times> SummonBroker" where
  "Advertise qt body rawBody nowMs b0 =
     (let b = PurgeExpiredLocked nowMs b0;
          key = advertisementKey body;
          put = (\<lambda>r. b\<lparr>sb_records := qinsert key r (sb_records b)\<rparr>);
          area = Integer body ''AreaId'' (- 1);
          away = (\<lambda>r. case HostPlacementMap qt (rc_hostPlacement r) of None \<Rightarrow> False | Some m \<Rightarrow> area \<noteq> m);
          fresh = \<lparr>rc_state = Advertised, rc_advertisement = body, rc_rawAdvertisement = rawBody,
                   rc_claim = [], rc_rawClaim = [], rc_hostPlacement = [],
                   rc_preparationRequester = - 1, rc_updatedAtMs = nowMs\<rparr>
      in case qfind (sb_records b) key of
           None \<Rightarrow> (\<lparr>ar_state = Advertised, ar_pendingClaim = [], ar_pendingHostPlacement = []\<rparr>, put fresh)
         | Some old \<Rightarrow>
             if rc_state old = Consumed
             then (\<lparr>ar_state = Advertised, ar_pendingClaim = [], ar_pendingHostPlacement = []\<rparr>, put fresh)
             else
               (let r = old\<lparr>rc_advertisement := body, rc_rawAdvertisement := rawBody, rc_updatedAtMs := nowMs\<rparr>
                in if rc_state r = Preparing \<and> away r
                   then (\<lparr>ar_state = Preparing, ar_pendingClaim = [],
                          ar_pendingHostPlacement = rc_hostPlacement r\<rparr>, put r)
                   else
                     (let r1 = (if rc_state r = Preparing
                                then r\<lparr>rc_state := Advertised, rc_preparationRequester := - 1\<rparr> else r)
                      in if rc_state r1 = Claimed \<and> sb_seamlessCoop b \<and> away r1
                         then (\<lparr>ar_state = Claimed, ar_pendingClaim = [],
                                ar_pendingHostPlacement = rc_hostPlacement r1\<rparr>, put r1)
                         else
                           (let r2 = (if rc_state r1 = Claimed then r1\<lparr>rc_state := Delivered\<rparr> else r1)
                            in if rc_state r2 = Delivered
                               then (\<lparr>ar_state = Delivered, ar_pendingClaim = rc_rawClaim r2,
                                      ar_pendingHostPlacement = rc_hostPlacement r2\<rparr>, put r2)
                               else (\<lparr>ar_state = rc_state r2, ar_pendingClaim = [],
                                      ar_pendingHostPlacement = []\<rparr>, put r2)))))"

definition searchRecord ::
  "qt_functions \<Rightarrow> SummonBroker \<Rightarrow> json_object \<Rightarrow> int \<Rightarrow> string \<Rightarrow> Record \<Rightarrow> Record \<times> (int \<times> string) option" where
  \<comment> \<open>the body of the loop over the records: the record afterwards and the candidate, if any\<close>
  "searchRecord qt b request nowMs hostPlacement r =
     (let requester = Integer request ''UserId'' (- 1);
          anywhereSummons = (sb_seamlessCoop b \<and> sb_seamlessAnywhereSummons b);
          hostMap = HostPlacementMap qt hostPlacement;
          matches = MatchesSearch request (rc_advertisement r) anywhereSummons;
          candidate = (rc_updatedAtMs r, PrepareAdvertisementForSearch qt (rc_rawAdvertisement r)
                         (rc_advertisement r) request anywhereSummons)
      in if rc_state r = Advertised \<and> matches
         then (if anywhereSummons \<and> requester \<ge> 0 \<and>
                  (case hostMap of None \<Rightarrow> False
                   | Some m \<Rightarrow> Integer (rc_advertisement r) ''AreaId'' (- 1) \<noteq> m)
               then (r\<lparr>rc_state := Preparing, rc_hostPlacement := hostPlacement,
                       rc_preparationRequester := requester, rc_updatedAtMs := nowMs\<rparr>, None)
               else (r, Some candidate))
         else if sb_seamlessCoop b \<and> IsSeamlessActiveState (rc_state r) \<and> requester \<ge> 0 \<and>
                 Integer (rc_claim r) ''UserId'' (- 2) = requester \<and> matches
         then (r, Some candidate)
         else (r, None))"

definition Search ::
  "qt_functions \<Rightarrow> json_object \<Rightarrow> int \<Rightarrow> string \<Rightarrow> SummonBroker \<Rightarrow> string list \<times> SummonBroker" where
  "Search qt request nowMs hostPlacement b0 =
     (let b = PurgeExpiredLocked nowMs b0;
          visited = map (\<lambda>(k, r). (k, searchRecord qt b request nowMs hostPlacement r)) (sb_records b);
          candidates = sort_key (\<lambda>c. - fst c) (List.map_filter (\<lambda>(k, v). snd v) visited);
          maxCount = max 0 (int_of_i32 (Integer request ''GetMaxCount'' 20))
      in (map snd (take (nat maxCount) candidates),
          b\<lparr>sb_records := map (\<lambda>(k, v). (k, fst v)) visited\<rparr>))"

subsection \<open>Claims\<close>

record ClaimResult =
  cr_status :: ClaimStatus
  cr_targetSessionId :: qstring
  cr_targetUserId :: int

definition newestOf :: "(qstring \<times> Record) list \<Rightarrow> (qstring \<times> Record) option" where
  \<comment> \<open>the first of the entries with the latest \<open>updatedAtMs\<close>\<close>
  "newestOf entries =
     foldl (\<lambda>target e. case target of
        None \<Rightarrow> Some e
      | Some t \<Rightarrow> if rc_updatedAtMs (snd e) > rc_updatedAtMs (snd t) then Some e else target) None entries"

definition claimTarget :: "json_object \<Rightarrow> (qstring, Record) qhash \<Rightarrow> (qstring \<times> Record) option" where
  "claimTarget request records =
     (let requestedSession = signSession request;
          targetChara = jvalue request ''TargetCharaId'';
          bySession = (if requestedSession = [] then None
             else List.find (\<lambda>(k, r). signSession (rc_advertisement r) = requestedSession) records)
      in case bySession of
           Some e \<Rightarrow> Some e
         | None \<Rightarrow>
             (case OptionalInteger request ''TargetUserId'' of
                None \<Rightarrow> None
              | Some targetUser \<Rightarrow>
                  newestOf (filter (\<lambda>(k, r). Integer (rc_advertisement r) ''UserId'' (- 1) = targetUser \<and>
                     \<not> (\<not> jmissing targetChara \<and> jvalue (rc_advertisement r) ''CharaId'' \<noteq> targetChara)) records)))"

definition MaxHostPlacementSize :: nat where "MaxHostPlacementSize = 128"

definition claimPlacement :: "SummonBroker \<Rightarrow> string \<Rightarrow> string" where
  "claimPlacement b hostPlacement =
     (if sb_seamlessCoop b \<and> hostPlacement \<noteq> [] \<and> length hostPlacement \<le> MaxHostPlacementSize \<and>
         CHR 0x0D \<notin> set hostPlacement \<and> CHR 0x0A \<notin> set hostPlacement
      then hostPlacement else [])"

definition Claim ::
  "json_object \<Rightarrow> string \<Rightarrow> int \<Rightarrow> string \<Rightarrow> SummonBroker \<Rightarrow> ClaimResult \<times> SummonBroker" where
  "Claim request rawRequest nowMs hostPlacement b0 =
     (let b = PurgeExpiredLocked nowMs b0;
          notFound = \<lparr>cr_status = ClaimNotFound, cr_targetSessionId = [], cr_targetUserId = - 1\<rparr>
      in case claimTarget request (sb_records b) of
           None \<Rightarrow> (notFound, b)
         | Some (key, target) \<Rightarrow>
             if rc_state target = Consumed then (notFound, b)
             else
               (let result = \<lparr>cr_status = ClaimNotFound,
                              cr_targetSessionId = signSession (rc_advertisement target),
                              cr_targetUserId = Integer (rc_advertisement target) ''UserId'' (- 1)\<rparr>;
                    taken = (rc_state target = Claimed \<or> rc_state target = Delivered);
                    previousRequester = Integer (rc_claim target) ''UserId'' (- 1);
                    requester = Integer request ''UserId'' (- 1)
                in if taken \<and> rc_claim target = request
                   then (result\<lparr>cr_status := AlreadyClaimed\<rparr>, b)
                   else if taken \<and> (\<not> sb_seamlessCoop b \<or> requester < 0 \<or> previousRequester \<noteq> requester)
                   then (result\<lparr>cr_status := Conflict\<rparr>, b)
                   else
                     (let target' = target\<lparr>rc_state := Claimed, rc_claim := request, rc_rawClaim := rawRequest,
                                           rc_hostPlacement := claimPlacement b hostPlacement, rc_updatedAtMs := nowMs\<rparr>
                      in (result\<lparr>cr_status := ClaimClaimed\<rparr>,
                          b\<lparr>sb_records := qinsert key target' (sb_records b)\<rparr>))))"

record ConsumeResult =
  cn_consumed :: nat
  cn_retained :: nat
  cn_pendingHostPlacement :: string

definition consumeMatches :: "json_object \<Rightarrow> Record \<Rightarrow> bool" where
  "consumeMatches request r \<longleftrightarrow>
     (signSession request = [] \<or> signSession (rc_advertisement r) = signSession request) \<and>
     (case OptionalInteger request ''UserId'' of None \<Rightarrow> True
      | Some u \<Rightarrow> Integer (rc_advertisement r) ''UserId'' (- 1) = u) \<and>
     rc_state r \<noteq> Consumed"

definition consumeRecord :: "SummonBroker \<Rightarrow> json_object \<Rightarrow> int \<Rightarrow> ConsumeResult \<Rightarrow> Record \<Rightarrow> ConsumeResult \<times> Record" where
  "consumeRecord b request nowMs res r =
     (if consumeMatches request r
      then (let r1 = r\<lparr>rc_updatedAtMs := nowMs\<rparr> in
        if sb_seamlessCoop b \<and> \<not> ForceConsumeRequested request \<and> IsSeamlessActiveState (rc_state r1)
        then (res\<lparr>cn_retained := Suc (cn_retained res),
                  cn_pendingHostPlacement := (if rc_hostPlacement r1 \<noteq> [] then rc_hostPlacement r1
                                              else cn_pendingHostPlacement res)\<rparr>, r1)
        else (res\<lparr>cn_consumed := Suc (cn_consumed res)\<rparr>, r1\<lparr>rc_state := Consumed\<rparr>))
      else (res, r))"

fun consumeAll :: "SummonBroker \<Rightarrow> json_object \<Rightarrow> int \<Rightarrow> ConsumeResult \<Rightarrow> (qstring, Record) qhash
    \<Rightarrow> ConsumeResult \<times> (qstring, Record) qhash" where
  "consumeAll b request nowMs res [] = (res, [])"
| "consumeAll b request nowMs res ((k, r) # es) =
     (let (res1, r1) = consumeRecord b request nowMs res r;
          (res2, es2) = consumeAll b request nowMs res1 es
      in (res2, (k, r1) # es2))"

definition ConsumeResult_default :: ConsumeResult where
  "ConsumeResult_default = \<lparr>cn_consumed = 0, cn_retained = 0, cn_pendingHostPlacement = []\<rparr>"

definition Consume :: "json_object \<Rightarrow> int \<Rightarrow> SummonBroker \<Rightarrow> ConsumeResult \<times> SummonBroker" where
  "Consume request nowMs b0 =
     (let b = PurgeExpiredLocked nowMs b0 in
      if signSession request = [] \<and> OptionalInteger request ''UserId'' = None
      then (ConsumeResult_default, b)
      else (let (res, rs) = consumeAll b request nowMs ConsumeResult_default (sb_records b)
            in (res, b\<lparr>sb_records := rs\<rparr>)))"

definition StateFor :: "qstring \<Rightarrow> int \<Rightarrow> int \<Rightarrow> SummonBroker \<Rightarrow> State option \<times> SummonBroker" where
  "StateFor sessionId userId nowMs b0 =
     (let b = PurgeExpiredLocked nowMs b0
      in (map_option rc_state (qfind (sb_records b) (RecordKey sessionId userId)), b))"

definition Size :: "int \<Rightarrow> SummonBroker \<Rightarrow> nat \<times> SummonBroker" where
  "Size nowMs b0 = (let b = PurgeExpiredLocked nowMs b0 in (length (sb_records b), b))"

definition requiredFields :: "qstring list" where
  "requiredFields = [''SessionId'', ''UserId'', ''AreaId'', ''AreaRegionId'', ''SummonData'',
     ''SummonDataVersion'', ''SummonType'', ''MatchingLevel'']"

definition HasRequiredAdvertisementFields :: "json_object \<Rightarrow> bool" where
  "HasRequiredAdvertisementFields body \<longleftrightarrow>
     list_all (\<lambda>key. jcontains body key \<and> jvalue body key \<noteq> JNull) requiredFields \<and>
     signSession body \<noteq> [] \<and> jtoString (jvalue body ''SummonData'') \<noteq> []"

subsection \<open>Runs of the broker\<close>

datatype broker_event =
    EvAdvertise json_object string int
  | EvSearch json_object int string
  | EvClaim json_object string int string
  | EvConsume json_object int

fun event_time :: "broker_event \<Rightarrow> int" where
  "event_time (EvAdvertise body raw t) = t"
| "event_time (EvSearch q t hp) = t"
| "event_time (EvClaim q raw t hp) = t"
| "event_time (EvConsume q t) = t"

fun broker_step :: "qt_functions \<Rightarrow> SummonBroker \<Rightarrow> broker_event \<Rightarrow> SummonBroker" where
  "broker_step qt b (EvAdvertise body raw t) = snd (Advertise qt body raw t b)"
| "broker_step qt b (EvSearch q t hp) = snd (Search qt q t hp b)"
| "broker_step qt b (EvClaim q raw t hp) = snd (Claim q raw t hp b)"
| "broker_step qt b (EvConsume q t) = snd (Consume q t b)"

definition record_ok :: "qt_functions \<Rightarrow> SummonBroker \<Rightarrow> qstring \<Rightarrow> Record \<Rightarrow> bool" where
  "record_ok qt b key r \<longleftrightarrow>
     key = advertisementKey (rc_advertisement r) \<and>
     (rc_state r = Preparing \<longrightarrow> sb_seamlessCoop b \<and> HostPlacementMap qt (rc_hostPlacement r) \<noteq> None \<and>
        0 \<le> rc_preparationRequester r) \<and>
     (\<not> sb_seamlessCoop b \<longrightarrow> rc_hostPlacement r = [])"

definition broker_ok :: "qt_functions \<Rightarrow> SummonBroker \<Rightarrow> bool" where
  [inv_defs]: "broker_ok qt b \<longleftrightarrow>
     0 < sb_ttlMs b \<and> sb_ttlMs b \<le> sb_seamlessTtlMs b \<and> qdistinct (sb_records b) \<and>
     (\<forall>(key, r) \<in> set (sb_records b). record_ok qt b key r)"

lemma broker_ok_new: "broker_ok qt (SummonBroker_new options)"
  by (simp add: broker_ok_def SummonBroker_new_def Let_def)

lemma qdistinct_filter: "qdistinct h \<Longrightarrow> qdistinct (filter P h)"
  by (simp add: qdistinct_def distinct_map_filter)

lemma Purge_frame [simp]:
  "sb_ttlMs (PurgeExpiredLocked t b) = sb_ttlMs b"
  "sb_seamlessTtlMs (PurgeExpiredLocked t b) = sb_seamlessTtlMs b"
  "sb_seamlessCoop (PurgeExpiredLocked t b) = sb_seamlessCoop b"
  "sb_seamlessAnywhereSummons (PurgeExpiredLocked t b) = sb_seamlessAnywhereSummons b"
  "expired (PurgeExpiredLocked t b) = expired b"
  "record_ok qt (PurgeExpiredLocked t b) = record_ok qt b"
  by (auto simp: PurgeExpiredLocked_def expired_def record_ok_def fun_eq_iff)

lemma set_Purge: "set (sb_records (PurgeExpiredLocked t b)) = {(k, r). (k, r) \<in> set (sb_records b) \<and> \<not> expired b t r}"
  by (auto simp: PurgeExpiredLocked_def)

lemma broker_ok_Purge: "broker_ok qt b \<Longrightarrow> broker_ok qt (PurgeExpiredLocked t b)"
  by (auto simp: broker_ok_def set_Purge) (simp add: PurgeExpiredLocked_def qdistinct_filter)

text \<open>The operations after the purge, and updates of the record table in place.\<close>

lemma broker_ok_put:
  assumes ok: "broker_ok qt b" and r: "record_ok qt b key r"
  shows "broker_ok qt (b\<lparr>sb_records := qinsert key r (sb_records b)\<rparr>)"
proof -
  have d: "qdistinct (sb_records b)" using ok by (simp add: broker_ok_def)
  have ro: "record_ok qt (b\<lparr>sb_records := x\<rparr>) = record_ok qt b" for x
    by (simp add: record_ok_def fun_eq_iff)
  show ?thesis
    using ok r by (auto simp: broker_ok_def ro set_qinsert [OF d])
qed

lemma broker_ok_mapped:
  assumes ok: "broker_ok qt b"
    and f: "\<And>k r. (k, r) \<in> set (sb_records b) \<Longrightarrow> record_ok qt b k r \<Longrightarrow> record_ok qt b k (f r)"
  shows "broker_ok qt (b\<lparr>sb_records := map (\<lambda>(k, r). (k, f r)) (sb_records b)\<rparr>)"
proof -
  have ro: "record_ok qt (b\<lparr>sb_records := x\<rparr>) = record_ok qt b" for x
    by (simp add: record_ok_def fun_eq_iff)
  have "map fst (map (\<lambda>(k, r). (k, f r)) h) = map fst h" for h :: "(qstring, Record) qhash"
    by (induction h) auto
  then have "qdistinct (map (\<lambda>(k, r). (k, f r)) (sb_records b))"
    using ok unfolding broker_ok_def qdistinct_def by metis
  with ok f show ?thesis by (auto simp: broker_ok_def ro)
qed

lemma broker_ok_find:
  "broker_ok qt b \<Longrightarrow> qfind (sb_records b) key = Some r \<Longrightarrow> record_ok qt b key r"
  by (auto simp: broker_ok_def dest: map_of_SomeD)

lemma broker_ok_Advertise: "broker_ok qt b \<Longrightarrow> broker_ok qt (snd (Advertise qt body raw t b))"
proof -
  assume "broker_ok qt b"
  then have ok: "broker_ok qt (PurgeExpiredLocked t b)" by (rule broker_ok_Purge)
  note old = broker_ok_find [OF ok]
  note put = broker_ok_put [OF ok]
  show ?thesis
    unfolding Advertise_def Let_def
    by (auto split: option.split intro!: put) (auto simp: record_ok_def dest!: old)
qed

lemma Search_records:
  "sb_records (snd (Search qt q t hp b)) =
     map (\<lambda>(k, r). (k, fst (searchRecord qt (PurgeExpiredLocked t b) q t hp r))) (sb_records (PurgeExpiredLocked t b))"
  by (simp add: Search_def Let_def comp_def split_def)

lemma Search_eq:
  "snd (Search qt q t hp b) = (PurgeExpiredLocked t b)\<lparr>sb_records :=
     map (\<lambda>(k, r). (k, fst (searchRecord qt (PurgeExpiredLocked t b) q t hp r))) (sb_records (PurgeExpiredLocked t b))\<rparr>"
  by (simp add: Search_def Let_def comp_def split_def)

lemma broker_ok_Search: "broker_ok qt b \<Longrightarrow> broker_ok qt (snd (Search qt q t hp b))"
  unfolding Search_eq
  by (rule broker_ok_mapped) (auto simp: broker_ok_Purge searchRecord_def Let_def record_ok_def split: option.splits)

lemma newestOf_in: "newestOf es = Some e \<Longrightarrow> e \<in> set es"
proof -
  have "foldl (\<lambda>target e. case target of None \<Rightarrow> Some e
      | Some t \<Rightarrow> if rc_updatedAtMs (snd e) > rc_updatedAtMs (snd t) then Some e else target) z es = Some e
      \<Longrightarrow> e \<in> set es \<or> z = Some e" for z
    by (induction es arbitrary: z) (fastforce split: option.splits if_splits)+
  then show "newestOf es = Some e \<Longrightarrow> e \<in> set es" by (auto simp: newestOf_def)
qed

lemma claimTarget_in: "claimTarget q rs = Some (k, r) \<Longrightarrow> (k, r) \<in> set rs"
  by (auto simp: claimTarget_def Let_def split: option.splits if_splits dest: newestOf_in find_SomeD)

lemma broker_ok_Claim: "broker_ok qt b \<Longrightarrow> broker_ok qt (snd (Claim q raw t hp b))"
proof -
  assume "broker_ok qt b"
  then have ok: "broker_ok qt (PurgeExpiredLocked t b)" by (rule broker_ok_Purge)
  have r: "record_ok qt b k r" if "claimTarget q (sb_records (PurgeExpiredLocked t b)) = Some (k, r)" for k r
    using ok claimTarget_in [OF that] by (auto simp: broker_ok_def)
  note put = broker_ok_put [OF ok]
  show ?thesis
    unfolding Claim_def Let_def
    by (auto simp: ok split: option.split intro!: put) (auto simp: record_ok_def claimPlacement_def dest!: r)
qed

lemma consumeAll_records:
  "snd (consumeAll b q t res es) = map (\<lambda>(k, r). (k, snd (consumeRecord b q t ConsumeResult_default r))) es"
proof (induction es arbitrary: res)
  case (Cons e es)
  have "snd (consumeRecord b q t res r) = snd (consumeRecord b q t ConsumeResult_default r)" for r
    by (simp add: consumeRecord_def Let_def)
  with Cons show ?case by (cases e) (simp add: Let_def split_def)
qed simp

lemma Consume_eq:
  "snd (Consume q t b) =
     (if signSession q = [] \<and> OptionalInteger q ''UserId'' = None then PurgeExpiredLocked t b
      else (PurgeExpiredLocked t b)\<lparr>sb_records :=
        map (\<lambda>(k, r). (k, snd (consumeRecord (PurgeExpiredLocked t b) q t ConsumeResult_default r)))
          (sb_records (PurgeExpiredLocked t b))\<rparr>)"
  by (simp add: Consume_def Let_def consumeAll_records split_def)

lemma broker_ok_Consume: "broker_ok qt b \<Longrightarrow> broker_ok qt (snd (Consume q t b))"
  unfolding Consume_eq
  by (auto intro!: broker_ok_mapped simp: broker_ok_Purge consumeRecord_def Let_def record_ok_def)

lemma broker_ok_step: "broker_ok qt b \<Longrightarrow> broker_ok qt (broker_step qt b e)"
  by (cases e) (simp_all add: broker_ok_Advertise broker_ok_Search broker_ok_Claim broker_ok_Consume)

interpretation broker: invariant_machine "broker_step qt" "\<lambda>_. True" "broker_ok qt" for qt
  by unfold_locales (rule broker_ok_step)

subsection \<open>Properties\<close>

text \<open>C7: In every reachable broker each record sits under the key of its own advertisement,
  no key twice; without seamless co-op no record is in preparation and none carries a host
  placement; and a record in preparation carries a placement that names a valid host map, and the
  requester it is prepared for. (A claim under seamless co-op stores the placement that came with it
  as it is, so a claimed record's placement need not name a map.)\<close>

theorem reachable_broker_ok:
  "broker_ok qt (foldl (broker_step qt) (SummonBroker_new options) es)"
  by (rule broker.run_inv [OF broker_ok_new]) (simp add: list_all_iff)

lemma digit_char_inj: "d < 10 \<Longrightarrow> d' < 10 \<Longrightarrow> digit_char d = digit_char d' \<longleftrightarrow> d = d'"
  by (auto simp: digit_char_def dest!: arg_cong [where f = of_char])

lemma digit_char_range: "d < 10 \<Longrightarrow> of_char (digit_char d) = 48 + d"
  by (simp add: digit_char_def)

lemma show_nat_nonempty: "show_nat n \<noteq> []"
  by (subst show_nat.simps) simp

lemma show_nat_inj: "show_nat n = show_nat m \<Longrightarrow> n = m"
proof (induction n arbitrary: m rule: show_nat.induct)
  case (1 n)
  show ?case
  proof (cases "n < 10")
    case True
    then have n: "show_nat n = [digit_char n]" by (simp add: show_nat.simps [of n])
    have "m < 10"
    proof (rule ccontr)
      assume "\<not> m < 10"
      then have "show_nat m = show_nat (m div 10) @ [digit_char (m mod 10)]" by (simp add: show_nat.simps [of m])
      with n 1(2) show_nat_nonempty [of "m div 10"] show False by simp
    qed
    with n 1(2) True show ?thesis by (simp add: show_nat.simps [of m] digit_char_inj)
  next
    case False
    then have n: "show_nat n = show_nat (n div 10) @ [digit_char (n mod 10)]" by (simp add: show_nat.simps [of n])
    have "\<not> m < 10"
    proof
      assume "m < 10"
      then have "show_nat m = [digit_char m]" by (simp add: show_nat.simps [of m])
      with n 1(2) show_nat_nonempty [of "n div 10"] show False by simp
    qed
    then have m: "show_nat m = show_nat (m div 10) @ [digit_char (m mod 10)]" by (simp add: show_nat.simps [of m])
    from 1(2) n m have "show_nat (n div 10) = show_nat (m div 10)" "digit_char (n mod 10) = digit_char (m mod 10)"
      by simp_all
    then have "n div 10 = m div 10" "n mod 10 = m mod 10"
      using 1(1) [OF False] by (simp_all add: digit_char_inj)
    then show ?thesis by (metis div_mult_mod_eq)
  qed
qed

lemma show_nat_chars: "c \<in> set (show_nat n) \<Longrightarrow> \<exists>d < 10. c = digit_char d"
proof (induction n rule: show_nat.induct)
  case (1 n)
  show ?case
  proof (cases "n < 10")
    case True
    with 1(2) show ?thesis by (auto simp: show_nat.simps [of n])
  next
    case False
    with 1(2) have "c \<in> set (show_nat (n div 10)) \<or> c = digit_char (n mod 10)"
      by (auto simp: show_nat.simps [of n])
    with 1(1) [OF False] show ?thesis
      by (metis mod_less_divisor zero_less_numeral)
  qed
qed

lemma special_not_digit:
  assumes "d < 10"
  shows "digit_char d \<noteq> CHR ''-''" and "digit_char d \<noteq> CHR '':''"
proof -
  have r: "of_char (digit_char d) = 48 + d" by (rule digit_char_range [OF assms])
  show "digit_char d \<noteq> CHR ''-''"
  proof
    assume "digit_char d = CHR ''-''"
    with r have "of_char (CHR ''-'') = 48 + d" by simp
    then show False by simp
  qed
  show "digit_char d \<noteq> CHR '':''"
  proof
    assume "digit_char d = CHR '':''"
    with r have "of_char (CHR '':'') = 48 + d" by simp
    with assms show False by simp
  qed
qed

lemma qstring_number_chars: "CHR '':'' \<notin> set (qstring_number i)"
proof -
  have "CHR '':'' \<notin> set (show_nat n)" for n
    using show_nat_chars [of "CHR '':''" n] special_not_digit(2) by metis
  then show ?thesis by (simp add: qstring_number_def)
qed

lemma sep_unique:
  "x \<notin> set xs \<Longrightarrow> x \<notin> set xs' \<Longrightarrow> xs @ x # ys = xs' @ x # ys' \<longleftrightarrow> xs = xs' \<and> ys = ys'"
proof (induction xs arbitrary: xs')
  case Nil
  then show ?case by (cases xs') auto
next
  case (Cons a xs)
  then show ?case by (cases xs') auto
qed

lemma qstring_number_inj: "qstring_number i = qstring_number j \<Longrightarrow> i = j"
proof -
  have h: "\<exists>d cs. show_nat n = digit_char d # cs \<and> d < 10" for n
    using show_nat_chars [of "hd (show_nat n)" n] show_nat_nonempty [of n]
    by (metis hd_in_set list.collapse)
  have minus: "show_nat n \<noteq> CHR ''-'' # cs" for n cs
    using h [of n] special_not_digit(1) by (metis list.inject)
  show "qstring_number i = qstring_number j \<Longrightarrow> i = j"
    using minus minus [symmetric] by (auto simp: qstring_number_def split: if_splits dest!: show_nat_inj)
qed

text \<open>A record key determines the session id and the user id, although session ids may
  contain the separator.\<close>

theorem RecordKey_injective:
  "RecordKey s u = RecordKey s' u' \<longleftrightarrow> s = s' \<and> u = u'"
proof
  assume "RecordKey s u = RecordKey s' u'"
  then have "rev (qstring_number u) @ CHR '':'' # rev s = rev (qstring_number u') @ CHR '':'' # rev s'"
    unfolding RecordKey_def by (metis append.assoc append_Cons append_Nil rev_append rev.simps(2) rev_rev_ident)
  then have "rev (qstring_number u) = rev (qstring_number u') \<and> rev s = rev s'"
    by (subst (asm) sep_unique) (simp_all add: qstring_number_chars)
  then show "s = s' \<and> u = u'" by (auto dest: qstring_number_inj)
qed simp


text \<open>C11: A claim is exclusive. Once a sign is claimed or delivered, no claim by another user
  (without seamless co-op, no other claim at all) changes its record, and one aimed at it is
  told that the sign is taken.\<close>

theorem claim_is_exclusive:
  assumes ok: "broker_ok qt b" and r: "qfind (sb_records (PurgeExpiredLocked t b)) key = Some r"
    and taken: "rc_state r = Claimed \<or> rc_state r = Delivered"
    and other: "\<not> sb_seamlessCoop b \<or> Integer (rc_claim r) ''UserId'' (- 1) \<noteq> Integer q ''UserId'' (- 1)"
  shows "qfind (sb_records (snd (Claim q raw t hp b))) key = Some r \<and>
    (\<forall>r'. claimTarget q (sb_records (PurgeExpiredLocked t b)) = Some (key, r') \<longrightarrow>
       cr_status (fst (Claim q raw t hp b)) = (if rc_claim r = q then AlreadyClaimed else Conflict))"
proof (cases "claimTarget q (sb_records (PurgeExpiredLocked t b))")
  case None
  then show ?thesis using r by (simp add: Claim_def Let_def)
next
  case (Some e)
  obtain k target where e: "e = (k, target)" by (cases e)
  have d: "qdistinct (sb_records (PurgeExpiredLocked t b))"
    using broker_ok_Purge [OF ok] by (simp add: broker_ok_def)
  show ?thesis
  proof (cases "k = key")
    case True
    then have "target = r"
      using claimTarget_in [of q _ k target] Some e r d by (metis qfind_in_set option.inject)
    with Some e True r taken other show ?thesis by (auto simp: Claim_def Let_def)
  next
    case False
    with Some e r show ?thesis by (auto simp: Claim_def Let_def qfind_qinsert)
  qed
qed

lemma claimPlacement_Purge [simp]: "claimPlacement (PurgeExpiredLocked t b) hp = claimPlacement b hp"
  by (simp add: claimPlacement_def)

lemma claim_stores:
  assumes ok: "broker_ok qt b" and claimed: "cr_status (fst (Claim q raw t hp b)) = ClaimClaimed"
  defines "c \<equiv> snd (Claim q raw t hp b)"
    and "key \<equiv> RecordKey (cr_targetSessionId (fst (Claim q raw t hp b))) (cr_targetUserId (fst (Claim q raw t hp b)))"
  shows "broker_ok qt c \<and> sb_seamlessCoop c = sb_seamlessCoop b \<and> sb_ttlMs c = sb_ttlMs b \<and>
    (\<exists>r. qfind (sb_records c) key = Some r \<and> rc_state r = Claimed \<and> rc_rawClaim r = raw \<and>
      rc_hostPlacement r = claimPlacement b hp \<and> rc_updatedAtMs r = t)"
proof -
  let ?b = "PurgeExpiredLocked t b"
  obtain k target where T: "claimTarget q (sb_records ?b) = Some (k, target)"
    using claimed by (auto simp: Claim_def Let_def split: option.splits)
  have "record_ok qt b k target"
    using broker_ok_Purge [OF ok, of t] claimTarget_in [OF T] by (auto simp: broker_ok_def)
  then have "k = advertisementKey (rc_advertisement target)" by (simp add: record_ok_def)
  then have "c = ?b\<lparr>sb_records := qinsert key (target\<lparr>rc_state := Claimed, rc_claim := q, rc_rawClaim := raw,
      rc_hostPlacement := claimPlacement b hp, rc_updatedAtMs := t\<rparr>) (sb_records ?b)\<rparr>"
    using claimed T by (auto simp: c_def key_def advertisementKey_def Claim_def Let_def split: if_splits)
  then show ?thesis
    using broker_ok_Claim [OF ok, of q raw t hp] by (auto simp: c_def [symmetric] qfind_qinsert)
qed

definition hostElsewhere :: "qt_functions \<Rightarrow> bool \<Rightarrow> string \<Rightarrow> json_object \<Rightarrow> bool" where
  \<comment> \<open>seamless co-op has placed the host in another area than the one its sign names\<close>
  "hostElsewhere qt seamless placement body \<longleftrightarrow>
     seamless \<and> (case HostPlacementMap qt placement of None \<Rightarrow> False | Some m \<Rightarrow> Integer body ''AreaId'' (- 1) \<noteq> m)"

lemma poll_claimed:
  assumes ok: "broker_ok qt c" and r: "qfind (sb_records c) (advertisementKey body) = Some r"
    and state: "rc_state r = Claimed \<or> rc_state r = Delivered" and life: "t - rc_updatedAtMs r \<le> sb_ttlMs c"
  defines "away \<equiv> rc_state r = Claimed \<and> hostElsewhere qt (sb_seamlessCoop c) (rc_hostPlacement r) body"
  shows "let p = Advertise qt body raw t c in
    fst p = \<lparr>ar_state = (if away then Claimed else Delivered), ar_pendingClaim = (if away then [] else rc_rawClaim r),
             ar_pendingHostPlacement = rc_hostPlacement r\<rparr> \<and>
    broker_ok qt (snd p) \<and> sb_seamlessCoop (snd p) = sb_seamlessCoop c \<and> sb_ttlMs (snd p) = sb_ttlMs c \<and>
    (\<exists>r'. qfind (sb_records (snd p)) (advertisementKey body) = Some r' \<and> rc_state r' = (if away then Claimed else Delivered) \<and>
      rc_rawClaim r' = rc_rawClaim r \<and> rc_hostPlacement r' = rc_hostPlacement r \<and> rc_updatedAtMs r' = t)"
proof -
  let ?p = "Advertise qt body raw t c"
  have "sb_ttlMs c \<le> sb_seamlessTtlMs c" using ok by (simp add: broker_ok_def)
  then have "\<not> expired c t r" using life by (auto simp: expired_def)
  then have "qfind (sb_records (PurgeExpiredLocked t c)) (advertisementKey body) = Some r"
    using ok r by (simp add: qfind_in_set PurgeExpiredLocked_def qdistinct_filter broker_ok_def)
  then have p: "?p = (\<lparr>ar_state = (if away then Claimed else Delivered), ar_pendingClaim = (if away then [] else rc_rawClaim r),
         ar_pendingHostPlacement = rc_hostPlacement r\<rparr>,
      (PurgeExpiredLocked t c)\<lparr>sb_records := qinsert (advertisementKey body)
         (r\<lparr>rc_advertisement := body, rc_rawAdvertisement := raw, rc_updatedAtMs := t,
            rc_state := (if away then Claimed else Delivered)\<rparr>)
         (sb_records (PurgeExpiredLocked t c))\<rparr>)"
    using state by (cases r) (auto simp: Advertise_def Let_def away_def hostElsewhere_def split: option.splits)
  then show ?thesis
    using broker_ok_Advertise [OF ok, of body raw t] by (auto simp: p Let_def qfind_qinsert)
qed

text \<open>C25: The claim reaches the advertiser. After a successful claim the advertiser's next poll within
  the lifetime of the record gets the claim text byte for byte and the state Delivered, and so does
  the poll after it - unless, under seamless co-op, the claim came with a valid host map and the poll
  names another area: then it is answered Claimed, with the placement and no text, and the claim
  waits for a poll from the right area.\<close>

theorem claim_is_delivered:
  assumes ok: "broker_ok qt b" and claimed: "cr_status (fst (Claim q raw t hp b)) = ClaimClaimed"
    and me1: "signSession body1 = cr_targetSessionId (fst (Claim q raw t hp b))"
      "Integer body1 ''UserId'' (- 1) = cr_targetUserId (fst (Claim q raw t hp b))"
    and me2: "signSession body2 = signSession body1"
      "Integer body2 ''UserId'' (- 1) = Integer body1 ''UserId'' (- 1)"
    and t1: "t1 - t \<le> sb_ttlMs b" and t2: "t2 - t1 \<le> sb_ttlMs b"
  shows "let poll1 = Advertise qt body1 raw1 t1 (snd (Claim q raw t hp b));
             poll2 = Advertise qt body2 raw2 t2 (snd poll1);
             placement = claimPlacement b hp;
             away1 = hostElsewhere qt (sb_seamlessCoop b) placement body1;
             away2 = away1 \<and> hostElsewhere qt (sb_seamlessCoop b) placement body2
    in fst poll1 = \<lparr>ar_state = (if away1 then Claimed else Delivered), ar_pendingClaim = (if away1 then [] else raw),
                   ar_pendingHostPlacement = placement\<rparr> \<and>
       fst poll2 = \<lparr>ar_state = (if away2 then Claimed else Delivered), ar_pendingClaim = (if away2 then [] else raw),
                   ar_pendingHostPlacement = placement\<rparr>"
proof -
  let ?c = "snd (Claim q raw t hp b)" and ?hp = "claimPlacement b hp"
  let ?key = "RecordKey (cr_targetSessionId (fst (Claim q raw t hp b))) (cr_targetUserId (fst (Claim q raw t hp b)))"
  let ?away1 = "hostElsewhere qt (sb_seamlessCoop b) ?hp body1"
  let ?p = "Advertise qt body1 raw1 t1 ?c"
  have k: "advertisementKey body1 = ?key" "advertisementKey body2 = ?key"
    using me1 me2 by (simp_all add: advertisementKey_def)
  from claim_stores [OF ok claimed] obtain r where c: "broker_ok qt ?c" "sb_seamlessCoop ?c = sb_seamlessCoop b"
      "sb_ttlMs ?c = sb_ttlMs b" and r: "qfind (sb_records ?c) ?key = Some r" "rc_state r = Claimed" "rc_rawClaim r = raw"
      "rc_hostPlacement r = ?hp" "rc_updatedAtMs r = t"
    by blast
  have "t1 - rc_updatedAtMs r \<le> sb_ttlMs ?c" using t1 c(3) r(5) by simp
  from poll_claimed [OF c(1), of body1 r t1 raw1] this obtain r' where
      p: "fst ?p = \<lparr>ar_state = (if ?away1 then Claimed else Delivered), ar_pendingClaim = (if ?away1 then [] else raw),
          ar_pendingHostPlacement = ?hp\<rparr>"
      "broker_ok qt (snd ?p)" "sb_seamlessCoop (snd ?p) = sb_seamlessCoop b" "sb_ttlMs (snd ?p) = sb_ttlMs b"
    and r': "qfind (sb_records (snd ?p)) ?key = Some r'" "rc_state r' = (if ?away1 then Claimed else Delivered)"
      "rc_rawClaim r' = raw" "rc_hostPlacement r' = ?hp" "rc_updatedAtMs r' = t1"
    using r c by (auto simp: k Let_def)
  have "t2 - rc_updatedAtMs r' \<le> sb_ttlMs (snd ?p)" using t2 p(4) r'(5) by simp
  with poll_claimed [OF p(2), of body2 r' t2 raw2] show ?thesis
    using r' p by (simp add: k Let_def)
qed

lemma Search_plain:
  assumes "\<not> sb_seamlessCoop b"
  shows "snd (Search qt q t hp b) = PurgeExpiredLocked t b"
    and "List.map_filter (\<lambda>(k, v). snd v) (map (\<lambda>(k, r). (k, searchRecord qt (PurgeExpiredLocked t b) q t hp r)) rs)
      = map (\<lambda>(k, r). (rc_updatedAtMs r, PrepareAdvertisementForSearch qt (rc_rawAdvertisement r) (rc_advertisement r) q False))
          (filter (\<lambda>(k, r). rc_state r = Advertised \<and> MatchesSearch q (rc_advertisement r) False) rs)"
proof -
  have s: "searchRecord qt (PurgeExpiredLocked t b) q t hp r = (r,
      if rc_state r = Advertised \<and> MatchesSearch q (rc_advertisement r) False
      then Some (rc_updatedAtMs r, PrepareAdvertisementForSearch qt (rc_rawAdvertisement r) (rc_advertisement r) q False)
      else None)" for r
    using assms by (simp add: searchRecord_def Let_def)
  have "map (\<lambda>(k, r). (k, r)) h = h" for h :: "(qstring, Record) qhash" by (induction h) auto
  then show "snd (Search qt q t hp b) = PurgeExpiredLocked t b"
    by (simp add: Search_eq s)
  show "List.map_filter (\<lambda>(k, v). snd v) (map (\<lambda>(k, r). (k, searchRecord qt (PurgeExpiredLocked t b) q t hp r)) rs)
      = map (\<lambda>(k, r). (rc_updatedAtMs r, PrepareAdvertisementForSearch qt (rc_rawAdvertisement r) (rc_advertisement r) q False))
          (filter (\<lambda>(k, r). rc_state r = Advertised \<and> MatchesSearch q (rc_advertisement r) False) rs)"
    unfolding s
  proof (induction rs)
    case (Cons e rs)
    obtain k r where e: "e = (k, r)" by (cases e)
    show ?case
      by (cases "rc_state r = Advertised \<and> MatchesSearch q (rc_advertisement r) False") (simp_all add: e Cons)
  qed simp
qed

text \<open>
  The comparison is the Euclidean one as long as the coordinates stay below \<open>2 ^ 30\<close>; beyond that
  the products wrap around: a sign \<open>2 ^ 32\<close> away counts as one at distance 0.
\<close>

lemma int_of_i64_small: "- (2 ^ 63) \<le> i \<Longrightarrow> i < 2 ^ 63 \<Longrightarrow> int_of_i64 i = i"
  by (simp add: int_of_i64_def sint_sbintrunc' signed_take_bit_int_eq_self)

lemma int_of_i64_sum3:
  assumes "0 \<le> x \<and> x \<le> 2 ^ 60" "0 \<le> y \<and> y \<le> 2 ^ 60" "0 \<le> z \<and> z \<le> 2 ^ 60"
  shows "int_of_i64 (int_of_i64 (int_of_i64 x + int_of_i64 y) + int_of_i64 z) = x + y + z"
  using assms by (simp add: int_of_i64_small)

lemma squaredDistance_exact:
  assumes near: "\<And>k. k \<in> {''PosX'', ''PosY'', ''PosZ''} \<Longrightarrow>
      \<bar>Integer request k 0\<bar> < 2 ^ 29 \<and> \<bar>Integer sign k 0\<bar> < 2 ^ 29"
  shows "squaredDistance request sign =
    (\<Sum>k \<leftarrow> [''PosX'', ''PosY'', ''PosZ'']. (Integer request k 0 - Integer sign k 0) ^ 2)"
proof -
  have d: "int_of_i64 (Integer request k 0 - Integer sign k 0) = Integer request k 0 - Integer sign k 0"
    "0 \<le> (Integer request k 0 - Integer sign k 0) ^ 2 \<and> (Integer request k 0 - Integer sign k 0) ^ 2 \<le> 2 ^ 60"
    if "k \<in> {''PosX'', ''PosY'', ''PosZ''}" for k
  proof -
    have "\<bar>Integer request k 0 - Integer sign k 0\<bar> \<le> 2 ^ 30" using near [OF that] by simp linarith
    then show "0 \<le> (Integer request k 0 - Integer sign k 0) ^ 2 \<and> (Integer request k 0 - Integer sign k 0) ^ 2 \<le> 2 ^ 60"
      using power_mono [of "\<bar>Integer request k 0 - Integer sign k 0\<bar>" "2 ^ 30" 2] by simp
    show "int_of_i64 (Integer request k 0 - Integer sign k 0) = Integer request k 0 - Integer sign k 0"
      using near [OF that] by (intro int_of_i64_small) (simp, linarith)+
  qed
  from int_of_i64_sum3 [OF d(2) [of "''PosX''"] d(2) [of "''PosY''"] d(2) [of "''PosZ''"]] show ?thesis
    by (simp add: squaredDistance_def Let_def d(1) power2_eq_square)
qed

lemma far_sign_matches:
  "MatchesSearch [(''DistanceThreshold'', JNum 1), (''PosX'', JNum 4294967296), (''PosY'', JNum 0),
      (''PosZ'', JNum 0), (''SessionId'', JString ''s2''), (''UserId'', JNum 8)]
    [(''PosX'', JNum 0), (''PosY'', JNum 0), (''PosZ'', JNum 0), (''SessionId'', JString ''s1''),
     (''UserId'', JNum 7)] False"
  by code_simp

text \<open>C37: Without seamless co-op a search only drops expired records from the broker. It returns
  the matching advertised signs that have not expired, most recently updated first, cut to the
  requested maximum, and never one of the searching user or of the searching session. Whether a sign
  matches is computed in 64-bit integers that wrap around, as the code does.\<close>

theorem search_results:
  assumes plain: "\<not> sb_seamlessCoop b"
  shows "let found = filter (\<lambda>(k, r). rc_state r = Advertised \<and> MatchesSearch q (rc_advertisement r) False)
                       (sb_records (PurgeExpiredLocked t b))
    in snd (Search qt q t hp b) = PurgeExpiredLocked t b \<and>
      (\<exists>order. mset order = mset found \<and> sorted_wrt (\<lambda>e f. rc_updatedAtMs (snd e) \<ge> rc_updatedAtMs (snd f)) order \<and>
         fst (Search qt q t hp b) = map (\<lambda>(k, r). PrepareAdvertisementForSearch qt (rc_rawAdvertisement r)
             (rc_advertisement r) q False) (take (nat (int_of_i32 (Integer q ''GetMaxCount'' 20))) order)) \<and>
      (\<forall>(k, r) \<in> set found. \<not> expired b t r \<and>
         Integer (rc_advertisement r) ''UserId'' (- 1) \<noteq> Integer q ''UserId'' (- 1) \<and>
         signSession (rc_advertisement r) \<noteq> signSession q)"
proof -
  let ?b = "PurgeExpiredLocked t b"
  let ?found = "filter (\<lambda>(k, r). rc_state r = Advertised \<and> MatchesSearch q (rc_advertisement r) False) (sb_records ?b)"
  let ?prep = "\<lambda>(k, r). PrepareAdvertisementForSearch qt (rc_rawAdvertisement r) (rc_advertisement r) q False"
  let ?order = "sort_key (\<lambda>e. - rc_updatedAtMs (snd e)) ?found"
  have pairs: "map (\<lambda>(k, r). (rc_updatedAtMs r, PrepareAdvertisementForSearch qt (rc_rawAdvertisement r) (rc_advertisement r) q False)) es
      = map (\<lambda>e. (rc_updatedAtMs (snd e), ?prep e)) es" for es
    by (simp add: split_def)
  have sorting: "sort_key (\<lambda>c. - fst c) (map (\<lambda>e. (rc_updatedAtMs (snd e), ?prep e)) es)
      = map (\<lambda>e. (rc_updatedAtMs (snd e), ?prep e)) (sort_key (\<lambda>e. - rc_updatedAtMs (snd e)) es)"
    for es :: "(qstring \<times> Record) list"
  proof (induction es)
    case (Cons e es)
    have "insort_key (\<lambda>c. - fst c) (rc_updatedAtMs (snd e), ?prep e) (map (\<lambda>e. (rc_updatedAtMs (snd e), ?prep e)) l)
        = map (\<lambda>e. (rc_updatedAtMs (snd e), ?prep e)) (insort_key (\<lambda>e. - rc_updatedAtMs (snd e)) e l)" for l
      by (induction l) auto
    with Cons show ?case by simp
  qed simp
  have "fst (Search qt q t hp b) = map snd (take (nat (int_of_i32 (Integer q ''GetMaxCount'' 20)))
      (sort_key (\<lambda>c. - fst c) (List.map_filter (\<lambda>(k, v). snd v)
        (map (\<lambda>(k, r). (k, searchRecord qt ?b q t hp r)) (sb_records ?b)))))"
    by (simp add: Search_def Let_def max_def)
  also have "\<dots> = map ?prep (take (nat (int_of_i32 (Integer q ''GetMaxCount'' 20))) ?order)"
    unfolding Search_plain(2) [OF plain] pairs sorting by (simp add: take_map comp_def)
  finally have "fst (Search qt q t hp b) =
      map ?prep (take (nat (int_of_i32 (Integer q ''GetMaxCount'' 20))) ?order)" .
  moreover have "sorted_wrt (\<lambda>e f. rc_updatedAtMs (snd e) \<ge> rc_updatedAtMs (snd f)) ?order"
    using sorted_sort_key [of "\<lambda>e. - rc_updatedAtMs (snd e)" ?found] by (simp add: sorted_map)
  moreover have "\<forall>(k, r) \<in> set ?found. \<not> expired b t r \<and>
         Integer (rc_advertisement r) ''UserId'' (- 1) \<noteq> Integer q ''UserId'' (- 1) \<and>
         signSession (rc_advertisement r) \<noteq> signSession q"
    by (auto simp: set_Purge MatchesSearch_def Let_def)
  moreover have "mset ?order = mset ?found" by simp
  ultimately show ?thesis
    unfolding Let_def using Search_plain(1) [OF plain] by blast
qed

text \<open>Which change of a record's state each operation may make.\<close>

fun may_change :: "bool \<Rightarrow> broker_event \<Rightarrow> State \<Rightarrow> State \<Rightarrow> bool" where
  "may_change seamless (EvAdvertise body raw t) s s' \<longleftrightarrow>
     (s, s') \<in> {(Preparing, Advertised), (Claimed, Delivered), (Consumed, Advertised)}"
| "may_change seamless (EvSearch q t hp) s s' \<longleftrightarrow> seamless \<and> (s, s') = (Advertised, Preparing)"
| "may_change seamless (EvClaim q raw t hp) s s' \<longleftrightarrow>
     s' = Claimed \<and> (s \<in> {Advertised, Preparing} \<or> seamless \<and> s \<in> {Claimed, Delivered})"
| "may_change seamless (EvConsume q t) s s' \<longleftrightarrow>
     s' = Consumed \<and> (s = Advertised \<or> \<not> seamless \<or> ForceConsumeRequested q)"

text \<open>C38: The life cycle of a sign. An operation leaves the state of a record that has not
  expired as it was, or changes it along an edge of the cycle: a poll delivers a claim, ends a
  preparation or renews a consumed sign; only a search starts a preparation, only a claim claims,
  and only consumption consumes - under seamless co-op not an active session unless forced.\<close>

theorem sign_life_cycle:
  assumes ok: "broker_ok qt b"
    and before: "qfind (sb_records (PurgeExpiredLocked (event_time e) b)) key = Some r"
    and after: "qfind (sb_records (broker_step qt b e)) key = Some r'"
  shows "rc_state r' = rc_state r \<or> may_change (sb_seamlessCoop b) e (rc_state r) (rc_state r')"
proof -
  have mapped: "qfind (map (\<lambda>(k, x). (k, f x)) h) k = map_option f (qfind h k)"
    for f :: "Record \<Rightarrow> Record" and h :: "(qstring, Record) qhash" and k
    by (induction h) auto
  show ?thesis
  proof (cases e)
    case (EvAdvertise body raw t)
    with before after show ?thesis
      by (auto simp: Advertise_def Let_def qfind_qinsert split: if_splits option.splits)
  next
    case (EvSearch q t hp)
    have "rc_state (fst (searchRecord qt (PurgeExpiredLocked t b) q t hp r)) = rc_state r \<or>
        sb_seamlessCoop b \<and> rc_state r = Advertised \<and>
        rc_state (fst (searchRecord qt (PurgeExpiredLocked t b) q t hp r)) = Preparing"
      by (simp add: searchRecord_def Let_def)
    with EvSearch before after show ?thesis by (auto simp: Search_records mapped)
  next
    case (EvClaim q raw t hp)
    let ?b = "PurgeExpiredLocked t b"
    have d: "qdistinct (sb_records ?b)" using broker_ok_Purge [OF ok] by (simp add: broker_ok_def)
    show ?thesis
    proof (cases "claimTarget q (sb_records ?b)")
      case None
      with EvClaim before after show ?thesis by (simp add: Claim_def Let_def)
    next
      case (Some kt)
      obtain k target where kt: "kt = (k, target)" by (cases kt)
      have "qfind (sb_records ?b) k = Some target"
        using claimTarget_in [of q _ k target] Some kt d by (simp add: qfind_in_set)
      with EvClaim before after Some kt show ?thesis
        by (cases "rc_state target") (auto simp: Claim_def Let_def qfind_qinsert split: if_splits)
    qed
  next
    case (EvConsume q t)
    have "rc_state (snd (consumeRecord (PurgeExpiredLocked t b) q t ConsumeResult_default r)) = rc_state r \<or>
        may_change (sb_seamlessCoop b) e (rc_state r)
          (rc_state (snd (consumeRecord (PurgeExpiredLocked t b) q t ConsumeResult_default r)))"
      unfolding EvConsume
      by (cases "rc_state r") (auto simp: consumeRecord_def consumeMatches_def IsSeamlessActiveState_def Let_def)
    with EvConsume before after show ?thesis by (auto simp: Consume_eq mapped split: if_splits)
  qed
qed

text \<open>No operation leaves or uses an expired record: after an operation at a time, every
  record was updated within its lifetime before that time.\<close>

theorem nothing_expired_remains:
  assumes ok: "broker_ok qt b"
  shows "\<forall>(key, r) \<in> set (sb_records (broker_step qt b e)). \<not> expired b (event_time e) r"
proof -
  have pos: "0 < sb_ttlMs b" "0 < sb_seamlessTtlMs b" using ok by (auto simp: broker_ok_def)
  have new: "\<not> expired b t r" if "rc_updatedAtMs r = t" for r t
    using pos that by (simp add: expired_def)
  have ttl: "sb_ttlMs b \<le> sb_seamlessTtlMs b" using ok by (simp add: broker_ok_def)
  have put: "\<forall>(key, r) \<in> set (qinsert k x (sb_records (PurgeExpiredLocked t b))). \<not> expired b t r"
    if "rc_updatedAtMs x = t" for k x t
  proof -
    have "qdistinct (sb_records (PurgeExpiredLocked t b))"
      using broker_ok_Purge [OF ok] by (simp add: broker_ok_def)
    then show ?thesis using new [OF that] by (auto simp: set_qinsert set_Purge)
  qed
  have purge: "\<forall>(key, r) \<in> set (sb_records (PurgeExpiredLocked t b)). \<not> expired b t r" for t
    by (auto simp: set_Purge)
  show ?thesis
  proof (cases e)
    case (EvAdvertise body raw t)
    then show ?thesis
      by (auto simp: Advertise_def Let_def split: option.split dest: put [rule_format, rotated])
  next
    case (EvSearch q t hp)
    have "fst (searchRecord qt (PurgeExpiredLocked t b) q t hp r) = r \<or>
        rc_updatedAtMs (fst (searchRecord qt (PurgeExpiredLocked t b) q t hp r)) = t" for r
      by (simp add: searchRecord_def Let_def)
    then have "\<not> expired b t (fst (searchRecord qt (PurgeExpiredLocked t b) q t hp r))" if "\<not> expired b t r" for r
      using that new by metis
    with EvSearch purge show ?thesis by (fastforce simp: Search_records)
  next
    case (EvClaim q raw t hp)
    then show ?thesis
      using purge by (auto simp: Claim_def Let_def split: option.split dest: put [rule_format, rotated])
  next
    case (EvConsume q t)
    have "snd (consumeRecord (PurgeExpiredLocked t b) q t ConsumeResult_default r) = r \<or>
        rc_updatedAtMs (snd (consumeRecord (PurgeExpiredLocked t b) q t ConsumeResult_default r)) = t" for r
      by (simp add: consumeRecord_def Let_def)
    then have "\<not> expired b t (snd (consumeRecord (PurgeExpiredLocked t b) q t ConsumeResult_default r))"
      if "\<not> expired b t r" for r
      using that new by metis
    with EvConsume purge [of t] show ?thesis
      by (auto simp: Consume_eq split: if_splits)
  qed
qed

subsection \<open>The scanner reads back what is written\<close>

definition render_member :: "string \<times> string \<Rightarrow> string" where
  "render_member = (\<lambda>(key, v). CHR 0x22 # key @ CHR 0x22 # CHR '':'' # v)"

definition render_object :: "(string \<times> string) list \<Rightarrow> string" where
  \<comment> \<open>a JSON object text without spaces between its tokens, from keys and value texts\<close>
  "render_object ms = ''{'' @ join_members (map render_member ms) @ ''}''"

definition member_text_ok :: "string \<times> string \<Rightarrow> bool" where
  \<comment> \<open>a key without quotes and backslashes, and a value text that ends where its brackets and
      strings are closed\<close>
  "member_text_ok = (\<lambda>(key, v). CHR 0x22 \<notin> set key \<and> CHR 0x5C \<notin> set key \<and> v \<noteq> [] \<and>
     \<not> is_sep_space (last v) \<and> scan_value False False 0 0 (v @ '','') = (v, '',''))"

lemma scan_value_rest:
  "scan_value s e od ad (v @ '','') = (v, '','') \<Longrightarrow>
     scan_value s e od ad (v @ CHR '','' # rest) = (v, CHR '','' # rest) \<and> scan_value s e od ad v = (v, [])"
proof (induction v arbitrary: s e od ad)
  case Nil
  then show ?case by (auto split: if_splits)
next
  case (Cons c v)
  have ap: "apfst ((#) c) p = (c # v, r) \<longleftrightarrow> p = (v, r)" for p :: "string \<times> string" and r
    by (cases p) auto
  show ?case
  proof (cases "\<not> s \<and> c = CHR '','' \<and> od = 0 \<and> ad = 0")
    case True
    with Cons.prems show ?thesis by simp
  next
    case False
    have step: "scan_value s e od ad (c # v @ z) = apfst ((#) c) (scan_value s' e' od' ad' (v @ z))"
      if "s' = (if s then \<not> (\<not> e \<and> c = CHR 0x22) else c = CHR 0x22)"
        "e' = (if s then \<not> e \<and> c = CHR 0x5C else if c = CHR 0x22 then False else e)"
        "od' = (if s then od else if c = CHR ''{'' then od + 1 else if c = CHR ''}'' then od - 1 else od)"
        "ad' = (if s then ad else if c = CHR ''['' then ad + 1 else if c = CHR '']'' then ad - 1 else ad)"
      for z s' e' od' ad'
      using False that by auto
    let ?s = "if s then \<not> (\<not> e \<and> c = CHR 0x22) else c = CHR 0x22"
    let ?e = "if s then \<not> e \<and> c = CHR 0x5C else if c = CHR 0x22 then False else e"
    let ?od = "if s then od else if c = CHR ''{'' then od + 1 else if c = CHR ''}'' then od - 1 else od"
    let ?ad = "if s then ad else if c = CHR ''['' then ad + 1 else if c = CHR '']'' then ad - 1 else ad"
    note st = step [OF refl refl refl refl]
    have "scan_value ?s ?e ?od ?ad (v @ '','') = (v, '','')"
      using Cons.prems unfolding append_Cons st [of "'',''"] ap .
    from Cons.IH [OF this] show ?thesis
      using st [of "CHR '','' # rest"] st [of "[]"] unfolding append_Cons append_Nil2 by simp
  qed
qed

lemma scan_key_plain:
  "CHR 0x22 \<notin> set k \<Longrightarrow> CHR 0x5C \<notin> set k \<Longrightarrow> scan_key False (k @ CHR 0x22 # z) = Some (k, CHR 0x22 # z)"
  by (induction k) auto

lemma render_member_ends:
  assumes "member_text_ok m"
  shows "render_member m \<noteq> []" "hd (render_member m) = CHR 0x22" "\<not> is_sep_space (last (render_member m))"
  using assms by (auto simp: render_member_def member_text_ok_def split: prod.splits)

lemma scan_member_render:
  assumes ok: "member_text_ok m" and rest: "rest = [] \<or> (\<exists>z. rest = CHR '','' # z)"
  shows "scan_member (render_member m @ rest) = Some ((fst m, render_member m), rest)"
proof -
  obtain k v where m: "m = (k, v)" by (cases m)
  have key: "CHR 0x22 \<notin> set k" "CHR 0x5C \<notin> set k" and v: "scan_value False False 0 0 (v @ '','') = (v, '','')"
    using ok by (auto simp: m member_text_ok_def)
  have sv: "scan_value False False 0 0 (v @ rest) = (v, rest)"
    using scan_value_rest [OF v] rest by auto
  have colon: "\<not> is_sep_space (CHR '':'')" by (simp add: is_sep_space_def)
  have t: "dropWhileEnd is_sep_space (render_member m) = render_member m"
    by (rule dropWhileEnd_id) (use render_member_ends [OF ok] in auto)
  have sk: "scan_key False (k @ CHR 0x22 # CHR '':'' # v @ rest) = Some (k, CHR 0x22 # CHR '':'' # v @ rest)"
    by (rule scan_key_plain) (use key in auto)
  have inp: "render_member m @ rest = CHR 0x22 # k @ CHR 0x22 # CHR '':'' # v @ rest"
    by (simp add: render_member_def m)
  have tk: "take (length (render_member m @ rest) - length rest) (render_member m @ rest) = render_member m"
    by simp
  have "scan_member (render_member m @ rest) =
      Some ((k, dropWhileEnd is_sep_space (take (length (render_member m @ rest) - length rest) (render_member m @ rest))), rest)"
    unfolding scan_member_def by (subst (1) inp) (simp add: sk colon sv del: length_append)
  then show ?thesis unfolding tk t by (simp add: m)
qed

lemma members_loop_cong:
  "dropWhile (\<lambda>c. c = CHR '','' \<or> is_sep_space c) inp = dropWhile (\<lambda>c. c = CHR '','' \<or> is_sep_space c) inp' \<Longrightarrow>
     members_loop inp = members_loop inp'"
  by (simp add: members_loop.simps [of inp] members_loop.simps [of inp'])

lemma members_loop_step:
  "dropWhile (\<lambda>c. c = CHR '','' \<or> is_sep_space c) inp = rest \<Longrightarrow> rest \<noteq> [] \<Longrightarrow> scan_member rest = Some (m, r) \<Longrightarrow>
     members_loop inp = map_option ((#) m) (members_loop r)"
  by (simp add: members_loop.simps [of inp])

lemma join_members_Cons:
  "x \<noteq> [] \<Longrightarrow> \<forall>y \<in> set xs. y \<noteq> [] \<Longrightarrow> join_members (x # xs) = x @ concat (map ((#) CHR '','') xs)"
  by (simp add: join_members_def filter_id_conv)

lemma members_loop_render:
  "list_all member_text_ok ms \<Longrightarrow>
     members_loop (concat (map (\<lambda>m. CHR '','' # render_member m) ms)) = Some (map (\<lambda>m. (fst m, render_member m)) ms)"
proof (induction ms)
  case Nil
  then show ?case by (simp add: members_loop.simps [of "[]"])
next
  case (Cons m ms)
  then have ok: "member_text_ok m" and oks: "list_all member_text_ok ms" by simp_all
  let ?rest = "concat (map (\<lambda>m. CHR '','' # render_member m) ms)"
  have rest: "?rest = [] \<or> (\<exists>z. ?rest = CHR '','' # z)" by (cases ms) auto
  obtain r where r: "render_member m = CHR 0x22 # r" by (cases m) (simp add: render_member_def)
  have "\<not> (CHR 0x22 = CHR '','' \<or> is_sep_space (CHR 0x22))" by (simp add: is_sep_space_def)
  then have d: "dropWhile (\<lambda>c. c = CHR '','' \<or> is_sep_space c) (CHR '','' # render_member m @ ?rest)
      = render_member m @ ?rest"
    by (simp add: r)
  have "members_loop (CHR '','' # render_member m @ ?rest) =
      map_option ((#) (fst m, render_member m)) (members_loop ?rest)"
    by (rule members_loop_step [OF d _ scan_member_render [OF ok rest]]) (simp add: r)
  then show ?case using Cons.IH [OF oks] by simp
qed

lemma members_loop_comma:
  "hd s = CHR 0x22 \<Longrightarrow> s \<noteq> [] \<Longrightarrow> members_loop (CHR '','' # s) = members_loop s"
  by (rule members_loop_cong) (simp add: is_sep_space_def)

lemma TopLevelMembers_object:
  assumes "list_all member_text_ok ms" and "ms \<noteq> []"
  shows "TopLevelMembers (render_object ms) = map (\<lambda>m. (fst m, render_member m)) ms"
proof -
  let ?body = "join_members (map render_member ms)"
  obtain m ms' where ms: "ms = m # ms'" using assms(2) by (cases ms) auto
  have ne: "\<forall>m \<in> set ms. render_member m \<noteq> []" using assms(1) render_member_ends by (auto simp: list_all_iff)
  have body: "?body = render_member m @ concat (map (\<lambda>m. CHR '','' # render_member m) ms')"
    using ne by (simp add: ms join_members_Cons comp_def)
  have hd: "hd ?body = CHR 0x22" "?body \<noteq> []"
    using body render_member_ends [of m] assms(1) ms by auto
  have "concat (map (\<lambda>m. CHR '','' # render_member m) ms) = CHR '','' # ?body"
    unfolding body by (simp add: ms)
  then have loop: "members_loop ?body = Some (map (\<lambda>m. (fst m, render_member m)) ms)"
    using members_loop_render [OF assms(1)] members_loop_comma [OF hd] by simp
  have "\<not> is_space (CHR ''{'')" "\<not> is_space (CHR ''}'')" by (simp_all add: is_space_def)
  then have t: "trimmed (render_object ms) = render_object ms"
    by (simp add: trimmed_def render_object_def dropWhileEnd_def)
  show ?thesis
    using loop hd by (simp add: TopLevelMembers_def t) (simp add: render_object_def Let_def)
qed

text \<open>The member scanner inverts writing an object: from the text of any non-empty list of
  keys and value texts (whatever commas, braces, brackets and escaped quotes the values hold) it
  recovers the keys and the members' text byte for byte, in order.\<close>

theorem TopLevelMembers_roundtrip:
  assumes "list_all member_text_ok ms" and "ms \<noteq> []"
  shows "TopLevelMembers (render_object ms) = map (\<lambda>m. (fst m, render_member m)) ms"
  by (rule TopLevelMembers_object [OF assms])

text \<open>What the advertiser receives for a claim is the claim with its envelope replaced: the
  members of the response are the fixed ResKind and MessageId, then every other member of the
  claim byte for byte, in order, so 64-bit ids are not rounded.\<close>

theorem claim_response_members:
  assumes ok: "list_all member_text_ok ms"
    and some: "\<exists>m \<in> set ms. fst m \<noteq> ''MessageId'' \<and> fst m \<noteq> ''ResKind''"
  shows "TopLevelMembers (BuildClaimDeliveryResponse (render_object ms)) =
    [(''ResKind'', render_member (''ResKind'', ''0'')),
     (''MessageId'', render_member (''MessageId'', CHR 0x22 # ''SummonDataCreateResponse'' @ [CHR 0x22]))] @
    map (\<lambda>m. (fst m, render_member m)) (filter (\<lambda>m. fst m \<noteq> ''MessageId'' \<and> fst m \<noteq> ''ResKind'') ms)"
proof -
  let ?rest = "filter (\<lambda>m. fst m \<noteq> ''MessageId'' \<and> fst m \<noteq> ''ResKind'') ms"
  let ?m1 = "(''ResKind'', ''0'')" and ?m2 = "(''MessageId'', CHR 0x22 # ''SummonDataCreateResponse'' @ [CHR 0x22])"
  have ne: "ms \<noteq> []" using some by auto
  have "filter (\<lambda>m. fst m \<noteq> ''MessageId'' \<and> fst m \<noteq> ''ResKind'') (map (\<lambda>m. (fst m, render_member m)) ms)
      = map (\<lambda>m. (fst m, render_member m)) ?rest"
    by (induction ms) auto
  then have env: "TopLevelMembersExceptEnvelope (render_object ms) = map render_member ?rest"
    by (simp add: TopLevelMembersExceptEnvelope_def TopLevelMembers_object [OF ok ne] comp_def)
  have rne: "?rest \<noteq> []" using some by (auto simp: filter_empty_conv)
  have okr: "list_all member_text_ok ?rest" using ok by (auto simp: list_all_iff)
  have nonempty: "\<forall>m \<in> set ?rest. render_member m \<noteq> []"
    using okr render_member_ends by (auto simp: list_all_iff)
  have "BuildClaimDeliveryResponse (render_object ms) = render_object (?m1 # ?m2 # ?rest)"
    unfolding BuildClaimDeliveryResponse_def env Let_def unfolding render_object_def list.map
    using rne nonempty by (subst join_members_Cons) (auto simp: render_member_def comp_def)
  moreover have "member_text_ok ?m1" "member_text_ok ?m2"
    by (simp_all add: member_text_ok_def is_sep_space_def)
  ultimately show ?thesis
    using TopLevelMembers_object [of "?m1 # ?m2 # ?rest"] okr by simp
qed

subsection \<open>A concrete broker\<close>

text \<open>
  One sign of user 7, a rival's claim and the owner's polls, with concrete functions in the place
  of Qt's: decimal numbers for the JSON writer and plain text for Base64.
\<close>

definition example_qt :: qt_functions where
  "example_qt = \<lparr>qt_toJson = (\<lambda>obj. ''{'' @ concat (map (\<lambda>(k, v). CHR 0x22 # k @ CHR 0x22 # '':'' @
       (case v of JNum n \<Rightarrow> qstring_number n | _ \<Rightarrow> ''null'')) obj) @ ''}''),
     qt_fromBase64 = (\<lambda>s. s), qt_toBase64 = (\<lambda>s. s), qt_toULongLong16 = (\<lambda>s. Some (length s))\<rparr>"

definition example_sign :: json_object where
  "example_sign = [(''AreaId'', JNum 3), (''SessionId'', JString ''s1''), (''UserId'', JNum 7)]"

definition example_sign_text :: string where
  "example_sign_text = render_object [(''SessionId'', CHR 0x22 # ''s1'' @ [CHR 0x22]), (''UserId'', ''7'')]"

definition example_broker :: SummonBroker where
  "example_broker = snd (Advertise example_qt example_sign example_sign_text 1000 (SummonBroker_new Options_default))"

definition example_claim :: json_object where
  "example_claim = [(''SessionId'', JString ''s1''), (''UserId'', JNum 8)]"

definition example_claimed :: SummonBroker where
  "example_claimed = snd (Claim example_claim ''{claim}'' 2000 [] example_broker)"

lemma example_broker_ok: "broker_ok example_qt example_broker" "broker_ok example_qt example_claimed"
  unfolding example_claimed_def example_broker_def
  by (auto intro!: broker_ok_Claim broker_ok_Advertise broker_ok_new)

lemma claim_is_exclusive_witness:
  "let c = snd (Claim [(''SessionId'', JString ''s1''), (''UserId'', JNum 9)] ''{other}'' 3000 [] example_claimed)
   in map_option rc_state (qfind (sb_records c) (advertisementKey example_sign)) = Some Claimed \<and>
      cr_status (fst (Claim [(''SessionId'', JString ''s1''), (''UserId'', JNum 9)] ''{other}'' 3000 [] example_claimed))
        = Conflict"
proof -
  let ?q = "[(''SessionId'', JString ''s1''), (''UserId'', JNum 9)]"
  let ?r = "the (qfind (sb_records example_claimed) (advertisementKey example_sign))"
  have "qfind (sb_records (snd (Claim ?q ''{other}'' 3000 [] example_claimed))) (advertisementKey example_sign) = Some ?r \<and>
    (\<forall>r'. claimTarget ?q (sb_records (PurgeExpiredLocked 3000 example_claimed)) = Some (advertisementKey example_sign, r') \<longrightarrow>
       cr_status (fst (Claim ?q ''{other}'' 3000 [] example_claimed)) = (if rc_claim ?r = ?q then AlreadyClaimed else Conflict))"
  proof (rule claim_is_exclusive)
    show "broker_ok example_qt example_claimed" by (rule example_broker_ok)
  qed code_simp+
  moreover have "\<exists>r'. claimTarget ?q (sb_records (PurgeExpiredLocked 3000 example_claimed)) = Some (advertisementKey example_sign, r')"
    "rc_state ?r = Claimed" "rc_claim ?r \<noteq> ?q"
    by (rule exI [of _ ?r]) code_simp+
  ultimately show ?thesis by auto
qed

lemma claim_is_delivered_witness:
  "let poll1 = Advertise example_qt example_sign [] 4000 example_claimed;
       poll2 = Advertise example_qt example_sign [] 90000 (snd poll1)
   in fst poll1 = \<lparr>ar_state = Delivered, ar_pendingClaim = ''{claim}'', ar_pendingHostPlacement = []\<rparr> \<and>
      fst poll2 = \<lparr>ar_state = Delivered, ar_pendingClaim = ''{claim}'', ar_pendingHostPlacement = []\<rparr>"
proof -
  have here: "\<not> hostElsewhere example_qt (sb_seamlessCoop example_broker) p body" for p body
    by (simp add: hostElsewhere_def) code_simp
  have "claimPlacement example_broker [] = []" by (simp add: claimPlacement_def)
  moreover have "cr_status (fst (Claim example_claim ''{claim}'' 2000 [] example_broker)) = ClaimClaimed"
    "signSession example_sign = cr_targetSessionId (fst (Claim example_claim ''{claim}'' 2000 [] example_broker))"
    "Integer example_sign ''UserId'' (- 1) = cr_targetUserId (fst (Claim example_claim ''{claim}'' 2000 [] example_broker))"
    "4000 - 2000 \<le> sb_ttlMs example_broker" "90000 - 4000 \<le> sb_ttlMs example_broker"
    by code_simp+
  ultimately show ?thesis
    using claim_is_delivered [OF example_broker_ok(1), of example_claim "''{claim}''" 2000 "[]" example_sign
        example_sign 4000 90000 "[]" "[]"] here
    by (simp add: example_claimed_def Let_def)
qed

lemma search_results_witness:
  "snd (Search example_qt [(''UserId'', JNum 8)] 3000 [] example_broker) = PurgeExpiredLocked 3000 example_broker \<and>
   length (fst (Search example_qt [(''UserId'', JNum 8)] 3000 [] example_broker)) = 1"
proof -
  have "\<not> sb_seamlessCoop example_broker" by code_simp
  from search_results [OF this, of "[(''UserId'', JNum 8)]" 3000 example_qt "[]"]
  have "snd (Search example_qt [(''UserId'', JNum 8)] 3000 [] example_broker) = PurgeExpiredLocked 3000 example_broker"
    by (simp add: Let_def)
  moreover have "length (fst (Search example_qt [(''UserId'', JNum 8)] 3000 [] example_broker)) = 1" by code_simp
  ultimately show ?thesis ..
qed

lemma sign_life_cycle_witness:
  "may_change False (EvClaim example_claim ''{claim}'' 2000 []) Advertised Claimed"
proof -
  let ?e = "EvClaim example_claim ''{claim}'' 2000 []" and ?k = "advertisementKey example_sign"
  let ?r = "the (qfind (sb_records example_broker) ?k)" and ?r' = "the (qfind (sb_records example_claimed) ?k)"
  have "rc_state ?r' = rc_state ?r \<or> may_change (sb_seamlessCoop example_broker) ?e (rc_state ?r) (rc_state ?r')"
  proof (rule sign_life_cycle)
    show "broker_ok example_qt example_broker" by (rule example_broker_ok)
    show "qfind (sb_records (PurgeExpiredLocked (event_time ?e) example_broker)) ?k = Some ?r" by code_simp
    show "qfind (sb_records (broker_step example_qt example_broker ?e)) ?k = Some ?r'" by code_simp
  qed
  moreover have "rc_state ?r = Advertised" "rc_state ?r' = Claimed" "\<not> sb_seamlessCoop example_broker" by code_simp+
  ultimately show ?thesis by simp
qed

lemma nothing_expired_remains_witness:
  "list_all (\<lambda>(key, r). \<not> expired example_broker 5000 r)
     (sb_records (broker_step example_qt example_broker (EvConsume example_claim 5000)))"
  using nothing_expired_remains [OF example_broker_ok(1), of "EvConsume example_claim 5000"]
  by (simp add: list_all_iff)

lemma TopLevelMembers_roundtrip_witness:
  "TopLevelMembers example_sign_text =
     map (\<lambda>m. (fst m, render_member m)) [(''SessionId'', CHR 0x22 # ''s1'' @ [CHR 0x22]), (''UserId'', ''7'')]"
  unfolding example_sign_text_def by (rule TopLevelMembers_roundtrip) code_simp+

lemma claim_response_members_witness:
  "map fst (TopLevelMembers (BuildClaimDeliveryResponse
     (render_object [(''MessageId'', CHR 0x22 # ''X'' @ [CHR 0x22]), (''UserId'', ''18446744073709551615'')])))
   = [''ResKind'', ''MessageId'', ''UserId'']"
proof -
  let ?ms = "[(''MessageId'', CHR 0x22 # ''X'' @ [CHR 0x22]), (''UserId'', ''18446744073709551615'')]"
  have "list_all member_text_ok ?ms" by code_simp
  from claim_response_members [OF this] show ?thesis by simp
qed

end
