(* ===== verification/BrokerRoutes.thy ===== *)
theory BrokerRoutes
  imports Broker
begin

text \<open>
  The HTTP routes around the summon broker (\<open>src/webapi_routes_bloodborne.cpp\<close>). Qt's JSON reader
  is an argument.
\<close>

subsection \<open>Requests and responses\<close>

record summon_request =
  sq_body :: string
  sq_placement :: string              \<comment> \<open>the host placement header, empty when missing\<close>
  sq_now :: int

datatype summon_response =
    SummonResponse qstring string     \<comment> \<open>message id and the host placement header, empty when missing\<close>
  | RawJsonResponse string string     \<comment> \<open>body and host placement header\<close>
  | SummonListResponse "string list"
  | InvalidRequest

definition SummonList_body :: "string list \<Rightarrow> string" where
  "SummonList_body signs =
     ''{'' @ CHR 0x22 # ''SummonDataList'' @ CHR 0x22 # '':['' @
     (case signs of [] \<Rightarrow> [] | s # ss \<Rightarrow> s @ concat (map ((#) CHR '','') ss)) @
     ''],'' @ CHR 0x22 # ''ResKind'' @ CHR 0x22 # '':0,'' @ CHR 0x22 # ''MessageId'' @ CHR 0x22 # '':'' @
     CHR 0x22 # ''SummonDataGetListResponse'' @ CHR 0x22 # ''}''"

definition seamlessOptions :: "bool \<Rightarrow> bool \<Rightarrow> Options" where
  \<comment> \<open>the configuration's setting or the environment's\<close>
  "seamlessOptions config env = Options_default\<lparr>op_seamlessCoop := config \<or> env\<rparr>"

type_synonym summon_result = "summon_response \<times> SummonBroker"

definition HandleSummonCreate ::
  "qt_functions \<Rightarrow> (string \<Rightarrow> json_object option) \<Rightarrow> summon_request \<Rightarrow> SummonBroker \<Rightarrow> summon_result" where
  "HandleSummonCreate qt fromJson req b =
     (case fromJson (sq_body req) of
        None \<Rightarrow> (InvalidRequest, b)
      | Some body \<Rightarrow>
        if \<not> HasRequiredAdvertisementFields body then (InvalidRequest, b)
        else
          (let (result, b') = Advertise qt body (sq_body req) (sq_now req) b;
               response = BuildClaimDeliveryResponse (ar_pendingClaim result)
           in if ar_pendingClaim result \<noteq> []
              then (if response = [] then InvalidRequest
                    else RawJsonResponse response (ar_pendingHostPlacement result), b')
              else (SummonResponse ''SummonDataCreateResponse'' (ar_pendingHostPlacement result), b')))"

definition HandleSummonGet ::
  "qt_functions \<Rightarrow> (string \<Rightarrow> json_object option) \<Rightarrow> summon_request \<Rightarrow> SummonBroker \<Rightarrow> summon_result" where
  "HandleSummonGet qt fromJson req b =
     (case fromJson (sq_body req) of
        None \<Rightarrow> (InvalidRequest, b)
      | Some body \<Rightarrow> (let (signs, b') = Search qt body (sq_now req) (sq_placement req) b in (SummonListResponse signs, b')))"

definition HandleSummonDelete ::
  "(string \<Rightarrow> json_object option) \<Rightarrow> summon_request \<Rightarrow> SummonBroker \<Rightarrow> summon_result" where
  "HandleSummonDelete fromJson req b =
     (case fromJson (sq_body req) of
        None \<Rightarrow> (InvalidRequest, b)
      | Some body \<Rightarrow> (let (result, b') = Consume body (sq_now req) b
                      in (SummonResponse ''SummonDataRemoveResponse'' (cn_pendingHostPlacement result), b')))"

definition HandleSummonRequest ::
  "(string \<Rightarrow> json_object option) \<Rightarrow> summon_request \<Rightarrow> SummonBroker \<Rightarrow> summon_result" where
  \<comment> \<open>the answer does not tell whether the claim succeeded\<close>
  "HandleSummonRequest fromJson req b =
     (case fromJson (sq_body req) of
        None \<Rightarrow> (InvalidRequest, b)
      | Some body \<Rightarrow> (let (result, b') = Claim body (sq_body req) (sq_now req) (sq_placement req) b
                      in (SummonResponse ''SummonDataSummonResponse'' [], b')))"

subsection \<open>A claim over HTTP\<close>

text \<open>C30: A claim posted by one player reaches the other. After a claim request that the broker accepts,
  whose text is a compact JSON object (no blanks between its tokens, no escapes in its keys), the next
  create request for the claimed sign within the record's lifetime is answered with the claim: a JSON
  object whose members are a fixed ResKind and MessageId and then every other member of the claim's
  text byte for byte, in order, together with the host placement that came with the claim. When
  seamless co-op has placed the host in another area than the one the request names, the answer is
  the plain one, with the placement and without the claim.\<close>

theorem summon_claim_over_http:
  assumes ok: "broker_ok qt b"
    and written: "sq_body claim = render_object ms" "list_all member_text_ok ms"
      "\<exists>m \<in> set ms. fst m \<noteq> ''MessageId'' \<and> fst m \<noteq> ''ResKind''"
    and q: "fromJson (sq_body claim) = Some q"
    and claimed: "cr_status (fst (Claim q (sq_body claim) (sq_now claim) (sq_placement claim) b)) = ClaimClaimed"
    and poll: "fromJson (sq_body poll) = Some body" "HasRequiredAdvertisementFields body"
      "signSession body = cr_targetSessionId (fst (Claim q (sq_body claim) (sq_now claim) (sq_placement claim) b))"
      "Integer body ''UserId'' (- 1) = cr_targetUserId (fst (Claim q (sq_body claim) (sq_now claim) (sq_placement claim) b))"
    and life: "sq_now poll - sq_now claim \<le> sb_ttlMs b"
  shows "let placement = claimPlacement b (sq_placement claim);
             reply = fst (HandleSummonCreate qt fromJson poll (snd (HandleSummonRequest fromJson claim b)))
    in if hostElsewhere qt (sb_seamlessCoop b) placement body
       then reply = SummonResponse ''SummonDataCreateResponse'' placement
       else \<exists>answer. reply = RawJsonResponse answer placement \<and>
         TopLevelMembers answer =
           [(''ResKind'', render_member (''ResKind'', ''0'')),
            (''MessageId'', render_member (''MessageId'', CHR 0x22 # ''SummonDataCreateResponse'' @ [CHR 0x22]))] @
           map (\<lambda>m. (fst m, render_member m)) (filter (\<lambda>m. fst m \<noteq> ''MessageId'' \<and> fst m \<noteq> ''ResKind'') ms)"
proof -
  let ?hp = "claimPlacement b (sq_placement claim)"
  let ?away = "hostElsewhere qt (sb_seamlessCoop b) ?hp body"
  let ?c = "snd (Claim q (sq_body claim) (sq_now claim) (sq_placement claim) b)"
  have c: "snd (HandleSummonRequest fromJson claim b) = ?c"
    by (simp add: HandleSummonRequest_def q case_prod_unfold)
  from claim_stores [OF ok claimed] obtain r where stored: "broker_ok qt ?c" "sb_seamlessCoop ?c = sb_seamlessCoop b"
      "sb_ttlMs ?c = sb_ttlMs b" "qfind (sb_records ?c) (advertisementKey body) = Some r" "rc_state r = Claimed"
      "rc_rawClaim r = sq_body claim" "rc_hostPlacement r = ?hp" "rc_updatedAtMs r = sq_now claim"
    using poll(3,4) by (auto simp: advertisementKey_def)
  then have polled: "fst (Advertise qt body (sq_body poll) (sq_now poll) ?c) =
      \<lparr>ar_state = (if ?away then Claimed else Delivered), ar_pendingClaim = (if ?away then [] else render_object ms),
        ar_pendingHostPlacement = ?hp\<rparr>"
    using poll_claimed [of qt ?c body r "sq_now poll" "sq_body poll"] life written(1) by (simp add: Let_def)
  let ?answer = "BuildClaimDeliveryResponse (render_object ms)"
  note members = claim_response_members [OF written(2,3)]
  have "TopLevelMembers [] = []" by code_simp
  with members have "?answer \<noteq> []" by auto
  moreover have "render_object ms \<noteq> []" by (simp add: render_object_def)
  ultimately have "fst (HandleSummonCreate qt fromJson poll ?c) =
      (if ?away then SummonResponse ''SummonDataCreateResponse'' ?hp else RawJsonResponse ?answer ?hp)"
    using polled poll(1,2) by (simp add: HandleSummonCreate_def case_prod_unfold Let_def)
  with members show ?thesis by (simp add: c Let_def)
qed

subsection \<open>An example\<close>

definition example_claim_members :: "(string \<times> string) list" where
  "example_claim_members = [(''SessionId'', CHR 0x22 # ''s1'' @ [CHR 0x22]), (''UserId'', ''8'')]"

definition example_full_sign :: json_object where
  "example_full_sign = [(''AreaId'', JNum 3), (''AreaRegionId'', JNum 0), (''MatchingLevel'', JNum 1), (''SessionId'', JString ''s1''),
     (''SummonData'', JString ''x''), (''SummonDataVersion'', JNum 3), (''SummonType'', JNum 0), (''UserId'', JNum 7)]"

definition example_reader :: "string \<Rightarrow> json_object option" where
  "example_reader s = (if s = render_object example_claim_members then Some example_claim
     else if s = ''{sign}'' then Some example_full_sign else None)"

definition example_claim_request :: summon_request where
  "example_claim_request = \<lparr>sq_body = render_object example_claim_members, sq_placement = [], sq_now = 2000\<rparr>"

definition example_poll :: summon_request where
  "example_poll = \<lparr>sq_body = ''{sign}'', sq_placement = [], sq_now = 9000\<rparr>"

lemma summon_claim_over_http_witness:
  "\<exists>answer. fst (HandleSummonCreate example_qt example_reader example_poll
      (snd (HandleSummonRequest example_reader example_claim_request example_broker))) = RawJsonResponse answer []"
proof -
  have fromJson_ok: "example_reader (sq_body example_claim_request) = Some example_claim"
    "example_reader (sq_body example_poll) = Some example_full_sign" "HasRequiredAdvertisementFields example_full_sign"
    by code_simp+
  have c: "\<not> sb_seamlessCoop example_broker" "sq_body example_claim_request = render_object example_claim_members"
    "list_all member_text_ok example_claim_members" "fst (hd example_claim_members) = ''SessionId''" "example_claim_members \<noteq> []"
    "cr_status (fst (Claim example_claim (sq_body example_claim_request) (sq_now example_claim_request)
       (sq_placement example_claim_request) example_broker)) = ClaimClaimed"
    "signSession example_full_sign = cr_targetSessionId (fst (Claim example_claim (sq_body example_claim_request)
       (sq_now example_claim_request) (sq_placement example_claim_request) example_broker))"
    "Integer example_full_sign ''UserId'' (- 1) = cr_targetUserId (fst (Claim example_claim (sq_body example_claim_request)
       (sq_now example_claim_request) (sq_placement example_claim_request) example_broker))"
    "sq_now example_poll - sq_now example_claim_request \<le> sb_ttlMs example_broker"
    by code_simp+
  have m: "\<exists>m \<in> set example_claim_members. fst m \<noteq> ''MessageId'' \<and> fst m \<noteq> ''ResKind''"
    by (rule bexI [of _ "hd example_claim_members"]) (use c(4,5) in simp_all)
  have "claimPlacement example_broker (sq_placement example_claim_request) = []"
    using c(1) by (simp add: claimPlacement_def)
  then show ?thesis
    using summon_claim_over_http [OF example_broker_ok(1) c(2,3) m fromJson_ok(1) c(6) fromJson_ok(2,3) c(7-9)] c(1)
    by (auto simp: hostElsewhere_def Let_def)
qed

end
