(* ===== verification/Stream.thy ===== *)
theory Stream
  imports Prelude
begin

text \<open>
  The byte layer of the protocol: \<open>src/stream_extractor.h\<close> (the cursor a command reads its
  payload with, and the packet builders) and the codes of \<open>src/protocol.h\<close>.
  A read that C++ leaves undefined (a signed overflow, or a copy past the end of the buffer) is
  the result \<open>None\<close>; a read the class itself refuses sets its error flag.
\<close>

subsection \<open>Little-endian integers\<close>

definition toLe :: "nat \<Rightarrow> 'a::len word \<Rightarrow> bytes" where
  "toLe n v = map (\<lambda>i. ucast (drop_bit (8 * i) v AND 0xFF)) [0..<n]"

definition appendU16LE :: "bytes \<Rightarrow> u16 \<Rightarrow> bytes" where
  "appendU16LE buf v = buf @ [ucast (v AND 0xFF), ucast (drop_bit 8 v AND 0xFF)]"

definition appendU32LE :: "bytes \<Rightarrow> u32 \<Rightarrow> bytes" where
  "appendU32LE buf v = buf @ [ucast (v AND 0xFF), ucast (drop_bit 8 v AND 0xFF),
     ucast (drop_bit 16 v AND 0xFF), ucast (drop_bit 24 v AND 0xFF)]"

definition appendU64LE :: "bytes \<Rightarrow> u64 \<Rightarrow> bytes" where
  "appendU64LE buf v = buf @ toLe 8 v"

definition appendBlob :: "bytes \<Rightarrow> bytes \<Rightarrow> bytes" where
  "appendBlob buf blob = appendU32LE buf (word_of_nat (length blob)) @ blob"

definition fixPacketSize :: "bytes \<Rightarrow> bytes" where
  "fixPacketSize buf = (let sz = word_of_nat (length buf) :: u32 in
     buf[3 := ucast (sz AND 0xFF), 4 := ucast (drop_bit 8 sz AND 0xFF),
         5 := ucast (drop_bit 16 sz AND 0xFF), 6 := ucast (drop_bit 24 sz AND 0xFF)])"

fun fromLe :: "bytes \<Rightarrow> 'a::len word" where
  \<comment> \<open>\<open>result |= (T)byte[i] << (8 * i)\<close> for each byte in turn\<close>
  "fromLe [] = 0"
| "fromLe (b # bs) = ucast b OR push_bit 8 (fromLe bs)"

lemma bit_fromLe:
  "bit (fromLe bs :: 'a::len word) k \<longleftrightarrow>
     k < LENGTH('a) \<and> k div 8 < length bs \<and> bit (bs ! (k div 8)) (k mod 8)"
proof (induction bs arbitrary: k)
  case Nil
  then show ?case by simp
next
  case (Cons b bs)
  show ?case
  proof (cases "k < 8")
    case True
    then show ?thesis by (auto simp: bit_simps)
  next
    case False
    then have "k div 8 = Suc ((k - 8) div 8)" and "k mod 8 = (k - 8) mod 8"
      by (simp_all add: le_div_geq le_mod_geq)
    moreover have "\<not> bit b k"
      using False by (auto dest: bit_imp_le_length)
    ultimately show ?thesis
      using False Cons.IH [of "k - 8"] by (auto simp: bit_simps)
  qed
qed

lemma length_toLe [simp]: "length (toLe n v) = n"
  by (simp add: toLe_def)

lemma byte_mask: "(0xFF :: 'a::len word) = mask 8"
  by (simp add: mask_eq_exp_minus_1)

lemma fromLe_toLe:
  "LENGTH('a::len) \<le> 8 * n \<Longrightarrow> fromLe (toLe n (v :: 'a word)) = v"
  by (rule bit_word_eqI) (auto simp: bit_fromLe toLe_def byte_mask bit_simps)

lemma upt_4: "[0..<4] = [0, 1, 2, 3 :: nat]" and upt_2: "[0..<2] = [0, 1 :: nat]"
  by (simp_all add: upt_conv_Cons numeral_eq_Suc)

lemma appendU16LE_eq: "appendU16LE buf v = buf @ toLe 2 v"
  by (simp add: appendU16LE_def toLe_def upt_2)

lemma appendU32LE_eq: "appendU32LE buf v = buf @ toLe 4 v"
  by (simp add: appendU32LE_def toLe_def upt_4)

lemmas append_eqs = appendU16LE_eq appendU32LE_eq appendU64LE_def

lemma length_appendBlob [simp]: "length (appendBlob buf b) = length buf + 4 + length b"
  by (simp add: appendBlob_def appendU32LE_eq)

subsection \<open>The cursor\<close>

record stream =
  m_data :: bytes
  m_pos :: int
  m_error :: bool

definition StreamExtractor :: "bytes \<Rightarrow> stream" where
  "StreamExtractor d = \<lparr>m_data = d, m_pos = 0, m_error = False\<rparr>"

definition m_size :: "stream \<Rightarrow> int" where
  "m_size s = int (length (m_data s))"

definition slice :: "stream \<Rightarrow> nat \<Rightarrow> bytes" where
  \<comment> \<open>the \<open>n\<close> bytes at the cursor\<close>
  "slice s n = take n (drop (nat (m_pos s)) (m_data s))"

definition stream_ok :: "stream \<Rightarrow> bool" where
  "stream_ok s \<longleftrightarrow> 0 \<le> m_pos s \<and> m_pos s \<le> m_size s"

definition get :: "stream \<Rightarrow> 'a::len word \<times> stream" where
  "get s = (let n = LENGTH('a) div 8 in
     if m_pos s + int n > m_size s then (0, s\<lparr>m_error := True\<rparr>)
     else (fromLe (slice s n), s\<lparr>m_pos := m_pos s + int n\<rparr>))"

definition getString :: "bool \<Rightarrow> stream \<Rightarrow> qstring \<times> stream" where
  "getString emptyOk s =
     (let rest = drop (nat (m_pos s)) (m_data s);
          txt = takeWhile (\<lambda>b. b \<noteq> 0) rest;
          p = m_pos s + int (length txt);
          str = map (\<lambda>b. char_of (unat b)) txt
      in if p \<ge> m_size s then ([], s\<lparr>m_pos := p, m_error := True\<rparr>)
         else (str, s\<lparr>m_pos := p + 1,
                      m_error := m_error s \<or> (\<not> emptyOk \<and> str = [])\<rparr>))"

definition getBytes :: "int \<Rightarrow> stream \<Rightarrow> bytes \<times> stream" where
  "getBytes n s =
     (if m_pos s + n > m_size s then ([], s\<lparr>m_error := True\<rparr>)
      else (slice s (nat n), s\<lparr>m_pos := m_pos s + n\<rparr>))"

definition peekBytes :: "int \<Rightarrow> stream \<Rightarrow> bytes" where
  "peekBytes n s = (if m_pos s + n > m_size s then [] else slice s (nat n))"

text \<open>
  \<open>getRawData\<close> checks \<open>m_pos + (int)size > m_data.size()\<close> and then copies
  \<open>size\<close> bytes, read as unsigned. The check is in 32-bit signed arithmetic: the sum may
  overflow, and a size with its top bit set is negative there, so that the check passes and the
  copy leaves the buffer. Both are \<open>None\<close>.
\<close>

definition getRawData :: "stream \<Rightarrow> (bytes \<times> stream) option" where
  "getRawData s =
     (let (size, s1) = get s :: u32 \<times> stream
      in if m_error s1 then Some ([], s1)
         else if m_pos s1 + sint size \<ge> 2 ^ 31 then None
         else if m_pos s1 + sint size > m_size s1 then Some ([], s1\<lparr>m_error := True\<rparr>)
         else if m_pos s1 + uint size > m_size s1 then None
         else Some (slice s1 (unat size), s1\<lparr>m_pos := m_pos s1 + uint size\<rparr>))"

definition decodeProto :: "(bytes \<Rightarrow> 'm option) \<Rightarrow> stream \<Rightarrow> ('m option \<times> stream) option" where
  \<comment> \<open>\<open>parse\<close> is protobuf's \<open>ParseFromArray\<close>, which is not part of the repository\<close>
  "decodeProto parse s =
     (case getRawData s of
        None \<Rightarrow> None
      | Some (blob, s1) \<Rightarrow> Some (if m_error s1 then None else parse blob, s1))"

definition appendProto :: "('m \<Rightarrow> bytes) \<Rightarrow> bytes \<Rightarrow> 'm \<Rightarrow> bytes" where
  "appendProto ser buf msg = appendBlob buf (ser msg)"


subsection \<open>Reads stay inside the buffer\<close>

lemma length_slice: "stream_ok s \<Longrightarrow> m_pos s + int n \<le> m_size s \<Longrightarrow> length (slice s n) = n"
  by (auto simp: slice_def m_size_def stream_ok_def)

lemma m_data_get [simp]: "m_data (snd (get s)) = m_data s"
  by (simp add: get_def Let_def)

lemma stream_ok_get: "stream_ok s \<Longrightarrow> stream_ok (snd (get s :: 'a::len word \<times> stream))"
  by (auto simp: get_def stream_ok_def m_size_def Let_def)

lemma stream_ok_getBytes: "0 \<le> n \<Longrightarrow> stream_ok s \<Longrightarrow> stream_ok (snd (getBytes n s))"
  by (auto simp: getBytes_def stream_ok_def m_size_def)

lemma getRawData_cases:
  assumes "getRawData s = Some (b, s')" and "\<not> m_error s'"
  obtains size :: u32 and s1 where "get s = (size, s1)" and "\<not> m_error s1"
    and "m_pos s1 + uint size \<le> m_size s1" and "b = slice s1 (unat size)"
    and "s' = s1\<lparr>m_pos := m_pos s1 + uint size\<rparr>"
proof -
  obtain size :: u32 and s1 where g: "get s = (size, s1)" by (cases "get s :: u32 \<times> stream")
  from assms g show thesis
    by (intro that [OF g]) (auto simp: getRawData_def split: if_splits)
qed

lemma sint_u32: "sint (w :: u32) = (if uint w < 2 ^ 31 then uint w else uint w - 2 ^ 32)"
proof -
  have b: "0 \<le> uint w" "uint w < 2 ^ 32"
    using uint_lt2p [of w] by simp_all
  have "bit (uint w) 31 \<longleftrightarrow> \<not> uint w < 2 ^ 31"
  proof (cases "uint w < 2 ^ 31")
    case True
    with b(1) have "uint w div 2 ^ 31 = 0" by simp
    with True show ?thesis by (simp add: bit_iff_odd)
  next
    case False
    with b have "uint w div 2 ^ 31 = 1" by (simp add: div_pos_geq)
    with False show ?thesis by (simp add: bit_iff_odd)
  qed
  then show ?thesis
    using b by (simp add: sint_uint signed_take_bit_eq_take_bit_minus take_bit_int_eq_self)
qed

subsection \<open>Length-prefixed blobs\<close>

text \<open>
  Reading back what \<open>appendBlob\<close> wrote, at any position of a buffer short of
  \<open>2 ^ 31\<close> bytes (a packet has at most \<open>MAX_PACKET_SIZE\<close>, 8 MiB).
\<close>

lemma slice_append:
  "m_data s = pre @ bs @ post \<Longrightarrow> m_pos s = int (length pre) \<Longrightarrow> slice s (length bs) = bs"
  by (simp add: slice_def)

lemma get_toLe:
  assumes d: "m_data s = pre @ toLe (LENGTH('a) div 8) v @ post"
    and p: "m_pos s = int (length pre)" and w: "8 dvd LENGTH('a)"
  shows "get s = (v :: 'a::len word, s\<lparr>m_pos := m_pos s + int (LENGTH('a) div 8)\<rparr>)"
proof -
  have "slice s (LENGTH('a) div 8) = toLe (LENGTH('a) div 8) v"
    using slice_append [OF d p] by simp
  moreover have "m_pos s + int (LENGTH('a) div 8) \<le> m_size s"
    using d p by (simp add: m_size_def)
  ultimately show ?thesis
    using w by (simp add: get_def fromLe_toLe)
qed

lemma getRawData_appendBlob:
  assumes d: "m_data s = pre @ appendBlob [] b @ post" and p: "m_pos s = int (length pre)"
    and e: "\<not> m_error s" and small: "m_size s < 2 ^ 31"
  shows "getRawData s = Some (b, s\<lparr>m_pos := m_pos s + 4 + int (length b)\<rparr>)"
proof -
  let ?sz = "word_of_nat (length b) :: u32"
  have d': "m_data s = pre @ toLe 4 ?sz @ b @ post"
    using d by (simp add: appendBlob_def appendU32LE_eq)
  have len: "int (length pre) + 4 + int (length b) \<le> m_size s"
    using d' by (simp add: m_size_def)
  with small have lb: "int (length b) < 2 ^ 31" by linarith
  have u: "uint ?sz = int (length b)"
    by (rule uint_of_nat_small) (use lb in simp)
  have n: "unat ?sz = length b"
    by (rule unat_of_nat_small) (use lb in simp)
  have g: "get s = (?sz, s\<lparr>m_pos := m_pos s + 4\<rparr>)"
    using get_toLe [where 'a = 32, of s pre ?sz "b @ post"] d' p by simp
  have sl: "slice (s\<lparr>m_pos := int (length pre) + 4\<rparr>) (length b) = b"
    by (rule slice_append [where pre = "pre @ toLe 4 ?sz" and post = post]) (use d' p in simp_all)
  have sz: "m_size (s\<lparr>m_pos := x\<rparr>) = m_size s" for x by (simp add: m_size_def)
  show ?thesis
    using e lb len small p by (simp add: getRawData_def g sint_u32 u n sl sz)
qed

lemma getRawData_None_iff:
  assumes ok: "stream_ok s" and e: "\<not> m_error s" and four: "m_pos s + 4 \<le> m_size s"
    and small: "m_size s < 2 ^ 31"
  shows "getRawData s = None \<longleftrightarrow> m_pos s + 4 + uint (fst (get s :: u32 \<times> stream)) \<ge> 2 ^ 31"
proof -
  let ?sz = "fst (get s :: u32 \<times> stream)"
  have g: "get s = (?sz, s\<lparr>m_pos := m_pos s + 4\<rparr>)"
    using four by (simp add: get_def)
  have b: "0 \<le> uint ?sz" "uint ?sz < 2 ^ 32" using uint_lt2p [of ?sz] by simp_all
  have sz: "m_size (s\<lparr>m_pos := x\<rparr>) = m_size s" for x by (simp add: m_size_def)
  show ?thesis
    using ok e four small b unfolding getRawData_def stream_ok_def
    by (subst g) (auto simp: Let_def sint_u32 sz)
qed

subsection \<open>Properties\<close>

text \<open>A message that \<open>appendProto\<close> wrote is what \<open>decodeProto\<close> reads, with
  the cursor at the end and no error, for every encoding that protobuf itself decodes.\<close>

theorem proto_roundtrip:
  assumes "parse (ser m) = Some m" and "length (ser m) < 2 ^ 31 - 4"
  shows "decodeProto parse (StreamExtractor (appendProto ser [] m)) =
    Some (Some m, \<lparr>m_data = appendProto ser [] m, m_pos = int (length (appendProto ser [] m)), m_error = False\<rparr>)"
proof -
  let ?s = "StreamExtractor (appendProto ser [] m)"
  have "getRawData ?s = Some (ser m, ?s\<lparr>m_pos := m_pos ?s + 4 + int (length (ser m))\<rparr>)"
    by (rule getRawData_appendBlob [of _ "[]" _ "[]"])
      (use assms(2) in \<open>simp_all add: StreamExtractor_def appendProto_def m_size_def\<close>)
  then show ?thesis
    using assms(1) by (simp add: decodeProto_def StreamExtractor_def appendProto_def)
qed

lemma proto_roundtrip_witness:
  "decodeProto Some (StreamExtractor (appendProto (\<lambda>b. b) [] [1, 2])) =
    Some (Some [1, 2], \<lparr>m_data = [2, 0, 0, 0, 1, 2], m_pos = 6, m_error = False\<rparr>)"
  using proto_roundtrip [of Some "\<lambda>b. b" "[1, 2]"]
  by (simp add: appendProto_def appendBlob_def appendU32LE_def)

text \<open>Reading a length-prefixed blob from the front of a payload is undefined behaviour in
  C++ (signed overflow, or a copy past the buffer) for exactly the payloads whose length field,
  with the 4 bytes it takes, reaches 2^31; every smaller field is checked against the
  buffer.\<close>

theorem raw_data_undefined_iff:
  assumes "length d < 2 ^ 31"
  shows "getRawData (StreamExtractor d) = None \<longleftrightarrow>
    4 \<le> length d \<and> 4 + uint (fromLe (take 4 d) :: u32) \<ge> 2 ^ 31"
proof (cases "4 \<le> length d")
  case True
  let ?s = "StreamExtractor d"
  have p: "m_pos ?s = 0" "\<not> m_error ?s" "m_size ?s = int (length d)" "stream_ok ?s"
    by (simp_all add: StreamExtractor_def m_size_def stream_ok_def)
  have f: "fst (get ?s :: u32 \<times> stream) = fromLe (take 4 d)"
    using True by (simp add: get_def StreamExtractor_def m_size_def slice_def)
  show ?thesis
    using getRawData_None_iff [of ?s] True assms p by (simp only: f) simp
next
  case False
  then have "getRawData (StreamExtractor d) \<noteq> None"
    by (simp add: getRawData_def get_def StreamExtractor_def m_size_def)
  with False show ?thesis by simp
qed

lemma raw_data_undefined_iff_witness: "getRawData (StreamExtractor [255, 255, 255, 255]) = None"
proof -
  have "uint (fromLe [255, 255, 255, 255] :: u32) = 2 ^ 32 - 1" by code_simp
  then show ?thesis using raw_data_undefined_iff [of "[255, 255, 255, 255]"] by simp
qed

end
