(* ===== verification/ScoreBoard.thy ===== *)
theory ScoreBoard
  imports Stream "HOL-Library.Product_Lexorder"
begin

text \<open>
  The score cache of \<open>src/score_cache.cpp\<close>: per game and board the best entries, best
  first, with an index from user and character to the position. The times of inserts are
  arguments; \<open>std::lower_bound\<close> is the binary search it is.
\<close>

subsection \<open>State\<close>

record ScoreBoardConfig =
  sb_rankLimit :: u32
  sb_updateMode :: u32      \<comment> \<open>0: keep the best, otherwise the last\<close>
  sb_sortMode :: u32        \<comment> \<open>0: higher is better\<close>
  sb_uploadNumLimit :: u32
  sb_uploadSizeLimit :: u64

definition ScoreBoardConfig_default :: ScoreBoardConfig where
  "ScoreBoardConfig_default = \<lparr>sb_rankLimit = 100, sb_updateMode = 0, sb_sortMode = 0,
     sb_uploadNumLimit = 10, sb_uploadSizeLimit = 6000000\<rparr>"

record ScoreEntry =
  se_userId :: userid
  se_characterId :: int
  se_score :: int
  se_comment :: qstring
  se_gameInfo :: bytes
  se_dataId :: "u64 option"
  se_timestamp :: u64
  se_npid :: qstring

datatype ScoreCacheError = CacheNotFound | CacheInvalid | CacheHasData

record ScoreTableCache =
  tc_sorted :: "ScoreEntry list"
  tc_lookup :: "(userid, (int, nat) qhash) qhash"
  tc_config :: ScoreBoardConfig
  tc_lastInsert :: u64

type_synonym ScoreCache = "(qstring, (u32, ScoreTableCache) qhash) qhash"

definition ShadNetTimestamp :: "int \<Rightarrow> u64" where
  \<comment> \<open>of the current time in microseconds since the epoch\<close>
  "ShadNetTimestamp nowUs = u64_of_int nowUs + 62135596800 * 1000000"

subsection \<open>Replies\<close>

record ScoreRankData =
  rd_npid :: qstring
  rd_pcid :: int
  rd_rank :: u32
  rd_score :: int
  rd_hasgamedata :: bool
  rd_recorddate :: u64
  rd_accountid :: userid

record GetScoreResponse =
  gr_rankarray :: "ScoreRankData list"
  gr_commentarray :: "qstring list"
  gr_infoarray :: "bytes list"
  gr_lastsortdate :: u64
  gr_totalrecord :: u32

definition ScoreRankData_default :: ScoreRankData where
  "ScoreRankData_default = \<lparr>rd_npid = [], rd_pcid = 0, rd_rank = 0, rd_score = 0,
     rd_hasgamedata = False, rd_recorddate = 0, rd_accountid = 0\<rparr>"

definition GetScoreResponse_default :: GetScoreResponse where
  "GetScoreResponse_default = \<lparr>gr_rankarray = [], gr_commentarray = [], gr_infoarray = [],
     gr_lastsortdate = 0, gr_totalrecord = 0\<rparr>"

definition ToRankData :: "ScoreEntry \<Rightarrow> nat \<Rightarrow> ScoreRankData" where
  "ToRankData e index = \<lparr>rd_npid = se_npid e, rd_pcid = se_characterId e, rd_rank = word_of_nat (index + 1),
     rd_score = se_score e, rd_hasgamedata = (se_dataId e \<noteq> None), rd_recorddate = se_timestamp e,
     rd_accountid = se_userId e\<rparr>"

definition AppendEntry :: "ScoreEntry \<Rightarrow> nat \<Rightarrow> bool \<Rightarrow> bool \<Rightarrow> GetScoreResponse \<Rightarrow> GetScoreResponse" where
  "AppendEntry e idx withComment withGameInfo resp =
     resp\<lparr>gr_rankarray := gr_rankarray resp @ [ToRankData e idx],
          gr_commentarray := gr_commentarray resp @ (if withComment then [se_comment e] else []),
          gr_infoarray := gr_infoarray resp @ (if withGameInfo then [se_gameInfo e] else [])\<rparr>"

definition appendBlankEntry :: "bool \<Rightarrow> bool \<Rightarrow> GetScoreResponse \<Rightarrow> GetScoreResponse" where
  "appendBlankEntry withComment withGameInfo resp =
     resp\<lparr>gr_rankarray := gr_rankarray resp @ [ScoreRankData_default],
          gr_commentarray := gr_commentarray resp @ (if withComment then [[]] else []),
          gr_infoarray := gr_infoarray resp @ (if withGameInfo then [[]] else [])\<rparr>"

subsection \<open>Operations\<close>

definition RanksBefore :: "u32 \<Rightarrow> ScoreEntry \<Rightarrow> ScoreEntry \<Rightarrow> bool" where
  "RanksBefore sortMode a b \<longleftrightarrow>
     (if se_score a \<noteq> se_score b then (if sortMode = 0 then se_score a > se_score b else se_score a < se_score b)
      else if se_timestamp a \<noteq> se_timestamp b then se_timestamp a < se_timestamp b
      else se_userId a < se_userId b)"

definition lookupAt :: "(userid, (int, nat) qhash) qhash \<Rightarrow> userid \<Rightarrow> int \<Rightarrow> nat option" where
  \<comment> \<open>\<open>lookup.contains(u) && lookup[u].contains(c)\<close>, then \<open>lookup[u][c]\<close>\<close>
  "lookupAt lk u c = (case qfind lk u of None \<Rightarrow> None | Some inner \<Rightarrow> qfind inner c)"

definition lookupSet :: "userid \<Rightarrow> int \<Rightarrow> nat \<Rightarrow> (userid, (int, nat) qhash) qhash \<Rightarrow> (userid, (int, nat) qhash) qhash" where
  "lookupSet u c i lk = qinsert u (qinsert c i (qvalue lk u [])) lk"

definition lookupRemove :: "userid \<Rightarrow> int \<Rightarrow> (userid, (int, nat) qhash) qhash \<Rightarrow> (userid, (int, nat) qhash) qhash" where
  "lookupRemove u c lk = qinsert u (qremove c (qvalue lk u [])) lk"

function Reindex :: "ScoreEntry list \<Rightarrow> nat \<Rightarrow> (userid, (int, nat) qhash) qhash \<Rightarrow> (userid, (int, nat) qhash) qhash" where
  "Reindex es i lk =
     (if i < length es
      then Reindex es (Suc i) (lookupSet (se_userId (es ! i)) (se_characterId (es ! i)) i lk)
      else lk)"
  by pat_completeness auto
termination by (relation "measure (\<lambda>(es, i, lk). length es - i)") auto

declare Reindex.simps [simp del]

function lower_bound :: "('a \<Rightarrow> bool) \<Rightarrow> 'a list \<Rightarrow> nat \<Rightarrow> nat \<Rightarrow> nat" where
  \<comment> \<open>\<open>std::lower_bound\<close> on \<open>count\<close> elements from \<open>first\<close>, by halving\<close>
  "lower_bound before xs first count =
     (if count = 0 then first
      else let half = count div 2 in
        if before (xs ! (first + half)) then lower_bound before xs (first + half + 1) (count - half - 1)
        else lower_bound before xs first half)"
  by pat_completeness auto
termination by (relation "measure (\<lambda>(before, xs, first, count). count)") auto

declare lower_bound.simps [simp del]

definition findTable :: "ScoreCache \<Rightarrow> qstring \<Rightarrow> u32 \<Rightarrow> ScoreTableCache option" where
  "findTable cache comId boardId =
     (case qfind cache comId of None \<Rightarrow> None | Some inner \<Rightarrow> qfind inner boardId)"

definition setTable :: "qstring \<Rightarrow> u32 \<Rightarrow> ScoreTableCache \<Rightarrow> ScoreCache \<Rightarrow> ScoreCache" where
  \<comment> \<open>a table changed through the reference that \<open>m_tables[comId][boardId]\<close> is\<close>
  "setTable comId boardId t cache = qinsert comId (qinsert boardId t (qvalue cache comId [])) cache"

definition GetOrCreate :: "qstring \<Rightarrow> u32 \<Rightarrow> ScoreBoardConfig \<Rightarrow> ScoreCache \<Rightarrow> ScoreTableCache" where
  "GetOrCreate comId boardId cfg cache =
     (case findTable cache comId boardId of Some t \<Rightarrow> t
      | None \<Rightarrow> \<lparr>tc_sorted = [], tc_lookup = [], tc_config = cfg, tc_lastInsert = 0\<rparr>)"

definition LoadTable ::
  "qstring \<Rightarrow> u32 \<Rightarrow> ScoreBoardConfig \<Rightarrow> ScoreEntry list \<Rightarrow> u64 \<Rightarrow> ScoreCache \<Rightarrow> ScoreCache" where
  "LoadTable comId boardId cfg entries now cache =
     setTable comId boardId
       \<lparr>tc_sorted = entries, tc_lookup = Reindex entries 0 [], tc_config = cfg, tc_lastInsert = now\<rparr> cache"

definition removeOld :: "ScoreEntry \<Rightarrow> ScoreTableCache \<Rightarrow> ScoreTableCache \<times> nat option" where
  \<comment> \<open>drop the entry of the same user and character\<close>
  "removeOld entry t =
     (case lookupAt (tc_lookup t) (se_userId entry) (se_characterId entry) of
        None \<Rightarrow> (t, None)
      | Some p \<Rightarrow>
          (let es = take p (tc_sorted t) @ drop (Suc p) (tc_sorted t)
           in (t\<lparr>tc_sorted := es,
                 tc_lookup := Reindex es p (lookupRemove (se_userId entry) (se_characterId entry) (tc_lookup t))\<rparr>,
               Some p)))"

definition placeEntry :: "ScoreEntry \<Rightarrow> nat \<Rightarrow> nat option \<Rightarrow> ScoreTableCache \<Rightarrow> ScoreTableCache" where
  "placeEntry entry insertPos removedAt t =
     (let es = take insertPos (tc_sorted t) @ [entry] @ drop insertPos (tc_sorted t);
          lk = lookupSet (se_userId entry) (se_characterId entry) insertPos (tc_lookup t);
          from = (case removedAt of None \<Rightarrow> insertPos + 1 | Some r \<Rightarrow> min (insertPos + 1) r)
      in t\<lparr>tc_sorted := es, tc_lookup := Reindex es from lk\<rparr>)"

definition trimTable :: "u32 \<Rightarrow> ScoreTableCache \<Rightarrow> ScoreTableCache" where
  "trimTable rankLimit t =
     (if unat rankLimit < length (tc_sorted t)
      then (let e = last (tc_sorted t)
            in t\<lparr>tc_lookup := lookupRemove (se_userId e) (se_characterId e) (tc_lookup t),
                 tc_sorted := butlast (tc_sorted t)\<rparr>)
      else t)"

definition insertTable :: "ScoreBoardConfig \<Rightarrow> ScoreEntry \<Rightarrow> u64 \<Rightarrow> ScoreTableCache \<Rightarrow> u32 \<times> ScoreTableCache" where
  "insertTable cfg entry now t =
     (let (t1, removedAt) = removeOld entry (t\<lparr>tc_lastInsert := now\<rparr>);
          insertPos = lower_bound (\<lambda>e. RanksBefore (sb_sortMode cfg) e entry) (tc_sorted t1) 0 (length (tc_sorted t1));
          fits = (length (tc_sorted t1) < unat (sb_rankLimit cfg) \<or> int insertPos < int_of_i32 (uint (sb_rankLimit cfg)))
      in if \<not> fits then (sb_rankLimit cfg + 1, t1)
         else (word_of_nat (insertPos + 1), trimTable (sb_rankLimit cfg) (placeEntry entry insertPos removedAt t1)))"

definition InsertScore ::
  "qstring \<Rightarrow> u32 \<Rightarrow> ScoreBoardConfig \<Rightarrow> ScoreEntry \<Rightarrow> u64 \<Rightarrow> ScoreCache \<Rightarrow> u32 \<times> ScoreCache" where
  "InsertScore comId boardId cfg entry now cache =
     (let (rank, t) = insertTable cfg entry now (GetOrCreate comId boardId cfg cache)
      in (rank, setTable comId boardId t cache))"

definition GetScoreRange ::
  "qstring \<Rightarrow> u32 \<Rightarrow> u32 \<Rightarrow> u32 \<Rightarrow> bool \<Rightarrow> bool \<Rightarrow> u64 \<Rightarrow> ScoreCache \<Rightarrow> GetScoreResponse option" where
  \<comment> \<open>\<open>None\<close>: a signed overflow or an index outside the entries, which C++ leaves undefined\<close>
  "GetScoreRange comId boardId startRank numRanks withComment withGameInfo now cache =
     (case findTable cache comId boardId of
        None \<Rightarrow> Some (GetScoreResponse_default\<lparr>gr_lastsortdate := now\<rparr>)
      | Some t \<Rightarrow>
          (let resp = GetScoreResponse_default\<lparr>gr_totalrecord := word_of_nat (length (tc_sorted t)),
                        gr_lastsortdate := tc_lastInsert t\<rparr>;
               start = int_of_i32 (uint (if startRank = 0 then 1 else startRank)) - 1;
               stop = start + int_of_i32 (uint numRanks);
               final = min stop (int (length (tc_sorted t)))
           in if start < - (2 ^ 31) \<or> stop < - (2 ^ 31) \<or> stop \<ge> 2 ^ 31 then None
              else if start < 0 \<and> start < final then None
              else Some (fold (\<lambda>i. AppendEntry (tc_sorted t ! i) i withComment withGameInfo)
                     [nat start..<nat final] resp)))"

definition GetScoreByIds ::
  "qstring \<Rightarrow> u32 \<Rightarrow> (userid \<times> int) list \<Rightarrow> bool \<Rightarrow> bool \<Rightarrow> u64 \<Rightarrow> ScoreCache \<Rightarrow> GetScoreResponse" where
  "GetScoreByIds comId boardId ids withComment withGameInfo now cache =
     (let tp = findTable cache comId boardId;
          resp = GetScoreResponse_default
            \<lparr>gr_totalrecord := (case tp of None \<Rightarrow> 0 | Some t \<Rightarrow> word_of_nat (length (tc_sorted t))),
             gr_lastsortdate := (case tp of None \<Rightarrow> now | Some t \<Rightarrow> tc_lastInsert t)\<rparr>
      in fold (\<lambda>(uid, cid).
            case tp of None \<Rightarrow> appendBlankEntry withComment withGameInfo
            | Some t \<Rightarrow> (case lookupAt (tc_lookup t) uid cid of
                           None \<Rightarrow> appendBlankEntry withComment withGameInfo
                         | Some idx \<Rightarrow> AppendEntry (tc_sorted t ! idx) idx withComment withGameInfo))
           ids resp)"

definition ContainsScoreWithNoData ::
  "qstring \<Rightarrow> u32 \<Rightarrow> userid \<Rightarrow> int \<Rightarrow> int \<Rightarrow> ScoreCache \<Rightarrow> ScoreCacheError option" where
  "ContainsScoreWithNoData comId boardId userId charId score cache =
     (case findTable cache comId boardId of
        None \<Rightarrow> Some CacheNotFound
      | Some t \<Rightarrow>
          (case lookupAt (tc_lookup t) userId charId of
             None \<Rightarrow> Some CacheNotFound
           | Some i \<Rightarrow> (let e = tc_sorted t ! i
                        in if se_score e \<noteq> score then Some CacheInvalid
                           else if se_dataId e \<noteq> None then Some CacheHasData else None)))"

definition SetGameData ::
  "qstring \<Rightarrow> u32 \<Rightarrow> userid \<Rightarrow> int \<Rightarrow> u64 \<Rightarrow> ScoreCache \<Rightarrow> ScoreCacheError option \<times> ScoreCache" where
  "SetGameData comId boardId userId charId dataId cache =
     (case findTable cache comId boardId of
        None \<Rightarrow> (Some CacheNotFound, cache)
      | Some t \<Rightarrow>
          (case lookupAt (tc_lookup t) userId charId of
             None \<Rightarrow> (Some CacheNotFound, cache)
           | Some i \<Rightarrow> (None, setTable comId boardId
                (t\<lparr>tc_sorted := (tc_sorted t)[i := (tc_sorted t ! i)\<lparr>se_dataId := Some dataId\<rparr>]\<rparr>) cache)))"

definition GetGameDataId :: "qstring \<Rightarrow> u32 \<Rightarrow> userid \<Rightarrow> int \<Rightarrow> ScoreCache \<Rightarrow> bool \<times> u64" where
  "GetGameDataId comId boardId userId charId cache =
     (case findTable cache comId boardId of
        None \<Rightarrow> (False, 0)
      | Some t \<Rightarrow>
          (case lookupAt (tc_lookup t) userId charId of
             None \<Rightarrow> (False, 0)
           | Some i \<Rightarrow> (case se_dataId (tc_sorted t ! i) of None \<Rightarrow> (False, 0) | Some d \<Rightarrow> (True, d))))"

definition ListComIds :: "ScoreCache \<Rightarrow> qstring list" where
  "ListComIds cache = qkeys cache"

definition ListBoards :: "ScoreCache \<Rightarrow> qstring \<Rightarrow> u32 list" where
  "ListBoards cache comId = (case qfind cache comId of None \<Rightarrow> [] | Some inner \<Rightarrow> sort (qkeys inner))"

subsection \<open>Ranking\<close>

definition rank_key :: "u32 \<Rightarrow> ScoreEntry \<Rightarrow> int \<times> u64 \<times> userid" where
  "rank_key sortMode e = (if sortMode = 0 then - se_score e else se_score e, se_timestamp e, se_userId e)"

definition slot :: "ScoreEntry \<Rightarrow> userid \<times> int" where
  "slot e = (se_userId e, se_characterId e)"

lemma RanksBefore_key: "RanksBefore sortMode a b \<longleftrightarrow> rank_key sortMode a < rank_key sortMode b"
  by (auto simp: RanksBefore_def rank_key_def less_prod_def')

text \<open>The binary search finds the border of a range on which \<open>before\<close> holds first.\<close>

lemma lower_bound_border:
  assumes "first + count \<le> length xs"
    and "\<forall>i j. i \<le> j \<longrightarrow> j < length xs \<longrightarrow> before (xs ! j) \<longrightarrow> before (xs ! i)"
    and "\<forall>i < first. before (xs ! i)" and "\<forall>i. first + count \<le> i \<longrightarrow> i < length xs \<longrightarrow> \<not> before (xs ! i)"
  shows "lower_bound before xs first count \<le> length xs \<and>
    (\<forall>i < lower_bound before xs first count. before (xs ! i)) \<and>
    (\<forall>i. lower_bound before xs first count \<le> i \<longrightarrow> i < length xs \<longrightarrow> \<not> before (xs ! i))"
  using assms
proof (induction before xs first count rule: lower_bound.induct)
  case (1 before xs first count)
  show ?case
  proof (cases "count = 0")
    case True
    with "1.prems" show ?thesis by (simp add: lower_bound.simps)
  next
    case False
    let ?half = "count div 2"
    let ?mid = "first + ?half"
    have h: "?half < count" "?mid < length xs" using False "1.prems"(1) by auto
    show ?thesis
    proof (cases "before (xs ! ?mid)")
      case True
      have a: "\<forall>i < ?mid + 1. before (xs ! i)" using "1.prems"(2) True h(2) by (metis Suc_eq_plus1 less_Suc_eq_le)
      have e: "?mid + 1 + (count - ?half - 1) = first + count" using h by simp
      have eq: "lower_bound before xs first count = lower_bound before xs (?mid + 1) (count - ?half - 1)"
        using False True by (subst lower_bound.simps) (simp add: Let_def)
      show ?thesis
        unfolding eq by (rule "1.IH"(1) [OF False refl True, unfolded e, OF "1.prems"(1,2) a "1.prems"(4)])
    next
      case no: False
      have a: "\<forall>i. ?mid \<le> i \<longrightarrow> i < length xs \<longrightarrow> \<not> before (xs ! i)" using "1.prems"(2) no by blast
      have "?mid \<le> length xs" using h by simp
      have eq: "lower_bound before xs first count = lower_bound before xs first ?half"
        using False no by (subst lower_bound.simps) (simp add: Let_def)
      show ?thesis
        unfolding eq by (rule "1.IH"(2) [OF False refl no \<open>?mid \<le> length xs\<close> "1.prems"(2,3) a])
    qed
  qed
qed

lemma lower_bound_insort:
  fixes key :: "'a \<Rightarrow> 'k::linorder" and e :: 'a
  assumes "sorted (map key xs)"
  defines "k \<equiv> lower_bound (\<lambda>x. key x < key e) xs 0 (length xs)"
  shows "take k xs @ [e] @ drop k xs = insort_key key e xs" and "k \<le> length xs"
proof -
  have m: "\<forall>i j. i \<le> j \<longrightarrow> j < length xs \<longrightarrow> key (xs ! j) < key e \<longrightarrow> key (xs ! i) < key e"
    using assms(1) by (fastforce simp: sorted_iff_nth_mono)
  have k: "k \<le> length xs" "\<And>i. i < k \<Longrightarrow> key (xs ! i) < key e"
      "\<And>i. k \<le> i \<Longrightarrow> i < length xs \<Longrightarrow> \<not> key (xs ! i) < key e"
    using lower_bound_border [of 0 "length xs" xs "\<lambda>x. key x < key e", OF _ m] by (auto simp: k_def)
  then show "k \<le> length xs" by simp
  have "take k ys @ [e] @ drop k ys = insort_key key e ys"
    if "k \<le> length ys" "\<And>i. i < k \<Longrightarrow> key (ys ! i) < key e"
      "\<And>i. k \<le> i \<Longrightarrow> i < length ys \<Longrightarrow> \<not> key (ys ! i) < key e" for k and ys :: "'a list"
    using that
  proof (induction ys arbitrary: k)
    case (Cons y ys)
    show ?case
    proof (cases k)
      case 0
      with Cons.prems(3) [of 0] show ?thesis by (simp add: not_less)
    next
      case (Suc k')
      have "\<not> key e \<le> key y" using Cons.prems(2) [of 0] Suc by simp
      moreover have "take k' ys @ [e] @ drop k' ys = insort_key key e ys"
        using Cons.prems(1) Cons.prems(2) [of "Suc _"] Cons.prems(3) [of "Suc _"] Suc by (intro Cons.IH) simp_all
      ultimately show ?thesis using Suc by simp
    qed
  qed simp
  then show "take k xs @ [e] @ drop k xs = insort_key key e xs" using k by blast
qed

subsection \<open>The position index\<close>

definition exact :: "(userid, (int, nat) qhash) qhash \<Rightarrow> ScoreEntry list \<Rightarrow> bool" where
  "exact lk es \<longleftrightarrow> (\<forall>u c k. lookupAt lk u c = Some k \<longleftrightarrow> k < length es \<and> slot (es ! k) = (u, c))"

lemma lookupAt_Nil: "lookupAt [] u c = None"
  by (simp add: lookupAt_def)

lemma lookupAt_set: "lookupAt (lookupSet u c i lk) u' c' = (if (u', c') = (u, c) then Some i else lookupAt lk u' c')"
  by (auto simp: lookupAt_def lookupSet_def qfind_qinsert split: option.split)

lemma lookupAt_remove: "lookupAt (lookupRemove u c lk) u' c' = (if (u', c') = (u, c) then None else lookupAt lk u' c')"
  by (auto simp: lookupAt_def lookupRemove_def qfind_qinsert qfind_qremove split: option.split)

lemma lookupAt_Reindex:
  assumes "distinct (map slot es)"
  shows "lookupAt (Reindex es i lk) u c = Some k \<longleftrightarrow>
    (if \<exists>j. i \<le> j \<and> j < length es \<and> slot (es ! j) = (u, c)
     then i \<le> k \<and> k < length es \<and> slot (es ! k) = (u, c) else lookupAt lk u c = Some k)"
  using assms
proof (induction es i lk rule: Reindex.induct)
  case (1 es i lk)
  show ?case
  proof (cases "i < length es")
    case False
    then show ?thesis by (subst Reindex.simps) auto
  next
    case True
    let ?lk = "lookupSet (se_userId (es ! i)) (se_characterId (es ! i)) i lk"
    have r: "Reindex es i lk = Reindex es (Suc i) ?lk" using True by (subst Reindex.simps) simp
    have inj: "slot (es ! j) = slot (es ! i) \<Longrightarrow> j < length es \<Longrightarrow> j = i" for j
      using "1.prems" True by (metis distinct_conv_nth length_map nth_map)
    have at: "lookupAt ?lk u c = (if slot (es ! i) = (u, c) then Some i else lookupAt lk u c)"
      by (auto simp: lookupAt_set slot_def)
    show ?thesis
    proof (cases "slot (es ! i) = (u, c)")
      case here: True
      then have n: "\<not> (\<exists>j. Suc i \<le> j \<and> j < length es \<and> slot (es ! j) = (u, c))"
        using inj here by (metis Suc_n_not_le_n)
      have "lookupAt (Reindex es i lk) u c = Some k \<longleftrightarrow> k = i"
        unfolding r "1.IH" [OF True "1.prems"] using n at here by auto
      moreover have "(\<exists>j. i \<le> j \<and> j < length es \<and> slot (es ! j) = (u, c))" using here True by blast
      moreover have "i \<le> k \<and> k < length es \<and> slot (es ! k) = (u, c) \<longleftrightarrow> k = i"
        using here True inj [of k] by (metis order_refl)
      ultimately show ?thesis by simp
    next
      case False
      then have e: "(i \<le> j \<and> j < length es \<and> slot (es ! j) = (u, c)) = (Suc i \<le> j \<and> j < length es \<and> slot (es ! j) = (u, c))" for j
        by (cases "j = i") auto
      show ?thesis unfolding r "1.IH" [OF True "1.prems"] e using at False by (cases "i = k") auto
    qed
  qed
qed

lemma exact_all: "distinct (map slot es) \<Longrightarrow> exact (Reindex es 0 []) es"
  by (auto simp: exact_def lookupAt_Reindex lookupAt_Nil)


lemma exact_remove:
  fixes u :: userid and c :: int
  assumes ex: "exact lk xs" and d: "distinct (map slot xs)" and p: "p < length xs" "slot (xs ! p) = (u, c)"
  defines "es \<equiv> take p xs @ drop (Suc p) xs"
  shows "exact (Reindex es p (lookupRemove u c lk)) es" and "es = filter (\<lambda>x. slot x \<noteq> (u, c)) xs"
proof -
  have xs: "xs = take p xs @ xs ! p # drop (Suc p) xs" using p(1) by (rule id_take_nth_drop)
  have "distinct (map slot (take p xs @ xs ! p # drop (Suc p) xs))" using d xs by simp
  then have ne: "\<forall>x \<in> set (take p xs) \<union> set (drop (Suc p) xs). slot x \<noteq> slot (xs ! p)"
    by (fastforce simp: image_iff)
  have "filter (\<lambda>x. slot x \<noteq> (u, c)) (take p xs @ xs ! p # drop (Suc p) xs) = es"
    using ne p(2) by (simp add: es_def filter_id_conv [THEN iffD2])
  with xs show f: "es = filter (\<lambda>x. slot x \<noteq> (u, c)) xs" by simp
  then have d': "distinct (map slot es)" using d by (simp add: distinct_map_filter)
  have len: "length es = length xs - 1" using p by (simp add: es_def)
  have nth: "es ! k = (if k < p then xs ! k else xs ! Suc k)" if "k < length es" for k
    using that p by (auto simp: es_def nth_append min_def)
  show "exact (Reindex es p (lookupRemove u c lk)) es"
    unfolding exact_def
  proof (intro allI)
    fix u' c' k
    show "lookupAt (Reindex es p (lookupRemove u c lk)) u' c' = Some k \<longleftrightarrow> k < length es \<and> slot (es ! k) = (u', c')"
    proof (cases "\<exists>j. p \<le> j \<and> j < length es \<and> slot (es ! j) = (u', c')")
      case True
      then obtain j where j: "p \<le> j" "j < length es" "slot (es ! j) = (u', c')" by blast
      have "k = j" if "k < length es" "slot (es ! k) = (u', c')"
        using d' j that by (metis distinct_conv_nth length_map nth_map)
      with True j show ?thesis by (auto simp: lookupAt_Reindex [OF d'])
    next
      case False
      have "lookupAt (lookupRemove u c lk) u' c' = Some k \<longleftrightarrow> (u', c') \<noteq> (u, c) \<and> k < length xs \<and> slot (xs ! k) = (u', c')"
        using ex by (auto simp: lookupAt_remove exact_def)
      also have "\<dots> \<longleftrightarrow> k < length es \<and> slot (es ! k) = (u', c')"
      proof
        assume a: "(u', c') \<noteq> (u, c) \<and> k < length xs \<and> slot (xs ! k) = (u', c')"
        then have "k \<noteq> p" using p(2) by auto
        moreover have "\<not> p < k"
        proof
          assume "p < k"
          then have "slot (es ! (k - 1)) = (u', c') \<and> k - 1 < length es \<and> p \<le> k - 1" using a nth [of "k - 1"] len by auto
          with False show False by blast
        qed
        ultimately show "k < length es \<and> slot (es ! k) = (u', c')" using a nth [of k] len p by auto
      next
        assume a: "k < length es \<and> slot (es ! k) = (u', c')"
        then have "k < p" using False by (meson not_le)
        moreover have "(u', c') \<noteq> (u, c)" using a f nth_mem [of k es] by auto
        ultimately show "(u', c') \<noteq> (u, c) \<and> k < length xs \<and> slot (xs ! k) = (u', c')" using a nth [of k] len by auto
      qed
      finally show ?thesis unfolding lookupAt_Reindex [OF d'] if_not_P [OF False] .
    qed
  qed
qed

lemma exact_place:
  assumes ex: "exact lk xs" and d: "distinct (map slot (take p xs @ [e] @ drop p xs))" and p: "p \<le> length xs"
    and fr: "start \<le> Suc p"
  defines "es \<equiv> take p xs @ [e] @ drop p xs"
  shows "exact (Reindex es start (lookupSet (se_userId e) (se_characterId e) p lk)) es"
  unfolding exact_def
proof (intro allI)
  fix u c k
  have d': "distinct (map slot es)" using d by (simp add: es_def)
  have len: "length es = Suc (length xs)" using p by (simp add: es_def)
  have nth: "es ! k = (if k < p then xs ! k else if k = p then e else xs ! (k - 1))" if "k < length es" for k
    using that p by (auto simp: es_def nth_append min_def nth_Cons' not_less)
  have same: "k = j" if "k < length es" "j < length es" "slot (es ! k) = slot (es ! j)" for k j
    using d' that by (metis distinct_conv_nth length_map nth_map)
  let ?lk = "lookupSet (se_userId e) (se_characterId e) p lk"
  show "lookupAt (Reindex es start ?lk) u c = Some k \<longleftrightarrow> k < length es \<and> slot (es ! k) = (u, c)"
  proof (cases "\<exists>j. start \<le> j \<and> j < length es \<and> slot (es ! j) = (u, c)")
    case True
    then obtain j where j: "start \<le> j" "j < length es" "slot (es ! j) = (u, c)" by blast
    have "k = j" if "k < length es" "slot (es ! k) = (u, c)" using same j that by metis
    with True j show ?thesis by (auto simp: lookupAt_Reindex [OF d'])
  next
    case False
    have "lookupAt ?lk u c = Some k \<longleftrightarrow> k < length es \<and> slot (es ! k) = (u, c)"
    proof (cases "(u, c) = slot e")
      case here: True
      have at: "p < length es" "slot (es ! p) = (u, c)" using nth [of p] len p here by auto
      then show ?thesis using here same [of k p] by (auto simp: lookupAt_set slot_def)
    next
      case other: False
      then have "lookupAt ?lk u c = Some k \<longleftrightarrow> k < length xs \<and> slot (xs ! k) = (u, c)"
        using ex by (auto simp: lookupAt_set exact_def slot_def)
      also have "\<dots> \<longleftrightarrow> k < length es \<and> slot (es ! k) = (u, c)"
      proof
        assume a: "k < length xs \<and> slot (xs ! k) = (u, c)"
        show "k < length es \<and> slot (es ! k) = (u, c)"
        proof (cases "k < p")
          case True
          with a nth [of k] len show ?thesis by simp
        next
          case no: False
          then have "start \<le> Suc k \<and> Suc k < length es \<and> slot (es ! Suc k) = (u, c)"
            using a nth [of "Suc k"] len fr by simp
          with False show ?thesis by blast
        qed
      next
        assume a: "k < length es \<and> slot (es ! k) = (u, c)"
        then have "k < start" using False by (meson not_le)
        moreover have "k \<noteq> p" using a other nth [of p] by auto
        ultimately show "k < length xs \<and> slot (xs ! k) = (u, c)" using a nth [of k] fr p by auto
      qed
      finally show ?thesis .
    qed
    then show ?thesis unfolding lookupAt_Reindex [OF d'] if_not_P [OF False] .
  qed
qed

lemma exact_trim:
  assumes ex: "exact lk es" and d: "distinct (map slot es)" and ne: "es \<noteq> []"
  shows "exact (lookupRemove (se_userId (last es)) (se_characterId (last es)) lk) (butlast es)"
  unfolding exact_def
proof (intro allI)
  fix u c k
  have lst: "last es = es ! (length es - 1)" "length es - 1 < length es" using ne by (auto simp: last_conv_nth)
  have same: "k = j" if "k < length es" "j < length es" "slot (es ! k) = slot (es ! j)" for k j
    using d that by (metis distinct_conv_nth length_map nth_map)
  have "lookupAt (lookupRemove (se_userId (last es)) (se_characterId (last es)) lk) u c = Some k \<longleftrightarrow>
      (u, c) \<noteq> slot (last es) \<and> k < length es \<and> slot (es ! k) = (u, c)"
    using ex by (auto simp: lookupAt_remove exact_def slot_def)
  also have "\<dots> \<longleftrightarrow> k < length (butlast es) \<and> slot (butlast es ! k) = (u, c)"
  proof
    assume a: "(u, c) \<noteq> slot (last es) \<and> k < length es \<and> slot (es ! k) = (u, c)"
    then have "k \<noteq> length es - 1" using lst by auto
    with a show "k < length (butlast es) \<and> slot (butlast es ! k) = (u, c)" by (auto simp: nth_butlast)
  next
    assume a: "k < length (butlast es) \<and> slot (butlast es ! k) = (u, c)"
    then have "k < length es" "slot (es ! k) = (u, c)" by (auto simp: nth_butlast)
    moreover have "(u, c) \<noteq> slot (last es)" using same [of k "length es - 1"] a lst calculation by auto
    ultimately show "(u, c) \<noteq> slot (last es) \<and> k < length es \<and> slot (es ! k) = (u, c)" by simp
  qed
  finally show "lookupAt (lookupRemove (se_userId (last es)) (se_characterId (last es)) lk) u c = Some k \<longleftrightarrow>
      k < length (butlast es) \<and> slot (butlast es ! k) = (u, c)" .
qed

subsection \<open>The best entries of a set\<close>

text \<open>
  What the score commands rely on: a bounded list of the entries with the least keys. Putting
  an entry that improves its slot into the bounded list gives what sorting and cutting the
  whole set with that entry gives.
\<close>

locale top_list =
  fixes items :: "'t \<Rightarrow> 'e list" and put :: "'e \<Rightarrow> 't \<Rightarrow> 't" and valid :: "'t \<Rightarrow> bool"
    and key :: "'e \<Rightarrow> 'k::linorder" and place :: "'e \<Rightarrow> 's" and limit :: nat
  assumes put_valid: "valid t \<Longrightarrow> valid (put e t)"
    and put_items: "valid t \<Longrightarrow> items (put e t) = take limit (insort_key key e (filter (\<lambda>x. place x \<noteq> place e) (items t)))"
begin

lemma take_filter_one:
  "length (filter (\<lambda>x. \<not> P x) xs) \<le> 1 \<Longrightarrow> take n (filter P (take (Suc n) xs)) = take n (filter P xs)"
proof (induction xs arbitrary: n)
  case (Cons y ys)
  show ?case
  proof (cases "P y")
    case True
    with Cons show ?thesis by (cases n) simp_all
  next
    case False
    with Cons.prems have "\<forall>x \<in> set ys. P x" by (simp add: filter_empty_conv)
    then have "filter P (take n ys) = take n ys" "filter P ys = ys"
      by (auto simp: filter_id_conv dest: in_set_takeD)
    with False show ?thesis by simp
  qed
qed simp

lemma one_of_place: "distinct (map place xs) \<Longrightarrow> length (filter (\<lambda>x. \<not> place x \<noteq> s) xs) \<le> 1"
proof (induction xs)
  case (Cons y ys)
  then have "place y = s \<Longrightarrow> filter (\<lambda>x. place x = s) ys = []"
    by (simp add: filter_empty_conv) (metis imageI)
  with Cons show ?case by auto
qed simp

lemma take_insort:
  assumes "sorted (map key xs)" and "distinct (map place xs)"
    and "\<And>x. x \<in> set xs \<Longrightarrow> place x = place e \<Longrightarrow> key e < key x"
  shows "take n (insort_key key e (filter (\<lambda>x. place x \<noteq> place e) (take n xs))) =
    take n (insort_key key e (filter (\<lambda>x. place x \<noteq> place e) xs))"
  using assms
proof (induction xs arbitrary: n)
  case (Cons y ys)
  note ih = Cons.IH [of "n - 1"]
  show ?case
  proof (cases n)
    case (Suc m)
    show ?thesis
    proof (cases "place y = place e")
      case False
      show ?thesis
      proof (cases "key e \<le> key y")
        case True
        have "length (filter (\<lambda>x. \<not> place x \<noteq> place e) ys) \<le> 1" by (rule one_of_place) (use Cons.prems(2) in simp)
        then have "take m (filter (\<lambda>x. place x \<noteq> place e) (y # take m ys)) = take m (filter (\<lambda>x. place x \<noteq> place e) (y # ys))"
          using take_filter_one [of "\<lambda>x. place x \<noteq> place e" "y # ys" m] False by simp
        with False True Suc show ?thesis by simp
      next
        case no: False
        have "take m (insort_key key e (filter (\<lambda>x. place x \<noteq> place e) (take m ys))) =
            take m (insort_key key e (filter (\<lambda>x. place x \<noteq> place e) ys))"
          using Cons.prems by (intro Cons.IH) auto
        with False no Suc show ?thesis by simp
      qed
    next
      case True
      have lt: "key e < key y" using Cons.prems(3) [of y] True by simp
      have "\<forall>x \<in> set ys. place x \<noteq> place e" using Cons.prems(2) True by (simp add: image_iff) metis
      then have f: "filter (\<lambda>x. place x \<noteq> place e) ys = ys" "filter (\<lambda>x. place x \<noteq> place e) (take m ys) = take m ys"
        by (auto simp: filter_id_conv dest: in_set_takeD)
      have "\<forall>x \<in> set ys. key e \<le> key x" using Cons.prems(1) lt by (auto intro: order_trans less_imp_le)
      then have "insort_key key e ys = e # ys" "insort_key key e (take m ys) = e # take m ys"
        by (cases ys; cases m; auto)+
      with True Suc f show ?thesis by simp
    qed
  qed simp
qed simp

lemma put_top:
  assumes t: "valid t" "items t = take limit (sort_key key rows)"
    and d: "distinct (map place rows)" "inj_on key (insert e (set rows))"
    and d': "distinct (map place rows')" "set rows' = insert e {x \<in> set rows. place x \<noteq> place e}"
    and better: "\<And>x. x \<in> set rows \<Longrightarrow> place x = place e \<Longrightarrow> key e < key x"
  shows "items (put e t) = take limit (sort_key key rows')"
proof -
  let ?R = "sort_key key rows"
  have dr: "distinct rows" "distinct rows'" using d(1) d'(1) by (simp_all add: distinct_map)
  have "distinct (map place ?R)" using d(1) dr by (simp add: distinct_map)
  then have "take limit (insort_key key e (filter (\<lambda>x. place x \<noteq> place e) (take limit ?R))) =
      take limit (insort_key key e (filter (\<lambda>x. place x \<noteq> place e) ?R))"
    using better by (intro take_insort) auto
  moreover have "insort_key key e (filter (\<lambda>x. place x \<noteq> place e) ?R) = sort_key key rows'"
  proof (rule map_sorted_distinct_set_unique [of key])
    have s: "set (insort_key key e (filter (\<lambda>x. place x \<noteq> place e) ?R)) = set rows'"
      by (auto simp: set_insort_key d'(2))
    show "inj_on key (set (insort_key key e (filter (\<lambda>x. place x \<noteq> place e) ?R)) \<union> set (sort_key key rows'))"
      unfolding s using d(2) d'(2) by (auto intro: inj_on_subset)
    show "sorted (map key (insort_key key e (filter (\<lambda>x. place x \<noteq> place e) ?R)))"
      by (simp add: sorted_insort_key sorted_filter)
    show "distinct (map key (insort_key key e (filter (\<lambda>x. place x \<noteq> place e) ?R)))"
      using dr d(2) by (auto simp: distinct_map distinct_insort set_insort_key intro: inj_on_subset)
    show "sorted (map key (sort_key key rows'))" by simp
    show "distinct (map key (sort_key key rows'))"
      using dr d(2) d'(2) by (auto simp: distinct_map intro: inj_on_subset)
    show "set (insort_key key e (filter (\<lambda>x. place x \<noteq> place e) ?R)) = set (sort_key key rows')" using s by simp
  qed
  ultimately show ?thesis using put_items [OF t(1), of e] t(2) by simp
qed

end

subsection \<open>Insertion\<close>

abbreviation table_key :: "ScoreTableCache \<Rightarrow> ScoreEntry \<Rightarrow> int \<times> u64 \<times> userid" where
  "table_key t \<equiv> rank_key (sb_sortMode (tc_config t))"

abbreviation table_limit :: "ScoreTableCache \<Rightarrow> nat" where
  "table_limit t \<equiv> unat (sb_rankLimit (tc_config t))"

definition table_ok :: "ScoreTableCache \<Rightarrow> bool" where
  [inv_defs]: "table_ok t \<longleftrightarrow>
     exact (tc_lookup t) (tc_sorted t) \<and> distinct (map slot (tc_sorted t)) \<and>
     sorted (map (table_key t) (tc_sorted t)) \<and> length (tc_sorted t) \<le> table_limit t"

definition fits_int :: "ScoreBoardConfig \<Rightarrow> bool" where
  "fits_int cfg \<longleftrightarrow> uint (sb_rankLimit cfg) < 2 ^ 31"

lemma int_of_i32_small: "fits_int cfg \<Longrightarrow> int_of_i32 (uint (sb_rankLimit cfg)) = int (unat (sb_rankLimit cfg))"
proof -
  assume "fits_int cfg"
  then have "uint (sb_rankLimit cfg) < 2 ^ 31" by (simp add: fits_int_def)
  then show ?thesis by (simp only: int_of_i32_def word_of_int_uint sint_u32 if_True of_nat_unat)
qed

lemma removeOld_table:
  assumes "table_ok t" and "removeOld e t = (t1, r)"
  shows "tc_config t1 = tc_config t" and "tc_sorted t1 = filter (\<lambda>x. slot x \<noteq> slot e) (tc_sorted t)"
    and "exact (tc_lookup t1) (tc_sorted t1)" and "tc_lastInsert t1 = tc_lastInsert t"
proof -
  have ex: "exact (tc_lookup t) (tc_sorted t)" and d: "distinct (map slot (tc_sorted t))"
    using assms(1) by (simp_all add: table_ok_def)
  have "tc_config t1 = tc_config t \<and> tc_sorted t1 = filter (\<lambda>x. slot x \<noteq> slot e) (tc_sorted t) \<and>
      exact (tc_lookup t1) (tc_sorted t1) \<and> tc_lastInsert t1 = tc_lastInsert t"
  proof (cases "lookupAt (tc_lookup t) (se_userId e) (se_characterId e)")
    case None
    then have "\<not> (k < length (tc_sorted t) \<and> slot (tc_sorted t ! k) = slot e)" for k
      using ex by (metis exact_def option.distinct(1) slot_def)
    then have "filter (\<lambda>x. slot x \<noteq> slot e) (tc_sorted t) = tc_sorted t"
      by (auto simp: filter_id_conv in_set_conv_nth)
    with None assms(2) ex show ?thesis by (simp add: removeOld_def)
  next
    case (Some p)
    then have p: "p < length (tc_sorted t)" "slot (tc_sorted t ! p) = (se_userId e, se_characterId e)"
      using ex by (simp_all add: exact_def)
    from exact_remove [OF ex d p] Some assms(2) show ?thesis
      by (auto simp: removeOld_def Let_def slot_def)
  qed
  then show "tc_config t1 = tc_config t" and "tc_sorted t1 = filter (\<lambda>x. slot x \<noteq> slot e) (tc_sorted t)"
    and "exact (tc_lookup t1) (tc_sorted t1)" and "tc_lastInsert t1 = tc_lastInsert t"
    by blast+
qed

lemma removeOld_position:
  "table_ok t \<Longrightarrow> removeOld e t = (t1, Some r) \<Longrightarrow> length (tc_sorted t1) < length (tc_sorted t)"
  unfolding removeOld_def table_ok_def exact_def by (auto simp: Let_def split: option.splits)

lemma trim_ok:
  assumes "exact (tc_lookup t) (tc_sorted t)" and "distinct (map slot (tc_sorted t))"
    and "length (tc_sorted t) \<le> Suc (unat lim)"
  shows "tc_sorted (trimTable lim t) = take (unat lim) (tc_sorted t)"
    and "exact (tc_lookup (trimTable lim t)) (tc_sorted (trimTable lim t))"
    and "tc_config (trimTable lim t) = tc_config t" and "tc_lastInsert (trimTable lim t) = tc_lastInsert t"
proof -
  have "tc_sorted (trimTable lim t) = take (unat lim) (tc_sorted t) \<and>
      exact (tc_lookup (trimTable lim t)) (tc_sorted (trimTable lim t))"
  proof (cases "unat lim < length (tc_sorted t)")
    case False
    with assms(1) show ?thesis by (simp add: trimTable_def)
  next
    case True
    then have "length (tc_sorted t) = Suc (unat lim)" using assms(3) by simp
    then have b: "butlast (tc_sorted t) = take (unat lim) (tc_sorted t)" by (simp add: butlast_conv_take)
    have "tc_sorted t \<noteq> []" using True by auto
    from exact_trim [OF assms(1,2) this] True b show ?thesis by (simp add: trimTable_def Let_def)
  qed
  then show "tc_sorted (trimTable lim t) = take (unat lim) (tc_sorted t)"
    and "exact (tc_lookup (trimTable lim t)) (tc_sorted (trimTable lim t))" by blast+
  show "tc_config (trimTable lim t) = tc_config t" "tc_lastInsert (trimTable lim t) = tc_lastInsert t"
    by (simp_all add: trimTable_def Let_def)
qed

lemma insertTable_ok:
  fixes e :: ScoreEntry and now :: u64
  assumes ok: "table_ok t" and cfg: "cfg = tc_config t" and lim: "fits_int cfg"
  defines "t' \<equiv> snd (insertTable cfg e now t)"
  shows "table_ok t'" and "tc_config t' = tc_config t"
    and "tc_sorted t' = take (table_limit t) (insort_key (table_key t) e (filter (\<lambda>x. slot x \<noteq> slot e) (tc_sorted t)))"
    and "tc_lastInsert t' = now"
proof -
  let ?N = "table_limit t" and ?key = "table_key t" and ?t0 = "t\<lparr>tc_lastInsert := now\<rparr>"
  obtain t1 r where r: "removeOld e ?t0 = (t1, r)" by (cases "removeOld e ?t0")
  let ?xs = "tc_sorted t1"
  have ok0: "table_ok ?t0" using ok by (simp add: table_ok_def)
  note rem = removeOld_table [OF ok0 r]
  have xs: "?xs = filter (\<lambda>x. slot x \<noteq> slot e) (tc_sorted t)" using rem by simp
  have s: "sorted (map ?key ?xs)" unfolding xs by (rule sorted_filter) (use ok in \<open>simp add: table_ok_def\<close>)
  have d: "distinct (map slot ?xs)" using ok unfolding xs by (simp add: table_ok_def distinct_map_filter)
  have le: "length ?xs \<le> ?N"
    using ok unfolding xs table_ok_def by (meson le_trans length_filter_le)
  define p where "p = lower_bound (\<lambda>x. ?key x < ?key e) ?xs 0 (length ?xs)"
  have p: "p \<le> length ?xs" "take p ?xs @ [e] @ drop p ?xs = insort_key ?key e ?xs"
    using lower_bound_insort [OF s, of e] by (simp_all add: p_def)
  have d2: "distinct (map slot (take p ?xs @ [e] @ drop p ?xs))"
  proof -
    have "slot e \<notin> slot ` set ?xs" unfolding xs by auto
    moreover have "distinct (map slot (take p ?xs) @ map slot (drop p ?xs))"
      unfolding map_append [symmetric] append_take_drop_id by (rule d)
    ultimately show ?thesis by (auto dest: in_set_takeD in_set_dropD)
  qed
  let ?placed = "placeEntry e p r t1"
  let ?from = "case r of None \<Rightarrow> p + 1 | Some i \<Rightarrow> min (p + 1) i"
  have fr: "?from \<le> Suc p" by (auto split: option.split)
  have placed: "tc_sorted ?placed = insort_key ?key e ?xs" "tc_config ?placed = tc_config t1"
      "tc_lastInsert ?placed = tc_lastInsert t1"
    using p(2) by (simp_all add: placeEntry_def Let_def)
  have ex: "exact (tc_lookup ?placed) (tc_sorted ?placed)"
    using exact_place [OF rem(3) d2 p(1) fr] by (simp add: placeEntry_def Let_def)
  have dp: "distinct (map slot (tc_sorted ?placed))" unfolding placed(1) p(2) [symmetric] by (rule d2)
  have lp: "length (tc_sorted ?placed) \<le> Suc (unat (sb_rankLimit cfg))" using le cfg by (simp add: placed(1))
  note trim = trim_ok [OF ex dp lp]
  have out: "insertTable cfg e now t =
      (if \<not> (length ?xs < ?N \<or> p < ?N) then (sb_rankLimit cfg + 1, t1)
       else (word_of_nat (p + 1), trimTable (sb_rankLimit cfg) ?placed))"
  proof -
    have "int p < int_of_i32 (uint (sb_rankLimit cfg)) \<longleftrightarrow> p < ?N"
      unfolding int_of_i32_small [OF lim] of_nat_less_iff by (simp add: cfg)
    then show ?thesis
      by (simp add: insertTable_def r RanksBefore_key cfg Let_def p_def [symmetric])
  qed
  have srt: "tc_sorted t' = take ?N (insort_key ?key e ?xs) \<and> exact (tc_lookup t') (tc_sorted t') \<and>
      tc_config t' = tc_config t \<and> tc_lastInsert t' = now"
  proof (cases "length ?xs < ?N \<or> p < ?N")
    case True
    then have t': "t' = trimTable (sb_rankLimit cfg) ?placed" unfolding t'_def out by auto
    show ?thesis unfolding t' using trim placed rem cfg by simp
  next
    case False
    then have "length ?xs = ?N" "p = ?N" using le p(1) by auto
    then have "take ?N (take p ?xs @ [e] @ drop p ?xs) = ?xs" by simp
    then have "take ?N (insort_key ?key e ?xs) = ?xs" unfolding p(2) .
    moreover have t': "t' = t1" unfolding t'_def out using False by simp
    ultimately show ?thesis unfolding t' using rem by simp
  qed
  then show "tc_sorted t' = take ?N (insort_key ?key e (filter (\<lambda>x. slot x \<noteq> slot e) (tc_sorted t)))"
    "tc_config t' = tc_config t" "tc_lastInsert t' = now" by (simp_all add: xs)
  have "sorted (map ?key (take ?N (insort_key ?key e ?xs)))"
    using s by (simp add: take_map [symmetric] sorted_insort_key sorted_wrt_take)
  moreover have "distinct (map slot (take ?N (insort_key ?key e ?xs)))"
    using d2 unfolding p(2) by (simp add: take_map [symmetric])
  ultimately show "table_ok t'" using srt unfolding table_ok_def by (elim conjE) simp
qed

interpretation board: top_list tc_sorted "\<lambda>e t. snd (insertTable cfg e now t)"
    "\<lambda>t. table_ok t \<and> tc_config t = cfg \<and> fits_int cfg" "rank_key (sb_sortMode cfg)" slot "unat (sb_rankLimit cfg)"
  for cfg now
  by unfold_locales (auto simp: insertTable_ok)

end
