(* ===== verification/Framing.thy ===== *)
theory Framing
  imports Stream
begin

text \<open>
  Packets: the codes of \<open>src/protocol.h\<close>, and of \<open>src/client_session.cpp\<close> the
  receive loop \<open>OnReadyRead\<close>, the reply of \<open>ProcessPacket\<close>, the notification
  and push builders, and the authorisation part of \<open>DispatchCommand\<close>.
\<close>

subsection \<open>Protocol codes\<close>

definition HEADER_SIZE :: u32 where "HEADER_SIZE = 15"
definition MAX_PACKET_SIZE :: u32 where "MAX_PACKET_SIZE = 0x800000"
definition PROTOCOL_VERSION :: u32 where "PROTOCOL_VERSION = 1"

datatype PacketType = Request | Reply | Notification | ServerInfo

fun PacketType_code :: "PacketType \<Rightarrow> u8" where
  "PacketType_code Request = 0"
| "PacketType_code Reply = 1"
| "PacketType_code Notification = 2"
| "PacketType_code ServerInfo = 3"

datatype CommandType =
    Login | Terminate | Create | Delete | SendToken | SendResetToken | ResetPassword | ResetState
  | AddFriend | RemoveFriend | AddBlock | RemoveBlock | GetServerFeatures
  | GetBoardInfos | RecordScore | RecordScoreData | GetScoreData | GetScoreRange
  | GetScoreFriends | GetScoreNpid | GetScoreAccountId | GetScoreGameDataByAccId | GetToken
  | SetAppearOffline
  | ContextStart | CreateRoom | JoinRoom | LeaveRoom | SearchRoom | RequestSignalingInfos
  | ContextStop | SetUserInfo | SetRoomDataInternal | SetRoomDataExternal | KickoutRoomMember
  | GetWorldInfoList | GetRoomDataExternalList | GetUserInfoList | GetRoomMemberDataExternalList
  | SendRoomMessage

definition CommandType_table :: "(u16 \<times> CommandType) list" where
  "CommandType_table =
    [(0, Login), (1, Terminate), (2, Create), (3, Delete), (4, SendToken), (5, SendResetToken),
     (6, ResetPassword), (7, ResetState), (8, AddFriend), (9, RemoveFriend), (10, AddBlock),
     (11, RemoveBlock), (12, GetServerFeatures), (30, GetBoardInfos), (31, RecordScore),
     (32, RecordScoreData), (33, GetScoreData), (34, GetScoreRange), (35, GetScoreFriends),
     (36, GetScoreNpid), (37, GetScoreAccountId), (38, GetScoreGameDataByAccId), (39, GetToken),
     (40, SetAppearOffline), (100, ContextStart), (101, CreateRoom), (102, JoinRoom),
     (103, LeaveRoom), (104, SearchRoom), (105, RequestSignalingInfos), (106, ContextStop),
     (107, SetUserInfo), (108, SetRoomDataInternal), (109, SetRoomDataExternal),
     (110, KickoutRoomMember), (111, GetWorldInfoList), (112, GetRoomDataExternalList),
     (113, GetUserInfoList), (114, GetRoomMemberDataExternalList), (115, SendRoomMessage)]"

definition CommandType_of :: "u16 \<Rightarrow> CommandType option" where
  \<comment> \<open>\<open>static_cast<CommandType>\<close>; \<open>None\<close> is a value outside the enumerators\<close>
  "CommandType_of c = map_of CommandType_table c"

datatype NotificationType =
    FriendQuery | FriendNew | FriendLost | FriendStatus | RoomEvent | RoomMessage | WebApiPushEvent

fun NotificationType_code :: "NotificationType \<Rightarrow> u16" where
  "NotificationType_code FriendQuery = 5"
| "NotificationType_code FriendNew = 6"
| "NotificationType_code FriendLost = 7"
| "NotificationType_code FriendStatus = 8"
| "NotificationType_code RoomEvent = 10"
| "NotificationType_code RoomMessage = 11"
| "NotificationType_code WebApiPushEvent = 17"

datatype ErrorType =
    NoError | Malformed | Invalid | InvalidInput | TooSoon | LoginError | LoginAlreadyLoggedIn
  | LoginInvalidUsername | LoginInvalidPassword | LoginInvalidToken | CreationError
  | CreationExistingUsername | CreationBannedEmailProvider | CreationExistingEmail | RoomMissing
  | RoomAlreadyJoined | RoomFull | RoomPasswordMismatch | RoomPasswordMissing
  | RoomGroupNoJoinLabel | RoomGroupFull | RoomGroupJoinLabelNotFound | RoomGroupMaxSlotMismatch
  | Unauthorized | DbFail | EmailFail | NotFound | Blocked | AlreadyFriend | ScoreNotBest
  | ScoreInvalid | ScoreHasData | CondFail | Unsupported

definition ErrorType_list :: "ErrorType list" where
  \<comment> \<open>in the order of their codes 0, 1, ..., 33\<close>
  "ErrorType_list =
    [NoError, Malformed, Invalid, InvalidInput, TooSoon, LoginError, LoginAlreadyLoggedIn,
     LoginInvalidUsername, LoginInvalidPassword, LoginInvalidToken, CreationError,
     CreationExistingUsername, CreationBannedEmailProvider, CreationExistingEmail, RoomMissing,
     RoomAlreadyJoined, RoomFull, RoomPasswordMismatch, RoomPasswordMissing,
     RoomGroupNoJoinLabel, RoomGroupFull, RoomGroupJoinLabelNotFound, RoomGroupMaxSlotMismatch,
     Unauthorized, DbFail, EmailFail, NotFound, Blocked, AlreadyFriend, ScoreNotBest,
     ScoreInvalid, ScoreHasData, CondFail, Unsupported]"

definition ErrorType_code :: "ErrorType \<Rightarrow> u8" where
  "ErrorType_code e = word_of_nat (length (takeWhile (\<lambda>x. x \<noteq> e) ErrorType_list))"

subsection \<open>The receive loop\<close>

text \<open>
  \<open>OnReadyRead\<close> appends what the socket delivered to \<open>m_readBuf\<close> and loops. Its
  observable actions are the packets it hands to \<open>ProcessPacket\<close> and the disconnects it
  asks for; a disconnect returns from the slot. The loop is a partial function: \<open>None\<close>
  means that it never leaves the \<open>while\<close>.
\<close>

datatype rx_event = Packet u16 u64 bytes | Drop

definition hdr_command :: "bytes \<Rightarrow> u16" where
  "hdr_command buf = fromLe (take 2 (drop 1 buf))"

definition hdr_size :: "bytes \<Rightarrow> u32" where
  "hdr_size buf = fromLe (take 4 (drop 3 buf))"

definition hdr_id :: "bytes \<Rightarrow> u64" where
  "hdr_id buf = fromLe (take 8 (drop 7 buf))"

definition rx_payload :: "bytes \<Rightarrow> bytes" where
  \<comment> \<open>\<open>m_readBuf.mid(HEADER_SIZE, pktSize - HEADER_SIZE)\<close>, the difference in 32 bits\<close>
  "rx_payload buf = take (unat (hdr_size buf - HEADER_SIZE)) (drop (unat HEADER_SIZE) buf)"

partial_function (option) rx_loop :: "bytes \<Rightarrow> (rx_event list \<times> bytes) option" where
  "rx_loop buf =
     (if length buf < unat HEADER_SIZE then Some ([], buf)
      else if buf ! 0 \<noteq> PacketType_code Request then Some ([Drop], buf)
      else if hdr_size buf > MAX_PACKET_SIZE then Some ([Drop], buf)
      else if length buf < unat (hdr_size buf) then Some ([], buf)
      else Option.bind (rx_loop (drop (unat (hdr_size buf)) buf))
             (\<lambda>(es, rest). Some (Packet (hdr_command buf) (hdr_id buf) (rx_payload buf) # es, rest)))"

definition OnReadyRead :: "bytes \<Rightarrow> bytes \<Rightarrow> (rx_event list \<times> bytes) option" where
  \<comment> \<open>read buffer, newly arrived bytes\<close>
  "OnReadyRead buf chunk = rx_loop (buf @ chunk)"

subsection \<open>Packets the server builds\<close>

definition packet_header :: "PacketType \<Rightarrow> u16 \<Rightarrow> u32 \<Rightarrow> u64 \<Rightarrow> bytes" where
  "packet_header t c n i =
     appendU64LE (appendU32LE (appendU16LE [PacketType_code t] c) n) i"

definition server_info_packet :: bytes where
  "server_info_packet =
     appendU32LE (packet_header ServerInfo 0 (HEADER_SIZE + 4) 0) PROTOCOL_VERSION"

definition BuildNotification :: "NotificationType \<Rightarrow> bytes \<Rightarrow> bytes" where
  "BuildNotification t payload =
     packet_header Notification (NotificationType_code t)
       (HEADER_SIZE + word_of_nat (length payload)) 0 @ payload"

definition BuildWebApiPushPayload ::
  "bytes \<Rightarrow> u32 \<Rightarrow> bytes \<Rightarrow> bytes \<Rightarrow> bytes \<Rightarrow> bytes \<Rightarrow> (bytes \<times> bytes) list \<Rightarrow> bytes" where
  \<comment> \<open>the strings as their UTF-8 bytes\<close>
  "BuildWebApiPushPayload npServiceName npServiceLabel dataType dat fromNpid toNpid extdData =
     (let p1 = appendU32LE (appendBlob [] npServiceName) npServiceLabel;
          p2 = appendBlob (appendBlob (appendBlob (appendBlob p1 dataType) dat) fromNpid) toNpid;
          p3 = appendU32LE p2 (word_of_nat (length extdData))
      in foldl (\<lambda>p (k, v). appendBlob (appendBlob p k) v) p3 extdData)"

text \<open>
  \<open>ProcessPacket\<close> lays out the reply header, lets the command append its body, and then
  writes the error byte and the final size into the buffer.
\<close>

definition ProcessPacket_reply :: "u16 \<Rightarrow> u64 \<Rightarrow> ErrorType \<Rightarrow> bytes \<Rightarrow> bytes" where
  "ProcessPacket_reply command packetId result body =
     (let reply = packet_header Reply command HEADER_SIZE packetId @ [ErrorType_code NoError] @ body;
          reply = reply[unat HEADER_SIZE := ErrorType_code result]
      in fixPacketSize reply)"


subsection \<open>The client's side of the framing\<close>

text \<open>
  \<open>clientsample/client.cpp\<close> builds the request packets and
  \<open>clientsample/connection.cpp\<close> splits the byte stream it receives; unlike the server's
  loop it drops its buffer when a size is below the header size.
\<close>

definition buildPacket :: "u16 \<Rightarrow> u64 \<Rightarrow> bytes \<Rightarrow> bytes" where
  "buildPacket cmd i payload =
     (let totalSize = HEADER_SIZE + word_of_nat (length payload) :: u32
      in [PacketType_code Request] @ toLe 2 cmd @ toLe 4 totalSize @ toLe 8 i @ payload)"

datatype client_packet = ClientPacket u8 u16 u32 u64 bytes

function client_parse :: "bytes \<Rightarrow> client_packet list \<times> bytes" where
  "client_parse buf =
     (if length buf < unat HEADER_SIZE then ([], buf)
      else if hdr_size buf < HEADER_SIZE then ([], [])
      else if length buf < unat (hdr_size buf) then ([], buf)
      else (let (ps, rest) = client_parse (drop (unat (hdr_size buf)) buf)
            in (ClientPacket (buf ! 0) (hdr_command buf) (hdr_size buf) (hdr_id buf)
                  (drop (unat HEADER_SIZE) (take (unat (hdr_size buf)) buf)) # ps, rest)))"
  by pat_completeness auto
termination
  by (relation "measure length") (auto simp: HEADER_SIZE_def word_less_nat_alt)

declare client_parse.simps [simp del]

fun receive_all ::
  "(bytes \<Rightarrow> ('e list \<times> bytes) option) \<Rightarrow> bytes \<Rightarrow> bytes list \<Rightarrow> ('e list \<times> bytes) option" where
  \<comment> \<open>the events of a sequence of deliveries, each appended to what the last one left\<close>
  "receive_all recv buf [] = Some ([], buf)"
| "receive_all recv buf (c # cs) =
     Option.bind (recv (buf @ c)) (\<lambda>(es, buf').
       Option.bind (receive_all recv buf' cs) (\<lambda>(fs, rest). Some (es @ fs, rest)))"

subsection \<open>Receivers do not see packet boundaries of the transport\<close>

text \<open>
  What both receive loops rely on: a whole frame at the front of the buffer is one event, and a
  proper prefix of a frame is left alone. From this, any way TCP cuts the byte stream into
  deliveries yields the same events.
\<close>

locale frame_receiver =
  fixes recv :: "bytes \<Rightarrow> ('e list \<times> bytes) option"
    and frame :: "'p \<Rightarrow> bytes"
    and ev :: "'p \<Rightarrow> 'e"
    and ok :: "'p \<Rightarrow> bool"
  assumes recv_Nil: "recv [] = Some ([], [])"
    and recv_frame: "ok p \<Longrightarrow>
      recv (frame p @ rest) = Option.bind (recv rest) (\<lambda>(es, r). Some (ev p # es, r))"
    and recv_partial: "ok p \<Longrightarrow> frame p = xs @ ys \<Longrightarrow> ys \<noteq> [] \<Longrightarrow> recv xs = Some ([], xs)"
begin

lemma recv_frames_then:
  "list_all ok ps \<Longrightarrow> recv xs = Some ([], xs) \<Longrightarrow>
     recv (concat (map frame ps) @ xs) = Some (map ev ps, xs)"
  by (induction ps) (simp_all add: recv_frame)

lemma recv_prefix:
  assumes "list_all ok ps" and "concat (map frame ps) = xs @ ys"
  shows "\<exists>ps1 ps2 part. ps = ps1 @ ps2 \<and> recv xs = Some (map ev ps1, part) \<and>
           concat (map frame ps2) = part @ ys \<and> recv part = Some ([], part)"
  using assms
proof (induction ps arbitrary: xs)
  case Nil
  then show ?case by (simp add: recv_Nil)
next
  case (Cons p ps)
  from Cons.prems have ok: "ok p" "list_all ok ps" by simp_all
  from Cons.prems(2) have eq: "frame p @ concat (map frame ps) = xs @ ys" by simp
  then obtain us where "frame p = xs @ us \<and> us @ concat (map frame ps) = ys
      \<or> frame p @ us = xs \<and> concat (map frame ps) = us @ ys"
    by (auto simp: append_eq_append_conv2)
  then consider (inside) "frame p = xs @ us" "us \<noteq> []"
    | (past) "xs = frame p @ us" "concat (map frame ps) = us @ ys"
    by (cases "us = []") auto
  then show ?case
  proof cases
    case inside
    with ok have "recv xs = Some ([], xs)" by (blast intro: recv_partial)
    with Cons.prems(2) show ?thesis
      by (intro exI [of _ "[]"] exI [of _ "p # ps"] exI [of _ xs]) simp
  next
    case past
    from Cons.IH [OF ok(2) past(2)] obtain ps1 ps2 part where
      "ps = ps1 @ ps2" "recv us = Some (map ev ps1, part)" "concat (map frame ps2) = part @ ys"
      "recv part = Some ([], part)"
      by blast
    with past(1) ok(1) show ?thesis
      by (intro exI [of _ "p # ps1"] exI [of _ ps2] exI [of _ part]) (simp add: recv_frame)
  qed
qed

lemma receive_chunks:
  assumes "list_all ok ps" and "buf @ concat chunks = concat (map frame ps)"
    and "recv buf = Some ([], buf)"
  shows "receive_all recv buf chunks = Some (map ev ps, [])"
  using assms
proof (induction chunks arbitrary: buf ps)
  case Nil
  then have "recv buf = Some (map ev ps, [])"
    using recv_frames_then [OF Nil.prems(1) recv_Nil] by simp
  with Nil.prems(3) show ?case by simp
next
  case (Cons c cs)
  from Cons.prems(2) have "concat (map frame ps) = (buf @ c) @ concat cs" by simp
  from recv_prefix [OF Cons.prems(1) this] obtain ps1 ps2 part where
    ps: "ps = ps1 @ ps2" and r: "recv (buf @ c) = Some (map ev ps1, part)"
    and eq: "concat (map frame ps2) = part @ concat cs" and part: "recv part = Some ([], part)"
    by blast
  from Cons.prems(1) ps have "list_all ok ps2" by simp
  with Cons.IH eq part have "receive_all recv part cs = Some (map ev ps2, [])" by simp
  with r ps show ?case by simp
qed

end

subsection \<open>Headers\<close>

definition hdr15 :: "u8 \<Rightarrow> u16 \<Rightarrow> u32 \<Rightarrow> u64 \<Rightarrow> bytes" where
  "hdr15 t c n i = [t] @ toLe 2 c @ toLe 4 n @ toLe 8 i"

lemma length_hdr15 [simp]: "length (hdr15 t c n i) = 15"
  by (simp add: hdr15_def)

lemma hdr15_fields [simp]:
  "hdr_command (hdr15 t c n i @ zs) = c"
  "hdr_size (hdr15 t c n i @ zs) = n"
  "hdr_id (hdr15 t c n i @ zs) = i"
  "(hdr15 t c n i @ zs) ! 0 = t"
  by (simp_all add: hdr15_def hdr_command_def hdr_size_def hdr_id_def fromLe_toLe)

lemma packet_header_eq: "packet_header t c n i = hdr15 (PacketType_code t) c n i"
  by (simp add: packet_header_def append_eqs hdr15_def)

lemma buildPacket_eq:
  "buildPacket c i payload =
     hdr15 0 c (HEADER_SIZE + word_of_nat (length payload)) i @ payload"
  by (simp add: buildPacket_def hdr15_def)

lemma unat_HEADER_SIZE [simp]: "unat HEADER_SIZE = 15"
  by (simp add: HEADER_SIZE_def)

lemma unat_total:
  "length payload < 2 ^ 32 - 15 \<Longrightarrow>
     unat (HEADER_SIZE + word_of_nat (length payload) :: u32) = 15 + length payload"
  by (simp add: HEADER_SIZE_def unat_word_ariths unat_of_nat_small)

lemma size_minus_header:
  "length payload < 2 ^ 32 - 15 \<Longrightarrow>
     unat ((HEADER_SIZE + word_of_nat (length payload) :: u32) - HEADER_SIZE) = length payload"
  by (simp add: unat_of_nat_small)

lemma hdr15_prefix:
  assumes "hdr15 t c n i @ payload = xs @ ys" and "15 \<le> length xs"
  obtains zs where "xs = hdr15 t c n i @ zs" and "payload = zs @ ys"
proof -
  from assms obtain us where
    "hdr15 t c n i = xs @ us \<and> us @ payload = ys \<or> hdr15 t c n i @ us = xs \<and> payload = us @ ys"
    by (auto simp: append_eq_append_conv2)
  then show thesis
  proof
    assume a: "hdr15 t c n i = xs @ us \<and> us @ payload = ys"
    then have "length xs + length us = 15"
      by (metis length_append length_hdr15)
    with assms(2) have "us = []" by (cases us) auto
    with a show thesis by (intro that [of "[]"]) simp_all
  qed (auto intro: that)
qed

subsection \<open>The server's loop as a receiver of request frames\<close>

abbreviation request_frame :: "u16 \<times> u64 \<times> bytes \<Rightarrow> bytes" where
  "request_frame \<equiv> \<lambda>(c, i, p). buildPacket c i p"

abbreviation request_event :: "u16 \<times> u64 \<times> bytes \<Rightarrow> rx_event" where
  "request_event \<equiv> \<lambda>(c, i, p). Packet c i p"

definition request_ok :: "u16 \<times> u64 \<times> bytes \<Rightarrow> bool" where
  "request_ok = (\<lambda>(c, i, p). length p + 15 \<le> unat MAX_PACKET_SIZE)"

lemma request_size:
  assumes "length p + 15 \<le> unat MAX_PACKET_SIZE"
  shows "unat (HEADER_SIZE + word_of_nat (length p) :: u32) = 15 + length p"
    and "unat ((HEADER_SIZE + word_of_nat (length p) :: u32) - HEADER_SIZE) = length p"
    and "\<not> HEADER_SIZE + word_of_nat (length p) > MAX_PACKET_SIZE"
proof -
  from assms have l: "length p < 2 ^ 32 - 15" by (simp add: MAX_PACKET_SIZE_def)
  show u: "unat (HEADER_SIZE + word_of_nat (length p) :: u32) = 15 + length p"
    by (rule unat_total [OF l])
  show "unat ((HEADER_SIZE + word_of_nat (length p) :: u32) - HEADER_SIZE) = length p"
    by (rule size_minus_header [OF l])
  show "\<not> HEADER_SIZE + word_of_nat (length p) > MAX_PACKET_SIZE"
    using assms u by (simp add: word_less_nat_alt)
qed

lemma rx_loop_frame:
  assumes "length p + 15 \<le> unat MAX_PACKET_SIZE"
  shows "rx_loop (buildPacket c i p @ rest) =
           Option.bind (rx_loop rest) (\<lambda>(es, r). Some (Packet c i p # es, r))"
  using request_size [OF assms]
  by (subst rx_loop.simps) (simp add: buildPacket_eq rx_payload_def)

lemma rx_loop_partial:
  assumes l: "length p + 15 \<le> unat MAX_PACKET_SIZE"
    and eq: "buildPacket c i p = xs @ ys" and ne: "ys \<noteq> []"
  shows "rx_loop xs = Some ([], xs)"
proof (cases "15 \<le> length xs")
  case False
  then show ?thesis by (subst rx_loop.simps) simp
next
  case True
  with eq obtain zs where
    "xs = hdr15 0 c (HEADER_SIZE + word_of_nat (length p)) i @ zs" and "p = zs @ ys"
    unfolding buildPacket_eq by (rule hdr15_prefix)
  with ne request_size [OF l] show ?thesis
    by (subst rx_loop.simps) simp
qed

interpretation server_rx: frame_receiver rx_loop request_frame request_event request_ok
proof unfold_locales
  show "rx_loop [] = Some ([], [])" by (subst rx_loop.simps) simp
next
  fix p rest assume "request_ok p"
  then show "rx_loop (request_frame p @ rest) =
      Option.bind (rx_loop rest) (\<lambda>(es, r). Some (request_event p # es, r))"
    by (cases p) (simp add: request_ok_def rx_loop_frame)
next
  fix p xs ys assume "request_ok p" "request_frame p = xs @ ys" "ys \<noteq> ([] :: bytes)"
  then show "rx_loop xs = Some ([], xs)"
    by (cases p) (auto simp: request_ok_def intro: rx_loop_partial)
qed


subsection \<open>The client's loop as a receiver of server frames\<close>

abbreviation server_frame :: "u8 \<times> u16 \<times> u64 \<times> bytes \<Rightarrow> bytes" where
  "server_frame \<equiv> \<lambda>(t, c, i, p). hdr15 t c (HEADER_SIZE + word_of_nat (length p)) i @ p"

abbreviation server_event :: "u8 \<times> u16 \<times> u64 \<times> bytes \<Rightarrow> client_packet" where
  "server_event \<equiv> \<lambda>(t, c, i, p). ClientPacket t c (HEADER_SIZE + word_of_nat (length p)) i p"

definition frame_ok :: "u8 \<times> u16 \<times> u64 \<times> bytes \<Rightarrow> bool" where
  "frame_ok = (\<lambda>(t, c, i, p). length p < 2 ^ 32 - 15)"

lemma client_parse_frame:
  assumes "length p < 2 ^ 32 - 15"
  shows "client_parse (server_frame (t, c, i, p) @ rest) =
           (let (ps, r) = client_parse rest in (server_event (t, c, i, p) # ps, r))"
proof -
  have "\<not> HEADER_SIZE + word_of_nat (length p) < HEADER_SIZE"
    using unat_total [OF assms] by (simp add: word_less_nat_alt)
  then show ?thesis
    using unat_total [OF assms] by (subst client_parse.simps) simp
qed

lemma client_parse_partial:
  assumes l: "length p < 2 ^ 32 - 15" and eq: "server_frame (t, c, i, p) = xs @ ys" and ne: "ys \<noteq> []"
  shows "client_parse xs = ([], xs)"
proof (cases "15 \<le> length xs")
  case False
  then show ?thesis by (subst client_parse.simps) simp
next
  case True
  from eq have "hdr15 t c (HEADER_SIZE + word_of_nat (length p)) i @ p = xs @ ys" by simp
  then obtain zs where "xs = hdr15 t c (HEADER_SIZE + word_of_nat (length p)) i @ zs" and "p = zs @ ys"
    using True by (rule hdr15_prefix)
  moreover have "\<not> HEADER_SIZE + word_of_nat (length p) < HEADER_SIZE"
    using unat_total [OF l] by (simp add: word_less_nat_alt)
  ultimately show ?thesis
    using ne unat_total [OF l] by (subst client_parse.simps) simp
qed

definition client_recv :: "bytes \<Rightarrow> (client_packet list \<times> bytes) option" where
  "client_recv buf = Some (client_parse buf)"

interpretation client_rx: frame_receiver client_recv server_frame server_event frame_ok
proof unfold_locales
  show "client_recv [] = Some ([], [])"
    by (simp add: client_recv_def client_parse.simps [of "[]"])
next
  fix p rest assume "frame_ok p"
  then show "client_recv (server_frame p @ rest) =
      Option.bind (client_recv rest) (\<lambda>(es, r). Some (server_event p # es, r))"
    by (cases p) (simp add: frame_ok_def client_recv_def client_parse_frame [simplified] split: prod.split)
next
  fix p xs ys assume "frame_ok p" "server_frame p = xs @ ys" "ys \<noteq> ([] :: bytes)"
  then show "client_recv xs = Some ([], xs)"
    by (cases p) (auto simp: frame_ok_def client_recv_def intro: client_parse_partial)
qed

lemma BuildNotification_frame:
  "BuildNotification t p = server_frame (PacketType_code Notification, NotificationType_code t, 0, p)"
  by (simp add: BuildNotification_def packet_header_eq)

lemma hdr15_unfold:
  "hdr15 t c n i = t # ucast (c AND 0xFF) # ucast (drop_bit 8 c AND 0xFF) #
     ucast (n AND 0xFF) # ucast (drop_bit 8 n AND 0xFF) # ucast (drop_bit 16 n AND 0xFF) #
     ucast (drop_bit 24 n AND 0xFF) # toLe 8 i"
  by (simp add: hdr15_def toLe_def [of 2] toLe_def [of 4] upt_2 upt_4)

lemma fixPacketSize_hdr15:
  "fixPacketSize (hdr15 t c n i @ rest) = hdr15 t c (15 + word_of_nat (length rest)) i @ rest"
  by (simp add: fixPacketSize_def Let_def hdr15_unfold eval_nat_numeral)

lemma ProcessPacket_reply_frame:
  "ProcessPacket_reply c i e body = server_frame (PacketType_code Reply, c, i, ErrorType_code e # body)"
proof -
  have "(hdr15 1 c HEADER_SIZE i @ ErrorType_code NoError # body)[15 := ErrorType_code e]
      = hdr15 1 c HEADER_SIZE i @ ErrorType_code e # body"
    by (simp add: list_update_append)
  then show ?thesis
    by (simp add: ProcessPacket_reply_def packet_header_eq fixPacketSize_hdr15 HEADER_SIZE_def)
qed

subsection \<open>When the receive loop does not end\<close>

definition rx_ready :: "bytes \<Rightarrow> bool" where
  \<comment> \<open>the loop body runs to its end and the loop goes on with a shorter or equal buffer\<close>
  "rx_ready buf \<longleftrightarrow> 15 \<le> length buf \<and> buf ! 0 = 0 \<and> hdr_size buf \<le> MAX_PACKET_SIZE
     \<and> unat (hdr_size buf) \<le> length buf"

inductive rx_reaches :: "bytes \<Rightarrow> bytes \<Rightarrow> bool" where
  here: "rx_reaches buf buf"
| next_packet: "rx_ready buf \<Longrightarrow> rx_reaches (drop (unat (hdr_size buf)) buf) b \<Longrightarrow> rx_reaches buf b"

lemma rx_loop_step:
  "rx_ready buf \<Longrightarrow> rx_loop buf =
     Option.bind (rx_loop (drop (unat (hdr_size buf)) buf))
       (\<lambda>(es, rest). Some (Packet (hdr_command buf) (hdr_id buf) (rx_payload buf) # es, rest))"
  by (subst rx_loop.simps) (auto simp: rx_ready_def)

lemma rx_loop_stop: "\<not> rx_ready buf \<Longrightarrow> \<exists>r. rx_loop buf = Some r"
  by (subst rx_loop.simps) (auto simp: rx_ready_def)

lemma rx_loop_zero:
  assumes z: "rx_ready buf" "hdr_size buf = 0"
  shows "rx_loop buf = None"
proof (rule ccontr)
  assume "rx_loop buf \<noteq> None"
  then obtain r where r: "rx_loop buf = Some r" by blast
  have "\<not> (rx_ready buf \<and> hdr_size buf = 0)"
  proof (rule rx_loop.raw_induct [where P = "\<lambda>b r. \<not> (rx_ready b \<and> hdr_size b = 0)", OF _ r])
    fix f b q
    assume IH: "\<And>b q. f b = Some q \<Longrightarrow> \<not> (rx_ready b \<and> hdr_size b = 0)"
      and eq: "(if length b < unat HEADER_SIZE then Some ([], b)
        else if b ! 0 \<noteq> PacketType_code Request then Some ([Drop], b)
        else if hdr_size b > MAX_PACKET_SIZE then Some ([Drop], b)
        else if length b < unat (hdr_size b) then Some ([], b)
        else Option.bind (f (drop (unat (hdr_size b)) b))
          (\<lambda>(es, rest). Some (Packet (hdr_command b) (hdr_id b) (rx_payload b) # es, rest))) = Some q"
    show "\<not> (rx_ready b \<and> hdr_size b = 0)"
    proof
      assume a: "rx_ready b \<and> hdr_size b = 0"
      then have "Option.bind (f b) (\<lambda>(es, rest).
          Some (Packet (hdr_command b) (hdr_id b) (rx_payload b) # es, rest)) = Some q"
        using eq by (auto simp: rx_ready_def split: if_splits)
      then obtain q' where "f b = Some q'" by (auto simp: bind_eq_Some_conv)
      with IH a show False by blast
    qed
  qed
  with z show False by blast
qed

lemma rx_loop_reaches_None: "rx_reaches buf b \<Longrightarrow> rx_loop b = None \<Longrightarrow> rx_loop buf = None"
  by (induction rule: rx_reaches.induct) (simp_all add: rx_loop_step)

lemma rx_loop_terminates:
  "(\<And>b. rx_reaches buf b \<Longrightarrow> rx_ready b \<Longrightarrow> hdr_size b \<noteq> 0) \<Longrightarrow> \<exists>r. rx_loop buf = Some r"
proof (induction "length buf" arbitrary: buf rule: less_induct)
  case less
  show ?case
  proof (cases "rx_ready buf")
    case False
    then show ?thesis by (rule rx_loop_stop)
  next
    case True
    with less.prems have "hdr_size buf \<noteq> 0" by (blast intro: here)
    then have "0 < unat (hdr_size buf)" by (simp add: unat_gt_0)
    then have "length (drop (unat (hdr_size buf)) buf) < length buf"
      using True by (auto simp: rx_ready_def)
    moreover have "rx_reaches (drop (unat (hdr_size buf)) buf) b \<Longrightarrow> rx_ready b \<Longrightarrow> hdr_size b \<noteq> 0" for b
      using less.prems True by (blast intro: next_packet)
    ultimately obtain r where "rx_loop (drop (unat (hdr_size buf)) buf) = Some r"
      using less.hyps by blast
    with True show ?thesis by (simp add: rx_loop_step split: prod.split)
  qed
qed

subsection \<open>Dispatch\<close>

text \<open>
  Which handler \<open>DispatchCommand\<close> calls for a command word: \<open>None\<close> is a word
  outside the enumerators. Four enumerators have no case.
\<close>

datatype dispatch = DTerminate | DHandle CommandType | DReject ErrorType

definition has_handler :: "CommandType \<Rightarrow> bool" where
  "has_handler cmd \<longleftrightarrow> cmd \<notin> {Terminate, SendToken, SendResetToken, ResetPassword, ResetState}"

definition DispatchCommand :: "bool \<Rightarrow> CommandType option \<Rightarrow> dispatch" where
  "DispatchCommand authenticated cmd =
     (if cmd = Some Terminate then DTerminate
      else if \<not> authenticated then
        (case cmd of
           Some Login \<Rightarrow> DHandle Login
         | Some Create \<Rightarrow> DHandle Create
         | _ \<Rightarrow> DReject Unauthorized)
      else (case cmd of
              None \<Rightarrow> DReject Invalid
            | Some c \<Rightarrow> if has_handler c then DHandle c else DReject Invalid))"

definition LeadsWithComId :: "CommandType \<Rightarrow> bool" where
  "LeadsWithComId cmd \<longleftrightarrow>
     cmd \<in> {GetBoardInfos, RecordScore, RecordScoreData, GetScoreData, GetScoreRange,
            GetScoreFriends, GetScoreNpid, GetScoreAccountId, GetScoreGameDataByAccId}"

subsection \<open>Properties\<close>

text \<open>C22: However TCP cuts the byte stream of a client's requests into deliveries, the server
  hands exactly those requests, in order, to \<open>ProcessPacket\<close>, and its read buffer is
  empty at the end.\<close>

theorem server_receives_requests:
  assumes "list_all (\<lambda>(c, i, p). length p + 15 \<le> unat MAX_PACKET_SIZE) ps"
    and "concat chunks = concat (map (\<lambda>(c, i, p). buildPacket c i p) ps)"
  shows "receive_all rx_loop [] chunks = Some (map (\<lambda>(c, i, p). Packet c i p) ps, [])"
  using server_rx.receive_chunks [of ps "[]" chunks] assms server_rx.recv_Nil
  by (simp add: request_ok_def)

lemma server_receives_requests_witness:
  "receive_all rx_loop [] [take 10 (buildPacket 8 1 [1, 2]), drop 10 (buildPacket 8 1 [1, 2])]
     = Some ([Packet 8 1 [1, 2]], [])"
  using server_receives_requests [of "[(8, 1, [1, 2])]"
      "[take 10 (buildPacket 8 1 [1, 2]), drop 10 (buildPacket 8 1 [1, 2])]"]
  by (simp add: MAX_PACKET_SIZE_def)

text \<open>The server's packets are what the client's parser splits off: any cutting of a stream
  of replies and notifications into deliveries gives the client those packets, with their type,
  command, id and payload (a reply's payload starts with its error byte).\<close>

theorem client_receives_packets:
  assumes "\<forall>(c, i, e, b) \<in> set rs. length b < 2 ^ 32 - 16"
    and "\<forall>(t, p) \<in> set ns. length p < 2 ^ 32 - 16" and "concat chunks = concat (map (\<lambda>(c, i, e, b). ProcessPacket_reply c i e b) rs @
           map (\<lambda>(t, p). BuildNotification t p) ns)"
  shows "receive_all client_recv [] chunks = Some
    (map (\<lambda>(c, i, e, b). ClientPacket 1 c (HEADER_SIZE + word_of_nat (Suc (length b))) i (ErrorType_code e # b)) rs @
     map (\<lambda>(t, p). ClientPacket 2 (NotificationType_code t) (HEADER_SIZE + word_of_nat (length p)) 0 p) ns, [])"
proof -
  let ?ps = "map (\<lambda>(c, i, e, b). (PacketType_code Reply, c, i, ErrorType_code e # b)) rs @
      map (\<lambda>(t, p). (PacketType_code Notification, NotificationType_code t, 0, p)) ns"
  have ok: "list_all frame_ok ?ps"
    using assms(1,2) by (fastforce simp: list_all_iff frame_ok_def)
  have "concat chunks = concat (map server_frame ?ps)"
    unfolding assms(3) by (simp add: comp_def split_def ProcessPacket_reply_frame BuildNotification_frame)
  with client_rx.receive_chunks [OF ok, of "[]" chunks] client_rx.recv_Nil
  show ?thesis by (simp add: comp_def split_def)
qed

lemma client_receives_packets_witness:
  "receive_all client_recv [] [ProcessPacket_reply 8 3 NotFound [], BuildNotification FriendNew [7]]
     = Some ([ClientPacket 1 8 (HEADER_SIZE + 1) 3 [ErrorType_code NotFound],
              ClientPacket 2 6 (HEADER_SIZE + 1) 0 [7]], [])"
  using client_receives_packets [of "[(8, 3, NotFound, [])]" "[(FriendNew, [7])]"
      "[ProcessPacket_reply 8 3 NotFound [], BuildNotification FriendNew [7]]"]
  by simp

text \<open>C40: The receive loop fails to end on exactly the buffers from which, packet by packet, it
  comes to a complete request header that claims size 0; one such header of 15 bytes makes the
  server spin.\<close>

theorem receive_loop_hangs_iff:
  "rx_loop buf = None \<longleftrightarrow> (\<exists>b. rx_reaches buf b \<and> rx_ready b \<and> hdr_size b = 0)"
  using rx_loop_terminates [of buf] rx_loop_zero rx_loop_reaches_None by fastforce

text \<open>Without a login only Login, Create and Terminate are acted on; every other command
  word, known or not, is answered with Unauthorized. With one, every command is handled except
  the four without a case and words outside the enumeration, which are answered with
  Invalid.\<close>

theorem dispatch_authorisation:
  "(DispatchCommand False cmd = DHandle c \<longrightarrow> c \<in> {Login, Create}) \<and>
   (cmd \<notin> {Some Login, Some Create, Some Terminate} \<longrightarrow> DispatchCommand False cmd = DReject Unauthorized) \<and>
   (DispatchCommand True cmd = DHandle c \<longleftrightarrow> cmd = Some c \<and> has_handler c) \<and>
   (DispatchCommand True cmd = DReject e \<longrightarrow> e = Invalid)"
  by (auto simp: DispatchCommand_def has_handler_def split: option.splits CommandType.splits if_splits)

lemma dispatch_authorisation_witness: "DispatchCommand False (Some CreateRoom) = DReject Unauthorized"
  using dispatch_authorisation [of "Some CreateRoom" Login Invalid] by simp

end
