(* ===== verification/Rooms.thy ===== *)
theory Rooms
  imports Prelude
begin

text \<open>
  The room data model of \<open>src/matching_types.h\<close> and \<open>src/matching.h\<close>, and the
  slot arithmetic of \<open>src/cmd_matching.cpp\<close>. Each struct is a record whose fields carry
  the struct's prefix (\<open>r_\<close> for \<open>Room\<close>, \<open>rm_\<close> for \<open>RoomMember\<close>, and
  so on); the default member initialisers are the \<open>..._default\<close> constants.
\<close>

subsection \<open>Constants\<close>

definition SEARCHABLE_INT_ATTR_EXTERNAL_1_ID :: u16 where "SEARCHABLE_INT_ATTR_EXTERNAL_1_ID = 0x4C"
definition SEARCHABLE_INT_ATTR_EXTERNAL_8_ID :: u16 where "SEARCHABLE_INT_ATTR_EXTERNAL_8_ID = 0x53"
definition SEARCHABLE_BIN_ATTR_EXTERNAL_1_ID :: u16 where "SEARCHABLE_BIN_ATTR_EXTERNAL_1_ID = 0x54"
definition BIN_ATTR_EXTERNAL_1_ID :: u16 where "BIN_ATTR_EXTERNAL_1_ID = 0x55"
definition BIN_ATTR_EXTERNAL_2_ID :: u16 where "BIN_ATTR_EXTERNAL_2_ID = 0x56"
definition BIN_ATTR_INTERNAL_1_ID :: u16 where "BIN_ATTR_INTERNAL_1_ID = 0x57"
definition BIN_ATTR_INTERNAL_2_ID :: u16 where "BIN_ATTR_INTERNAL_2_ID = 0x58"

definition FLAG_ATTR_FULL :: u32 where "FLAG_ATTR_FULL = 0x20000000"
definition FLAG_ATTR_HIDDEN :: u32 where "FLAG_ATTR_HIDDEN = 0x10000000"
definition FLAG_ATTR_NAT_TYPE_RESTRICTION :: u32 where "FLAG_ATTR_NAT_TYPE_RESTRICTION = 0x04000000"
definition MEMBER_FLAG_ATTR_OWNER :: u32 where "MEMBER_FLAG_ATTR_OWNER = 0x80000000"

definition EVENT_MEMBER_JOINED :: u32 where "EVENT_MEMBER_JOINED = 0x1101"
definition EVENT_MEMBER_LEFT :: u32 where "EVENT_MEMBER_LEFT = 0x1102"
definition EVENT_KICKEDOUT :: u32 where "EVENT_KICKEDOUT = 0x1103"
definition EVENT_UPDATED_ROOM_DATA_INTERNAL :: u32 where "EVENT_UPDATED_ROOM_DATA_INTERNAL = 0x1106"

definition CAUSE_LEAVE_ACTION :: u32 where "CAUSE_LEAVE_ACTION = 1"
definition CAUSE_KICKOUT_ACTION :: u32 where "CAUSE_KICKOUT_ACTION = 2"
definition CAUSE_SERVER_OPERATION :: u32 where "CAUSE_SERVER_OPERATION = 4"

definition SESSION_PASSWORD_SIZE :: nat where "SESSION_PASSWORD_SIZE = 8"

subsection \<open>Records\<close>

record IntAttrSlot =
  ia_set :: bool
  ia_attrId :: u16
  ia_value :: u32

record BinAttrSlot =
  ba_set :: bool
  ba_attrId :: u16
  ba_data :: bytes

record InternalBinAttrSlot =
  ib_set :: bool
  ib_attrId :: u16
  ib_data :: bytes
  ib_updateDate :: u64
  ib_updateMemberId :: u16

record MemberBinAttrSlot =
  mb_set :: bool
  mb_attrId :: u16
  mb_data :: bytes
  mb_updateDate :: u64

record RoomGroup =
  g_groupId :: u8
  g_slotNum :: u32
  g_label :: "bytes option"
  g_fixedLabel :: bool
  g_withPassword :: bool
  g_numMembers :: u32

record RoomMember =
  rm_memberId :: u16
  rm_userId :: userid
  rm_npid :: qstring
  rm_onlineName :: qstring
  rm_avatarUrl :: qstring
  rm_addr :: qstring
  rm_port :: u16
  rm_platform :: u32
  rm_blockedUsers :: "qstring list"
  rm_blockedAccountIds :: "u64 list"
  rm_joinDate :: u64
  rm_flagAttr :: u32
  rm_teamId :: u8
  rm_groupId :: u8
  rm_natType :: u8
  rm_memberBinAttr :: MemberBinAttrSlot

record Room =
  r_roomId :: u64
  r_serverId :: u16
  r_worldId :: u32
  r_lobbyId :: u64
  r_maxSlot :: u16
  r_publicSlots :: u16
  r_privateSlots :: u16
  r_openPublicSlots :: u16
  r_openPrivateSlots :: u16
  r_passwdSlotMask :: u64
  r_flagAttr :: u32
  r_roomPassword :: "bytes option"
  r_allowedUsers :: "qstring list"
  r_blockedUsers :: "qstring list"
  r_allowedAccountIds :: "u64 list"
  r_blockedAccountIds :: "u64 list"
  r_ownerMemberId :: u16
  r_ownerSuccession :: "u16 list"
  r_groups :: "RoomGroup list"
  r_searchIntAttr :: "IntAttrSlot list"
  r_searchBinAttr :: BinAttrSlot
  r_externalBinAttr :: "BinAttrSlot list"
  r_internalBinAttr :: "InternalBinAttrSlot list"
  r_signalingType :: u8
  r_signalingFlag :: u8
  r_signalingHubMemberId :: u16
  r_members :: "(u16, RoomMember) qhash"
  r_memberIdCounter :: u16

record WorldConfig =
  wc_worldId :: u32
  wc_serverId :: u16
  wc_lobbiesNum :: u32
  wc_maxLobbyMembersNum :: u32

definition IntAttrSlot_default :: IntAttrSlot where
  "IntAttrSlot_default = \<lparr>ia_set = False, ia_attrId = 0, ia_value = 0\<rparr>"

definition BinAttrSlot_default :: BinAttrSlot where
  "BinAttrSlot_default = \<lparr>ba_set = False, ba_attrId = 0, ba_data = []\<rparr>"

definition InternalBinAttrSlot_default :: InternalBinAttrSlot where
  "InternalBinAttrSlot_default =
     \<lparr>ib_set = False, ib_attrId = 0, ib_data = [], ib_updateDate = 0, ib_updateMemberId = 0\<rparr>"

definition MemberBinAttrSlot_default :: MemberBinAttrSlot where
  "MemberBinAttrSlot_default = \<lparr>mb_set = False, mb_attrId = 0, mb_data = [], mb_updateDate = 0\<rparr>"

definition RoomGroup_default :: RoomGroup where
  "RoomGroup_default = \<lparr>g_groupId = 0, g_slotNum = 0, g_label = None, g_fixedLabel = False,
     g_withPassword = False, g_numMembers = 0\<rparr>"

definition RoomMember_default :: RoomMember where
  "RoomMember_default = \<lparr>rm_memberId = 0, rm_userId = 0, rm_npid = [], rm_onlineName = [],
     rm_avatarUrl = [], rm_addr = [], rm_port = 0, rm_platform = 3, rm_blockedUsers = [],
     rm_blockedAccountIds = [], rm_joinDate = 0, rm_flagAttr = 0, rm_teamId = 0, rm_groupId = 0,
     rm_natType = 0, rm_memberBinAttr = MemberBinAttrSlot_default\<rparr>"

definition Room_default :: Room where
  "Room_default = \<lparr>r_roomId = 0, r_serverId = 1, r_worldId = 0, r_lobbyId = 0, r_maxSlot = 0,
     r_publicSlots = 0, r_privateSlots = 0, r_openPublicSlots = 0, r_openPrivateSlots = 0,
     r_passwdSlotMask = 0, r_flagAttr = 0, r_roomPassword = None, r_allowedUsers = [],
     r_blockedUsers = [], r_allowedAccountIds = [], r_blockedAccountIds = [],
     r_ownerMemberId = 0, r_ownerSuccession = [], r_groups = [],
     r_searchIntAttr = replicate 8 IntAttrSlot_default, r_searchBinAttr = BinAttrSlot_default,
     r_externalBinAttr = replicate 2 BinAttrSlot_default,
     r_internalBinAttr = replicate 2 InternalBinAttrSlot_default,
     r_signalingType = 0, r_signalingFlag = 0, r_signalingHubMemberId = 0,
     r_members = [], r_memberIdCounter = 0\<rparr>"

subsection \<open>Member ids\<close>

definition slotOf :: "u16 \<Rightarrow> u16" where
  "slotOf memberId = drop_bit 4 memberId"

definition slotTaken :: "Room \<Rightarrow> nat \<Rightarrow> bool" where
  "slotTaken room slot \<longleftrightarrow>
     list_ex (\<lambda>m. slotOf (rm_memberId m) = word_of_nat slot) (qvalues (r_members room))"

definition firstFreeSlot :: "Room \<Rightarrow> nat" where
  \<comment> \<open>the \<open>for\<close> loop over slots 1..64, which leaves 65 when it finds none free\<close>
  "firstFreeSlot room =
     (case List.find (\<lambda>s. \<not> slotTaken room s) [1..<65] of None \<Rightarrow> 65 | Some s \<Rightarrow> s)"

definition allocMemberId :: "Room \<Rightarrow> u16 \<times> Room" where
  "allocMemberId room =
     (let slot = firstFreeSlot room;
          counter = (r_memberIdCounter room + 1) AND 0xF
      in (push_bit 4 (word_of_nat slot) OR counter, room\<lparr>r_memberIdCounter := counter\<rparr>))"

definition addMember :: "RoomMember \<Rightarrow> Room \<Rightarrow> RoomMember \<times> Room" where
  "addMember proto room =
     (let (mid, room1) = allocMemberId room;
          m = proto\<lparr>rm_memberId := mid\<rparr>
      in (m, room1\<lparr>r_members := qinsert mid m (r_members room1)\<rparr>))"

definition findById :: "Room \<Rightarrow> u16 \<Rightarrow> RoomMember option" where
  "findById room memberId = qfind (r_members room) memberId"

definition findByNpid :: "Room \<Rightarrow> qstring \<Rightarrow> RoomMember option" where
  "findByNpid room npid = List.find (\<lambda>m. rm_npid m = npid) (qvalues (r_members room))"

definition removeMember :: "u16 \<Rightarrow> Room \<Rightarrow> bool \<times> Room" where
  "removeMember memberId room =
     (case qfind (r_members room) memberId of
        None \<Rightarrow> (False, room)
      | Some _ \<Rightarrow> (True, room\<lparr>r_members := qremove memberId (r_members room)\<rparr>))"

definition Room_isEmpty :: "Room \<Rightarrow> bool" where
  "Room_isEmpty room \<longleftrightarrow> r_members room = []"

definition Room_isFull :: "Room \<Rightarrow> bool" where
  "Room_isFull room \<longleftrightarrow> length (r_members room) \<ge> unat (r_maxSlot room)"

subsection \<open>Slot masks\<close>

definition joinedSlotMask :: "Room \<Rightarrow> u64" where
  "joinedSlotMask room =
     foldl (\<lambda>msk m. let slot = unat (slotOf (rm_memberId m))
              in if 0 < slot \<and> slot \<le> 64 then msk OR push_bit (slot - 1) 1 else msk)
       0 (qvalues (r_members room))"

definition SlotMaskForMaxSlot :: "u16 \<Rightarrow> u64" where
  "SlotMaskForMaxSlot maxSlot =
     (if maxSlot \<ge> 64 then NOT 0
      else if maxSlot = 0 then 0
      else push_bit (unat maxSlot) 1 - 1)"

text \<open>Kernighan's loop: each round clears the lowest bit of the mask.\<close>

lemma clear_lowest_less: "(msk :: u64) \<noteq> 0 \<Longrightarrow> unat (msk AND (msk - 1)) < unat msk"
proof -
  assume "msk \<noteq> 0"
  have "unat (msk AND (msk - 1)) \<le> unat (msk - 1)"
    by (simp add: word_and_le1 word_le_nat_alt [symmetric])
  also have "\<dots> = unat msk - 1"
    using \<open>msk \<noteq> 0\<close> by (simp add: unat_minus_one)
  finally show ?thesis
    using \<open>msk \<noteq> 0\<close> by (simp add: unat_gt_0 [symmetric])
qed

function CountSlots_loop :: "u64 \<Rightarrow> u16 \<Rightarrow> u16" where
  "CountSlots_loop msk count =
     (if msk \<noteq> 0 then CountSlots_loop (msk AND (msk - 1)) (count + 1) else count)"
  by pat_completeness auto
termination
  by (relation "measure (\<lambda>(msk, _). unat msk)") (simp_all add: clear_lowest_less)

declare CountSlots_loop.simps [simp del]

definition CountSlots :: "u64 \<Rightarrow> u16" where
  "CountSlots msk = CountSlots_loop msk 0"

text \<open>
  The two nested loops of \<open>GroupPasswordSlotMask\<close>: the inner one advances
  \<open>slotBase\<close> by the group's slot count but never past \<open>maxSlot\<close>, and the outer
  one stops there. The shift \<open>1ull << slotBase\<close> is defined in C++ for
  \<open>slotBase < 64\<close> only; for a larger one, possible when \<open>maxSlot > 64\<close>, the model
  takes \<open>0\<close>, and the statements about the mask are for \<open>maxSlot \<le> 64\<close>.
\<close>

definition groupSlots :: "Room \<Rightarrow> RoomGroup \<Rightarrow> nat \<Rightarrow> nat list" where
  \<comment> \<open>the slot indices the inner loop visits\<close>
  "groupSlots room g slotBase =
     (let slotCount = (if g_slotNum g = 0 then unat (r_maxSlot room) else unat (g_slotNum g))
      in [slotBase..<min (slotBase + slotCount) (unat (r_maxSlot room))])"

fun groupPasswordLoop :: "Room \<Rightarrow> RoomGroup list \<Rightarrow> nat \<Rightarrow> u64 \<Rightarrow> u64" where
  "groupPasswordLoop room [] slotBase msk = msk"
| "groupPasswordLoop room (g # gs) slotBase msk =
     (let slots = groupSlots room g slotBase;
          msk' = (if g_withPassword g
                   then foldl (\<lambda>m s. m OR push_bit s 1) msk slots else msk);
          slotBase' = slotBase + length slots
      in if slotBase' \<ge> unat (r_maxSlot room) then msk'
         else groupPasswordLoop room gs slotBase' msk')"

definition GroupPasswordSlotMask :: "Room \<Rightarrow> u64 \<Rightarrow> u64" where
  "GroupPasswordSlotMask room validSlots = groupPasswordLoop room (r_groups room) 0 0 AND validSlots"

definition roomPrivateMask :: "Room \<Rightarrow> u64" where
  "roomPrivateMask room =
     (let validSlots = SlotMaskForMaxSlot (r_maxSlot room);
          privateSlots = r_passwdSlotMask room AND validSlots
      in if privateSlots = 0 then GroupPasswordSlotMask room validSlots else privateSlots)"

definition RecomputeRoomSlotCounts :: "Room \<Rightarrow> Room" where
  "RecomputeRoomSlotCounts room =
     (let validSlots = SlotMaskForMaxSlot (r_maxSlot room);
          privateSlots = roomPrivateMask room;
          publicSlots = validSlots AND NOT privateSlots;
          joinedSlots = joinedSlotMask room AND validSlots
      in room\<lparr>r_publicSlots := CountSlots publicSlots,
              r_privateSlots := CountSlots privateSlots,
              r_openPublicSlots := CountSlots (publicSlots AND NOT joinedSlots),
              r_openPrivateSlots := CountSlots (privateSlots AND NOT joinedSlots)\<rparr>)"


subsection \<open>Counting bits\<close>

lemma bit_SlotMaskForMaxSlot: "bit (SlotMaskForMaxSlot m) k \<longleftrightarrow> k < min 64 (unat m)"
proof -
  consider "m \<ge> 64" | "m = 0" | "0 < unat m" "unat m < 64"
    by (cases "m = 0"; cases "64 \<le> unat m") (auto simp: word_le_nat_alt unat_gt_0 not_le) 
  then show ?thesis
  proof cases
    case 1
    then have "64 \<le> unat m" by (simp add: word_le_nat_alt)
    with 1 show ?thesis by (auto simp: SlotMaskForMaxSlot_def bit_simps)
  next
    case 2
    then show ?thesis by (simp add: SlotMaskForMaxSlot_def)
  next
    case 3
    then have "\<not> m \<ge> 64" "m \<noteq> 0" by (auto simp: word_le_nat_alt)
    moreover have "push_bit (unat m) 1 - 1 = (mask (unat m) :: u64)"
      by (simp add: mask_eq_exp_minus_1 push_bit_of_1)
    ultimately show ?thesis using 3 by (auto simp: SlotMaskForMaxSlot_def bit_simps)
  qed
qed

definition bits_of :: "u64 \<Rightarrow> nat set" where
  "bits_of w = {k. bit w k}"

lemma bits_of_less: "bits_of w \<subseteq> {..<64}"
  by (auto simp: bits_of_def dest: bit_imp_le_length)

lemma finite_bits_of [simp]: "finite (bits_of w)"
  using bits_of_less finite_subset by blast

lemma bits_of_simps [simp]:
  "bits_of 0 = {}" "bits_of (a AND b) = bits_of a \<inter> bits_of b"
  "bits_of (a AND NOT b) = bits_of a - bits_of b" "bits_of (a OR b) = bits_of a \<union> bits_of b"
  by (auto simp: bits_of_def bit_simps dest: bit_imp_le_length)

lemma card_bits_of_le: "card (bits_of w) \<le> 64"
  using card_mono [OF _ bits_of_less, of w] by simp

lemma bits_of_eq_empty [simp]: "bits_of w = {} \<longleftrightarrow> w = 0"
  by (auto simp: bits_of_def bit_eq_iff) (use bit_imp_le_length [of w] in auto)

text \<open>Subtracting one clears the lowest set bit and sets the bits below it.\<close>

lemma bit_minus_one:
  assumes low: "bit (w :: u64) l" and below: "\<And>k. k < l \<Longrightarrow> \<not> bit w k"
  shows "bit (w - 1) k \<longleftrightarrow> (if k < l then True else bit w k \<and> k \<noteq> l)"
proof -
  have l: "l < 64" using low by (auto dest: bit_imp_le_length)
  let ?v = "(w AND NOT (push_bit l 1)) OR mask l"
  have dis: "(w AND NOT (push_bit l 1)) AND mask l = 0"
    by (rule bit_word_eqI) (auto simp: bit_simps below)
  have "?v + 1 = w"
  proof -
    have "?v = (w AND NOT (push_bit l 1)) + mask l"
      using dis by (simp add: disjunctive_add_eq_or)
    moreover have "mask l + 1 = (push_bit l 1 :: u64)"
      by (simp add: mask_eq_exp_minus_1 push_bit_of_1)
    moreover have "(w AND NOT (push_bit l 1)) + push_bit l 1 = (w AND NOT (push_bit l 1)) OR push_bit l 1"
      by (rule disjunctive_add_eq_or) (rule bit_word_eqI, auto simp: bit_simps)
    moreover have "(w AND NOT (push_bit l 1)) OR push_bit l 1 = w"
      by (rule bit_word_eqI) (use low in \<open>auto simp: bit_simps\<close>)
    ultimately show ?thesis by (simp add: add.assoc)
  qed
  then have "w - 1 = ?v" by (metis add_diff_cancel_right')
  then show ?thesis using l by (auto simp: bit_simps dest: bit_imp_le_length)
qed

lemma bits_of_clear_lowest:
  assumes "w \<noteq> 0"
  shows "bits_of (w AND (w - 1)) = bits_of w - {Min (bits_of w)}"
proof -
  let ?l = "Min (bits_of w)"
  have ne: "bits_of w \<noteq> {}" using assms by simp
  then have "bit w ?l" using Min_in [OF finite_bits_of] by (auto simp: bits_of_def)
  moreover have "\<not> bit w k" if "k < ?l" for k
    using that Min_le [OF finite_bits_of, of k w] by (metis bits_of_def leD mem_Collect_eq)
  ultimately have "bit (w AND (w - 1)) k \<longleftrightarrow> bit w k \<and> k \<noteq> ?l" for k
    using bit_minus_one [of w ?l k] by (auto simp: bit_and_iff)
  then show ?thesis by (auto simp: bits_of_def)
qed

lemma CountSlots_loop_card: "CountSlots_loop w c = c + word_of_nat (card (bits_of w))"
proof (induction w c rule: CountSlots_loop.induct)
  case (1 w c)
  show ?case
  proof (cases "w = 0")
    case True
    then show ?thesis by (simp add: CountSlots_loop.simps [of 0])
  next
    case False
    have "Min (bits_of w) \<in> bits_of w" using False by (intro Min_in) auto
    then have "card (bits_of w) = Suc (card (bits_of (w AND (w - 1))))"
      unfolding bits_of_clear_lowest [OF False] by (metis card.remove finite_bits_of)
    moreover have "CountSlots_loop w c = CountSlots_loop (w AND (w - 1)) (c + 1)"
      using CountSlots_loop.simps [of w c] False by (metis (full_types))
    ultimately show ?thesis
      using 1 [OF False] by (metis add.assoc of_nat_Suc)
  qed
qed

lemma unat_CountSlots: "unat (CountSlots w) = card (bits_of w)"
  using card_bits_of_le [of w]
  by (simp add: CountSlots_def CountSlots_loop_card unat_of_nat_small)

subsection \<open>The slots of a room\<close>

lemma bits_of_push_bit_1: "k < 64 \<Longrightarrow> bits_of (push_bit k 1) = {k}"
  by (auto simp: bits_of_def bit_simps)

lemma bits_of_SlotMaskForMaxSlot: "bits_of (SlotMaskForMaxSlot m) = {..<min 64 (unat m)}"
  by (simp only: bits_of_def bit_SlotMaskForMaxSlot) auto

definition memberSlot :: "RoomMember \<Rightarrow> nat" where
  "memberSlot m = unat (slotOf (rm_memberId m))"

lemma bits_of_slot_fold:
  "bits_of (foldl (\<lambda>msk m. let slot = memberSlot m
              in if 0 < slot \<and> slot \<le> 64 then msk OR push_bit (slot - 1) 1 else msk) w ms)
   = bits_of w \<union> {k. k < 64 \<and> (\<exists>m \<in> set ms. memberSlot m = Suc k)}"
proof (induction ms arbitrary: w)
  case Nil
  then show ?case by simp
next
  case (Cons m ms)
  note IH = Cons.IH [unfolded Let_def]
  show ?case
  proof (cases "0 < memberSlot m \<and> memberSlot m \<le> 64")
    case True
    then obtain k where "memberSlot m = Suc k" "k < 64" by (cases "memberSlot m") auto
    then show ?thesis
      by (auto simp: IH bits_of_push_bit_1 Let_def simp del: push_bit_of_1)
  next
    case False
    then show ?thesis by (auto simp: IH Let_def)
  qed
qed

lemma bits_of_joinedSlotMask:
  "bits_of (joinedSlotMask room) =
     {k. k < 64 \<and> (\<exists>m \<in> set (qvalues (r_members room)). memberSlot m = Suc k)}"
  using bits_of_slot_fold [of 0 "qvalues (r_members room)"]
  by (simp add: joinedSlotMask_def memberSlot_def)

lemma bits_of_roomPrivateMask:
  "bits_of (roomPrivateMask room) \<subseteq> bits_of (SlotMaskForMaxSlot (r_maxSlot room))"
  by (auto simp: roomPrivateMask_def Let_def GroupPasswordSlotMask_def)

lemma unat_eq_iff_word: "s < 2 ^ LENGTH('a) \<Longrightarrow> unat (w :: 'a::len word) = s \<longleftrightarrow> w = word_of_nat s"
  by (auto simp: unat_of_nat_small)

lemma slotTaken_memberSlot:
  "s < 65536 \<Longrightarrow> slotTaken room s \<longleftrightarrow> (\<exists>m \<in> set (qvalues (r_members room)). memberSlot m = s)"
  by (simp add: slotTaken_def memberSlot_def list_ex_iff unat_eq_iff_word [where 'a = 16])

lemma firstFreeSlot_le: "firstFreeSlot room \<le> 65"
proof (cases "List.find (\<lambda>s. \<not> slotTaken room s) [1..<65]")
  case None
  then show ?thesis by (simp add: firstFreeSlot_def)
next
  case (Some s)
  then have "s \<in> set [1..<65]" by (blast dest: find_SomeD)
  with Some show ?thesis by (simp add: firstFreeSlot_def)
qed

lemma firstFreeSlot_pos: "0 < firstFreeSlot room"
proof (cases "List.find (\<lambda>s. \<not> slotTaken room s) [1..<65]")
  case None
  then show ?thesis by (simp add: firstFreeSlot_def)
next
  case (Some s)
  then have "s \<in> set [1..<65]" by (blast dest: find_SomeD)
  with Some show ?thesis by (simp add: firstFreeSlot_def)
qed

lemma firstFreeSlot_free: "firstFreeSlot room \<le> 64 \<Longrightarrow> \<not> slotTaken room (firstFreeSlot room)"
  by (auto simp: firstFreeSlot_def dest: find_SomeD split: option.splits)

lemma firstFreeSlot_least:
  "0 < s \<Longrightarrow> s < firstFreeSlot room \<Longrightarrow> slotTaken room s"
proof (rule ccontr)
  assume s: "0 < s" "s < firstFreeSlot room" "\<not> slotTaken room s"
  then have l: "s \<le> 64" using firstFreeSlot_le [of room] by linarith
  with s have "s \<in> set [1..<65]" by simp
  with s(3) obtain i where i: "List.find (\<lambda>s. \<not> slotTaken room s) [1..<65] = Some i"
    using find_Some_iff_ex [of "\<lambda>s. \<not> slotTaken room s" "[1..<65]"] by blast
  then obtain j where j: "j < 64" "i = [1..<65] ! j" "\<forall>j' < j. slotTaken room ([1..<65] ! j')"
    by (auto simp: find_Some_iff)
  with i s(2) have "s - 1 < j" using s(1) by (simp add: firstFreeSlot_def)
  with j(3) have "slotTaken room ([1..<65] ! (s - 1))" by blast
  moreover have "[1..<65] ! (s - 1) = s" using s(1) l by (subst nth_upt) auto
  ultimately show False using s(3) by simp
qed

text \<open>While fewer than 64 members are in the room, one of the slots 1..64 is free.\<close>

lemma firstFreeSlot_le_members: "firstFreeSlot room \<le> Suc (length (r_members room))"
proof -
  let ?f = "firstFreeSlot room"
  have *: "\<exists>m \<in> set (qvalues (r_members room)). memberSlot m = s" if "0 < s" "s < ?f" for s
    using firstFreeSlot_least [OF that] slotTaken_memberSlot [of s room] that firstFreeSlot_le [of room]
    by simp
  have "{1..<?f} \<subseteq> memberSlot ` set (qvalues (r_members room))"
  proof
    fix s assume "s \<in> {1..<?f}"
    then have "0 < s" "s < ?f" by simp_all
    with * obtain m where "m \<in> set (qvalues (r_members room))" "memberSlot m = s" by blast
    then show "s \<in> memberSlot ` set (qvalues (r_members room))" by blast
  qed
  then have "card {1..<?f} \<le> card (memberSlot ` set (qvalues (r_members room)))"
    by (intro card_mono) auto
  also have "\<dots> \<le> length (r_members room)"
    by (metis card_image_le List.finite_set card_length le_trans length_map)
  finally have "?f - 1 \<le> length (r_members room)" by (simp only: card_atLeastLessThan)
  then show ?thesis by linarith
qed

lemma fifteen_mask: "(0xF :: 'a::len word) = mask 4"
  by (simp add: mask_eq_exp_minus_1)

lemma memberId_slot:
  assumes "c AND 0xF = c" and "s \<le> 65"
  shows "unat (slotOf (push_bit 4 (word_of_nat s) OR c)) = s"
proof -
  have b: "k < 12" if "bit s k" for k
  proof (rule ccontr)
    assume "\<not> k < 12"
    then have "(2 :: nat) ^ 12 \<le> 2 ^ k" by (intro power_increasing) auto
    with assms(2) have "s div 2 ^ k = 0" by simp
    with that show False by (simp add: bit_iff_odd)
  qed
  have cb: "bit c k \<Longrightarrow> k < 4" for k
    using assms(1) by (metis bit_and_iff bit_mask_iff fifteen_mask)
  have "slotOf (push_bit 4 (word_of_nat s) OR c) = word_of_nat s"
    by (rule bit_word_eqI) (auto simp: slotOf_def bit_simps dest: b cb)
  with assms(2) show ?thesis by (simp add: unat_of_nat_small)
qed

lemma memberSlot_allocMemberId:
  "unat (slotOf (fst (allocMemberId room))) = firstFreeSlot room"
  unfolding allocMemberId_def Let_def fst_conv
  by (rule memberId_slot) (simp_all add: firstFreeSlot_le ac_simps)

subsection \<open>The slot counts\<close>

definition validSlotSet :: "Room \<Rightarrow> nat set" where
  "validSlotSet room = {..<min 64 (unat (r_maxSlot room))}"

definition joinedSlotSet :: "Room \<Rightarrow> nat set" where
  \<comment> \<open>the slots of the members, as bit positions\<close>
  "joinedSlotSet room = bits_of (joinedSlotMask room) \<inter> validSlotSet room"

lemma card_validSlotSet: "card (validSlotSet room) = min 64 (unat (r_maxSlot room))"
  by (simp add: validSlotSet_def)

lemma Recompute_frame [simp]:
  "r_maxSlot (RecomputeRoomSlotCounts r) = r_maxSlot r"
  "r_members (RecomputeRoomSlotCounts r) = r_members r"
  "r_passwdSlotMask (RecomputeRoomSlotCounts r) = r_passwdSlotMask r"
  "r_groups (RecomputeRoomSlotCounts r) = r_groups r"
  "r_flagAttr (RecomputeRoomSlotCounts r) = r_flagAttr r"
  "r_ownerMemberId (RecomputeRoomSlotCounts r) = r_ownerMemberId r"
  "r_ownerSuccession (RecomputeRoomSlotCounts r) = r_ownerSuccession r"
  "r_roomId (RecomputeRoomSlotCounts r) = r_roomId r"
  "r_worldId (RecomputeRoomSlotCounts r) = r_worldId r"
  "r_lobbyId (RecomputeRoomSlotCounts r) = r_lobbyId r"
  "r_memberIdCounter (RecomputeRoomSlotCounts r) = r_memberIdCounter r"
  "r_searchIntAttr (RecomputeRoomSlotCounts r) = r_searchIntAttr r"
  "r_internalBinAttr (RecomputeRoomSlotCounts r) = r_internalBinAttr r"
  "r_externalBinAttr (RecomputeRoomSlotCounts r) = r_externalBinAttr r"
  "r_blockedUsers (RecomputeRoomSlotCounts r) = r_blockedUsers r"
  by (simp_all add: RecomputeRoomSlotCounts_def Let_def)

lemma bits_of_NOT: "bits_of (NOT w) = {..<64} - bits_of w"
  by (auto simp: bits_of_def bit_simps)

lemma Recompute_counts:
  fixes room
  defines "P \<equiv> bits_of (roomPrivateMask room)" and "R \<equiv> RecomputeRoomSlotCounts room"
  shows "unat (r_privateSlots R) = card P"
    and "unat (r_publicSlots R) = card (validSlotSet room - P)"
    and "unat (r_openPrivateSlots R) = card (P - joinedSlotSet room)"
    and "unat (r_openPublicSlots R) = card (validSlotSet room - P - joinedSlotSet room)"
  unfolding P_def R_def RecomputeRoomSlotCounts_def Let_def joinedSlotSet_def validSlotSet_def
  by (simp_all add: unat_CountSlots bits_of_SlotMaskForMaxSlot bits_of_NOT)
    (rule arg_cong [where f = card], use bits_of_less in fastforce)+

lemma private_subset_valid: "bits_of (roomPrivateMask room) \<subseteq> validSlotSet room"
  using bits_of_roomPrivateMask [of room] by (simp only: bits_of_SlotMaskForMaxSlot validSlotSet_def)

lemma card_split: "finite V \<Longrightarrow> P \<subseteq> V \<Longrightarrow> card (V - P) + card P = card V"
  by (metis card_Diff_subset card_mono finite_subset le_add_diff_inverse2)

lemma Recompute_total:
  "unat (r_publicSlots (RecomputeRoomSlotCounts room)) + unat (r_privateSlots (RecomputeRoomSlotCounts room))
     = min 64 (unat (r_maxSlot room))"
  using card_split [OF _ private_subset_valid [of room]]
  by (simp add: Recompute_counts card_validSlotSet) (simp add: validSlotSet_def)

lemma Recompute_open_total:
  "unat (r_openPublicSlots (RecomputeRoomSlotCounts room)) + unat (r_openPrivateSlots (RecomputeRoomSlotCounts room))
     + card (joinedSlotSet room) = min 64 (unat (r_maxSlot room))"
proof -
  let ?V = "validSlotSet room" and ?P = "bits_of (roomPrivateMask room)" and ?J = "joinedSlotSet room"
  have fin: "finite ?V" and sub: "?P \<subseteq> ?V" and J: "?J \<subseteq> ?V"
    using private_subset_valid by (auto simp: validSlotSet_def joinedSlotSet_def)
  have "card (?V - ?P - ?J) + card (?P - ?J) = card (?V - ?J)"
  proof -
    have "?V - ?P - ?J = (?V - ?J) - (?P - ?J)" by blast
    then show ?thesis using card_split [of "?V - ?J" "?P - ?J"] fin sub by auto
  qed
  moreover have "card (?V - ?J) + card ?J = card ?V" by (rule card_split [OF fin J])
  ultimately show ?thesis by (simp add: Recompute_counts card_validSlotSet)
qed

lemma Recompute_cong:
  "r_maxSlot a = r_maxSlot b \<Longrightarrow> r_groups a = r_groups b \<Longrightarrow> r_passwdSlotMask a = r_passwdSlotMask b
     \<Longrightarrow> roomPrivateMask a = roomPrivateMask b"
proof -
  assume e: "r_maxSlot a = r_maxSlot b" "r_groups a = r_groups b" "r_passwdSlotMask a = r_passwdSlotMask b"
  have g: "groupSlots a g n = groupSlots b g n" for g n
    by (simp only: groupSlots_def e)
  have "groupPasswordLoop a gs n w = groupPasswordLoop b gs n w" for gs n w
    by (induction gs arbitrary: n w) (simp_all only: groupPasswordLoop.simps g e Let_def)
  then have "GroupPasswordSlotMask a w = GroupPasswordSlotMask b w" for w
    by (simp only: GroupPasswordSlotMask_def e)
  then show ?thesis by (simp only: roomPrivateMask_def e)
qed

lemma Recompute_idem [simp]:
  "RecomputeRoomSlotCounts (RecomputeRoomSlotCounts room) = RecomputeRoomSlotCounts room"
proof -
  have "roomPrivateMask (RecomputeRoomSlotCounts room) = roomPrivateMask room"
    by (rule Recompute_cong) simp_all
  moreover have "joinedSlotMask (RecomputeRoomSlotCounts room) = joinedSlotMask room"
    by (simp add: joinedSlotMask_def)
  ultimately show ?thesis
    by (simp add: RecomputeRoomSlotCounts_def Let_def)
qed

lemma allocMemberId_fresh:
  assumes "length (r_members room) < 64" and that: "m \<in> set (qvalues (r_members room))"
  shows "fst (allocMemberId room) \<noteq> rm_memberId m"
proof
  assume eq: "fst (allocMemberId room) = rm_memberId m"
  have "firstFreeSlot room \<le> 64"
    using assms(1) firstFreeSlot_le_members [of room] by linarith
  then have "\<not> slotTaken room (firstFreeSlot room)" by (rule firstFreeSlot_free)
  moreover have "memberSlot m = firstFreeSlot room"
    using memberSlot_allocMemberId [of room] by (simp add: memberSlot_def eq)
  ultimately show False
    using that slotTaken_memberSlot [of "firstFreeSlot room" room] firstFreeSlot_le [of room] by auto
qed

subsection \<open>Properties\<close>

text \<open>Kernighan's loop ends and counts the set bits of the mask.\<close>

theorem CountSlots_popcount: "unat (CountSlots w) = card {k. bit w k}"
  by (simp add: unat_CountSlots bits_of_def)

text \<open>The cached slot counts partition the room: public and private slots add up to the
  valid ones (\<open>maxSlot\<close>, at most 64); the open ones are among them, and open slots and slots
  taken by members add up to the valid ones.\<close>

theorem slot_counts_partition:
  "let R = RecomputeRoomSlotCounts room in
     unat (r_publicSlots R) + unat (r_privateSlots R) = min 64 (unat (r_maxSlot room)) \<and>
     r_openPublicSlots R \<le> r_publicSlots R \<and> r_openPrivateSlots R \<le> r_privateSlots R \<and>
     unat (r_openPublicSlots R) + unat (r_openPrivateSlots R)
       + card {k. k < min 64 (unat (r_maxSlot room)) \<and>
               (\<exists>m \<in> set (qvalues (r_members room)). memberSlot m = Suc k)}
       = min 64 (unat (r_maxSlot room))"
proof -
  have j: "joinedSlotSet room = {k. k < min 64 (unat (r_maxSlot room)) \<and>
      (\<exists>m \<in> set (qvalues (r_members room)). memberSlot m = Suc k)}"
    unfolding joinedSlotSet_def bits_of_joinedSlotMask validSlotSet_def by auto
  have fin: "finite (validSlotSet room)" by (simp add: validSlotSet_def)
  have le: "r_openPublicSlots (RecomputeRoomSlotCounts room) \<le> r_publicSlots (RecomputeRoomSlotCounts room)"
    "r_openPrivateSlots (RecomputeRoomSlotCounts room) \<le> r_privateSlots (RecomputeRoomSlotCounts room)"
    unfolding word_le_nat_alt Recompute_counts
    by (rule card_mono; use fin in blast) (rule card_mono; simp)
  show ?thesis
    unfolding Let_def using le Recompute_total [of room] Recompute_open_total [of room, unfolded j] by blast
qed

text \<open>In a room with fewer than 64 members, \<open>allocMemberId\<close> hands out an id that no
  member has, in the lowest slot that no member holds, and addition makes the room larger by
  one.\<close>

theorem member_id_fresh:
  assumes "length (r_members room) < 64" and "\<forall>p \<in> set (r_members room). rm_memberId (snd p) = fst p"
  shows "let mid = fst (allocMemberId room) in
    mid \<notin> set (qkeys (r_members room)) \<and>
    1 \<le> unat (slotOf mid) \<and> unat (slotOf mid) \<le> 64 \<and>
    \<not> slotTaken room (unat (slotOf mid)) \<and> (\<forall>s. 0 < s \<and> s < unat (slotOf mid) \<longrightarrow> slotTaken room s) \<and>
    length (r_members (snd (addMember m room))) = Suc (length (r_members room))"
proof -
  let ?mid = "fst (allocMemberId room)"
  have new: "?mid \<notin> set (qkeys (r_members room))"
    using allocMemberId_fresh [OF assms(1)] assms(2) by fastforce
  have "firstFreeSlot room \<le> 64" using firstFreeSlot_le_members [of room] assms(1) by linarith
  moreover have "length (r_members (snd (addMember m room))) = Suc (length (r_members room))"
    using new by (simp add: addMember_def allocMemberId_def Let_def length_qinsert_new)
  ultimately show ?thesis
    using new firstFreeSlot_free [of room] firstFreeSlot_pos [of room] firstFreeSlot_least [of _ room]
    by (simp add: memberSlot_allocMemberId Let_def)
qed

definition example_members :: "nat \<Rightarrow> (u16, RoomMember) qhash" where
  \<comment> \<open>members in the slots 1 to \<open>n\<close>, with the low bits 1\<close>
  "example_members n = map (\<lambda>s. let i = push_bit 4 (word_of_nat s) OR 1
                                 in (i, RoomMember_default\<lparr>rm_memberId := i\<rparr>)) [1..<Suc n]"

lemma member_id_fresh_witness:
  "fst (allocMemberId (Room_default\<lparr>r_members := example_members 2\<rparr>)) \<notin> {0x11, 0x21}"
proof -
  have "qkeys (example_members 2) = [0x11, 0x21]" by code_simp
  then have "set (qkeys (example_members 2)) = {0x11, 0x21}" by (simp del: set_map)
  then show ?thesis
    using member_id_fresh [of "Room_default\<lparr>r_members := example_members 2\<rparr>"]
    by (auto simp: Let_def example_members_def)
qed

text \<open>In a room for more than 64 members the ids run out: once the slots 1 to 64 are taken
  every id is in slot 65, and when its low four bits come round to those of a member there, the
  newcomer takes that member's entry and the room does not grow.\<close>

theorem member_id_reused:
  assumes "\<forall>s \<in> set [1..<65]. slotTaken room s"
    and "push_bit 4 65 OR ((r_memberIdCounter room + 1) AND 0xF) \<in> set (qkeys (r_members room))"
  shows "length (r_members (snd (addMember m room))) = length (r_members room)"
proof -
  have "firstFreeSlot room = 65"
    using assms(1) by (auto simp: firstFreeSlot_def find_None_iff split: option.split dest: find_SomeD)
  then show ?thesis
    using assms(2) by (simp add: addMember_def allocMemberId_def Let_def length_qinsert_old)
qed

lemma member_id_reused_witness:
  "length (r_members (snd (addMember RoomMember_default (Room_default\<lparr>r_members := example_members 65\<rparr>)))) = 65"
proof -
  let ?r = "Room_default\<lparr>r_members := example_members 65\<rparr>"
  let ?i = "\<lambda>s. push_bit 4 (word_of_nat s) OR 1 :: u16"
  have set: "set (example_members 65) = (\<lambda>s. (?i s, RoomMember_default\<lparr>rm_memberId := ?i s\<rparr>)) ` {1..<66}"
    by (simp add: example_members_def Let_def)
  have "slotTaken ?r s" if "1 \<le> s" "s \<le> 64" for s
  proof -
    have "memberSlot (RoomMember_default\<lparr>rm_memberId := ?i s\<rparr>) = s"
      using memberId_slot [of 1 s] that by (simp add: memberSlot_def)
    moreover have "RoomMember_default\<lparr>rm_memberId := ?i s\<rparr> \<in> set (qvalues (r_members ?r))"
      using that by (simp add: set image_image)
    ultimately show ?thesis
      using that slotTaken_memberSlot [THEN iffD2, OF _ bexI, of s _ ?r] by simp
  qed
  then have t: "\<forall>s \<in> set [1..<65]. slotTaken ?r s" by simp
  have k: "push_bit 4 65 OR ((0 + 1) AND 0xF) \<in> set (qkeys (example_members 65))"
    by (simp add: set image_image) (rule image_eqI [of _ _ 65], simp_all)
  have l: "length (example_members 65) = 65" by (simp add: example_members_def)
  show ?thesis
    using member_id_reused [OF t] k l by (simp add: Room_default_def)
qed

end
