(* ===== verification/Messages.thy ===== *)
theory Messages
  imports Rooms
begin

text \<open>
  The matching messages of \<open>src/shadnet.proto\<close>, as the C++ classes protobuf generates
  show them: a record per message (requests with the fields the server reads), \<open>uint32\<close>
  as \<open>u32\<close>, \<open>repeated\<close> as a list, an optional sub-message as an option.
  Encoding to bytes is protobuf's and stays a parameter wherever it is used.
\<close>

subsection \<open>Room data\<close>

record MatchingBinAttr =
  pba_attr_id :: u32
  pba_data :: bytes
  pba_update_date :: u64
  pba_update_member_id :: u32

record MatchingIntAttr =
  pia_attr_id :: u32
  pia_attr_value :: u32

record MatchingRoomGroup =
  pg_group_id :: u32
  pg_has_passwd :: bool
  pg_has_label :: bool
  pg_label :: bytes
  pg_slot_count :: u32
  pg_num_members :: u32

record MatchingRoomGroupConfig =
  pgc_slot_count :: u32
  pgc_has_label :: bool
  pgc_label :: bytes
  pgc_has_passwd :: bool

record MatchingRoomDataInternal =
  pri_public_slots :: u32
  pri_private_slots :: u32
  pri_open_public_slots :: u32
  pri_open_private_slots :: u32
  pri_max_slot :: u32
  pri_server_id :: u32
  pri_world_id :: u32
  pri_lobby_id :: u32
  pri_room_id :: u64
  pri_passwd_slot_mask :: u64
  pri_joined_slot_mask :: u32
  pri_groups :: "MatchingRoomGroup list"
  pri_flags :: u32
  pri_bin_attrs_internal :: "MatchingBinAttr list"

record MatchingRoomMemberData =
  pm_npid :: qstring
  pm_member_id :: u32
  pm_team_id :: u32
  pm_is_owner :: bool
  pm_bin_attrs_internal :: "MatchingBinAttr list"
  pm_join_date :: u64
  pm_nat_type :: u32
  pm_flag_attr :: u32
  pm_addr :: qstring
  pm_port :: u32
  pm_group_id :: u32
  pm_account_id :: u64
  pm_platform :: u32

record MatchingRoomMemberDataExternal =
  pmx_npid :: qstring
  pmx_member_id :: u32
  pmx_account_id :: u64
  pmx_platform :: u32
  pmx_join_date :: u64
  pmx_role :: u32

record MatchingRoomDataExternal =
  prx_max_slot :: u32
  prx_cur_members :: u32
  prx_flags :: u32
  prx_server_id :: u32
  prx_world_id :: u32
  prx_lobby_id :: u64
  prx_room_id :: u64
  prx_passwd_slot_mask :: u64
  prx_joined_slot_mask :: u64
  prx_public_slots :: u32
  prx_private_slots :: u32
  prx_open_public_slots :: u32
  prx_open_private_slots :: u32
  prx_groups :: "MatchingRoomGroup list"
  prx_external_search_int_attrs :: "MatchingIntAttr list"
  prx_external_search_bin_attrs :: "MatchingBinAttr list"
  prx_external_bin_attrs :: "MatchingBinAttr list"
  prx_owner_npid :: qstring
  prx_owner_account_id :: u64
  prx_owner_platform :: u32

record CreateJoinRoomResponse =
  cj_room_data :: MatchingRoomDataInternal
  cj_members :: "MatchingRoomMemberData list"
  cj_me_member_id :: u32
  cj_owner_member_id :: u32

record MatchingUserInfo =
  pu_npid :: qstring
  pu_account_id :: u64
  pu_platform :: u32
  pu_user_bin_attrs :: "MatchingBinAttr list"

record MatchingWorld =
  pw_world_id :: u32
  pw_lobbies_num :: u32
  pw_max_lobby_members :: u32
  pw_lobby_members_num :: u32
  pw_rooms_num :: u32
  pw_room_members_num :: u32

subsection \<open>Requests\<close>

record CreateRoomRequest =
  crq_max_slots :: u32
  crq_team_id :: u32
  crq_world_id :: u32
  crq_lobby_id :: u32
  crq_flags :: u32
  crq_group_config_count :: u32
  crq_external_search_int_attrs :: "MatchingIntAttr list"
  crq_external_search_bin_attrs :: "MatchingBinAttr list"
  crq_external_bin_attrs :: "MatchingBinAttr list"
  crq_member_bin_attrs :: "MatchingBinAttr list"
  crq_join_group_label_present :: bool
  crq_room_password_present :: bool
  crq_sig_type :: u32
  crq_sig_flag :: u32
  crq_sig_main_member :: u32
  crq_internal_bin_attrs :: "MatchingBinAttr list"
  crq_allowed_online_ids :: "qstring list"
  crq_blocked_online_ids :: "qstring list"
  crq_allowed_account_ids :: "u64 list"
  crq_blocked_account_ids :: "u64 list"
  crq_group_configs :: "MatchingRoomGroupConfig list"
  crq_room_password :: bytes
  crq_has_passwd_slot_mask :: bool
  crq_passwd_slot_mask :: u64
  crq_join_group_label :: bytes

record JoinRoomRequest =
  jrq_room_id :: u64
  jrq_team_id :: u32
  jrq_member_bin_attrs :: "MatchingBinAttr list"
  jrq_blocked_online_ids :: "qstring list"
  jrq_blocked_account_ids :: "u64 list"

record KickoutRoomMemberRequest =
  krq_room_id :: u64
  krq_target_member_id :: u32
  krq_block_kick_flag :: u32

record SetRoomDataInternalRequest =
  siq_room_id :: u64
  siq_flag_filter :: u32
  siq_flag_attr :: u32
  siq_bin_attrs :: "MatchingBinAttr list"
  siq_has_passwd_mask :: bool
  siq_passwd_slot_mask :: u64

record SetRoomDataExternalRequest =
  seq_room_id :: u64
  seq_search_int_attrs :: "MatchingIntAttr list"
  seq_search_bin_attrs :: "MatchingBinAttr list"
  seq_ext_bin_attrs :: "MatchingBinAttr list"

record MatchingIntSearchFilter =
  fi_op :: u32
  fi_attr_id :: u32
  fi_attr_value :: u32

record MatchingBinSearchFilter =
  fb_op :: u32
  fb_attr_id :: u32
  fb_data :: bytes

record SearchRoomRequest =
  srq_world_id :: u32
  srq_lobby_id :: u64
  srq_range_filter_start :: u32
  srq_range_filter_max :: u32
  srq_flag_filter :: u32
  srq_flag_attr :: u32
  srq_int_filters :: "MatchingIntSearchFilter list"
  srq_bin_filters :: "MatchingBinSearchFilter list"
  srq_attr_ids :: "u32 list"

record GetRoomDataExternalListRequest =
  grq_room_ids :: "u64 list"
  grq_attr_ids :: "u32 list"

record GetUserInfoListRequest =
  guq_npids :: "qstring list"
  guq_attr_ids :: "u32 list"

record SendRoomMessageRequest =
  smq_room_id :: u64
  smq_cast_type :: u32
  smq_dst_member_ids :: "u32 list"
  smq_msg :: bytes

subsection \<open>Replies and notifications\<close>

record CreateRoomReply =
  crr_room_id :: u64
  crr_server_id :: u32
  crr_world_id :: u32
  crr_lobby_id :: u32
  crr_member_id :: u32
  crr_max_slots :: u32
  crr_flags :: u32
  crr_cur_members :: u32
  crr_details :: CreateJoinRoomResponse

record JoinRoomReply =
  jrr_room_id :: u64
  jrr_member_id :: u32
  jrr_max_slots :: u32
  jrr_flags :: u32
  jrr_cur_members :: u32
  jrr_details :: CreateJoinRoomResponse

record SearchRoomReply =
  srr_rooms :: "MatchingRoomDataExternal list"
  srr_range_start :: u32
  srr_range_total :: u32
  srr_range_result :: u32

record RequestSignalingInfosReply =
  sgr_target_npid :: qstring
  sgr_target_ip :: qstring
  sgr_target_port :: u32
  sgr_target_member_id :: u32

record NotifyRoomEvent =
  ne_ctx_id :: u32
  ne_room_id :: u64
  ne_event :: u32
  ne_event_cause :: u32
  ne_error_code :: u32
  ne_member :: "MatchingRoomMemberData option"
  ne_bin_attrs :: "MatchingBinAttr list"
  ne_flags :: u32
  ne_has_passwd_mask :: bool
  ne_passwd_slot_mask :: u64

record NotifyRoomMessage =
  nm_ctx_id :: u32
  nm_room_id :: u64
  nm_src_member_id :: u32
  nm_event :: u32
  nm_cast_type :: u32
  nm_dst_member_ids :: "u32 list"
  nm_src_npid :: qstring
  nm_src_account_id :: u64
  nm_src_platform :: u32
  nm_msg :: bytes

definition MatchingBinAttr_default :: MatchingBinAttr where
  "MatchingBinAttr_default =
     \<lparr>pba_attr_id = 0, pba_data = [], pba_update_date = 0, pba_update_member_id = 0\<rparr>"

definition NotifyRoomEvent_default :: NotifyRoomEvent where
  "NotifyRoomEvent_default = \<lparr>ne_ctx_id = 0, ne_room_id = 0, ne_event = 0, ne_event_cause = 0,
     ne_error_code = 0, ne_member = None, ne_bin_attrs = [], ne_flags = 0,
     ne_has_passwd_mask = False, ne_passwd_slot_mask = 0\<rparr>"

subsection \<open>Message builders\<close>

definition FillRoomGroup :: "RoomGroup \<Rightarrow> MatchingRoomGroup" where
  [msg_simps]: "FillRoomGroup g =
     \<lparr>pg_group_id = ucast (g_groupId g), pg_has_passwd = g_withPassword g,
      pg_has_label = (g_label g \<noteq> None), pg_label = (case g_label g of None \<Rightarrow> [] | Some l \<Rightarrow> l),
      pg_slot_count = g_slotNum g, pg_num_members = g_numMembers g\<rparr>"

definition BuildRoomDataInternal :: "Room \<Rightarrow> MatchingRoomDataInternal" where
  [msg_simps]: "BuildRoomDataInternal room =
     \<lparr>pri_public_slots = ucast (r_publicSlots room),
      pri_private_slots = ucast (r_privateSlots room),
      pri_open_public_slots = ucast (r_openPublicSlots room),
      pri_open_private_slots = ucast (r_openPrivateSlots room),
      pri_max_slot = ucast (r_maxSlot room),
      pri_server_id = ucast (r_serverId room),
      pri_world_id = r_worldId room,
      pri_lobby_id = ucast (r_lobbyId room),
      pri_room_id = r_roomId room,
      pri_passwd_slot_mask = r_passwdSlotMask room,
      pri_joined_slot_mask = ucast (joinedSlotMask room),
      pri_groups = map FillRoomGroup (r_groups room),
      pri_flags = r_flagAttr room,
      pri_bin_attrs_internal =
        map (\<lambda>s. \<lparr>pba_attr_id = ucast (ib_attrId s), pba_data = ib_data s,
                   pba_update_date = ib_updateDate s,
                   pba_update_member_id = ucast (ib_updateMemberId s)\<rparr>)
          (filter ib_set (r_internalBinAttr room))\<rparr>"

definition BuildRoomMemberData :: "RoomMember \<Rightarrow> MatchingRoomMemberData" where
  [msg_simps]: "BuildRoomMemberData member =
     \<lparr>pm_npid = rm_npid member,
      pm_member_id = ucast (rm_memberId member),
      pm_team_id = ucast (rm_teamId member),
      pm_is_owner = (rm_flagAttr member AND MEMBER_FLAG_ATTR_OWNER \<noteq> 0),
      pm_bin_attrs_internal =
        (if mb_set (rm_memberBinAttr member)
         then [\<lparr>pba_attr_id = ucast (mb_attrId (rm_memberBinAttr member)),
                pba_data = mb_data (rm_memberBinAttr member),
                pba_update_date = mb_updateDate (rm_memberBinAttr member),
                pba_update_member_id = 0\<rparr>]
         else []),
      pm_join_date = rm_joinDate member,
      pm_nat_type = ucast (rm_natType member),
      pm_flag_attr = rm_flagAttr member,
      pm_addr = rm_addr member,
      pm_port = ucast (rm_port member),
      pm_group_id = ucast (rm_groupId member),
      pm_account_id = u64_of_int (rm_userId member),
      pm_platform = rm_platform member\<rparr>"

definition sortedMemberIds :: "Room \<Rightarrow> u16 list" where
  \<comment> \<open>\<open>members.keys()\<close>, then \<open>std::sort\<close>\<close>
  "sortedMemberIds room = sort (qkeys (r_members room))"

definition BuildCreateJoinResponse :: "Room \<Rightarrow> RoomMember \<Rightarrow> CreateJoinRoomResponse" where
  [msg_simps]: "BuildCreateJoinResponse room me =
     \<lparr>cj_room_data = BuildRoomDataInternal room,
      cj_members =
        map (\<lambda>mid. BuildRoomMemberData (qvalue (r_members room) mid RoomMember_default))
          (sortedMemberIds room),
      cj_me_member_id = ucast (rm_memberId me),
      cj_owner_member_id = ucast (r_ownerMemberId room)\<rparr>"

definition AttrWanted :: "u16 list \<Rightarrow> u16 \<Rightarrow> bool" where
  "AttrWanted requestedAttrIds attrId \<longleftrightarrow> requestedAttrIds = [] \<or> attrId \<in> set requestedAttrIds"

definition RequestedAttrIds :: "u32 list \<Rightarrow> u16 list" where
  "RequestedAttrIds attr_ids = map ucast attr_ids"

definition BuildRoomDataExternal :: "Room \<Rightarrow> u16 list \<Rightarrow> MatchingRoomDataExternal" where
  [msg_simps]: "BuildRoomDataExternal room requestedAttrIds =
     (let owner = findById room (r_ownerMemberId room) in
     \<lparr>prx_max_slot = ucast (r_maxSlot room),
      prx_cur_members = ucast (word_of_nat (length (r_members room)) :: u16),
      prx_flags = r_flagAttr room,
      prx_server_id = ucast (r_serverId room),
      prx_world_id = r_worldId room,
      prx_lobby_id = r_lobbyId room,
      prx_room_id = r_roomId room,
      prx_passwd_slot_mask = r_passwdSlotMask room,
      prx_joined_slot_mask = joinedSlotMask room,
      prx_public_slots = ucast (r_publicSlots room),
      prx_private_slots = ucast (r_privateSlots room),
      prx_open_public_slots = ucast (r_openPublicSlots room),
      prx_open_private_slots = ucast (r_openPrivateSlots room),
      prx_groups = map FillRoomGroup (r_groups room),
      prx_external_search_int_attrs =
        map (\<lambda>s. \<lparr>pia_attr_id = ucast (ia_attrId s), pia_attr_value = ia_value s\<rparr>)
          (filter (\<lambda>s. ia_set s \<and> AttrWanted requestedAttrIds (ia_attrId s)) (r_searchIntAttr room)),
      prx_external_search_bin_attrs =
        map (\<lambda>s. MatchingBinAttr_default\<lparr>pba_attr_id := ucast (ba_attrId s), pba_data := ba_data s\<rparr>)
          (filter (\<lambda>s. ba_set s \<and> AttrWanted requestedAttrIds (ba_attrId s)) [r_searchBinAttr room]),
      prx_external_bin_attrs =
        map (\<lambda>s. MatchingBinAttr_default\<lparr>pba_attr_id := ucast (ba_attrId s), pba_data := ba_data s\<rparr>)
          (filter (\<lambda>s. ba_set s \<and> AttrWanted requestedAttrIds (ba_attrId s)) (r_externalBinAttr room)),
      prx_owner_npid = (case owner of None \<Rightarrow> [] | Some o' \<Rightarrow> rm_npid o'),
      prx_owner_account_id = (case owner of None \<Rightarrow> 0 | Some o' \<Rightarrow> u64_of_int (rm_userId o')),
      prx_owner_platform = (case owner of None \<Rightarrow> 0 | Some o' \<Rightarrow> rm_platform o')\<rparr>)"

end
