(* ===== verification/Shared.thy ===== *)
theory Shared
  imports Framing Messages
begin

text \<open>
  The state the sessions share (\<open>SharedState\<close> of \<open>src/client_session.h\<close> and
  \<open>MatchingSharedState\<close> of \<open>src/matching_types.h\<close>), the state of one session,
  and the notification helpers of \<open>src/cmd_matching.cpp\<close>. A \<open>send\<close> callback of a
  connected client is the number of its connection; what the server writes to other connections
  is a list of (connection, message) pairs in the order of the calls. Locks delimit atomic
  blocks and have no state of their own.
\<close>

subsection \<open>State\<close>

record ClientEntry =
  ce_npid :: qstring
  ce_send :: nat
  ce_matchingContextId :: u32
  ce_friends :: "(userid, qstring) qhash"
  ce_gameStatus :: qstring
  ce_gameData :: qstring
  ce_localizedGameStatus :: "(qstring, qstring) qhash"
  ce_npTitleId :: qstring
  ce_titleName :: qstring
  ce_platform :: qstring
  ce_presenceUpdatedAt :: int
  ce_appearOffline :: bool
  ce_notifyWithData :: bool

type_synonym ComId = qstring

record MatchingSharedState =
  mx_rooms :: "(ComId \<times> u64, Room) qhash"
  mx_worldRooms :: "(ComId \<times> u32, u64 list) qhash"
  mx_lobbyRooms :: "(ComId \<times> u64, u64 list) qhash"
  mx_userInfo :: "(ComId \<times> qstring, BinAttrSlot list) qhash"
  mx_nextRoomId :: u64
  mx_worldConfigs :: "(qstring, WorldConfig list) qhash"
  mx_titleGroups :: "(qstring, qstring) qhash"
  mx_udpExt :: "(qstring, qstring \<times> u16) qhash"

record SharedState =
  ss_clients :: "(userid, ClientEntry) qhash"
  ss_npidToUserId :: "(qstring, userid) qhash"
  ss_matching :: MatchingSharedState
  ss_usageTotalOnline :: int
  ss_usageGameUsers :: "(qstring, int) qhash"
  ss_usageClientGame :: "(userid, qstring) qhash"

record ClientInfo =
  ci_userId :: userid
  ci_npid :: qstring
  ci_avatarUrl :: qstring
  ci_token :: qstring
  ci_admin :: bool
  ci_statAgent :: bool
  ci_banned :: bool

record MatchingSessionState =
  ms_ctxId :: u32
  ms_titleId :: qstring
  ms_matchingKey :: qstring
  ms_serverId :: u16
  ms_worldId :: u16
  ms_lobbyId :: u16
  ms_roomId :: u64
  ms_myMemberId :: u16
  ms_isRoomOwner :: bool
  ms_maxSlots :: u16
  ms_roomFlags :: u32
  ms_initialized :: bool

record ClientSession =
  cs_authenticated :: bool
  cs_info :: ClientInfo
  cs_matching :: MatchingSessionState
  cs_peer :: "qstring option"
  cs_conn :: nat

definition MatchingSharedState_default :: MatchingSharedState where
  "MatchingSharedState_default = \<lparr>mx_rooms = [], mx_worldRooms = [], mx_lobbyRooms = [],
     mx_userInfo = [], mx_nextRoomId = 1, mx_worldConfigs = [], mx_titleGroups = [], mx_udpExt = []\<rparr>"

definition SharedState_default :: SharedState where
  "SharedState_default = \<lparr>ss_clients = [], ss_npidToUserId = [],
     ss_matching = MatchingSharedState_default, ss_usageTotalOnline = 0,
     ss_usageGameUsers = [], ss_usageClientGame = []\<rparr>"

definition MatchingSessionState_default :: MatchingSessionState where
  "MatchingSessionState_default = \<lparr>ms_ctxId = 0, ms_titleId = [], ms_matchingKey = [],
     ms_serverId = 1, ms_worldId = 1, ms_lobbyId = 0, ms_roomId = 0, ms_myMemberId = 0,
     ms_isRoomOwner = False, ms_maxSlots = 0, ms_roomFlags = 0, ms_initialized = False\<rparr>"

definition ClientInfo_default :: ClientInfo where
  "ClientInfo_default = \<lparr>ci_userId = 0, ci_npid = [], ci_avatarUrl = [], ci_token = [],
     ci_admin = False, ci_statAgent = False, ci_banned = False\<rparr>"

text \<open>
  \<open>hash[key]\<close> as an lvalue: the entry is created with the type's default when missing.
\<close>

definition qat_update :: "'k \<Rightarrow> 'v \<Rightarrow> ('v \<Rightarrow> 'v) \<Rightarrow> ('k, 'v) qhash \<Rightarrow> ('k, 'v) qhash" where
  "qat_update k d f h = qinsert k (f (qvalue h k d)) h"

lemma qfind_qat_update:
  "qfind (qat_update k d f h) k' = (if k' = k then Some (f (qvalue h k d)) else qfind h k')"
  by (simp add: qat_update_def qfind_qinsert)

abbreviation set_matching :: "MatchingSharedState \<Rightarrow> SharedState \<Rightarrow> SharedState" where
  "set_matching mx sh \<equiv> sh\<lparr>ss_matching := mx\<rparr>"

subsection \<open>Messages to other clients\<close>

datatype room_packet = RoomEventPkt NotifyRoomEvent | RoomMessagePkt NotifyRoomMessage

type_synonym out = "nat \<times> room_packet"

fun room_packet_bytes ::
  "(NotifyRoomEvent \<Rightarrow> bytes) \<Rightarrow> (NotifyRoomMessage \<Rightarrow> bytes) \<Rightarrow> room_packet \<Rightarrow> bytes" where
  \<comment> \<open>the \<open>buildPacket\<close> closures: \<open>appendProto\<close>, then \<open>BuildNotification\<close>\<close>
  "room_packet_bytes serE serM (RoomEventPkt e) = BuildNotification RoomEvent (appendProto serE [] e)"
| "room_packet_bytes serE serM (RoomMessagePkt m) = BuildNotification RoomMessage (appendProto serM [] m)"

definition SendMatchingNotification ::
  "SharedState \<Rightarrow> (u32 \<Rightarrow> room_packet) \<Rightarrow> qstring \<Rightarrow> out list" where
  "SendMatchingNotification sh build targetNpid =
     (case qfind (ss_npidToUserId sh) targetNpid of
        None \<Rightarrow> []
      | Some userId \<Rightarrow>
          (case qfind (ss_clients sh) userId of
             None \<Rightarrow> []
           | Some client \<Rightarrow>
               (if ce_matchingContextId client \<noteq> 0
                then [(ce_send client, build (ce_matchingContextId client))] else [])))"

definition NotifyRoomMembers ::
  "SharedState \<Rightarrow> (u32 \<Rightarrow> room_packet) \<Rightarrow> qstring \<Rightarrow> u64 \<Rightarrow> qstring \<Rightarrow> out list" where
  "NotifyRoomMembers sh build matchingKey roomId excludeNpid =
     (case qfind (mx_rooms (ss_matching sh)) (matchingKey, roomId) of
        None \<Rightarrow> []
      | Some room \<Rightarrow>
          (let recipients = List.map_filter
                 (\<lambda>member. if rm_npid member = excludeNpid then None
                    else (case qfind (ss_npidToUserId sh) (rm_npid member) of
                            None \<Rightarrow> None
                          | Some userId \<Rightarrow> qfind (ss_clients sh) userId))
                 (qvalues (r_members room))
           in map (\<lambda>c. (ce_send c, build (ce_matchingContextId c)))
                (filter (\<lambda>c. ce_matchingContextId c \<noteq> 0) recipients)))"

definition SendRoomMemberEvent ::
  "SharedState \<Rightarrow> qstring \<Rightarrow> u64 \<Rightarrow> u32 \<Rightarrow> u32 \<Rightarrow> RoomMember \<Rightarrow> qstring \<Rightarrow> out list" where
  "SendRoomMemberEvent sh matchingKey roomId event cause member excludeNpid =
     (let pb = NotifyRoomEvent_default\<lparr>ne_room_id := roomId, ne_event := event,
                 ne_event_cause := cause, ne_member := Some (BuildRoomMemberData member)\<rparr>
      in NotifyRoomMembers sh (\<lambda>ctx. RoomEventPkt (pb\<lparr>ne_ctx_id := ctx\<rparr>)) matchingKey roomId excludeNpid)"

definition SendRoomEventToTarget ::
  "SharedState \<Rightarrow> u64 \<Rightarrow> u32 \<Rightarrow> u32 \<Rightarrow> u32 \<Rightarrow> qstring \<Rightarrow> out list" where
  "SendRoomEventToTarget sh roomId event cause errorCode targetNpid =
     (let pb = NotifyRoomEvent_default\<lparr>ne_room_id := roomId, ne_event := event,
                 ne_event_cause := cause, ne_error_code := errorCode\<rparr>
      in SendMatchingNotification sh (\<lambda>ctx. RoomEventPkt (pb\<lparr>ne_ctx_id := ctx\<rparr>)) targetNpid)"

subsection \<open>Session helpers\<close>

definition GetSelfSignalingAddr :: "SharedState \<Rightarrow> ClientSession \<Rightarrow> qstring \<times> u16" where
  "GetSelfSignalingAddr sh cs =
     (let (addr, port) = qvalue (mx_udpExt (ss_matching sh)) (ci_npid (cs_info cs)) ([], 0)
      in if addr = [] then (case cs_peer cs of None \<Rightarrow> (addr, port) | Some p \<Rightarrow> (p, port))
         else (addr, port))"

definition ResetLocalMatchingRoomState :: "MatchingSessionState \<Rightarrow> MatchingSessionState" where
  "ResetLocalMatchingRoomState matching =
     matching\<lparr>ms_roomId := 0, ms_myMemberId := 0, ms_isRoomOwner := False, ms_maxSlots := 0,
              ms_roomFlags := 0\<rparr>"

definition ResetMatchingRoomState :: "u64 \<Rightarrow> ClientSession \<Rightarrow> ClientSession" where
  "ResetMatchingRoomState roomId cs =
     (if roomId = 0 \<or> ms_roomId (cs_matching cs) \<noteq> roomId then cs
      else cs\<lparr>cs_matching := ResetLocalMatchingRoomState (cs_matching cs)\<rparr>)"

definition MatchingTimestampUsec :: "int \<Rightarrow> u64" where
  \<comment> \<open>of the current time in milliseconds since the epoch\<close>
  "MatchingTimestampUsec nowMs = u64_of_int nowMs * 1000"

end
