(* ===== verification/Relations.thy ===== *)
theory Relations
  imports Shared
begin

text \<open>
  The account and friendship tables behind \<open>src/database.cpp\<close> and the statements the
  server runs on them. A table is a finite map from its primary key; a statement's effect is
  what its SQL says, with the keys, checks and cascades the schema in \<open>Migrate\<close> declares.
  Which statements the database fails is an argument.
\<close>

subsection \<open>Tables\<close>

record UserRecord =
  ur_username :: qstring
  ur_hash :: bytes
  ur_salt :: bytes
  ur_avatarUrl :: qstring
  ur_email :: qstring
  ur_emailCheck :: qstring
  ur_token :: qstring
  ur_admin :: bool
  ur_statAgent :: bool
  ur_banned :: bool

record Database =
  db_accounts :: "(userid, UserRecord) qhash"
  db_nextUserId :: userid                                    \<comment> \<open>\<open>AUTOINCREMENT\<close>: ids are not reused\<close>
  db_friendship :: "(userid \<times> userid, u8 \<times> u8) qhash"   \<comment> \<open>key and status in the order of the ids\<close>
  db_titleNames :: "(qstring, qstring) qhash"

definition Database_empty :: Database where
  "Database_empty = \<lparr>db_accounts = [], db_nextUserId = 1, db_friendship = [],
     db_titleNames = []\<rparr>"

record faults =
  fa_account :: bool     \<comment> \<open>statements on the account table fail\<close>
  fa_rel_read :: bool    \<comment> \<open>queries of the friendship table fail\<close>
  fa_rel_write :: bool   \<comment> \<open>writes to the friendship table fail\<close>

definition no_faults :: faults where
  "no_faults = \<lparr>fa_account = False, fa_rel_read = False, fa_rel_write = False\<rparr>"

definition nocase :: "qstring \<Rightarrow> qstring" where
  \<comment> \<open>SQLite's \<open>COLLATE NOCASE\<close> compares with the 26 upper case ASCII letters folded\<close>
  "nocase s = map (\<lambda>c. let n = of_char c :: nat in if 65 \<le> n \<and> n \<le> 90 then char_of (n + 32) else c) s"

definition GetUserId :: "bool \<Rightarrow> qstring \<Rightarrow> Database \<Rightarrow> userid option" where
  "GetUserId fault npid db =
     (if fault then None
      else map_option fst (List.find (\<lambda>(i, r). nocase (ur_username r) = nocase npid) (db_accounts db)))"

definition GetUsername :: "bool \<Rightarrow> userid \<Rightarrow> Database \<Rightarrow> qstring option" where
  "GetUsername fault userId db =
     (if fault then None else map_option ur_username (qfind (db_accounts db) userId))"

definition DeleteUser :: "bool \<Rightarrow> userid \<Rightarrow> Database \<Rightarrow> bool \<times> Database" where
  \<comment> \<open>\<open>ON DELETE CASCADE\<close> removes the user's friendship rows\<close>
  "DeleteUser fault userId db =
     (if fault then (False, db)
      else (True, db\<lparr>db_accounts := qremove userId (db_accounts db),
                     db_friendship := filter (\<lambda>((i, j), s). i \<noteq> userId \<and> j \<noteq> userId) (db_friendship db)\<rparr>))"

definition SetTitleName :: "bool \<Rightarrow> qstring \<Rightarrow> qstring \<Rightarrow> Database \<Rightarrow> bool \<times> Database" where
  \<comment> \<open>\<open>INSERT OR IGNORE\<close>: the first name of a title stays\<close>
  "SetTitleName fault comId titleName db =
     (if comId = [] \<or> titleName = [] \<or> fault then (False, db)
      else if qfind (db_titleNames db) comId \<noteq> None then (True, db)
      else (True, db\<lparr>db_titleNames := qinsert comId titleName (db_titleNames db)\<rparr>))"

definition GetTitleName :: "bool \<Rightarrow> qstring \<Rightarrow> Database \<Rightarrow> qstring option" where
  "GetTitleName fault comId db = (if comId = [] \<or> fault then None else qfind (db_titleNames db) comId)"

subsection \<open>Friendship rows\<close>

definition FRIEND :: u8 where "FRIEND = 1"
definition BLOCKED :: u8 where "BLOCKED = 2"

definition hasFriend :: "u8 \<Rightarrow> bool" where "hasFriend s \<longleftrightarrow> s AND FRIEND \<noteq> 0"
definition hasBlocked :: "u8 \<Rightarrow> bool" where "hasBlocked s \<longleftrightarrow> s AND BLOCKED \<noteq> 0"

datatype RelResult = RelOk | RelEmpty | RelError

definition orderedIds :: "userid \<Rightarrow> userid \<Rightarrow> userid \<times> userid \<times> bool" where
  "orderedIds a b = (if a < b then (a, b, False) else (b, a, True))"

definition GetRelStatus :: "bool \<Rightarrow> userid \<Rightarrow> userid \<Rightarrow> Database \<Rightarrow> RelResult \<times> (u8 \<times> u8)" where
  "GetRelStatus fault callerId otherId db =
     (let (id1, id2, swapped) = orderedIds callerId otherId in
      if fault then (RelError, (0, 0))
      else (case qfind (db_friendship db) (id1, id2) of
              None \<Rightarrow> (RelEmpty, (0, 0))
            | Some (s1, s2) \<Rightarrow> (RelOk, if swapped then (s2, s1) else (s1, s2))))"

definition SetRelStatus :: "bool \<Rightarrow> userid \<Rightarrow> userid \<Rightarrow> u8 \<Rightarrow> u8 \<Rightarrow> Database \<Rightarrow> bool \<times> Database" where
  \<comment> \<open>the statement fails when a foreign key or \<open>CHECK(user_id_1 < user_id_2)\<close> does\<close>
  "SetRelStatus fault callerId otherId statusCaller statusOther db =
     (let (id1, id2, swapped) = orderedIds callerId otherId;
          s1 = (if swapped then statusOther else statusCaller);
          s2 = (if swapped then statusCaller else statusOther)
      in if fault \<or> \<not> id1 < id2 \<or> qfind (db_accounts db) id1 = None \<or> qfind (db_accounts db) id2 = None
         then (False, db)
         else (True, db\<lparr>db_friendship := qinsert (id1, id2) (s1, s2) (db_friendship db)\<rparr>))"

definition DeleteRel :: "bool \<Rightarrow> userid \<Rightarrow> userid \<Rightarrow> Database \<Rightarrow> bool \<times> Database" where
  "DeleteRel fault callerId otherId db =
     (let (id1, id2, swapped) = orderedIds callerId otherId in
      if fault then (False, db)
      else (True, db\<lparr>db_friendship := qremove (id1, id2) (db_friendship db)\<rparr>))"

record UserRelationships =
  rl_friends :: "(userid \<times> qstring) list"
  rl_friendRequestsSent :: "(userid \<times> qstring) list"
  rl_friendRequestsReceived :: "(userid \<times> qstring) list"
  rl_blocked :: "(userid \<times> qstring) list"

definition rotateRow :: "userid \<Rightarrow> (userid \<times> userid) \<times> (u8 \<times> u8) \<Rightarrow> userid \<times> u8 \<times> u8" where
  \<comment> \<open>the other user, our status, their status\<close>
  "rotateRow userId = (\<lambda>((uid1, uid2), (su1, su2)).
     if uid1 = userId then (uid2, su1, su2) else (uid1, su2, su1))"

definition relationRows :: "faults \<Rightarrow> userid \<Rightarrow> Database \<Rightarrow> ((userid \<times> qstring) \<times> u8 \<times> u8) list" where
  \<comment> \<open>the rows of a user whose other user has a name\<close>
  "relationRows fa userId db =
     List.map_filter (\<lambda>row. let (otherId, me, other) = rotateRow userId row in
         map_option (\<lambda>n. ((otherId, n), me, other)) (GetUsername (fa_account fa) otherId db))
       (filter (\<lambda>((i, j), s). i = userId \<or> j = userId) (db_friendship db))"

definition GetRelationships :: "faults \<Rightarrow> userid \<Rightarrow> Database \<Rightarrow> UserRelationships" where
  "GetRelationships fa userId db =
     (let rows = (if fa_rel_read fa then [] else relationRows fa userId db);
          select = (\<lambda>P. map fst (filter (\<lambda>(u, me, other). P me other) rows))
      in \<lparr>rl_friends = select (\<lambda>me other. hasFriend me \<and> hasFriend other),
          rl_friendRequestsSent = select (\<lambda>me other. hasFriend me \<and> \<not> hasFriend other),
          rl_friendRequestsReceived = select (\<lambda>me other. \<not> hasFriend me \<and> hasFriend other),
          rl_blocked = select (\<lambda>me other. hasBlocked me)\<rparr>)"

subsection \<open>Status bits\<close>

lemma bit_FRIEND: "bit FRIEND n \<longleftrightarrow> n = 0"
  by (simp add: FRIEND_def bit_1_iff)

lemma bit_BLOCKED: "bit BLOCKED n \<longleftrightarrow> n = 1"
proof -
  have b: "BLOCKED = push_bit 1 1" by (simp add: BLOCKED_def push_bit_eq_mult)
  show ?thesis unfolding b bit_push_bit_iff bit_1_iff by auto
qed

lemma single_bit:
  fixes s f :: u8
  assumes "\<And>n. bit f n \<longleftrightarrow> n = k"
  shows "s AND f \<noteq> 0 \<longleftrightarrow> bit s k"
proof
  assume "s AND f \<noteq> 0"
  then obtain n where "bit (s AND f) n" by (metis bit_eqI bit_0_eq bot_apply bot_bool_def)
  with assms show "bit s k" by (auto simp: bit_simps)
next
  assume "bit s k"
  with assms have "bit (s AND f) k" by (simp add: bit_simps)
  then show "s AND f \<noteq> 0" by auto
qed

lemma hasFriend_bit: "hasFriend s \<longleftrightarrow> bit s 0"
  unfolding hasFriend_def by (rule single_bit) (rule bit_FRIEND)

lemma hasBlocked_bit: "hasBlocked s \<longleftrightarrow> bit s 1"
  unfolding hasBlocked_def by (rule single_bit) (rule bit_BLOCKED)

lemma status_bits [simp]:
  "hasFriend 0 = False" "hasBlocked 0 = False"
  "hasFriend (s OR FRIEND)" "hasBlocked (s OR FRIEND) = hasBlocked s"
  "\<not> hasFriend (s AND NOT FRIEND)" "hasBlocked (s AND NOT FRIEND) = hasBlocked s"
  "hasBlocked (s OR BLOCKED)" "hasFriend (s OR BLOCKED) = hasFriend s"
  "\<not> hasBlocked (s AND NOT BLOCKED)" "hasFriend (s AND NOT BLOCKED) = hasFriend s"
  "hasFriend FRIEND" "\<not> hasBlocked FRIEND" "hasBlocked BLOCKED" "\<not> hasFriend BLOCKED"
  unfolding hasFriend_bit hasBlocked_bit bit_or_iff bit_and_iff bit_not_iff bit_FRIEND bit_BLOCKED
  by simp_all

subsection \<open>The interface of the relation table\<close>

text \<open>
  What the friend commands rely on: a status pair per pair of users, seen from either side,
  that reads back what was last written for that pair. Its meaning is a pair of relations.
\<close>

record social =
  so_requests :: "(userid \<times> userid) set"    \<comment> \<open>the first asked to be the second's friend, or confirmed\<close>
  so_blocks :: "(userid \<times> userid) set"

locale rel_store =
  fixes get :: "'s \<Rightarrow> userid \<Rightarrow> userid \<Rightarrow> u8 \<times> u8"
    and put :: "userid \<Rightarrow> userid \<Rightarrow> u8 \<times> u8 \<Rightarrow> 's \<Rightarrow> 's"
    and del :: "userid \<Rightarrow> userid \<Rightarrow> 's \<Rightarrow> 's"
  assumes get_swap: "a \<noteq> b \<Longrightarrow> get s b a = prod.swap (get s a b)"
    and get_put: "a \<noteq> b \<Longrightarrow> c \<noteq> d \<Longrightarrow> get (put a b st s) c d =
      (if (c, d) = (a, b) then st else if (c, d) = (b, a) then prod.swap st else get s c d)"
    and get_del: "a \<noteq> b \<Longrightarrow> c \<noteq> d \<Longrightarrow> get (del a b s) c d = (if {c, d} = {a, b} then (0, 0) else get s c d)"
begin

definition meaning :: "'s \<Rightarrow> social" where
  "meaning s = \<lparr>so_requests = {(a, b). a \<noteq> b \<and> hasFriend (fst (get s a b))},
                so_blocks = {(a, b). a \<noteq> b \<and> hasBlocked (fst (get s a b))}\<rparr>"

lemma other_side: "a \<noteq> b \<Longrightarrow> snd (get s a b) = fst (get s b a)"
  by (simp add: get_swap [of a b])

lemma meaning_put:
  assumes "a \<noteq> b"
  shows "meaning (put a b (x, y) s) =
    \<lparr>so_requests = (so_requests (meaning s) - {(a, b), (b, a)}) \<union>
       ({(a, b)} \<inter> {_. hasFriend x}) \<union> ({(b, a)} \<inter> {_. hasFriend y}),
     so_blocks = (so_blocks (meaning s) - {(a, b), (b, a)}) \<union>
       ({(a, b)} \<inter> {_. hasBlocked x}) \<union> ({(b, a)} \<inter> {_. hasBlocked y})\<rparr>"
  using assms by (auto simp: meaning_def get_put split: if_splits)

lemma meaning_del:
  assumes "a \<noteq> b"
  shows "meaning (del a b s) =
    \<lparr>so_requests = so_requests (meaning s) - {(a, b), (b, a)},
     so_blocks = so_blocks (meaning s) - {(a, b), (b, a)}\<rparr>"
  using assms by (auto simp: meaning_def get_del doubleton_eq_iff split: if_splits)

lemma meaning_del_put: "a \<noteq> b \<Longrightarrow> meaning (del a b s) = meaning (put a b (0, 0) s)"
  by (simp add: meaning_del meaning_put)

lemma meaning_request: "a \<noteq> b \<Longrightarrow> (a, b) \<in> so_requests (meaning s) \<longleftrightarrow> hasFriend (fst (get s a b))"
  and meaning_block: "a \<noteq> b \<Longrightarrow> (a, b) \<in> so_blocks (meaning s) \<longleftrightarrow> hasBlocked (fst (get s a b))"
  by (simp_all add: meaning_def)

end

definition relStatus :: "(userid \<times> userid, u8 \<times> u8) qhash \<Rightarrow> userid \<Rightarrow> userid \<Rightarrow> u8 \<times> u8" where
  \<comment> \<open>what \<open>GetRelStatus\<close> yields, a missing row read as no relation\<close>
  "relStatus t a b = (let (i, j, swapped) = orderedIds a b; st = qvalue t (i, j) (0, 0)
                      in if swapped then prod.swap st else st)"

definition relPut :: "userid \<Rightarrow> userid \<Rightarrow> u8 \<times> u8 \<Rightarrow> (userid \<times> userid, u8 \<times> u8) qhash
    \<Rightarrow> (userid \<times> userid, u8 \<times> u8) qhash" where
  "relPut a b st t = (let (i, j, swapped) = orderedIds a b
                      in qinsert (i, j) (if swapped then prod.swap st else st) t)"

definition relDel :: "userid \<Rightarrow> userid \<Rightarrow> (userid \<times> userid, u8 \<times> u8) qhash
    \<Rightarrow> (userid \<times> userid, u8 \<times> u8) qhash" where
  "relDel a b t = (let (i, j, swapped) = orderedIds a b in qremove (i, j) t)"

interpretation rel: rel_store relStatus relPut relDel
proof
  show "a \<noteq> b \<Longrightarrow> relStatus s b a = prod.swap (relStatus s a b)" for s a b
    by (simp add: relStatus_def orderedIds_def)
  show "a \<noteq> b \<Longrightarrow> c \<noteq> d \<Longrightarrow> relStatus (relPut a b st s) c d =
      (if (c, d) = (a, b) then st else if (c, d) = (b, a) then prod.swap st else relStatus s c d)" for a b c d st s
    by (cases "a < b"; cases "c < d") (simp_all add: relStatus_def relPut_def orderedIds_def qfind_qinsert, auto)
  show "a \<noteq> b \<Longrightarrow> c \<noteq> d \<Longrightarrow> relStatus (relDel a b s) c d =
      (if {c, d} = {a, b} then (0, 0) else relStatus s c d)" for a b c d s
    by (cases "a < b"; cases "c < d")
      (simp_all add: relStatus_def relDel_def orderedIds_def qfind_qremove doubleton_eq_iff, auto)
qed

lemma GetRelStatus_eq:
  "GetRelStatus fault a b db =
     (if fault then (RelError, (0, 0))
      else (if qfind (db_friendship db) (let (i, j, _) = orderedIds a b in (i, j)) = None then RelEmpty else RelOk,
            relStatus (db_friendship db) a b))"
  by (auto simp: GetRelStatus_def relStatus_def Let_def split: prod.splits option.splits)

lemma SetRelStatus_eq:
  "SetRelStatus fault a b x y db =
     (if fault \<or> a = b \<or> qfind (db_accounts db) a = None \<or> qfind (db_accounts db) b = None then (False, db)
      else (True, db\<lparr>db_friendship := relPut a b (x, y) (db_friendship db)\<rparr>))"
  by (auto simp: SetRelStatus_def relPut_def orderedIds_def)

lemma DeleteRel_eq:
  "DeleteRel fault a b db =
     (if fault then (False, db) else (True, db\<lparr>db_friendship := relDel a b (db_friendship db)\<rparr>))"
  by (simp add: DeleteRel_def relDel_def split: prod.splits)

end
