(* ===== verification/Friends.thy ===== *)
theory Friends
  imports Relations
begin

text \<open>
  The friend and block commands of \<open>src/cmd_friend.cpp\<close> with the notifications they
  send. A handler takes the faults of its database statements, the decoded request
  (\<open>None\<close>: it did not decode), the session, the shared state and the database.
\<close>

subsection \<open>Messages\<close>

datatype friend_packet =
    FriendQueryPkt qstring                 \<comment> \<open>\<open>NotifyFriendQuery\<close>: from\<close>
  | FriendNewPkt qstring bool              \<comment> \<open>\<open>NotifyFriendNew\<close>: npid, online\<close>
  | FriendLostPkt qstring                  \<comment> \<open>\<open>NotifyFriendLost\<close>: npid\<close>
  | FriendStatusPkt qstring bool u64       \<comment> \<open>\<open>NotifyFriendStatus\<close>: npid, online, timestamp\<close>
  | WebApiPushPkt qstring u32 qstring "(qstring \<times> qstring) list" qstring qstring
      "(qstring \<times> (qstring \<times> qstring) list) list"
      \<comment> \<open>service, label, data type, data (a JSON object, or nothing), from, to, extended data
          (JSON objects)\<close>

type_synonym friend_out = "nat \<times> friend_packet"

definition SendNotification :: "SharedState \<Rightarrow> friend_packet \<Rightarrow> userid \<Rightarrow> friend_out list" where
  "SendNotification sh pkt targetUserId =
     (case qfind (ss_clients sh) targetUserId of None \<Rightarrow> [] | Some c \<Rightarrow> [(ce_send c, pkt)])"

definition SendSelfNotification :: "ClientSession \<Rightarrow> friend_packet \<Rightarrow> friend_out list" where
  "SendSelfNotification cs pkt = [(cs_conn cs, pkt)]"

definition PushWebApiEvent ::
  "SharedState \<Rightarrow> qstring \<Rightarrow> u32 \<Rightarrow> qstring \<Rightarrow> (qstring \<times> qstring) list \<Rightarrow> qstring \<Rightarrow> qstring \<Rightarrow> userid
    \<Rightarrow> (qstring \<times> (qstring \<times> qstring) list) list \<Rightarrow> friend_out list" where
  "PushWebApiEvent sh service label dataType dat fromNpid toNpid targetUserId extd =
     SendNotification sh (WebApiPushPkt service label dataType dat fromNpid toNpid extd) targetUserId"

definition FriendExtd :: "qstring \<Rightarrow> userid \<Rightarrow> qstring \<Rightarrow> (qstring \<times> (qstring \<times> qstring) list) list" where
  "FriendExtd friendNpid friendAccountId ev =
     [(''trigger'', [(''event'', ev), (''friend'', friendNpid)]),
      (''additionalTrigger'', [(''event'', ev), (''friendAccountId'', qstring_number friendAccountId)])]"

definition kWebApiFriendDataType :: qstring where
  "kWebApiFriendDataType = ''np:service:friendlist:friend''"

definition kWebApiBlockDataType :: qstring where
  "kWebApiBlockDataType = ''np:service:blocklist''"

record wire_functions =
  wf_serialize :: "friend_packet \<Rightarrow> bytes"                 \<comment> \<open>\<open>SerializeAsString\<close> of the four messages\<close>
  wf_toUtf8 :: "qstring \<Rightarrow> bytes"
  wf_toJson :: "(qstring \<times> qstring) list \<Rightarrow> bytes"        \<comment> \<open>\<open>QJsonDocument::toJson(Compact)\<close>\<close>

fun friend_packet_bytes :: "wire_functions \<Rightarrow> friend_packet \<Rightarrow> bytes" where
  "friend_packet_bytes w (WebApiPushPkt service label dataType dat from to extd) =
     BuildNotification WebApiPushEvent
       (BuildWebApiPushPayload (wf_toUtf8 w service) label (wf_toUtf8 w dataType)
         (if dat = [] then [] else wf_toJson w dat)
         (wf_toUtf8 w from) (wf_toUtf8 w to) (map (\<lambda>(k, obj). (wf_toUtf8 w k, wf_toJson w obj)) extd))"
| "friend_packet_bytes w (FriendQueryPkt n) =
     BuildNotification FriendQuery (appendProto (wf_serialize w) [] (FriendQueryPkt n))"
| "friend_packet_bytes w (FriendNewPkt n b) =
     BuildNotification FriendNew (appendProto (wf_serialize w) [] (FriendNewPkt n b))"
| "friend_packet_bytes w (FriendLostPkt n) =
     BuildNotification FriendLost (appendProto (wf_serialize w) [] (FriendLostPkt n))"
| "friend_packet_bytes w (FriendStatusPkt n b t) =
     BuildNotification FriendStatus (appendProto (wf_serialize w) [] (FriendStatusPkt n b t))"

subsection \<open>The online friend lists\<close>

definition addFriendEntry :: "userid \<Rightarrow> userid \<Rightarrow> qstring \<Rightarrow> SharedState \<Rightarrow> SharedState" where
  \<comment> \<open>\<open>clients.find(userId)->friends.insert(friendId, npid)\<close> when the user is connected\<close>
  "addFriendEntry userId friendId npid sh =
     sh\<lparr>ss_clients := qmodify userId (\<lambda>c. c\<lparr>ce_friends := qinsert friendId npid (ce_friends c)\<rparr>) (ss_clients sh)\<rparr>"

definition removeFriendEntry :: "userid \<Rightarrow> userid \<Rightarrow> SharedState \<Rightarrow> SharedState" where
  "removeFriendEntry userId friendId sh =
     sh\<lparr>ss_clients := qmodify userId (\<lambda>c. c\<lparr>ce_friends := qremove friendId (ce_friends c)\<rparr>) (ss_clients sh)\<rparr>"

definition isOnline :: "SharedState \<Rightarrow> userid \<Rightarrow> bool" where
  "isOnline sh userId \<longleftrightarrow> qfind (ss_clients sh) userId \<noteq> None"

subsection \<open>Commands\<close>

type_synonym friend_result = "ErrorType \<times> SharedState \<times> Database \<times> friend_out list"

abbreviation refuse :: "ErrorType \<Rightarrow> SharedState \<Rightarrow> Database \<Rightarrow> friend_result" where
  "refuse e sh db \<equiv> (e, sh, db, [])"

abbreviation my_id :: "ClientSession \<Rightarrow> userid" where
  "my_id cs \<equiv> ci_userId (cs_info cs)"

abbreviation my_name :: "ClientSession \<Rightarrow> qstring" where
  "my_name cs \<equiv> ci_npid (cs_info cs)"

definition pushFriendChange ::
  "SharedState \<Rightarrow> ClientSession \<Rightarrow> qstring \<Rightarrow> userid \<Rightarrow> qstring \<Rightarrow> friend_out list" where
  \<comment> \<open>the two WebApi events that tell both sides that their friend list changed\<close>
  "pushFriendChange sh cs friendNpid friendId ev =
     PushWebApiEvent sh [] 0 kWebApiFriendDataType [] [] (my_name cs) (my_id cs)
       (FriendExtd friendNpid friendId ev) @
     PushWebApiEvent sh [] 0 kWebApiFriendDataType [] [] friendNpid friendId
       (FriendExtd (my_name cs) (my_id cs) ev)"

definition befriendOnline :: "ClientSession \<Rightarrow> qstring \<Rightarrow> userid \<Rightarrow> SharedState \<Rightarrow> SharedState \<times> friend_out list" where
  \<comment> \<open>a friendship became mutual\<close>
  "befriendOnline cs friendNpid friendId sh =
     (let targetOnline = isOnline sh friendId;
          sh1 = addFriendEntry friendId (my_id cs) (my_name cs) (addFriendEntry (my_id cs) friendId friendNpid sh)
      in (sh1, SendSelfNotification cs (FriendNewPkt friendNpid targetOnline) @
               SendNotification sh1 (FriendNewPkt (my_name cs) True) friendId @
               pushFriendChange sh1 cs friendNpid friendId ''add''))"

definition unfriendOnline :: "ClientSession \<Rightarrow> qstring \<Rightarrow> userid \<Rightarrow> SharedState \<Rightarrow> SharedState \<times> friend_out list" where
  "unfriendOnline cs friendNpid friendId sh =
     (let sh1 = removeFriendEntry friendId (my_id cs) (removeFriendEntry (my_id cs) friendId sh)
      in (sh1, SendSelfNotification cs (FriendLostPkt friendNpid) @
               SendNotification sh1 (FriendLostPkt (my_name cs)) friendId @
               pushFriendChange sh1 cs friendNpid friendId ''remove''))"

definition CmdAddFriend :: "faults \<Rightarrow> qstring option \<Rightarrow> ClientSession \<Rightarrow> SharedState \<Rightarrow> Database \<Rightarrow> friend_result" where
  "CmdAddFriend fa req cs sh db =
     (case req of None \<Rightarrow> refuse Malformed sh db
      | Some friendNpid \<Rightarrow>
        (case GetUserId (fa_account fa) friendNpid db of
           None \<Rightarrow> refuse NotFound sh db
         | Some friendId \<Rightarrow>
           if friendId = my_id cs then refuse InvalidInput sh db
           else
             (let (res, caller, other) = GetRelStatus (fa_rel_read fa) (my_id cs) friendId db in
              if res = RelError then refuse DbFail sh db
              else if res = RelOk \<and> (hasBlocked caller \<or> hasBlocked other) then refuse Blocked sh db
              else if res = RelOk \<and> hasFriend caller then refuse AlreadyFriend sh db
              else
                (let newCaller = (if res = RelOk then caller else 0) OR FRIEND;
                     newOther = (if res = RelOk then other else 0);
                     (ok, db') = SetRelStatus (fa_rel_write fa) (my_id cs) friendId newCaller newOther db
                 in if \<not> ok then refuse DbFail sh db
                    else if hasFriend newOther
                    then (let (sh', outs) = befriendOnline cs friendNpid friendId sh in (NoError, sh', db', outs))
                    else (NoError, sh, db',
                          SendNotification sh (FriendQueryPkt (my_name cs)) friendId @
                          PushWebApiEvent sh [] 0 kWebApiFriendDataType [] [] friendNpid friendId [])))))"

definition storeOrDelete :: "faults \<Rightarrow> userid \<Rightarrow> userid \<Rightarrow> u8 \<Rightarrow> u8 \<Rightarrow> Database \<Rightarrow> bool \<times> Database" where
  "storeOrDelete fa callerId otherId newCaller newOther db =
     (if newCaller = 0 \<and> newOther = 0 then DeleteRel (fa_rel_write fa) callerId otherId db
      else SetRelStatus (fa_rel_write fa) callerId otherId newCaller newOther db)"

definition CmdRemoveFriend :: "faults \<Rightarrow> qstring option \<Rightarrow> ClientSession \<Rightarrow> SharedState \<Rightarrow> Database \<Rightarrow> friend_result" where
  "CmdRemoveFriend fa req cs sh db =
     (case req of None \<Rightarrow> refuse Malformed sh db
      | Some friendNpid \<Rightarrow>
        (case GetUserId (fa_account fa) friendNpid db of
           None \<Rightarrow> refuse NotFound sh db
         | Some friendId \<Rightarrow>
           if friendId = my_id cs then refuse InvalidInput sh db
           else
             (let (res, caller, other) = GetRelStatus (fa_rel_read fa) (my_id cs) friendId db in
              if res \<noteq> RelOk then refuse NotFound sh db
              else if \<not> hasFriend caller \<and> \<not> hasFriend other then refuse NotFound sh db
              else
                (let newCaller = caller AND NOT FRIEND;
                     newOther = other AND NOT FRIEND;
                     (ok, db') = storeOrDelete fa (my_id cs) friendId newCaller newOther db
                 in if \<not> ok then refuse DbFail sh db
                    else (let (sh', outs) = unfriendOnline cs friendNpid friendId sh
                          in (NoError, sh', db', outs))))))"

definition CmdAddBlock :: "faults \<Rightarrow> qstring option \<Rightarrow> ClientSession \<Rightarrow> SharedState \<Rightarrow> Database \<Rightarrow> friend_result" where
  \<comment> \<open>a failed query of the relation is taken for no relation\<close>
  "CmdAddBlock fa req cs sh db =
     (case req of None \<Rightarrow> refuse Malformed sh db
      | Some targetNpid \<Rightarrow>
        (case GetUserId (fa_account fa) targetNpid db of
           None \<Rightarrow> refuse NotFound sh db
         | Some targetId \<Rightarrow>
           if targetId = my_id cs then refuse InvalidInput sh db
           else
             (let (res, caller, other) = GetRelStatus (fa_rel_read fa) (my_id cs) targetId db;
                  curCaller = (if res = RelOk then caller else 0);
                  curOther = (if res = RelOk then other else 0);
                  wasFriend = (hasFriend curCaller \<and> hasFriend curOther);
                  newCaller = (curCaller OR BLOCKED) AND NOT FRIEND;
                  newOther = curOther AND NOT FRIEND;
                  (ok, db') = SetRelStatus (fa_rel_write fa) (my_id cs) targetId newCaller newOther db
              in if \<not> ok then refuse DbFail sh db
                 else
                   (let (sh', outs) = (if wasFriend then unfriendOnline cs targetNpid targetId sh else (sh, []))
                    in (NoError, sh', db', outs @
                        PushWebApiEvent sh' [] 0 kWebApiBlockDataType [] [] (my_name cs) (my_id cs) [])))))"

definition CmdRemoveBlock :: "faults \<Rightarrow> qstring option \<Rightarrow> ClientSession \<Rightarrow> SharedState \<Rightarrow> Database \<Rightarrow> friend_result" where
  "CmdRemoveBlock fa req cs sh db =
     (case req of None \<Rightarrow> refuse Malformed sh db
      | Some targetNpid \<Rightarrow>
        (case GetUserId (fa_account fa) targetNpid db of
           None \<Rightarrow> refuse NotFound sh db
         | Some targetId \<Rightarrow>
           if targetId = my_id cs then refuse InvalidInput sh db
           else
             (let (res, caller, other) = GetRelStatus (fa_rel_read fa) (my_id cs) targetId db in
              if res \<noteq> RelOk then refuse NotFound sh db
              else if \<not> hasBlocked caller then refuse NotFound sh db
              else
                (let newCaller = caller AND NOT BLOCKED;
                     (ok, db') = storeOrDelete fa (my_id cs) targetId newCaller other db
                 in if \<not> ok then refuse DbFail sh db
                    else (NoError, sh, db',
                          PushWebApiEvent sh [] 0 kWebApiBlockDataType [] [] (my_name cs) (my_id cs) [])))))"

subsection \<open>The commands refine operations on relations\<close>

text \<open>
  What the four commands promise, on the two relations the table means: who asked whom to be
  friends (both directions: friends), and who blocks whom.
\<close>

datatype friend_op = OpAddFriend | OpRemoveFriend | OpAddBlock | OpRemoveBlock

fun friend_command ::
  "friend_op \<Rightarrow> faults \<Rightarrow> qstring option \<Rightarrow> ClientSession \<Rightarrow> SharedState \<Rightarrow> Database \<Rightarrow> friend_result" where
  "friend_command OpAddFriend = CmdAddFriend"
| "friend_command OpRemoveFriend = CmdRemoveFriend"
| "friend_command OpAddBlock = CmdAddBlock"
| "friend_command OpRemoveBlock = CmdRemoveBlock"

fun social_step :: "friend_op \<Rightarrow> userid \<Rightarrow> userid \<Rightarrow> social \<Rightarrow> ErrorType \<times> social" where
  "social_step OpAddFriend a b so =
     (if (a, b) \<in> so_blocks so \<or> (b, a) \<in> so_blocks so then (Blocked, so)
      else if (a, b) \<in> so_requests so then (AlreadyFriend, so)
      else (NoError, so\<lparr>so_requests := insert (a, b) (so_requests so)\<rparr>))"
| "social_step OpRemoveFriend a b so =
     (if (a, b) \<notin> so_requests so \<and> (b, a) \<notin> so_requests so then (NotFound, so)
      else (NoError, so\<lparr>so_requests := so_requests so - {(a, b), (b, a)}\<rparr>))"
| "social_step OpAddBlock a b so =
     (NoError, so\<lparr>so_requests := so_requests so - {(a, b), (b, a)}, so_blocks := insert (a, b) (so_blocks so)\<rparr>)"
| "social_step OpRemoveBlock a b so =
     (if (a, b) \<notin> so_blocks so then (NotFound, so)
      else (NoError, so\<lparr>so_blocks := so_blocks so - {(a, b)}\<rparr>))"

lemma find_account:
  "GetUserId fault npid db = Some b \<Longrightarrow> qfind (db_accounts db) b \<noteq> None"
  by (auto simp: GetUserId_def map_of_eq_None_iff split: if_splits dest!: find_SomeD) force

lemma GetRelStatus_read:
  obtains res x y where "GetRelStatus False a b db = (res, x, y)" and "res \<noteq> RelError"
    and "relStatus (db_friendship db) a b = (x, y)" and "res \<noteq> RelOk \<Longrightarrow> x = 0 \<and> y = 0"
proof -
  obtain x y where xy: "relStatus (db_friendship db) a b = (x, y)" by (cases "relStatus (db_friendship db) a b")
  show thesis
  proof (cases "qfind (db_friendship db) (let (i, j, _) = orderedIds a b in (i, j))")
    case None
    with xy have "x = 0 \<and> y = 0" by (auto simp: relStatus_def Let_def split: prod.splits if_splits)
    with None xy that [of RelEmpty] show thesis by (simp add: GetRelStatus_eq)
  next
    case (Some st)
    with xy that [of RelOk] show thesis by (simp add: GetRelStatus_eq)
  qed
qed

lemma meaning_eqI:
  "so_requests x = so_requests y \<Longrightarrow> so_blocks x = so_blocks y \<Longrightarrow> x = (y :: social)"
  by simp

lemma db_storeOrDelete:
  assumes "a \<noteq> b" and "qfind (db_accounts db) a \<noteq> None" and "qfind (db_accounts db) b \<noteq> None"
    and "\<not> fa_rel_write fa"
  shows "fst (storeOrDelete fa a b x y db)"
    and "rel.meaning (db_friendship (snd (storeOrDelete fa a b x y db))) =
      rel.meaning (relPut a b (x, y) (db_friendship db))"
  using assms by (auto simp: storeOrDelete_def SetRelStatus_eq DeleteRel_eq rel.meaning_del_put)

lemma command_refines:
  assumes name: "GetUserId False npid db = Some b" and ne: "b \<noteq> my_id cs"
    and me: "qfind (db_accounts db) (my_id cs) \<noteq> None"
  shows "(fst (friend_command opr no_faults (Some npid) cs sh db),
      rel.meaning (db_friendship (fst (snd (snd (friend_command opr no_faults (Some npid) cs sh db)))))) =
    social_step opr (my_id cs) b (rel.meaning (db_friendship db))"
proof -
  let ?a = "my_id cs" and ?so = "rel.meaning (db_friendship db)"
  have b: "qfind (db_accounts db) b \<noteq> None" using name by (rule find_account)
  obtain res x y where rd: "GetRelStatus False ?a b db = (res, x, y)" "res \<noteq> RelError"
      "relStatus (db_friendship db) ?a b = (x, y)" "res \<noteq> RelOk \<Longrightarrow> x = 0 \<and> y = 0"
    by (rule GetRelStatus_read [of ?a b db]) blast
  have y: "relStatus (db_friendship db) b ?a = (y, x)"
    using rel.get_swap [of ?a b "db_friendship db"] rd(3) ne by simp
  have mem: "(?a, b) \<in> so_requests ?so \<longleftrightarrow> hasFriend x" "(b, ?a) \<in> so_requests ?so \<longleftrightarrow> hasFriend y"
      "(?a, b) \<in> so_blocks ?so \<longleftrightarrow> hasBlocked x" "(b, ?a) \<in> so_blocks ?so \<longleftrightarrow> hasBlocked y"
    using ne rd(3) y by (auto simp: rel.meaning_request rel.meaning_block)
  have put: "rel.meaning (relPut ?a b (x', y') (db_friendship db)) =
      \<lparr>so_requests = (so_requests ?so - {(?a, b), (b, ?a)}) \<union> ({(?a, b)} \<inter> {_. hasFriend x'}) \<union> ({(b, ?a)} \<inter> {_. hasFriend y'}),
       so_blocks = (so_blocks ?so - {(?a, b), (b, ?a)}) \<union> ({(?a, b)} \<inter> {_. hasBlocked x'}) \<union> ({(b, ?a)} \<inter> {_. hasBlocked y'})\<rparr>"
    for x' y'
    by (rule rel.meaning_put) (use ne in simp)
  have fa: "fa_account no_faults = False" "fa_rel_read no_faults = False" "fa_rel_write no_faults = False"
    by (simp_all add: no_faults_def)
  have sd: "fst (storeOrDelete no_faults ?a b x' y' db)"
      "rel.meaning (db_friendship (snd (storeOrDelete no_faults ?a b x' y' db))) =
       rel.meaning (relPut ?a b (x', y') (db_friendship db))" for x' y'
    using db_storeOrDelete [of ?a b db no_faults] ne me b fa by auto
  note set = SetRelStatus_eq [of False ?a b _ _ db]
  show ?thesis
  proof (cases opr)
    case OpAddFriend
    let ?r = "CmdAddFriend no_faults (Some npid) cs sh db"
    show ?thesis
    proof (cases "hasBlocked x \<or> hasBlocked y \<or> hasFriend x")
      case True
      then have "res = RelOk" using rd(4) by (cases "res = RelOk") auto
      with True have "?r = refuse (if hasBlocked x \<or> hasBlocked y then Blocked else AlreadyFriend) sh db"
        using rd(1) ne by (auto simp: CmdAddFriend_def fa name Let_def)
      with OpAddFriend True mem show ?thesis by auto
    next
      case False
      have "fst ?r = NoError \<and> fst (snd (snd ?r)) =
          db\<lparr>db_friendship := relPut ?a b (x OR FRIEND, y) (db_friendship db)\<rparr>"
        using False rd(1,2,4) ne me b
        by (cases "res = RelOk") (simp_all add: CmdAddFriend_def fa name set Let_def case_prod_unfold del: not_None_eq)
      with OpAddFriend False show ?thesis using mem by (auto simp: put intro!: meaning_eqI)
    qed
  next
    case OpRemoveFriend
    let ?r = "CmdRemoveFriend no_faults (Some npid) cs sh db"
    show ?thesis
    proof (cases "hasFriend x \<or> hasFriend y")
      case True
      then have ok: "res = RelOk" using rd(4) by (cases "res = RelOk") auto
      have "fst ?r = NoError \<and> rel.meaning (db_friendship (fst (snd (snd ?r)))) =
          rel.meaning (relPut ?a b (x AND NOT FRIEND, y AND NOT FRIEND) (db_friendship db))"
        using True rd(1) ne by (simp add: CmdRemoveFriend_def fa name sd ok Let_def case_prod_unfold)
      with OpRemoveFriend True show ?thesis using mem by (auto simp: put intro!: meaning_eqI)
    next
      case False
      then have "?r = refuse NotFound sh db"
        using rd(1) ne by (simp add: CmdRemoveFriend_def fa name Let_def)
      with OpRemoveFriend False mem show ?thesis by simp
    qed
  next
    case OpAddBlock
    let ?r = "CmdAddBlock no_faults (Some npid) cs sh db"
    have "fst ?r = NoError \<and> fst (snd (snd ?r)) =
        db\<lparr>db_friendship := relPut ?a b ((x OR BLOCKED) AND NOT FRIEND, y AND NOT FRIEND) (db_friendship db)\<rparr>"
      using rd(1,4) ne me b
      by (cases "res = RelOk") (simp_all add: CmdAddBlock_def fa name set Let_def case_prod_unfold del: not_None_eq)
    with OpAddBlock show ?thesis
      using mem by (auto simp: put intro!: meaning_eqI)
  next
    case OpRemoveBlock
    let ?r = "CmdRemoveBlock no_faults (Some npid) cs sh db"
    show ?thesis
    proof (cases "hasBlocked x")
      case True
      then have ok: "res = RelOk" using rd(4) by (cases "res = RelOk") auto
      have "fst ?r = NoError \<and> rel.meaning (db_friendship (fst (snd (snd ?r)))) =
          rel.meaning (relPut ?a b (x AND NOT BLOCKED, y) (db_friendship db))"
        using True rd(1) ne by (simp add: CmdRemoveBlock_def fa name sd ok Let_def case_prod_unfold)
      with OpRemoveBlock True show ?thesis using mem ne by (auto simp: put intro!: meaning_eqI)
    next
      case False
      then have "?r = refuse NotFound sh db"
        using rd(1) ne by (simp add: CmdRemoveBlock_def fa name Let_def)
      with OpRemoveBlock False mem show ?thesis by simp
    qed
  qed
qed

end
