(* ===== verification/Usage.thy ===== *)
theory Usage
  imports Shared
begin

text \<open>
  The live usage counters of \<open>SharedState\<close> in \<open>src/client_session.h\<close>: the number
  of sessions online, the number of users per game, and the game each user was last seen in.
\<close>

definition UsageOnLogin :: "SharedState \<Rightarrow> SharedState" where
  "UsageOnLogin sh = sh\<lparr>ss_usageTotalOnline := ss_usageTotalOnline sh + 1\<rparr>"

definition dropGameUser :: "qstring \<Rightarrow> (qstring, int) qhash \<Rightarrow> (qstring, int) qhash" where
  \<comment> \<open>\<open>if (g != end && --g.value() <= 0) erase(g)\<close>\<close>
  "dropGameUser comId users =
     (case qfind users comId of None \<Rightarrow> users
      | Some n \<Rightarrow> if n - 1 \<le> 0 then qremove comId users else qinsert comId (n - 1) users)"

definition UsageOnLogout :: "userid \<Rightarrow> SharedState \<Rightarrow> SharedState" where
  "UsageOnLogout userId sh =
     (let sh1 = (if ss_usageTotalOnline sh > 0
                 then sh\<lparr>ss_usageTotalOnline := ss_usageTotalOnline sh - 1\<rparr> else sh)
      in case qfind (ss_usageClientGame sh1) userId of
           None \<Rightarrow> sh1
         | Some game \<Rightarrow> sh1\<lparr>ss_usageGameUsers := dropGameUser game (ss_usageGameUsers sh1),
                            ss_usageClientGame := qremove userId (ss_usageClientGame sh1)\<rparr>)"

definition UsageTouchGame :: "userid \<Rightarrow> qstring \<Rightarrow> SharedState \<Rightarrow> bool \<times> SharedState" where
  "UsageTouchGame userId comId sh =
     (if comId = [] then (False, sh)
      else if qfind (ss_usageClientGame sh) userId = Some comId then (False, sh)
      else
        (let users = (case qfind (ss_usageClientGame sh) userId of
                        None \<Rightarrow> ss_usageGameUsers sh
                      | Some old \<Rightarrow> dropGameUser old (ss_usageGameUsers sh))
         in (True, sh\<lparr>ss_usageClientGame := qinsert userId comId (ss_usageClientGame sh),
                      ss_usageGameUsers := qat_update comId 0 (\<lambda>n. n + 1) users\<rparr>)))"

subsection \<open>The counters count\<close>

definition playersOf :: "(userid, qstring) qhash \<Rightarrow> qstring \<Rightarrow> nat" where
  "playersOf games comId = length (filter (\<lambda>(u, g). g = comId) games)"

definition counted :: "nat \<Rightarrow> int option" where
  "counted n = (if n = 0 then None else Some (int n))"

definition usage_ok :: "SharedState \<Rightarrow> bool" where
  [inv_defs]: "usage_ok sh \<longleftrightarrow>
     qdistinct (ss_usageClientGame sh) \<and> qdistinct (ss_usageGameUsers sh) \<and> 0 \<le> ss_usageTotalOnline sh \<and>
     (\<forall>g. qfind (ss_usageGameUsers sh) g = counted (playersOf (ss_usageClientGame sh) g))"

lemma playersOf_simps [simp]:
  "playersOf [] g = 0"
  "playersOf ((u, g') # h) g = (if g' = g then Suc (playersOf h g) else playersOf h g)"
  by (simp_all add: playersOf_def)

lemma playersOf_pos: "qfind h u = Some g \<Longrightarrow> playersOf h g > 0"
  by (induction h) (auto split: if_splits)

lemma playersOf_qremove:
  "qdistinct h \<Longrightarrow> playersOf (qremove u h) g = (if qfind h u = Some g then playersOf h g - 1 else playersOf h g)"
proof (induction h)
  case (Cons p h)
  obtain u' g' where p: "p = (u', g')" by (cases p)
  from Cons.prems p have d: "qdistinct h" and n: "u' \<notin> fst ` set h" by (auto simp: qdistinct_def)
  show ?case
  proof (cases "u' = u")
    case True
    then have "qremove u h = h" using n by (simp add: delete_id)
    with p True show ?thesis by simp
  next
    case False
    with Cons.IH [OF d] p playersOf_pos [of h u g] show ?thesis by auto
  qed
qed simp

lemma playersOf_qinsert:
  "qdistinct h \<Longrightarrow> playersOf (qinsert u c h) g = playersOf (qremove u h) g + (if g = c then 1 else 0)"
proof (induction h)
  case (Cons p h)
  obtain u' g' where p: "p = (u', g')" by (cases p)
  from Cons.prems p have d: "qdistinct h" and n: "u' \<notin> fst ` set h" by (auto simp: qdistinct_def)
  show ?case
  proof (cases "u' = u")
    case True
    then have "qremove u h = h" using n by (simp add: delete_id)
    with p True show ?thesis by simp
  next
    case False
    with Cons.IH [OF d] p show ?thesis by auto
  qed
qed simp

lemma qdistinct_dropGameUser [simp]: "qdistinct users \<Longrightarrow> qdistinct (dropGameUser c users)"
  by (simp add: dropGameUser_def split: option.split)

lemma dropGameUser_counted:
  assumes "\<And>g. qfind users g = counted (playersOf games g)" and "qdistinct games" and "qfind games u = Some c"
  shows "qfind (dropGameUser c users) g = counted (playersOf (qremove u games) g)"
  using assms by (auto simp: dropGameUser_def counted_def qfind_qinsert qfind_qremove playersOf_qremove
      split: option.split)

lemma usage_ok_OnLogin [simp]: "usage_ok sh \<Longrightarrow> usage_ok (UsageOnLogin sh)"
  by (simp add: usage_ok_def UsageOnLogin_def)

lemma usage_ok_OnLogout [simp]: "usage_ok sh \<Longrightarrow> usage_ok (UsageOnLogout u sh)"
  by (auto simp: usage_ok_def UsageOnLogout_def Let_def
      dropGameUser_counted [of "ss_usageGameUsers sh" "ss_usageClientGame sh" u] split: option.split)

lemma usage_ok_TouchGame [simp]: "usage_ok sh \<Longrightarrow> usage_ok (snd (UsageTouchGame u c sh))"
proof -
  assume ok: "usage_ok sh"
  let ?old = "qfind (ss_usageClientGame sh) u"
  let ?users = "case ?old of None \<Rightarrow> ss_usageGameUsers sh | Some old \<Rightarrow> dropGameUser old (ss_usageGameUsers sh)"
  have d: "qdistinct (ss_usageClientGame sh)" "qdistinct (ss_usageGameUsers sh)"
    and f: "\<forall>g. qfind (ss_usageGameUsers sh) g = counted (playersOf (ss_usageClientGame sh) g)"
    using ok by (simp_all add: usage_ok_def)
  have "qdistinct ?users" using d by (auto simp: dropGameUser_def split: option.split)
  moreover have "qfind ?users g = counted (playersOf (qremove u (ss_usageClientGame sh)) g)" for g
    using f dropGameUser_counted [of "ss_usageGameUsers sh" "ss_usageClientGame sh" u] d
    by (auto simp: playersOf_qremove split: option.split)
  ultimately show ?thesis
    using ok by (auto simp: usage_ok_def UsageTouchGame_def Let_def qat_update_def qfind_qinsert
        playersOf_qinsert [OF d(1)] counted_def)
qed

lemma usage_frame [simp]:
  "ss_clients (UsageOnLogin sh) = ss_clients sh" "ss_npidToUserId (UsageOnLogin sh) = ss_npidToUserId sh"
  "ss_matching (UsageOnLogin sh) = ss_matching sh"
  "ss_clients (UsageOnLogout u sh) = ss_clients sh" "ss_npidToUserId (UsageOnLogout u sh) = ss_npidToUserId sh"
  "ss_matching (UsageOnLogout u sh) = ss_matching sh"
  "ss_clients (snd (UsageTouchGame u c sh)) = ss_clients sh"
  "ss_npidToUserId (snd (UsageTouchGame u c sh)) = ss_npidToUserId sh"
  "ss_matching (snd (UsageTouchGame u c sh)) = ss_matching sh"
  by (simp_all add: UsageOnLogin_def UsageOnLogout_def UsageTouchGame_def Let_def split: option.split)

end
