(* ===== verification/RoomCommands.thy ===== *)
theory RoomCommands
  imports Shared
begin

text \<open>
  The commands of \<open>src/cmd_matching.cpp\<close> that change the matching state: contexts,
  creating, joining and leaving a room, kicking a member, and setting room and user data. A
  handler takes the decoded request (\<open>None\<close>: the payload did not decode), the session,
  the shared state and, where it reads a clock, the time; it returns the error code with the
  reply, the session, the shared state, and the messages to other clients.
\<close>

type_synonym 'r result = "(ErrorType \<times> 'r option) \<times> ClientSession \<times> SharedState \<times> out list"

abbreviation reject :: "ErrorType \<Rightarrow> ClientSession \<Rightarrow> SharedState \<Rightarrow> 'r result" where
  "reject e cs sh \<equiv> ((e, None), cs, sh, [])"

abbreviation my_npid :: "ClientSession \<Rightarrow> qstring" where
  "my_npid cs \<equiv> ci_npid (cs_info cs)"

abbreviation my_key :: "ClientSession \<Rightarrow> qstring" where
  "my_key cs \<equiv> ms_matchingKey (cs_matching cs)"

abbreviation rooms_of :: "SharedState \<Rightarrow> (ComId \<times> u64, Room) qhash" where
  "rooms_of sh \<equiv> mx_rooms (ss_matching sh)"

abbreviation set_room :: "ComId \<times> u64 \<Rightarrow> Room \<Rightarrow> SharedState \<Rightarrow> SharedState" where
  "set_room k room sh \<equiv>
     set_matching ((ss_matching sh)\<lparr>mx_rooms := qinsert k room (rooms_of sh)\<rparr>) sh"

subsection \<open>Contexts\<close>

definition setClientContext :: "userid \<Rightarrow> u32 \<Rightarrow> SharedState \<Rightarrow> SharedState" where
  "setClientContext userId ctxId sh =
     sh\<lparr>ss_clients := qmodify userId (\<lambda>c. c\<lparr>ce_matchingContextId := ctxId\<rparr>) (ss_clients sh)\<rparr>"

definition CmdContextStart :: "u32 option \<Rightarrow> ClientSession \<Rightarrow> SharedState \<Rightarrow> unit result" where
  [handler_defs]: "CmdContextStart req cs sh =
     (case req of None \<Rightarrow> reject Malformed cs sh
      | Some ctx_id \<Rightarrow>
          ((NoError, None),
           cs\<lparr>cs_matching := (cs_matching cs)\<lparr>ms_ctxId := ctx_id, ms_initialized := True\<rparr>\<rparr>,
           setClientContext (ci_userId (cs_info cs)) ctx_id sh, []))"

definition CmdContextStop :: "u32 option \<Rightarrow> ClientSession \<Rightarrow> SharedState \<Rightarrow> unit result" where
  [handler_defs]: "CmdContextStop req cs sh =
     (case req of None \<Rightarrow> reject Malformed cs sh
      | Some _ \<Rightarrow>
          ((NoError, None),
           cs\<lparr>cs_matching := (cs_matching cs)\<lparr>ms_ctxId := 0, ms_initialized := False\<rparr>\<rparr>,
           setClientContext (ci_userId (cs_info cs)) 0 sh, []))"

subsection \<open>Creating a room\<close>

definition InternalBinIndexForAttr :: "u16 \<Rightarrow> nat option" where
  \<comment> \<open>\<open>-1\<close> is \<open>None\<close>\<close>
  "InternalBinIndexForAttr attrId =
     (if attrId = BIN_ATTR_INTERNAL_1_ID then Some 0
      else if attrId = BIN_ATTR_INTERNAL_2_ID then Some 1 else None)"

definition ExternalBinIndexForAttr :: "u16 \<Rightarrow> nat option" where
  "ExternalBinIndexForAttr attrId =
     (if attrId = BIN_ATTR_EXTERNAL_1_ID then Some 0
      else if attrId = BIN_ATTR_EXTERNAL_2_ID then Some 1 else None)"

definition createRoomGroups :: "CreateRoomRequest \<Rightarrow> RoomGroup list" where
  "createRoomGroups req =
     (let configs = crq_group_configs req;
          groupCount = (if length configs > 0 then length configs
                        else unat (crq_group_config_count req));
          joinGroupLabel = crq_join_group_label req
      in map (\<lambda>g.
           let grp = RoomGroup_default\<lparr>g_groupId := word_of_nat (g + 1)\<rparr> in
           if g < length configs
           then let cfg = configs ! g in
             grp\<lparr>g_slotNum := pgc_slot_count cfg, g_withPassword := pgc_has_passwd cfg,
                 g_fixedLabel := pgc_has_label cfg,
                 g_label := (if pgc_has_label cfg then Some (pgc_label cfg) else None)\<rparr>
           else
             grp\<lparr>g_withPassword := crq_room_password_present req,
                 g_fixedLabel := crq_join_group_label_present req,
                 g_label := (if joinGroupLabel \<noteq> [] then Some joinGroupLabel else None)\<rparr>)
         [0..<groupCount])"

definition setSearchIntAttr :: "MatchingIntAttr \<Rightarrow> Room \<Rightarrow> Room" where
  "setSearchIntAttr a room =
     (let attrId = ucast (pia_attr_id a) :: u16 in
      if attrId < SEARCHABLE_INT_ATTR_EXTERNAL_1_ID \<or> attrId > SEARCHABLE_INT_ATTR_EXTERNAL_8_ID
      then room
      else let idx = unat attrId - unat SEARCHABLE_INT_ATTR_EXTERNAL_1_ID in
        room\<lparr>r_searchIntAttr := (r_searchIntAttr room)
               [idx := \<lparr>ia_set = True, ia_attrId = attrId, ia_value = pia_attr_value a\<rparr>]\<rparr>)"

definition createRoomBase ::
  "CreateRoomRequest \<Rightarrow> MatchingSessionState \<Rightarrow> u64 \<Rightarrow> u16 \<Rightarrow> Room" where
  \<comment> \<open>the room before its owner is added\<close>
  "createRoomBase req ms rid maxSlot =
     (let room = Room_default\<lparr>
            r_roomId := rid, r_maxSlot := maxSlot, r_serverId := ms_serverId ms,
            r_worldId := (if crq_world_id req \<noteq> 0 then crq_world_id req else ucast (ms_worldId ms)),
            r_lobbyId := (if crq_lobby_id req \<noteq> 0 then ucast (crq_lobby_id req)
                          else ucast (ms_lobbyId ms)),
            r_flagAttr := crq_flags req AND NOT FLAG_ATTR_FULL,
            r_signalingType := ucast (crq_sig_type req),
            r_signalingFlag := ucast (crq_sig_flag req),
            r_signalingHubMemberId := ucast (crq_sig_main_member req),
            r_allowedUsers := crq_allowed_online_ids req,
            r_blockedUsers := crq_blocked_online_ids req,
            r_allowedAccountIds := crq_allowed_account_ids req,
            r_blockedAccountIds := crq_blocked_account_ids req,
            r_roomPassword :=
              (if crq_room_password req \<noteq> [] then Some (crq_room_password req)
               else if crq_room_password_present req then Some (replicate SESSION_PASSWORD_SIZE 0)
               else None),
            r_passwdSlotMask := (if crq_has_passwd_slot_mask req then crq_passwd_slot_mask req else 0),
            r_groups := createRoomGroups req\<rparr>
      in fold setSearchIntAttr (crq_external_search_int_attrs req) room)"

definition setMemberBinAttr :: "MatchingBinAttr list \<Rightarrow> u64 \<Rightarrow> RoomMember \<Rightarrow> RoomMember" where
  "setMemberBinAttr attrs date m =
     (case attrs of [] \<Rightarrow> m
      | a # _ \<Rightarrow> m\<lparr>rm_memberBinAttr := \<lparr>mb_set = True, mb_attrId = ucast (pba_attr_id a),
                     mb_data = pba_data a, mb_updateDate = date\<rparr>\<rparr>)"

definition ownerGroupIndex :: "RoomGroup list \<Rightarrow> bytes \<Rightarrow> nat" where
  \<comment> \<open>the first group with the wanted label, else the first group\<close>
  "ownerGroupIndex groups joinGroupLabel =
     (if joinGroupLabel = [] then 0
      else case List.find (\<lambda>i. g_label (groups ! i) = Some joinGroupLabel) [0..<length groups] of
             None \<Rightarrow> 0 | Some i \<Rightarrow> i)"

definition createOwner ::
  "CreateRoomRequest \<Rightarrow> ClientInfo \<Rightarrow> qstring \<times> u16 \<Rightarrow> u64 \<Rightarrow> Room \<Rightarrow> RoomMember \<times> Room" where
  \<comment> \<open>the owner's entry, and the room with the owner's group counted\<close>
  "createOwner req info addr now room =
     (let owner = RoomMember_default\<lparr>rm_userId := ci_userId info, rm_npid := ci_npid info,
            rm_avatarUrl := ci_avatarUrl info, rm_addr := fst addr, rm_port := snd addr,
            rm_joinDate := now, rm_teamId := ucast (crq_team_id req),
            rm_flagAttr := MEMBER_FLAG_ATTR_OWNER\<rparr>;
          i = ownerGroupIndex (r_groups room) (crq_join_group_label req);
          (owner, room) =
            (if r_groups room \<noteq> []
             then let grp = r_groups room ! i in
               (owner\<lparr>rm_groupId := g_groupId grp\<rparr>,
                room\<lparr>r_groups := (r_groups room)[i := grp\<lparr>g_numMembers := g_numMembers grp + 1\<rparr>]\<rparr>)
             else (owner, room))
      in (setMemberBinAttr (crq_member_bin_attrs req) now owner, room))"

definition applyCreateBinAttr :: "u64 \<Rightarrow> u16 \<Rightarrow> MatchingBinAttr \<Rightarrow> Room \<Rightarrow> Room" where
  "applyCreateBinAttr joinDate memberId a room =
     (let attrId = ucast (pba_attr_id a) :: u16 in
      case InternalBinIndexForAttr attrId of
        Some idx \<Rightarrow> room\<lparr>r_internalBinAttr := (r_internalBinAttr room)[idx :=
            \<lparr>ib_set = True, ib_attrId = attrId, ib_data = pba_data a,
             ib_updateDate = joinDate, ib_updateMemberId = memberId\<rparr>]\<rparr>
      | None \<Rightarrow>
          (case ExternalBinIndexForAttr attrId of
             Some idx \<Rightarrow> room\<lparr>r_externalBinAttr := (r_externalBinAttr room)[idx :=
                 \<lparr>ba_set = True, ba_attrId = attrId, ba_data = pba_data a\<rparr>]\<rparr>
           | None \<Rightarrow>
               (if attrId = SEARCHABLE_BIN_ATTR_EXTERNAL_1_ID
                then room\<lparr>r_searchBinAttr := \<lparr>ba_set = True, ba_attrId = attrId, ba_data = pba_data a\<rparr>\<rparr>
                else room)))"

definition createRoom ::
  "CreateRoomRequest \<Rightarrow> ClientSession \<Rightarrow> SharedState \<Rightarrow> u64 \<Rightarrow> u64 \<Rightarrow> u16 \<Rightarrow> RoomMember \<times> Room" where
  \<comment> \<open>everything between taking the room id and filling the reply\<close>
  "createRoom req cs sh now rid maxSlot =
     (let base = createRoomBase req (cs_matching cs) rid maxSlot;
          (owner, room1) = createOwner req (cs_info cs) (GetSelfSignalingAddr sh cs) now base;
          (member, room2) = addMember owner room1;
          room3 = room2\<lparr>r_ownerMemberId := rm_memberId member\<rparr>;
          room4 = fold (applyCreateBinAttr (rm_joinDate member) (rm_memberId member))
                    (crq_internal_bin_attrs req @ crq_external_search_bin_attrs req
                       @ crq_external_bin_attrs req) room3
      in (member, RecomputeRoomSlotCounts room4))"

definition indexRoom :: "ComId \<Rightarrow> u32 \<Rightarrow> u64 \<Rightarrow> (u64 list \<Rightarrow> u64 list) \<Rightarrow> MatchingSharedState
    \<Rightarrow> MatchingSharedState" where
  \<comment> \<open>the update of \<open>worldRooms\<close>, or else \<open>lobbyRooms\<close>, of a room's world and lobby\<close>
  "indexRoom key worldId lobbyId f mx =
     (if worldId \<noteq> 0 then mx\<lparr>mx_worldRooms := qat_update (key, worldId) [] f (mx_worldRooms mx)\<rparr>
      else if lobbyId \<noteq> 0 then mx\<lparr>mx_lobbyRooms := qat_update (key, lobbyId) [] f (mx_lobbyRooms mx)\<rparr>
      else mx)"

definition createMaxSlot :: "CreateRoomRequest \<Rightarrow> u16" where
  "createMaxSlot req = (let m = ucast (crq_max_slots req) :: u16 in if m < 1 then 1 else m)"

definition enterRoom :: "Room \<Rightarrow> u16 \<Rightarrow> bool \<Rightarrow> MatchingSessionState \<Rightarrow> MatchingSessionState" where
  \<comment> \<open>what create and join store in the session; world and lobby ids are cut to 16 bits\<close>
  "enterRoom room memberId isOwner ms =
     ms\<lparr>ms_roomId := r_roomId room, ms_myMemberId := memberId, ms_isRoomOwner := isOwner,
        ms_maxSlots := r_maxSlot room, ms_roomFlags := r_flagAttr room,
        ms_serverId := r_serverId room, ms_worldId := ucast (r_worldId room),
        ms_lobbyId := ucast (r_lobbyId room)\<rparr>"

definition CmdCreateRoom ::
  "CreateRoomRequest option \<Rightarrow> int \<Rightarrow> ClientSession \<Rightarrow> SharedState \<Rightarrow> CreateRoomReply result" where
  [handler_defs]: "CmdCreateRoom req nowMs cs sh =
     (case req of None \<Rightarrow> reject Malformed cs sh
      | Some req \<Rightarrow>
        (let maxSlot = createMaxSlot req;
             rid = mx_nextRoomId (ss_matching sh);
             mx1 = (ss_matching sh)\<lparr>mx_nextRoomId := rid + 1\<rparr>;
             (member, room) = createRoom req cs sh (MatchingTimestampUsec nowMs) rid maxSlot;
             rep = \<lparr>crr_room_id = rid, crr_server_id = ucast (r_serverId room),
                    crr_world_id = r_worldId room, crr_lobby_id = ucast (r_lobbyId room),
                    crr_member_id = ucast (rm_memberId member), crr_max_slots = ucast maxSlot,
                    crr_flags = r_flagAttr room, crr_cur_members = 1,
                    crr_details = BuildCreateJoinResponse room member\<rparr>;
             mx2 = indexRoom (my_key cs) (r_worldId room) (r_lobbyId room) (\<lambda>ids. ids @ [rid])
                     (mx1\<lparr>mx_rooms := qinsert (my_key cs, rid) room (mx_rooms mx1)\<rparr>)
         in ((NoError, Some rep),
             cs\<lparr>cs_matching := enterRoom room (rm_memberId member) True (cs_matching cs)\<rparr>,
             set_matching mx2 sh, [])))"

subsection \<open>Joining a room\<close>

definition joinDenied :: "Room \<Rightarrow> ClientInfo \<Rightarrow> bool" where
  \<comment> \<open>the room's own allow and block lists\<close>
  "joinDenied room info \<longleftrightarrow>
     (let accountId = u64_of_int (ci_userId info) in
       (r_allowedUsers room \<noteq> [] \<and> ci_npid info \<notin> set (r_allowedUsers room)) \<or>
       (r_allowedAccountIds room \<noteq> [] \<and> accountId \<notin> set (r_allowedAccountIds room)) \<or>
       ci_npid info \<in> set (r_blockedUsers room) \<or> accountId \<in> set (r_blockedAccountIds room))"

definition memberBlocks :: "JoinRoomRequest \<Rightarrow> ClientInfo \<Rightarrow> RoomMember \<Rightarrow> bool" where
  \<comment> \<open>the joiner blocks the member, or the member blocks the joiner\<close>
  "memberBlocks req info member \<longleftrightarrow>
     rm_npid member \<in> set (jrq_blocked_online_ids req) \<or>
     u64_of_int (rm_userId member) \<in> set (jrq_blocked_account_ids req) \<or>
     ci_npid info \<in> set (rm_blockedUsers member) \<or>
     u64_of_int (ci_userId info) \<in> set (rm_blockedAccountIds member)"

definition createJoiner :: "JoinRoomRequest \<Rightarrow> ClientInfo \<Rightarrow> qstring \<times> u16 \<Rightarrow> u64 \<Rightarrow> RoomMember" where
  "createJoiner req info addr now =
     setMemberBinAttr (jrq_member_bin_attrs req) now
       (RoomMember_default\<lparr>rm_userId := ci_userId info, rm_npid := ci_npid info,
          rm_avatarUrl := ci_avatarUrl info, rm_addr := fst addr, rm_port := snd addr,
          rm_blockedUsers := jrq_blocked_online_ids req,
          rm_blockedAccountIds := jrq_blocked_account_ids req,
          rm_joinDate := now, rm_teamId := ucast (jrq_team_id req)\<rparr>)"

definition joinRefusal :: "JoinRoomRequest \<Rightarrow> ClientInfo \<Rightarrow> Room \<Rightarrow> ErrorType option" where
  "joinRefusal req info room =
     (if Room_isFull room then Some RoomFull
      else if findByNpid room (ci_npid info) \<noteq> None then Some RoomAlreadyJoined
      else if joinDenied room info then Some Blocked
      else if list_ex (memberBlocks req info) (qvalues (r_members room)) then Some Blocked
      else None)"

definition joinRoom :: "RoomMember \<Rightarrow> Room \<Rightarrow> RoomMember \<times> u16 \<times> Room" where
  \<comment> \<open>the member as added, the member count in 16 bits, and the room after the counts and
      the FULL flag are updated\<close>
  "joinRoom joiner room =
     (let (member, room1) = addMember joiner room;
          curMemberNum = word_of_nat (length (r_members room1)) :: u16;
          room2 = RecomputeRoomSlotCounts room1;
          room3 = (if curMemberNum \<ge> r_maxSlot room2
                   then room2\<lparr>r_flagAttr := r_flagAttr room2 OR FLAG_ATTR_FULL\<rparr> else room2)
      in (member, curMemberNum, room3))"

definition CmdJoinRoom ::
  "JoinRoomRequest option \<Rightarrow> int \<Rightarrow> ClientSession \<Rightarrow> SharedState \<Rightarrow> JoinRoomReply result" where
  [handler_defs]: "CmdJoinRoom req nowMs cs sh =
     (case req of None \<Rightarrow> reject Malformed cs sh
      | Some req \<Rightarrow>
        (let roomId = jrq_room_id req; k = (my_key cs, roomId) in
         case qfind (rooms_of sh) k of
           None \<Rightarrow> reject RoomMissing cs sh
         | Some room \<Rightarrow>
           (case joinRefusal req (cs_info cs) room of
              Some e \<Rightarrow> reject e cs sh
            | None \<Rightarrow>
              (let joiner = createJoiner req (cs_info cs) (GetSelfSignalingAddr sh cs)
                              (MatchingTimestampUsec nowMs);
                   (member, curMemberNum, room') = joinRoom joiner room;
                   myMemberId = rm_memberId member;
                   rep = \<lparr>jrr_room_id = roomId, jrr_member_id = ucast myMemberId,
                          jrr_max_slots = ucast (r_maxSlot room'), jrr_flags = r_flagAttr room',
                          jrr_cur_members = ucast curMemberNum,
                          jrr_details = BuildCreateJoinResponse room' member\<rparr>;
                   cs' = cs\<lparr>cs_matching :=
                           (enterRoom room' myMemberId False (cs_matching cs))\<lparr>ms_roomId := roomId\<rparr>\<rparr>;
                   sh' = set_room k room' sh;
                   joinedCopy =
                     (case qfind (rooms_of sh') k of None \<Rightarrow> RoomMember_default
                      | Some r \<Rightarrow> (case findById r myMemberId of None \<Rightarrow> RoomMember_default | Some m \<Rightarrow> m))
               in ((NoError, Some rep), cs', sh',
                   SendRoomMemberEvent sh' (my_key cs) roomId EVENT_MEMBER_JOINED
                     CAUSE_SERVER_OPERATION joinedCopy (my_npid cs))))))"

subsection \<open>Leaving a room\<close>

fun pickSuccessor :: "Room \<Rightarrow> u16 list \<Rightarrow> u16 \<times> u16 list" where
  \<comment> \<open>the \<open>while\<close> loop over \<open>ownerSuccession\<close>; 0 when it runs out\<close>
  "pickSuccessor room [] = (0, [])"
| "pickSuccessor room (cand # cs) =
     (if cand \<in> set (qkeys (r_members room)) then (cand, cs) else pickSuccessor room cs)"

definition transferOwner :: "Room \<Rightarrow> Room" where
  \<comment> \<open>the room is not empty; \<open>members.begin()\<close> is the first entry in iteration order\<close>
  "transferOwner room =
     (let (cand, rest) = pickSuccessor room (r_ownerSuccession room);
          newOwner = (if cand = 0 then rm_memberId (snd (hd (r_members room))) else cand)
      in room\<lparr>r_ownerSuccession := rest, r_ownerMemberId := newOwner,
              r_members := qmodify newOwner
                (\<lambda>om. om\<lparr>rm_flagAttr := rm_flagAttr om OR MEMBER_FLAG_ATTR_OWNER\<rparr>) (r_members room)\<rparr>)"

definition dropMember :: "u16 \<Rightarrow> Room \<Rightarrow> Room" where
  \<comment> \<open>\<open>removeMember\<close>, then \<open>ownerSuccession.removeAll\<close>\<close>
  "dropMember memberId room =
     (let room1 = snd (removeMember memberId room)
      in room1\<lparr>r_ownerSuccession := removeAll_ids memberId (r_ownerSuccession room1)\<rparr>)"

definition leaveRoom :: "u16 \<Rightarrow> Room \<Rightarrow> Room option" where
  \<comment> \<open>\<open>None\<close>: the last member left\<close>
  "leaveRoom memberId room =
     (let wasOwner = (memberId = r_ownerMemberId room);
          room1 = dropMember memberId room
      in if Room_isEmpty room1 then None
         else (let room2 = RecomputeRoomSlotCounts room1;
                   room3 = room2\<lparr>r_flagAttr := r_flagAttr room2 AND NOT FLAG_ATTR_FULL\<rparr>
               in Some (if wasOwner then transferOwner room3 else room3)))"

definition leaveRoomShared :: "ComId \<Rightarrow> u64 \<Rightarrow> u16 \<Rightarrow> Room \<Rightarrow> SharedState \<Rightarrow> bool \<times> SharedState" where
  \<comment> \<open>whether the room was destroyed\<close>
  "leaveRoomShared key roomId memberId room sh =
     (case leaveRoom memberId room of
        None \<Rightarrow>
          (True, set_matching
             (indexRoom key (r_worldId room) (r_lobbyId room) (removeAll_ids roomId)
               ((ss_matching sh)\<lparr>mx_rooms := qremove (key, roomId) (rooms_of sh)\<rparr>)) sh)
      | Some room' \<Rightarrow> (False, set_room (key, roomId) room' sh))"

definition leftMember :: "u16 \<Rightarrow> qstring \<Rightarrow> RoomMember" where
  "leftMember memberId npid = RoomMember_default\<lparr>rm_memberId := memberId, rm_npid := npid\<rparr>"

definition CmdLeaveRoom :: "u64 option \<Rightarrow> ClientSession \<Rightarrow> SharedState \<Rightarrow> u64 result" where
  \<comment> \<open>the request's and the reply's only fields read are \<open>room_id\<close>\<close>
  [handler_defs]: "CmdLeaveRoom req cs sh =
     (case req of None \<Rightarrow> reject Malformed cs sh
      | Some roomId \<Rightarrow>
        (case qfind (rooms_of sh) (my_key cs, roomId) of
           None \<Rightarrow> reject RoomMissing cs sh
         | Some room \<Rightarrow>
           (case findByNpid room (my_npid cs) of
              None \<Rightarrow> reject RoomMissing cs sh
            | Some me \<Rightarrow>
              (let myMemberId = rm_memberId me;
                   (roomDestroyed, sh') = leaveRoomShared (my_key cs) roomId myMemberId room sh;
                   outs = (if roomDestroyed then []
                           else SendRoomMemberEvent sh' (my_key cs) roomId EVENT_MEMBER_LEFT
                                  CAUSE_LEAVE_ACTION (leftMember myMemberId (my_npid cs)) [])
               in ((NoError, Some roomId), ResetMatchingRoomState roomId cs, sh', outs)))))"

definition DoLeaveRoom :: "u64 \<Rightarrow> ClientSession \<Rightarrow> SharedState \<Rightarrow> ClientSession \<times> SharedState \<times> out list" where
  "DoLeaveRoom roomId cs sh =
     (case qfind (rooms_of sh) (my_key cs, roomId) of
        None \<Rightarrow> (cs, sh, [])
      | Some room \<Rightarrow>
        (case findByNpid room (my_npid cs) of
           None \<Rightarrow> (cs, sh, [])
         | Some me \<Rightarrow>
           (let myMemberId = rm_memberId me;
                (roomDestroyed, sh') = leaveRoomShared (my_key cs) roomId myMemberId room sh;
                outs = (if roomDestroyed then []
                        else SendRoomMemberEvent sh' (my_key cs) roomId EVENT_MEMBER_LEFT
                               CAUSE_LEAVE_ACTION (leftMember myMemberId (my_npid cs)) [])
            in (ResetMatchingRoomState roomId cs, sh', outs))))"

definition CleanupMatchingOnDisconnect ::
  "ClientSession \<Rightarrow> SharedState \<Rightarrow> ClientSession \<times> SharedState \<times> out list" where
  "CleanupMatchingOnDisconnect cs sh =
     (if \<not> ms_initialized (cs_matching cs) then (cs, sh, [])
      else if ms_roomId (cs_matching cs) \<noteq> 0 then DoLeaveRoom (ms_roomId (cs_matching cs)) cs sh
      else (cs, sh, []))"

subsection \<open>Kicking a member\<close>

definition MATCHING2_KICKEDOUT_STATUS_CODE :: u32 where
  "MATCHING2_KICKEDOUT_STATUS_CODE = 0xFF000019"

definition kickMember :: "bool \<Rightarrow> u16 \<Rightarrow> RoomMember \<Rightarrow> Room \<Rightarrow> Room" where
  "kickMember blockKick targetMemberId target room =
     (let room1 = (if blockKick \<and> rm_npid target \<notin> set (r_blockedUsers room)
                   then room\<lparr>r_blockedUsers := r_blockedUsers room @ [rm_npid target]\<rparr> else room);
          room2 = RecomputeRoomSlotCounts (dropMember targetMemberId room1)
      in room2\<lparr>r_flagAttr := r_flagAttr room2 AND NOT FLAG_ATTR_FULL\<rparr>)"

definition CmdKickoutRoomMember ::
  "KickoutRoomMemberRequest option \<Rightarrow> ClientSession \<Rightarrow> SharedState \<Rightarrow> u64 result" where
  [handler_defs]: "CmdKickoutRoomMember req cs sh =
     (case req of None \<Rightarrow> reject Malformed cs sh
      | Some req \<Rightarrow>
        (let roomId = krq_room_id req;
             targetMemberId = ucast (krq_target_member_id req) :: u16;
             k = (my_key cs, roomId) in
         case qfind (rooms_of sh) k of
           None \<Rightarrow> reject RoomMissing cs sh
         | Some room \<Rightarrow>
           (case findByNpid room (my_npid cs) of
              None \<Rightarrow> reject RoomMissing cs sh
            | Some initiator \<Rightarrow>
              if r_ownerMemberId room \<noteq> rm_memberId initiator then reject Unauthorized cs sh
              else if targetMemberId = 0 \<or> targetMemberId = rm_memberId initiator
              then reject InvalidInput cs sh
              else
                (case qfind (r_members room) targetMemberId of
                   None \<Rightarrow> reject NotFound cs sh
                 | Some target \<Rightarrow>
                   (let targetNpid = rm_npid target;
                        room' = kickMember (krq_block_kick_flag req \<noteq> 0) targetMemberId target room;
                        sh' = set_room k room' sh
                    in ((NoError, Some roomId), cs, sh',
                        SendRoomEventToTarget sh' roomId EVENT_KICKEDOUT CAUSE_KICKOUT_ACTION
                          MATCHING2_KICKEDOUT_STATUS_CODE targetNpid @
                        SendRoomMemberEvent sh' (my_key cs) roomId EVENT_MEMBER_LEFT
                          CAUSE_KICKOUT_ACTION (leftMember targetMemberId targetNpid) targetNpid))))))"

subsection \<open>Room and user data\<close>

definition setInternalFlags :: "u32 \<Rightarrow> u32 \<Rightarrow> Room \<Rightarrow> Room" where
  "setInternalFlags flagFilter flagAttr room =
     (let effFilter = flagFilter AND NOT FLAG_ATTR_FULL
      in room\<lparr>r_flagAttr := (r_flagAttr room AND NOT effFilter) OR (flagAttr AND effFilter)\<rparr>)"

definition setInternalBinAttr ::
  "u64 \<Rightarrow> u16 \<Rightarrow> InternalBinAttrSlot list \<times> Room \<Rightarrow> MatchingBinAttr \<Rightarrow> InternalBinAttrSlot list \<times> Room" where
  "setInternalBinAttr now setterId = (\<lambda>(updatedSlots, room) a.
     (let attrId = ucast (pba_attr_id a) :: u16 in
      case InternalBinIndexForAttr attrId of
        None \<Rightarrow> (updatedSlots, room)
      | Some idx \<Rightarrow>
          (let slot = \<lparr>ib_set = True, ib_attrId = attrId, ib_data = pba_data a,
                       ib_updateDate = now, ib_updateMemberId = setterId\<rparr>
           in (updatedSlots @ [slot],
               room\<lparr>r_internalBinAttr := (r_internalBinAttr room)[idx := slot]\<rparr>))))"

definition setInternalBinAttrs ::
  "MatchingBinAttr list \<Rightarrow> u64 \<Rightarrow> u16 \<Rightarrow> Room \<Rightarrow> InternalBinAttrSlot list \<times> Room" where
  \<comment> \<open>the slots written, in request order, and the room\<close>
  "setInternalBinAttrs attrs now setterId room = foldl (setInternalBinAttr now setterId) ([], room) attrs"

definition CmdSetRoomDataInternal ::
  "SetRoomDataInternalRequest option \<Rightarrow> int \<Rightarrow> ClientSession \<Rightarrow> SharedState \<Rightarrow> u64 result" where
  [handler_defs]: "CmdSetRoomDataInternal req nowMs cs sh =
     (case req of None \<Rightarrow> reject Malformed cs sh
      | Some req \<Rightarrow>
        (let roomId = siq_room_id req; k = (my_key cs, roomId) in
         case qfind (rooms_of sh) k of
           None \<Rightarrow> reject RoomMissing cs sh
         | Some room \<Rightarrow>
           (let room1 = setInternalFlags (siq_flag_filter req) (siq_flag_attr req) room;
                newFlags = r_flagAttr room1;
                room2 = (if siq_has_passwd_mask req
                         then RecomputeRoomSlotCounts (room1\<lparr>r_passwdSlotMask := siq_passwd_slot_mask req\<rparr>)
                         else room1);
                setterId = (case findByNpid room2 (my_npid cs) of None \<Rightarrow> 0 | Some m \<Rightarrow> rm_memberId m);
                (updatedSlots, room3) =
                  setInternalBinAttrs (siq_bin_attrs req) (MatchingTimestampUsec nowMs) setterId room2;
                sh' = set_room k room3 sh;
                pb = NotifyRoomEvent_default\<lparr>ne_room_id := roomId,
                       ne_event := EVENT_UPDATED_ROOM_DATA_INTERNAL,
                       ne_event_cause := CAUSE_SERVER_OPERATION, ne_flags := newFlags,
                       ne_has_passwd_mask := siq_has_passwd_mask req,
                       ne_passwd_slot_mask :=
                         (if siq_has_passwd_mask req then siq_passwd_slot_mask req else 0),
                       ne_bin_attrs := map (\<lambda>s. \<lparr>pba_attr_id = ucast (ib_attrId s),
                         pba_data = ib_data s, pba_update_date = ib_updateDate s,
                         pba_update_member_id = ucast (ib_updateMemberId s)\<rparr>) updatedSlots\<rparr>
            in ((NoError, Some roomId), cs, sh',
                NotifyRoomMembers sh' (\<lambda>ctx. RoomEventPkt (pb\<lparr>ne_ctx_id := ctx\<rparr>))
                  (my_key cs) roomId (my_npid cs)))))"

definition setSearchBinAttr :: "MatchingBinAttr \<Rightarrow> Room \<Rightarrow> Room" where
  "setSearchBinAttr a room =
     (let attrId = ucast (pba_attr_id a) :: u16 in
      if attrId \<noteq> SEARCHABLE_BIN_ATTR_EXTERNAL_1_ID then room
      else room\<lparr>r_searchBinAttr := \<lparr>ba_set = True, ba_attrId = attrId, ba_data = pba_data a\<rparr>\<rparr>)"

definition setExternalBinAttr :: "MatchingBinAttr \<Rightarrow> Room \<Rightarrow> Room" where
  "setExternalBinAttr a room =
     (let attrId = ucast (pba_attr_id a) :: u16 in
      case ExternalBinIndexForAttr attrId of
        None \<Rightarrow> room
      | Some idx \<Rightarrow> room\<lparr>r_externalBinAttr := (r_externalBinAttr room)[idx :=
          \<lparr>ba_set = True, ba_attrId = attrId, ba_data = pba_data a\<rparr>]\<rparr>)"

definition CmdSetRoomDataExternal ::
  "SetRoomDataExternalRequest option \<Rightarrow> ClientSession \<Rightarrow> SharedState \<Rightarrow> u64 result" where
  [handler_defs]: "CmdSetRoomDataExternal req cs sh =
     (case req of None \<Rightarrow> reject Malformed cs sh
      | Some req \<Rightarrow>
        (let roomId = seq_room_id req; k = (my_key cs, roomId) in
         case qfind (rooms_of sh) k of
           None \<Rightarrow> reject RoomMissing cs sh
         | Some room \<Rightarrow>
           (let room1 = fold setSearchIntAttr (seq_search_int_attrs req) room;
                room2 = fold setSearchBinAttr (seq_search_bin_attrs req) room1;
                room3 = fold setExternalBinAttr (seq_ext_bin_attrs req) room2
            in ((NoError, Some roomId), cs, set_room k room3 sh, []))))"

definition CmdSetUserInfo ::
  "MatchingBinAttr list option \<Rightarrow> ClientSession \<Rightarrow> SharedState \<Rightarrow> unit result" where
  \<comment> \<open>the request's \<open>user_bin_attrs\<close>\<close>
  [handler_defs]: "CmdSetUserInfo req cs sh =
     (case req of None \<Rightarrow> reject Malformed cs sh
      | Some attrs \<Rightarrow>
        (let slots = map (\<lambda>src. \<lparr>ba_set = True, ba_attrId = ucast (pba_attr_id src),
                                  ba_data = pba_data src\<rparr>) attrs;
             mx = ss_matching sh
         in ((NoError, Some ()), cs,
             set_matching (mx\<lparr>mx_userInfo := qinsert (my_key cs, my_npid cs) slots (mx_userInfo mx)\<rparr>) sh, [])))"

subsection \<open>Room messages\<close>

definition MATCHING2_CASTTYPE_BROADCAST :: u8 where "MATCHING2_CASTTYPE_BROADCAST = 1"
definition MATCHING2_CASTTYPE_UNICAST :: u8 where "MATCHING2_CASTTYPE_UNICAST = 2"
definition MATCHING2_CASTTYPE_MULTICAST :: u8 where "MATCHING2_CASTTYPE_MULTICAST = 3"
definition MATCHING2_ROOM_MSG_EVENT_MESSAGE :: u32 where "MATCHING2_ROOM_MSG_EVENT_MESSAGE = 0x2102"

definition messageTargets :: "Room \<Rightarrow> qstring \<Rightarrow> u8 \<Rightarrow> u32 list \<Rightarrow> RoomMember list option" where
  \<comment> \<open>\<open>addTarget\<close> and \<open>addTargetById\<close> over the cast type; \<open>None\<close> is InvalidInput\<close>
  "messageTargets room myNpid castType dst =
     (let byId = (\<lambda>i. qfind (r_members room) (ucast i :: u16));
          others = filter (\<lambda>m. rm_npid m \<noteq> myNpid)
      in if castType = MATCHING2_CASTTYPE_UNICAST
         then (case dst of [] \<Rightarrow> None | i # _ \<Rightarrow> Some (others (List.map_filter byId [i])))
         else if castType = MATCHING2_CASTTYPE_MULTICAST
         then Some (others (List.map_filter byId dst))
         else if castType = MATCHING2_CASTTYPE_BROADCAST
         then Some (others (qvalues (r_members room)))
         else None)"

definition CmdSendRoomMessage ::
  "SendRoomMessageRequest option \<Rightarrow> ClientSession \<Rightarrow> SharedState \<Rightarrow> u64 result" where
  [handler_defs]: "CmdSendRoomMessage req cs sh =
     (case req of None \<Rightarrow> reject Malformed cs sh
      | Some req \<Rightarrow>
        (let roomId = smq_room_id req; castType = ucast (smq_cast_type req) :: u8 in
         case qfind (rooms_of sh) (my_key cs, roomId) of
           None \<Rightarrow> reject RoomMissing cs sh
         | Some room \<Rightarrow>
           (case findByNpid room (my_npid cs) of
              None \<Rightarrow> reject RoomMissing cs sh
            | Some src \<Rightarrow>
              (case messageTargets room (my_npid cs) castType (smq_dst_member_ids req) of
                 None \<Rightarrow> reject InvalidInput cs sh
               | Some targets \<Rightarrow>
                 if targets = [] \<and> (castType = MATCHING2_CASTTYPE_UNICAST
                      \<or> castType = MATCHING2_CASTTYPE_MULTICAST)
                 then reject NotFound cs sh
                 else
                   (let notif = \<lparr>nm_ctx_id = 0, nm_room_id = roomId,
                          nm_src_member_id = ucast (rm_memberId src),
                          nm_event = MATCHING2_ROOM_MSG_EVENT_MESSAGE,
                          nm_cast_type = ucast castType,
                          nm_dst_member_ids = map (\<lambda>m. ucast (rm_memberId m)) targets,
                          nm_src_npid = rm_npid src, nm_src_account_id = u64_of_int (rm_userId src),
                          nm_src_platform = rm_platform src, nm_msg = smq_msg req\<rparr>
                    in ((NoError, Some roomId), cs, sh,
                        concat (map (\<lambda>m. SendMatchingNotification sh
                          (\<lambda>ctx. RoomMessagePkt (notif\<lparr>nm_ctx_id := ctx\<rparr>)) (rm_npid m)) targets)))))))"

end
