(* ===== verification/Accounts.thy ===== *)
theory Accounts
  imports Friends Usage RoomCommands
begin

text \<open>
  Accounts and sessions: creating, logging in and deleting an account
  (\<open>src/cmd_account.cpp\<close> over \<open>src/database.cpp\<close>), the clean-up when a connection
  ends, the attribution of games to users in \<open>DispatchCommand\<close>, and the presence commands
  of \<open>src/client_session.cpp\<close>.
\<close>

subsection \<open>Accounts in the database\<close>

record auth_functions =
  au_sha256 :: "bytes \<Rightarrow> bytes"
  au_toUtf8 :: "qstring \<Rightarrow> bytes"
  au_toLower :: "qstring \<Rightarrow> qstring"
  au_trimmed :: "qstring \<Rightarrow> qstring"
  au_isLetterOrNumber :: "char \<Rightarrow> bool"

definition HashPassword :: "auth_functions \<Rightarrow> qstring \<Rightarrow> bytes \<Rightarrow> bytes" where
  "HashPassword au password salt =
     (if password = [] \<or> salt = [] then []
      else (au_sha256 au ^^ 100000) (au_toUtf8 au password @ salt))"

datatype DbError = DbExistingUsername | DbExistingEmail | DbInvalidInput | DbInvalidEmail | DbInternal

definition CreateAccount ::
  "auth_functions \<Rightarrow> bool \<Rightarrow> qstring \<Rightarrow> qstring \<Rightarrow> qstring \<Rightarrow> qstring \<Rightarrow> bytes \<Rightarrow> qstring \<Rightarrow> Database
    \<Rightarrow> DbError option \<times> Database" where
  \<comment> \<open>the salt and the token are drawn at random; \<open>None\<close> is success\<close>
  "CreateAccount au fault npid password avatarUrl email salt token db =
     (let accounts = qvalues (db_accounts db);
          emailCheck = (if email = [] then [] else au_trimmed au (au_toLower au email));
          hash = HashPassword au password salt
      in if npid = [] \<or> password = [] then (Some DbInvalidInput, db)
         else if fault then (Some DbInternal, db)
         else if list_ex (\<lambda>r. nocase (ur_username r) = nocase npid) accounts then (Some DbExistingUsername, db)
         else if email \<noteq> [] \<and> (CHR ''@'' \<notin> set emailCheck \<or> CHR ''.'' \<notin> set emailCheck)
         then (Some DbInvalidEmail, db)
         else if email \<noteq> [] \<and> list_ex (\<lambda>r. ur_emailCheck r = emailCheck) accounts then (Some DbExistingEmail, db)
         else if salt = [] \<or> hash = [] \<or> token = [] then (Some DbInternal, db)
         else if list_ex (\<lambda>r. ur_emailCheck r = emailCheck) accounts then (Some DbExistingUsername, db)
         else (None, db\<lparr>db_accounts := qinsert (db_nextUserId db)
                   \<lparr>ur_username = npid, ur_hash = hash, ur_salt = salt, ur_avatarUrl = avatarUrl,
                    ur_email = email, ur_emailCheck = emailCheck, ur_token = token, ur_admin = False,
                    ur_statAgent = False, ur_banned = False\<rparr> (db_accounts db),
                  db_nextUserId := db_nextUserId db + 1\<rparr>))"

definition CheckUser ::
  "auth_functions \<Rightarrow> bool \<Rightarrow> qstring \<Rightarrow> qstring \<Rightarrow> qstring \<Rightarrow> bool \<Rightarrow> Database \<Rightarrow> (userid \<times> UserRecord) option" where
  "CheckUser au fault npid password token checkToken db =
     (if fault then None
      else case List.find (\<lambda>(i, r). nocase (ur_username r) = nocase npid) (db_accounts db) of
             None \<Rightarrow> None
           | Some (i, r) \<Rightarrow>
               if ur_username r \<noteq> npid \<or> HashPassword au password (ur_salt r) \<noteq> ur_hash r \<or>
                  checkToken \<and> ur_token r \<noteq> token
               then None else Some (i, r))"

subsection \<open>Requests and replies\<close>

record config =
  cf_registrationSecretKey :: qstring
  cf_bannedDomains :: "qstring list"
  cf_emailValidated :: bool
  cf_matching2Enabled :: bool

definition IsRegistrationAllowed :: "config \<Rightarrow> qstring \<Rightarrow> bool" where
  "IsRegistrationAllowed cf key \<longleftrightarrow>
     cf_registrationSecretKey cf = [] \<or> key \<noteq> [] \<and> key = cf_registrationSecretKey cf"

definition IsBannedDomain :: "auth_functions \<Rightarrow> config \<Rightarrow> qstring \<Rightarrow> bool" where
  "IsBannedDomain au cf d \<longleftrightarrow> au_toLower au d \<in> set (cf_bannedDomains cf)"

definition IsValidNpid :: "auth_functions \<Rightarrow> qstring \<Rightarrow> bool" where
  "IsValidNpid au npid \<longleftrightarrow>
     3 \<le> length npid \<and> length npid \<le> 16 \<and>
     list_all (\<lambda>c. au_isLetterOrNumber au c \<or> c = CHR ''-'' \<or> c = CHR ''_'') npid \<and> npid \<noteq> ''DeletedUser''"

record RegistrationRequest =
  rrq_npid :: qstring
  rrq_password :: qstring
  rrq_avatar_url :: qstring
  rrq_email :: qstring
  rrq_secret_key :: qstring

record LoginRequest =
  lrq_npid :: qstring
  lrq_password :: qstring
  lrq_token :: qstring
  lrq_title_id :: qstring
  lrq_title_name :: qstring
  lrq_appear_offline :: bool

record FriendEntry =
  fe_npid :: qstring
  fe_online :: bool

record LoginReply =
  lr_avatar_url :: qstring
  lr_user_id :: u64
  lr_friends :: "FriendEntry list"
  lr_friend_requests_sent :: "qstring list"
  lr_friend_requests_received :: "qstring list"
  lr_blocked :: "qstring list"

record GetTokenReply =
  gt_token :: qstring
  gt_user_id :: u64
  gt_npid :: qstring

subsection \<open>Account commands\<close>

definition CmdCreate ::
  "auth_functions \<Rightarrow> config \<Rightarrow> bool \<Rightarrow> RegistrationRequest option \<Rightarrow> bytes \<Rightarrow> qstring \<Rightarrow> Database
    \<Rightarrow> ErrorType \<times> Database" where
  "CmdCreate au cf fault req salt token db =
     (case req of None \<Rightarrow> (Malformed, db)
      | Some req \<Rightarrow>
        (let npid = rrq_npid req; email = rrq_email req;
             domain = au_toLower au (tl (dropWhile (\<lambda>c. c \<noteq> CHR ''@'') email));
             avatarUrl = (if rrq_avatar_url req = [] then ''https://shadps4.net/shadnet/avatars/default_01.png''
                          else rrq_avatar_url req)
         in if \<not> IsRegistrationAllowed cf (rrq_secret_key req) then (Unauthorized, db)
            else if \<not> IsValidNpid au npid then (InvalidInput, db)
            else if rrq_password req = [] \<or> email = [] then (InvalidInput, db)
            else if CHR ''@'' \<in> set email \<and> IsBannedDomain au cf domain then (CreationBannedEmailProvider, db)
            else (case CreateAccount au fault npid (rrq_password req) avatarUrl email salt token db of
                    (None, db') \<Rightarrow> (NoError, db')
                  | (Some DbExistingUsername, db') \<Rightarrow> (CreationExistingUsername, db')
                  | (Some DbExistingEmail, db') \<Rightarrow> (CreationExistingEmail, db')
                  | (Some _, db') \<Rightarrow> (CreationError, db'))))"

definition PresenceTimestamp :: "int \<Rightarrow> u64" where
  "PresenceTimestamp nowMs = u64_of_int nowMs * 1000000"

definition kOnlineStatus :: qstring where "kOnlineStatus = ''np:service:presence:onlineStatus''"

definition statusChange :: "qstring \<Rightarrow> bool \<Rightarrow> int \<Rightarrow> nat \<times> qstring \<Rightarrow> friend_out list" where
  \<comment> \<open>what one online friend (connection, npid) is sent when we come online or go offline\<close>
  "statusChange npid online nowMs = (\<lambda>(conn, friendNpid).
     [(conn, FriendStatusPkt npid online (PresenceTimestamp nowMs)),
      (conn, WebApiPushPkt [] 0 kOnlineStatus [] npid friendNpid [])])"

definition loginSession :: "LoginRequest \<Rightarrow> userid \<Rightarrow> UserRecord \<Rightarrow> SharedState \<Rightarrow> ClientSession \<Rightarrow> ClientSession" where
  "loginSession req userId user sh cs =
     (let titleId = lrq_title_id req in
      cs\<lparr>cs_authenticated := True,
         cs_info := \<lparr>ci_userId = userId, ci_npid = ur_username user, ci_avatarUrl = ur_avatarUrl user,
                     ci_token = ur_token user, ci_admin = ur_admin user, ci_statAgent = ur_statAgent user,
                     ci_banned = ur_banned user\<rparr>,
         cs_matching := (cs_matching cs)\<lparr>ms_titleId := titleId,
           ms_matchingKey := qvalue (mx_titleGroups (ss_matching sh)) titleId titleId\<rparr>\<rparr>)"

definition loginReply :: "userid \<Rightarrow> UserRecord \<Rightarrow> UserRelationships \<Rightarrow> SharedState \<Rightarrow> LoginReply" where
  "loginReply userId user rels sh =
     \<lparr>lr_avatar_url = ur_avatarUrl user, lr_user_id = u64_of_int userId,
      lr_friends = map (\<lambda>(friendId, friendNpid). \<lparr>fe_npid = friendNpid,
        fe_online = (case qfind (ss_clients sh) friendId of None \<Rightarrow> False | Some c \<Rightarrow> \<not> ce_appearOffline c)\<rparr>)
        (rl_friends rels),
      lr_friend_requests_sent = map snd (rl_friendRequestsSent rels),
      lr_friend_requests_received = map snd (rl_friendRequestsReceived rels),
      lr_blocked = map snd (rl_blocked rels)\<rparr>"

definition loginEntry :: "LoginRequest \<Rightarrow> nat \<Rightarrow> UserRelationships \<Rightarrow> ClientEntry" where
  "loginEntry req conn rels =
     \<lparr>ce_npid = lrq_npid req, ce_send = conn, ce_matchingContextId = 0,
      ce_friends = fold (\<lambda>(i, n). qinsert i n) (rl_friends rels) [],
      ce_gameStatus = [], ce_gameData = [], ce_localizedGameStatus = [],
      ce_npTitleId = lrq_title_id req, ce_titleName = lrq_title_name req, ce_platform = ''PS4'',
      ce_presenceUpdatedAt = 0, ce_appearOffline = lrq_appear_offline req, ce_notifyWithData = False\<rparr>"

definition registerLogin ::
  "LoginRequest \<Rightarrow> userid \<Rightarrow> nat \<Rightarrow> UserRelationships \<Rightarrow> SharedState \<Rightarrow> SharedState \<times> (nat \<times> qstring) list" where
  \<comment> \<open>the client entry and the online friends' lists; the online friends to tell\<close>
  "registerLogin req userId conn rels sh =
     (let senders = List.map_filter (\<lambda>(friendId, friendNpid).
            map_option (\<lambda>c. (ce_send c, friendNpid)) (qfind (ss_clients sh) friendId)) (rl_friends rels);
          sh1 = fold (\<lambda>(friendId, _). addFriendEntry friendId userId (lrq_npid req)) (rl_friends rels) sh
      in (sh1\<lparr>ss_clients := qinsert userId (loginEntry req conn rels) (ss_clients sh1),
              ss_npidToUserId := qinsert (lrq_npid req) userId (ss_npidToUserId sh1)\<rparr>, senders))"

definition CmdLogin ::
  "auth_functions \<Rightarrow> config \<Rightarrow> faults \<Rightarrow> LoginRequest option \<Rightarrow> int \<Rightarrow> ClientSession \<Rightarrow> SharedState \<Rightarrow> Database
    \<Rightarrow> (ErrorType \<times> LoginReply option) \<times> ClientSession \<times> SharedState \<times> friend_out list" where
  "CmdLogin au cf fa req nowMs cs sh db =
     (case req of None \<Rightarrow> ((Malformed, None), cs, sh, [])
      | Some req \<Rightarrow>
        (case CheckUser au (fa_account fa) (lrq_npid req) (lrq_password req) (lrq_token req) (cf_emailValidated cf) db of
           None \<Rightarrow> ((LoginInvalidPassword, None), cs, sh, [])
         | Some (userId, user) \<Rightarrow>
           if ur_banned user then ((LoginError, None), cs, sh, [])
           else if qfind (ss_clients sh) userId \<noteq> None then ((LoginAlreadyLoggedIn, None), cs, sh, [])
           else
             (let rels = GetRelationships fa userId db;
                  (sh1, senders) = registerLogin req userId (cs_conn cs) rels sh;
                  outs = (if lrq_appear_offline req then []
                          else concat (map (statusChange (lrq_npid req) True nowMs) senders))
              in ((NoError, Some (loginReply userId user rels sh)), loginSession req userId user sh cs,
                  UsageOnLogin sh1, outs))))"

definition CmdDelete ::
  "auth_functions \<Rightarrow> bool \<Rightarrow> stream \<Rightarrow> ClientSession \<Rightarrow> SharedState \<Rightarrow> Database
    \<Rightarrow> ErrorType \<times> ClientSession \<times> SharedState \<times> Database" where
  "CmdDelete au fault data cs sh db =
     (let (npid, data1) = getString False data;
          (password, data2) = getString False data1
      in if m_error data2 then (Malformed, cs, sh, db)
         else (case CheckUser au fault npid password [] False db of
                 None \<Rightarrow> (LoginInvalidPassword, cs, sh, db)
               | Some (userId, user) \<Rightarrow>
                   if userId \<noteq> ci_userId (cs_info cs) \<and> \<not> ci_admin (cs_info cs) then (Unauthorized, cs, sh, db)
                   else (case DeleteUser fault userId db of
                           (False, db') \<Rightarrow> (DbFail, cs, sh, db')
                         | (True, db') \<Rightarrow>
                             if userId = ci_userId (cs_info cs)
                             then (NoError, cs\<lparr>cs_authenticated := False\<rparr>,
                                   sh\<lparr>ss_clients := qremove userId (ss_clients sh)\<rparr>, db')
                             else (NoError, cs, sh, db'))))"

definition CmdGetToken :: "ClientSession \<Rightarrow> ErrorType \<times> GetTokenReply option" where
  "CmdGetToken cs =
     (let info = cs_info cs in
      if ci_token info = [] then (DbFail, None)
      else (NoError, Some \<lparr>gt_token = ci_token info, gt_user_id = u64_of_int (ci_userId info), gt_npid = ci_npid info\<rparr>))"

definition CmdGetServerFeatures :: "config option \<Rightarrow> ErrorType \<times> bool" where
  "CmdGetServerFeatures cf = (NoError, case cf of None \<Rightarrow> False | Some c \<Rightarrow> cf_matching2Enabled c)"

subsection \<open>The end of a connection\<close>

definition removeClient :: "ClientSession \<Rightarrow> SharedState \<Rightarrow> SharedState \<times> bool \<times> (nat \<times> qstring) list" where
  \<comment> \<open>the state without the client, whether it appeared offline, and its online friends\<close>
  "removeClient cs sh =
     (case qfind (ss_clients sh) (ci_userId (cs_info cs)) of
        None \<Rightarrow> (sh, False, [])
      | Some self \<Rightarrow>
          (sh\<lparr>ss_clients := qremove (ci_userId (cs_info cs)) (ss_clients sh),
              ss_npidToUserId := qremove (ci_npid (cs_info cs)) (ss_npidToUserId sh)\<rparr>,
           ce_appearOffline self,
           List.map_filter (\<lambda>friendId. map_option (\<lambda>c. (ce_send c, ce_npid c)) (qfind (ss_clients sh) friendId))
             (qkeys (ce_friends self))))"

definition CleanupOnDisconnect ::
  "int \<Rightarrow> ClientSession \<Rightarrow> SharedState \<Rightarrow> ClientSession \<times> SharedState \<times> out list \<times> friend_out list" where
  \<comment> \<open>leaving the web sessions (\<open>PurgeUserFromSessions\<close>) touches none of this state\<close>
  "CleanupOnDisconnect nowMs cs sh =
     (if \<not> cs_authenticated cs then (cs, sh, [], [])
      else
        (let (cs1, sh1, outs) = CleanupMatchingOnDisconnect cs sh;
             (sh2, selfAppearOffline, senders) = removeClient cs1 sh1;
             sh3 = UsageOnLogout (ci_userId (cs_info cs1)) sh2
         in (cs1, sh3, outs,
             if selfAppearOffline then []
             else concat (map (statusChange (ci_npid (cs_info cs1)) False nowMs) senders))))"

end
