(* ===== verification/Presence.thy ===== *)
theory Presence
  imports Accounts
begin

text \<open>
  Presence of \<open>src/client_session.cpp\<close>: the Appear-Offline toggle, the game title event,
  and the attribution of a game to its user, which \<open>DispatchCommand\<close> does before a score
  command.
\<close>

definition onlineFriends :: "SharedState \<Rightarrow> ClientEntry \<Rightarrow> (userid \<times> qstring) list" where
  \<comment> \<open>the connected users of a friend list, with the names they connected under\<close>
  "onlineFriends sh self =
     List.map_filter (\<lambda>friendId. map_option (\<lambda>c. (friendId, ce_npid c)) (qfind (ss_clients sh) friendId))
       (qkeys (ce_friends self))"

definition sameGame :: "SharedState \<Rightarrow> qstring \<Rightarrow> userid \<Rightarrow> bool" where
  "sameGame sh comId userId \<longleftrightarrow> qfind (ss_usageClientGame sh) userId = Some comId"

definition kInGame :: qstring where "kInGame = ''inGamePresence''"
definition kTitle :: qstring where "kTitle = ''np:service:presence:gameTitleInfo''"
definition kStatus :: qstring where "kStatus = ''np:service:presence:gameStatus''"
definition kData :: qstring where "kData = ''np:service:presence:gameData''"

definition inGameEvents :: "SharedState \<Rightarrow> ClientEntry \<Rightarrow> bool \<Rightarrow> userid \<times> qstring \<Rightarrow> friend_out list" where
  \<comment> \<open>what a friend in the same game is sent; bodies only when online and asked for\<close>
  "inGameEvents sh self nowOnline = (\<lambda>(friendId, friendNpid).
     (let withData = (nowOnline \<and> ce_notifyWithData self);
          push = (\<lambda>dataType body. PushWebApiEvent sh kInGame 0 dataType body (ce_npid self) friendNpid friendId [])
      in (if ce_npTitleId self \<noteq> [] \<or> ce_titleName self \<noteq> [] then push kTitle [] else []) @
         (if ce_gameStatus self \<noteq> []
          then push kStatus (if withData then [(''gameStatus'', ce_gameStatus self)] else []) else []) @
         (if ce_gameData self \<noteq> []
          then push kData (if withData then [(''gameData'', ce_gameData self)] else []) else [])))"

definition CmdSetAppearOffline ::
  "bool option \<Rightarrow> ClientSession \<Rightarrow> SharedState \<Rightarrow> ErrorType \<times> SharedState \<times> friend_out list" where
  "CmdSetAppearOffline req cs sh =
     (case req of None \<Rightarrow> (Malformed, sh, [])
      | Some enable \<Rightarrow>
        (case qfind (ss_clients sh) (my_id cs) of
           None \<Rightarrow> (NoError, sh, [])
         | Some self \<Rightarrow>
           if ce_appearOffline self = enable then (NoError, sh, [])
           else
             (let sh' = sh\<lparr>ss_clients := qmodify (my_id cs) (\<lambda>c. c\<lparr>ce_appearOffline := enable\<rparr>) (ss_clients sh)\<rparr>;
                  friends = onlineFriends sh' self;
                  myComId = qvalue (ss_usageClientGame sh') (my_id cs) []
              in (NoError, sh',
                  concat (map (\<lambda>(i, n). PushWebApiEvent sh' [] 0 kOnlineStatus [] (ce_npid self) n i []) friends) @
                  (if myComId = [] then []
                   else concat (map (inGameEvents sh' self (\<not> enable))
                          (filter (\<lambda>(i, n). sameGame sh' myComId i) friends)))))))"

definition EmitPresenceGameTitleInfo :: "ClientSession \<Rightarrow> SharedState \<Rightarrow> friend_out list" where
  "EmitPresenceGameTitleInfo cs sh =
     (case qfind (ss_clients sh) (my_id cs) of
        None \<Rightarrow> []
      | Some self \<Rightarrow>
          (let myComId = qvalue (ss_usageClientGame sh) (my_id cs) [] in
           if ce_appearOffline self \<or> myComId = [] then []
           else concat (map (\<lambda>(i, n). PushWebApiEvent sh kInGame 0 kTitle [] (my_name cs) n i [])
                  (filter (\<lambda>(i, n). sameGame sh myComId i) (onlineFriends sh self)))))"

definition attributeGame ::
  "bool \<Rightarrow> CommandType \<Rightarrow> stream \<Rightarrow> ClientSession \<Rightarrow> SharedState \<Rightarrow> Database
    \<Rightarrow> SharedState \<times> Database \<times> friend_out list" where
  \<comment> \<open>the part of \<open>DispatchCommand\<close> between the checks and the handler\<close>
  "attributeGame fault cmd data cs sh db =
     (let cid = peekBytes 12 data in
      if \<not> LeadsWithComId cmd \<or> length cid \<noteq> 12 then (sh, db, [])
      else
        (let comId = map (\<lambda>b. char_of (unat b)) cid;
             titleName = (case qfind (ss_clients sh) (my_id cs) of None \<Rightarrow> [] | Some c \<Rightarrow> ce_titleName c);
             db' = (if comId \<noteq> [] \<and> titleName \<noteq> [] then snd (SetTitleName fault comId titleName db) else db);
             (changed, sh') = UsageTouchGame (my_id cs) comId sh
         in (sh', db', if changed then EmitPresenceGameTitleInfo cs sh' else [])))"

end
