(* ===== verification/ScoreServer.thy ===== *)
theory ScoreServer
  imports ScoreBoard Presence
begin

text \<open>
  The score commands of \<open>src/cmd_score.cpp\<close> over the score tables
  (\<open>src/score_db.cpp\<close>), the cache and the data files (\<open>src/score_files.h\<close>), and
  the start-up that fills the cache from the tables. Which statements and files fail, the
  account table and the times of the clock are arguments.
\<close>

subsection \<open>Score tables\<close>

record ScoreRow =
  sr_score :: int
  sr_comment :: qstring
  sr_gameInfo :: bytes
  sr_dataId :: "u64 option"
  sr_timestamp :: u64

type_synonym board_key = "qstring \<times> u32"
type_synonym score_key = "qstring \<times> u32 \<times> userid \<times> int"

record ScoreDb =
  sd_boards :: "(board_key, ScoreBoardConfig) qhash"
  sd_scores :: "(score_key, ScoreRow) qhash"

datatype ScoreDbError = ScoreDbInternal | ScoreDbNotBest | ScoreDbInvalid

definition SetBoard :: "bool \<Rightarrow> qstring \<Rightarrow> u32 \<Rightarrow> ScoreBoardConfig \<Rightarrow> ScoreDb \<Rightarrow> bool \<times> ScoreDb" where
  "SetBoard fault comId boardId cfg sd =
     (if fault then (False, sd) else (True, sd\<lparr>sd_boards := qinsert (comId, boardId) cfg (sd_boards sd)\<rparr>))"

definition CreateBoard :: "bool \<Rightarrow> qstring \<Rightarrow> u32 \<Rightarrow> ScoreDb \<Rightarrow> bool \<times> ScoreDb" where
  "CreateBoard fault comId boardId sd = SetBoard fault comId boardId ScoreBoardConfig_default sd"

definition GetBoard :: "bool \<Rightarrow> qstring \<Rightarrow> u32 \<Rightarrow> bool \<Rightarrow> ScoreDb \<Rightarrow> ScoreBoardConfig option \<times> ScoreDb" where
  "GetBoard fault comId boardId createMissing sd =
     (let read = (\<lambda>sd. if fault then None else qfind (sd_boards sd) (comId, boardId)) in
      case read sd of
        Some c \<Rightarrow> (Some c, sd)
      | None \<Rightarrow> if createMissing
                then (let (_, sd') = CreateBoard fault comId boardId sd in (read sd', sd'))
                else (None, sd))"

definition RecordScore ::
  "bool \<Rightarrow> qstring \<Rightarrow> u32 \<Rightarrow> ScoreBoardConfig \<Rightarrow> ScoreEntry \<Rightarrow> ScoreDb \<Rightarrow> ScoreDbError option \<times> ScoreDb" where
  \<comment> \<open>the upsert with its \<open>WHERE\<close>; a new row has no data id\<close>
  "RecordScore fault comId boardId cfg entry sd =
     (let key = (comId, boardId, se_userId entry, se_characterId entry);
          row = \<lparr>sr_score = se_score entry, sr_comment = se_comment entry, sr_gameInfo = se_gameInfo entry,
                 sr_dataId = None, sr_timestamp = se_timestamp entry\<rparr>;
          accepted = (case qfind (sd_scores sd) key of
                        None \<Rightarrow> True
                      | Some old \<Rightarrow> sb_updateMode cfg \<noteq> 0 \<or>
                          (if sb_sortMode cfg = 0 then se_score entry \<ge> sr_score old
                           else se_score entry \<le> sr_score old))
      in if fault then (Some ScoreDbInternal, sd)
         else if \<not> accepted then (Some ScoreDbNotBest, sd)
         else (None, sd\<lparr>sd_scores := qinsert key row (sd_scores sd)\<rparr>))"

definition SetScoreDataId ::
  "bool \<Rightarrow> qstring \<Rightarrow> u32 \<Rightarrow> userid \<Rightarrow> int \<Rightarrow> int \<Rightarrow> u64 \<Rightarrow> ScoreDb \<Rightarrow> ScoreDbError option \<times> ScoreDb" where
  "SetScoreDataId fault comId boardId userId characterId score dataId sd =
     (let key = (comId, boardId, userId, characterId) in
      if fault then (Some ScoreDbInternal, sd)
      else (case qfind (sd_scores sd) key of
              None \<Rightarrow> (Some ScoreDbInvalid, sd)
            | Some r \<Rightarrow> if sr_score r \<noteq> score then (Some ScoreDbInvalid, sd)
                        else (None, sd\<lparr>sd_scores := qinsert key (r\<lparr>sr_dataId := Some dataId\<rparr>) (sd_scores sd)\<rparr>)))"

definition entryOf :: "Database \<Rightarrow> score_key \<times> ScoreRow \<Rightarrow> ScoreEntry" where
  \<comment> \<open>a row joined with the name of its account\<close>
  "entryOf db = (\<lambda>((c, b, u, ch), r).
     \<lparr>se_userId = u, se_characterId = ch, se_score = sr_score r, se_comment = sr_comment r,
      se_gameInfo = sr_gameInfo r, se_dataId = sr_dataId r, se_timestamp = sr_timestamp r,
      se_npid = (case GetUsername False u db of None \<Rightarrow> [] | Some n \<Rightarrow> n)\<rparr>)"

definition boardEntries :: "Database \<Rightarrow> qstring \<Rightarrow> u32 \<Rightarrow> ScoreDb \<Rightarrow> ScoreEntry list" where
  "boardEntries db comId boardId sd =
     map (entryOf db) (filter (\<lambda>((c, b, _), _). c = comId \<and> b = boardId) (sd_scores sd))"

definition ScoresForBoard ::
  "bool \<Rightarrow> Database \<Rightarrow> qstring \<Rightarrow> u32 \<Rightarrow> ScoreBoardConfig \<Rightarrow> ScoreDb \<Rightarrow> ScoreEntry list" where
  \<comment> \<open>\<open>ORDER BY\<close> score, time, user and \<open>LIMIT\<close>\<close>
  "ScoresForBoard fault db comId boardId cfg sd =
     (if fault then []
      else take (unat (sb_rankLimit cfg)) (sort_key (rank_key (sb_sortMode cfg)) (boardEntries db comId boardId sd)))"

definition AllDataIds :: "ScoreDb \<Rightarrow> u64 list" where
  "AllDataIds sd = List.map_filter sr_dataId (qvalues (sd_scores sd))"

subsection \<open>Data files\<close>

record ScoreFiles =
  sf_next :: u64
  sf_files :: "(u64, bytes) qhash"      \<comment> \<open>the files by the number in their names\<close>

definition files_Init :: "ScoreFiles \<Rightarrow> ScoreFiles" where
  "files_Init f = f\<lparr>sf_next := fold max (qkeys (sf_files f)) 0 + 1\<rparr>"

definition files_Create :: "bool \<Rightarrow> bytes \<Rightarrow> ScoreFiles \<Rightarrow> u64 \<times> ScoreFiles" where
  "files_Create fault content f =
     (let i = sf_next f; f' = f\<lparr>sf_next := i + 1\<rparr>
      in if fault then (0, f') else (i, f'\<lparr>sf_files := qinsert i content (sf_files f')\<rparr>))"

definition files_Read :: "bool \<Rightarrow> u64 \<Rightarrow> ScoreFiles \<Rightarrow> bytes option" where
  "files_Read fault i f = (if fault then None else qfind (sf_files f) i)"

definition files_Remove :: "u64 \<Rightarrow> ScoreFiles \<Rightarrow> ScoreFiles" where
  "files_Remove i f = f\<lparr>sf_files := qremove i (sf_files f)\<rparr>"

definition CleanOrphans :: "u64 list \<Rightarrow> ScoreFiles \<Rightarrow> ScoreFiles" where
  "CleanOrphans validIds f = f\<lparr>sf_files := filter (\<lambda>(i, _). i \<in> set validIds) (sf_files f)\<rparr>"

subsection \<open>Requests\<close>

definition comIdStr :: "bytes \<Rightarrow> qstring" where
  "comIdStr i = map (\<lambda>b. char_of (unat b)) i"

definition scoreRequest :: "(bytes \<Rightarrow> 'm option) \<Rightarrow> stream \<Rightarrow> ((qstring \<times> 'm) option \<times> stream) option" where
  \<comment> \<open>game id and message, the first lines of every handler; the inner \<open>None\<close> is malformed\<close>
  "scoreRequest parse data =
     (let (comId, d1) = getBytes 12 data in
      case decodeProto parse d1 of
        None \<Rightarrow> None
      | Some (m, d2) \<Rightarrow>
          Some (case m of None \<Rightarrow> None | Some q \<Rightarrow> if m_error d2 then None else Some (comIdStr comId, q), d2))"

definition scoreDataRequest :: "(bytes \<Rightarrow> 'm option) \<Rightarrow> stream \<Rightarrow> (qstring \<times> 'm \<times> bytes) option option" where
  \<comment> \<open>the request of \<open>CmdRecordScoreData\<close>, with the raw data behind it\<close>
  "scoreDataRequest parse data =
     (case scoreRequest parse data of
        None \<Rightarrow> None
      | Some (None, _) \<Rightarrow> Some None
      | Some (Some (c, q), d) \<Rightarrow>
          (case getRawData d of
             None \<Rightarrow> None
           | Some (raw, d') \<Rightarrow> Some (if m_error d' then None else Some (c, q, raw))))"

definition boardInfoRequest :: "stream \<Rightarrow> (qstring \<times> u32) option" where
  "boardInfoRequest data =
     (let (comId, d1) = getBytes 12 data; (boardId, d2) = get d1
      in if m_error d2 then None else Some (comIdStr comId, boardId))"

record RecordScoreRequest =
  rsq_boardid :: u32
  rsq_pcid :: int
  rsq_score :: int
  rsq_comment :: qstring
  rsq_data :: bytes

record RecordScoreGameDataRequest =
  rgd_boardid :: u32
  rgd_pcid :: int
  rgd_score :: int

record GetScoreGameDataRequest =
  ggd_boardid :: u32
  ggd_npid :: qstring
  ggd_pcid :: int

record GetScoreRangeRequest =
  grq_boardid :: u32
  grq_startrank :: u32
  grq_numranks :: u32
  grq_withcomment :: bool
  grq_withgameinfo :: bool

record GetScoreNpIdRequest =
  gnq_boardid :: u32
  gnq_npids :: "(qstring \<times> int) list"
  gnq_withcomment :: bool
  gnq_withgameinfo :: bool

record GetScoreFriendsRequest =
  gfq_boardid :: u32
  gfq_includeself :: bool
  gfq_max :: u32
  gfq_withcomment :: bool
  gfq_withgameinfo :: bool

record GetScoreAccountIdRequest =
  gaq_boardid :: u32
  gaq_ids :: "(userid \<times> int) list"
  gaq_withcomment :: bool
  gaq_withgameinfo :: bool

record GetScoreGameDataByAccountIdRequest =
  gda_boardid :: u32
  gda_accountid :: userid
  gda_pcid :: int

subsection \<open>Commands\<close>

record score_faults =
  sx_board :: bool     \<comment> \<open>statements on the board table fail\<close>
  sx_record :: bool    \<comment> \<open>the upsert fails\<close>
  sx_data :: bool      \<comment> \<open>the update of the data id fails\<close>
  sx_file :: bool      \<comment> \<open>the data file cannot be opened\<close>
  sx_account :: bool   \<comment> \<open>statements on the account table fail\<close>

definition no_score_faults :: score_faults where
  "no_score_faults = \<lparr>sx_board = False, sx_record = False, sx_data = False, sx_file = False, sx_account = False\<rparr>"

record score_server =
  sv_scores :: ScoreDb
  sv_cache :: ScoreCache
  sv_files :: ScoreFiles

definition CmdGetBoardInfos ::
  "score_faults \<Rightarrow> (qstring \<times> u32) option \<Rightarrow> score_server \<Rightarrow> (ErrorType \<times> ScoreBoardConfig option) \<times> score_server" where
  \<comment> \<open>the message \<open>BoardInfo\<close> has the fields of the configuration\<close>
  "CmdGetBoardInfos fx req st =
     (case req of None \<Rightarrow> ((Malformed, None), st)
      | Some (cid, boardId) \<Rightarrow>
          (case GetBoard (sx_board fx) cid boardId True (sv_scores st) of
             (None, sd) \<Rightarrow> ((NotFound, None), st\<lparr>sv_scores := sd\<rparr>)
           | (Some cfg, sd) \<Rightarrow> ((NoError, Some cfg), st\<lparr>sv_scores := sd\<rparr>)))"

definition scoreEntry :: "ClientInfo \<Rightarrow> RecordScoreRequest \<Rightarrow> u64 \<Rightarrow> ScoreEntry" where
  "scoreEntry info q now =
     \<lparr>se_userId = ci_userId info, se_characterId = rsq_pcid q, se_score = rsq_score q,
      se_comment = rsq_comment q, se_gameInfo = rsq_data q, se_dataId = None, se_timestamp = now,
      se_npid = ci_npid info\<rparr>"

definition CmdRecordScore ::
  "score_faults \<Rightarrow> (qstring \<times> RecordScoreRequest) option \<Rightarrow> u64 \<Rightarrow> u64 \<Rightarrow> ClientInfo \<Rightarrow> score_server
    \<Rightarrow> (ErrorType \<times> u32 option) \<times> score_server" where
  \<comment> \<open>the clock is read for the entry and again when it is inserted\<close>
  "CmdRecordScore fx req now now' info st =
     (case req of None \<Rightarrow> ((Malformed, None), st)
      | Some (cid, q) \<Rightarrow>
          (case GetBoard (sx_board fx) cid (rsq_boardid q) True (sv_scores st) of
             (None, sd) \<Rightarrow> ((DbFail, None), st\<lparr>sv_scores := sd\<rparr>)
           | (Some cfg, sd) \<Rightarrow>
               (let entry = scoreEntry info q now in
                case RecordScore (sx_record fx) cid (rsq_boardid q) cfg entry sd of
                  (Some e, sd') \<Rightarrow>
                    ((if e = ScoreDbNotBest then ScoreNotBest else DbFail, None), st\<lparr>sv_scores := sd'\<rparr>)
                | (None, sd') \<Rightarrow>
                    (let (rank, cache) = InsertScore cid (rsq_boardid q) cfg entry now' (sv_cache st)
                     in ((NoError, Some rank), st\<lparr>sv_scores := sd', sv_cache := cache\<rparr>)))))"

definition CmdRecordScoreData ::
  "score_faults \<Rightarrow> (qstring \<times> RecordScoreGameDataRequest \<times> bytes) option \<Rightarrow> ClientInfo \<Rightarrow> score_server
    \<Rightarrow> ErrorType \<times> score_server" where
  "CmdRecordScoreData fx req info st =
     (case req of None \<Rightarrow> (Malformed, st)
      | Some (cid, q, rawData) \<Rightarrow>
          (case ContainsScoreWithNoData cid (rgd_boardid q) (ci_userId info) (rgd_pcid q) (rgd_score q) (sv_cache st) of
             Some CacheNotFound \<Rightarrow> (NotFound, st)
           | Some CacheInvalid \<Rightarrow> (ScoreInvalid, st)
           | Some CacheHasData \<Rightarrow> (ScoreHasData, st)
           | None \<Rightarrow>
               (let (fileId, files) = files_Create (sx_file fx) rawData (sv_files st) in
                if fileId = 0 then (DbFail, st\<lparr>sv_files := files\<rparr>)
                else (case SetGameData cid (rgd_boardid q) (ci_userId info) (rgd_pcid q) fileId (sv_cache st) of
                        (Some _, _) \<Rightarrow> (NotFound, st\<lparr>sv_files := files_Remove fileId files\<rparr>)
                      | (None, cache) \<Rightarrow>
                          (let (_, sd) = SetScoreDataId (sx_data fx) cid (rgd_boardid q) (ci_userId info) (rgd_pcid q)
                                           (rgd_score q) fileId (sv_scores st)
                           in (NoError, st\<lparr>sv_files := files, sv_cache := cache, sv_scores := sd\<rparr>))))))"

definition readData :: "bool \<Rightarrow> bool \<times> u64 \<Rightarrow> score_server \<Rightarrow> ErrorType \<times> bytes option" where
  "readData fault found st =
     (if \<not> fst found then (NotFound, None)
      else (case files_Read fault (snd found) (sv_files st) of
              None \<Rightarrow> (NotFound, None)
            | Some content \<Rightarrow> (NoError, Some content)))"

definition CmdGetScoreData ::
  "score_faults \<Rightarrow> (qstring \<times> GetScoreGameDataRequest) option \<Rightarrow> Database \<Rightarrow> score_server \<Rightarrow> ErrorType \<times> bytes option" where
  "CmdGetScoreData fx req db st =
     (case req of None \<Rightarrow> (Malformed, None)
      | Some (cid, q) \<Rightarrow>
          if ggd_npid q = [] then (Malformed, None)
          else (case GetUserId (sx_account fx) (ggd_npid q) db of
                  None \<Rightarrow> (NotFound, None)
                | Some uid \<Rightarrow>
                    readData (sx_file fx) (GetGameDataId cid (ggd_boardid q) uid (ggd_pcid q) (sv_cache st)) st))"

definition CmdGetScoreRange ::
  "(qstring \<times> GetScoreRangeRequest) option \<Rightarrow> u64 \<Rightarrow> score_server \<Rightarrow> (ErrorType \<times> GetScoreResponse option) option" where
  "CmdGetScoreRange req now st =
     (case req of None \<Rightarrow> Some (Malformed, None)
      | Some (cid, q) \<Rightarrow>
          map_option (\<lambda>resp. (NoError, Some resp))
            (ScoreBoard.GetScoreRange cid (grq_boardid q) (grq_startrank q) (grq_numranks q) (grq_withcomment q)
               (grq_withgameinfo q) now (sv_cache st)))"

definition friendIds :: "GetScoreFriendsRequest \<Rightarrow> ClientInfo \<Rightarrow> SharedState \<Rightarrow> (userid \<times> int) list" where
  \<comment> \<open>oneself if asked for, then friends until \<open>max\<close> (0: no limit) are listed\<close>
  "friendIds q info sh =
     (let self = (if gfq_includeself q then [(ci_userId info, 0)] else []);
          friends = (case qfind (ss_clients sh) (ci_userId info) of
                       None \<Rightarrow> [] | Some c \<Rightarrow> map (\<lambda>i. (i, 0)) (qkeys (ce_friends c)))
      in self @ (if gfq_max q > 0 then take (unat (gfq_max q) - length self) friends else friends))"

definition CmdGetScoreFriends ::
  "(qstring \<times> GetScoreFriendsRequest) option \<Rightarrow> u64 \<Rightarrow> ClientInfo \<Rightarrow> SharedState \<Rightarrow> score_server
    \<Rightarrow> ErrorType \<times> GetScoreResponse option" where
  "CmdGetScoreFriends req now info sh st =
     (case req of None \<Rightarrow> (Malformed, None)
      | Some (cid, q) \<Rightarrow>
          (NoError, Some (GetScoreByIds cid (gfq_boardid q) (friendIds q info sh) (gfq_withcomment q)
             (gfq_withgameinfo q) now (sv_cache st))))"

definition CmdGetScoreNpid ::
  "score_faults \<Rightarrow> (qstring \<times> GetScoreNpIdRequest) option \<Rightarrow> u64 \<Rightarrow> Database \<Rightarrow> score_server
    \<Rightarrow> ErrorType \<times> GetScoreResponse option" where
  "CmdGetScoreNpid fx req now db st =
     (case req of None \<Rightarrow> (Malformed, None)
      | Some (cid, q) \<Rightarrow>
          (let ids = map (\<lambda>(npid, pcid). (case GetUserId (sx_account fx) npid db of None \<Rightarrow> 0 | Some u \<Rightarrow> u, pcid)) (gnq_npids q)
           in (NoError, Some (GetScoreByIds cid (gnq_boardid q) ids (gnq_withcomment q) (gnq_withgameinfo q) now
                 (sv_cache st)))))"

definition CmdGetScoreAccountId ::
  "(qstring \<times> GetScoreAccountIdRequest) option \<Rightarrow> u64 \<Rightarrow> score_server \<Rightarrow> ErrorType \<times> GetScoreResponse option" where
  "CmdGetScoreAccountId req now st =
     (case req of None \<Rightarrow> (Malformed, None)
      | Some (cid, q) \<Rightarrow>
          (NoError, Some (GetScoreByIds cid (gaq_boardid q) (gaq_ids q) (gaq_withcomment q) (gaq_withgameinfo q) now
             (sv_cache st))))"

definition CmdGetScoreGameDataByAccId ::
  "score_faults \<Rightarrow> (qstring \<times> GetScoreGameDataByAccountIdRequest) option \<Rightarrow> score_server \<Rightarrow> ErrorType \<times> bytes option" where
  "CmdGetScoreGameDataByAccId fx req st =
     (case req of None \<Rightarrow> (Malformed, None)
      | Some (cid, q) \<Rightarrow>
          if gda_accountid q = 0 then (Malformed, None)
          else readData (sx_file fx) (GetGameDataId cid (gda_boardid q) (gda_accountid q) (gda_pcid q) (sv_cache st)) st)"

subsection \<open>Start-up\<close>

definition InitScoreSystem :: "(board_key \<times> ScoreBoardConfig) list \<Rightarrow> u64 \<Rightarrow> Database \<Rightarrow> score_server \<Rightarrow> score_server" where
  \<comment> \<open>the boards of \<open>scoreboards.cfg\<close> first; then a new cache, one table per board; then the
      files no row names are removed\<close>
  "InitScoreSystem defs now db st =
     (let files = files_Init (sv_files st);
          sd = fold (\<lambda>((c, b), cfg) sd. snd (SetBoard False c b cfg sd)) defs (sv_scores st);
          cache = fold (\<lambda>((c, b), cfg). LoadTable c b cfg (ScoresForBoard False db c b cfg sd) now) (sd_boards sd) []
      in \<lparr>sv_scores = sd, sv_cache = cache, sv_files = CleanOrphans (AllDataIds sd) files\<rparr>)"

subsection \<open>The machine\<close>

datatype score_event =
    ScRestart "(board_key \<times> ScoreBoardConfig) list" u64
  | ScBoards score_faults "(qstring \<times> u32) option"
  | ScRecord score_faults "(qstring \<times> RecordScoreRequest) option" u64 u64 ClientInfo
  | ScData score_faults "(qstring \<times> RecordScoreGameDataRequest \<times> bytes) option" ClientInfo

fun score_step :: "Database \<Rightarrow> score_server \<Rightarrow> score_event \<Rightarrow> score_server" where
  "score_step db st (ScRestart defs now) = InitScoreSystem defs now db st"
| "score_step db st (ScBoards fx req) = snd (CmdGetBoardInfos fx req st)"
| "score_step db st (ScRecord fx req now now' info) = snd (CmdRecordScore fx req now now' info st)"
| "score_step db st (ScData fx req info) = snd (CmdRecordScoreData fx req info st)"

definition score_start :: score_server where
  "score_start = \<lparr>sv_scores = \<lparr>sd_boards = [], sd_scores = []\<rparr>, sv_cache = [],
     sv_files = \<lparr>sf_next = 1, sf_files = []\<rparr>\<rparr>"

fun fitting :: "score_event \<Rightarrow> bool" where
  \<comment> \<open>configured rank limits are in the range of \<open>int\<close>\<close>
  "fitting (ScRestart defs now) = list_all (\<lambda>(k, cfg). fits_int cfg) defs"
| "fitting e = True"

subsection \<open>Tables of the cache\<close>

lemma findTable_set:
  "findTable (setTable c b t cache) c' b' = (if (c', b') = (c, b) then Some t else findTable cache c' b')"
  by (auto simp: findTable_def setTable_def qfind_qinsert split: option.split)

definition scores_ok :: "ScoreDb \<Rightarrow> bool" where
  "scores_ok sd \<longleftrightarrow> qdistinct (sd_boards sd) \<and> qdistinct (sd_scores sd) \<and>
     list_all fits_int (qvalues (sd_boards sd)) \<and>
     (\<forall>(c, b, u, ch) \<in> set (qkeys (sd_scores sd)). (c, b) \<in> set (qkeys (sd_boards sd)))"

definition caches_ok :: "score_server \<Rightarrow> bool" where
  [inv_defs]: "caches_ok st \<longleftrightarrow> scores_ok (sv_scores st) \<and>
     (\<forall>c b t. findTable (sv_cache st) c b = Some t \<longrightarrow>
        table_ok t \<and> qfind (sd_boards (sv_scores st)) (c, b) = Some (tc_config t))"

lemma scores_okD:
  assumes "scores_ok sd"
  shows "qdistinct (sd_boards sd)" "qdistinct (sd_scores sd)"
    and "qfind (sd_boards sd) k = Some cfg \<Longrightarrow> fits_int cfg"
    and "((c, b, u, ch), r) \<in> set (sd_scores sd) \<Longrightarrow> qfind (sd_boards sd) (c, b) \<noteq> None"
  using assms by (auto simp: scores_ok_def list_all_iff map_of_eq_None_iff dest: map_of_SomeD) (force dest: map_of_SomeD)+

lemma fits_default: "fits_int ScoreBoardConfig_default"
  by (simp add: fits_int_def ScoreBoardConfig_default_def)

lemma scores_ok_board:
  assumes "scores_ok sd" and "fits_int cfg"
  shows "scores_ok (sd\<lparr>sd_boards := qinsert k cfg (sd_boards sd)\<rparr>)"
proof -
  have "list_all fits_int (qvalues (qinsert k cfg (sd_boards sd)))"
    using assms by (auto simp: scores_ok_def list_all_iff set_qinsert)
  moreover have "\<forall>(c, b, u, ch) \<in> set (qkeys (sd_scores sd)). (c, b) \<in> set (qkeys (qinsert k cfg (sd_boards sd)))"
    using assms(1) unfolding qkeys_qinsert scores_ok_def by blast
  ultimately show ?thesis using assms(1) by (simp add: scores_ok_def)
qed

lemma GetBoard_ok:
  assumes "scores_ok sd" and "GetBoard f c b m sd = (r, sd')"
  shows "scores_ok sd'" and "sd_scores sd' = sd_scores sd"
    and "r = Some cfg \<Longrightarrow> qfind (sd_boards sd') (c, b) = Some cfg"
    and "qfind (sd_boards sd) k = Some cfg \<Longrightarrow> qfind (sd_boards sd') k = Some cfg"
    and "qfind (sd_boards sd') k = Some cfg \<Longrightarrow> qfind (sd_boards sd) k = Some cfg \<or>
      (qfind (sd_boards sd) k = None \<and> k = (c, b))"
proof -
  have c: "sd' = sd \<or> sd' = sd\<lparr>sd_boards := qinsert (c, b) ScoreBoardConfig_default (sd_boards sd)\<rparr> \<and>
      qfind (sd_boards sd) (c, b) = None"
    using assms(2) by (auto simp: GetBoard_def CreateBoard_def SetBoard_def Let_def split: option.splits if_splits)
  then show "sd_scores sd' = sd_scores sd" by auto
  show "scores_ok sd'"
    using c scores_ok_board [OF assms(1) fits_default] assms(1) by auto
  show "r = Some cfg \<Longrightarrow> qfind (sd_boards sd') (c, b) = Some cfg"
    using assms(2) by (auto simp: GetBoard_def CreateBoard_def SetBoard_def Let_def qfind_qinsert split: option.splits if_splits)
  show "qfind (sd_boards sd) k = Some cfg \<Longrightarrow> qfind (sd_boards sd') k = Some cfg"
    using c by (auto simp: qfind_qinsert)
  show "qfind (sd_boards sd') k = Some cfg \<Longrightarrow> qfind (sd_boards sd) k = Some cfg \<or>
      (qfind (sd_boards sd) k = None \<and> k = (c, b))"
    using c by (auto simp: qfind_qinsert split: if_splits)
qed

lemma scores_ok_write:
  "scores_ok sd \<Longrightarrow> qfind (sd_boards sd) (c, b) \<noteq> None \<Longrightarrow>
    scores_ok (sd\<lparr>sd_scores := qinsert (c, b, u, ch) r (sd_scores sd)\<rparr>)"
  by (auto simp: scores_ok_def qkeys_qinsert [simplified] map_of_eq_None_iff)

lemma new_table_ok: "table_ok \<lparr>tc_sorted = [], tc_lookup = [], tc_config = cfg, tc_lastInsert = n\<rparr>"
  by (simp add: table_ok_def exact_def lookupAt_Nil)

lemma GetOrCreate_ok:
  assumes "caches_ok st" and "qfind (sd_boards (sv_scores st)) (c, b) = Some cfg"
  shows "table_ok (GetOrCreate c b cfg (sv_cache st))" and "tc_config (GetOrCreate c b cfg (sv_cache st)) = cfg"
  using assms by (auto simp: GetOrCreate_def caches_ok_def new_table_ok split: option.split)

lemma caches_ok_mono:
  assumes "caches_ok st" and "scores_ok sd"
    and "\<And>k cfg. qfind (sd_boards (sv_scores st)) k = Some cfg \<Longrightarrow> qfind (sd_boards sd) k = Some cfg"
  shows "caches_ok (st\<lparr>sv_scores := sd\<rparr>)"
  using assms unfolding caches_ok_def by auto

lemma caches_ok_set:
  assumes "caches_ok st" and "table_ok t" and "qfind (sd_boards (sv_scores st)) (c, b) = Some (tc_config t)"
  shows "caches_ok (st\<lparr>sv_cache := setTable c b t (sv_cache st)\<rparr>)"
  using assms by (auto simp: caches_ok_def findTable_set)

lemma caches_ok_files: "caches_ok (st\<lparr>sv_files := f\<rparr>) = caches_ok st"
  by (simp add: caches_ok_def)

lemma record_result:
  assumes "CmdRecordScore fx (Some (cid, q)) now now' info st = (r, st')" and "caches_ok st"
  obtains (board) sd where "st' = st\<lparr>sv_scores := sd\<rparr>" "GetBoard (sx_board fx) cid (rsq_boardid q) True (sv_scores st) = (None, sd)"
  | (refused) cfg sd where "GetBoard (sx_board fx) cid (rsq_boardid q) True (sv_scores st) = (Some cfg, sd)"
      "st' = st\<lparr>sv_scores := sd\<rparr>"
  | (stored) cfg sd sd' t where "GetBoard (sx_board fx) cid (rsq_boardid q) True (sv_scores st) = (Some cfg, sd)"
      "RecordScore (sx_record fx) cid (rsq_boardid q) cfg (scoreEntry info q now) sd = (None, sd')"
      "t = snd (insertTable cfg (scoreEntry info q now) now' (GetOrCreate cid (rsq_boardid q) cfg (sv_cache st)))"
      "st' = st\<lparr>sv_scores := sd', sv_cache := setTable cid (rsq_boardid q) t (sv_cache st)\<rparr>"
proof -
  obtain c sd where g: "GetBoard (sx_board fx) cid (rsq_boardid q) True (sv_scores st) = (c, sd)"
    by (cases "GetBoard (sx_board fx) cid (rsq_boardid q) True (sv_scores st)")
  show thesis
  proof (cases c)
    case None
    with g assms(1) show thesis by (intro board) (auto simp: CmdRecordScore_def)
  next
    case (Some cfg)
    obtain e sd' where rs: "RecordScore (sx_record fx) cid (rsq_boardid q) cfg (scoreEntry info q now) sd = (e, sd')"
      by (cases "RecordScore (sx_record fx) cid (rsq_boardid q) cfg (scoreEntry info q now) sd")
    show thesis
    proof (cases e)
      case e: (Some x)
      then have "sd' = sd" using rs by (auto simp: RecordScore_def Let_def split: if_splits option.splits)
      with e Some g rs assms(1) refused show thesis by (auto simp: CmdRecordScore_def Let_def)
    next
      case None
      with Some g rs assms(1) stored show thesis by (simp add: CmdRecordScore_def Let_def InsertScore_def case_prod_unfold)
    qed
  qed
qed

lemma RecordScore_effect:
  assumes "RecordScore f c b cfg e sd = (None, sd')"
  shows "sd' = sd\<lparr>sd_scores := qinsert (c, b, se_userId e, se_characterId e)
    \<lparr>sr_score = se_score e, sr_comment = se_comment e, sr_gameInfo = se_gameInfo e, sr_dataId = None,
     sr_timestamp = se_timestamp e\<rparr> (sd_scores sd)\<rparr>"
  using assms by (auto simp: RecordScore_def Let_def split: if_splits)

lemma record_caches_ok:
  assumes ok: "caches_ok st"
  shows "caches_ok (snd (CmdRecordScore fx req now now' info st))"
proof (cases req)
  case None
  with ok show ?thesis by (simp add: CmdRecordScore_def)
next
  case (Some p)
  then obtain cid q where req: "req = Some (cid, q)" by (cases p) auto
  let ?b = "rsq_boardid q"
  obtain r st' where r: "CmdRecordScore fx (Some (cid, q)) now now' info st = (r, st')"
    by (cases "CmdRecordScore fx (Some (cid, q)) now now' info st")
  have sok: "scores_ok (sv_scores st)" using ok by (simp add: caches_ok_def)
  from r ok have "caches_ok st'"
  proof (cases rule: record_result)
    case (board sd)
    with GetBoard_ok [OF sok board(2)] ok show ?thesis by (auto intro: caches_ok_mono)
  next
    case (refused cfg sd)
    with GetBoard_ok [OF sok refused(1)] ok show ?thesis by (auto intro: caches_ok_mono)
  next
    case (stored cfg sd sd' t)
    note g = GetBoard_ok [OF sok stored(1)]
    have cfg: "qfind (sd_boards sd) (cid, ?b) = Some cfg" by (rule g(3)) simp
    have b: "sd_boards sd' = sd_boards sd" and sok': "scores_ok sd'"
      using RecordScore_effect [OF stored(2)] scores_ok_write [OF g(1), of cid ?b] cfg by auto
    have ok1: "caches_ok (st\<lparr>sv_scores := sd'\<rparr>)"
      using ok sok' g(4) by (intro caches_ok_mono) (simp_all add: b)
    have t0: "table_ok (GetOrCreate cid ?b cfg (sv_cache st))" "tc_config (GetOrCreate cid ?b cfg (sv_cache st)) = cfg"
      using GetOrCreate_ok [OF ok1, of cid ?b cfg] cfg by (simp_all add: b)
    have "fits_int cfg" using scores_okD(3) [OF g(1) cfg] .
    then have "table_ok t" "tc_config t = cfg"
      using insertTable_ok(1,2) [OF t0(1) t0(2) [symmetric]] t0(2) stored(3) by simp_all
    with caches_ok_set [OF ok1, of t cid ?b] cfg b show ?thesis by (simp add: stored(4))
  qed
  with r req show ?thesis by simp
qed

lemma set_data_table:
  assumes "table_ok t" and "lookupAt (tc_lookup t) u c = Some i"
  shows "table_ok (t\<lparr>tc_sorted := (tc_sorted t)[i := (tc_sorted t ! i)\<lparr>se_dataId := Some d\<rparr>]\<rparr>)"
    and "(tc_sorted t)[i := (tc_sorted t ! i)\<lparr>se_dataId := Some d\<rparr>] =
      map (\<lambda>x. if slot x = (u, c) then x\<lparr>se_dataId := Some d\<rparr> else x) (tc_sorted t)"
proof -
  let ?es = "tc_sorted t" and ?f = "\<lambda>x. if slot x = (u, c) then x\<lparr>se_dataId := Some d\<rparr> else x"
  have i: "i < length ?es" "slot (?es ! i) = (u, c)"
    using assms by (auto simp: table_ok_def exact_def)
  have d: "distinct (map slot ?es)" using assms(1) by (simp add: table_ok_def)
  have one: "slot (?es ! j) = (u, c) \<longleftrightarrow> j = i" if "j < length ?es" for j
    using d i that by (metis distinct_conv_nth length_map nth_map)
  show eq: "?es[i := (?es ! i)\<lparr>se_dataId := Some d\<rparr>] = map ?f ?es"
    using i one by (intro nth_equalityI) (auto simp: nth_list_update)
  have s: "slot (?f x) = slot x" "table_key t (?f x) = table_key t x" for x
    by (simp_all add: slot_def rank_key_def)
  have m: "map slot (map ?f ?es) = map slot ?es" "map (table_key t) (map ?f ?es) = map (table_key t) ?es"
    using s by (simp_all only: map_map comp_def)
  have "(k < length (map ?f ?es) \<and> slot (map ?f ?es ! k) = p) = (k < length ?es \<and> slot (?es ! k) = p)" for k p
    by (simp only: length_map nth_map s cong: conj_cong)
  then have "exact (tc_lookup t) (map ?f ?es) = exact (tc_lookup t) ?es" unfolding exact_def by (simp only:)
  with assms(1) m show "table_ok (t\<lparr>tc_sorted := ?es[i := (?es ! i)\<lparr>se_dataId := Some d\<rparr>]\<rparr>)"
    unfolding table_ok_def eq by (simp del: map_map)
qed

lemma data_result:
  assumes "CmdRecordScoreData fx (Some (cid, q, raw)) info st = (e, st')"
  obtains (same) f where "st' = st\<lparr>sv_files := f\<rparr>" "e \<noteq> NoError"
  | (stored) t i fileId files where "findTable (sv_cache st) cid (rgd_boardid q) = Some t"
      "lookupAt (tc_lookup t) (ci_userId info) (rgd_pcid q) = Some i" "se_score (tc_sorted t ! i) = rgd_score q"
      "files_Create (sx_file fx) raw (sv_files st) = (fileId, files)" "fileId \<noteq> 0" "e = NoError"
      "st' = st\<lparr>sv_files := files,
         sv_cache := setTable cid (rgd_boardid q)
           (t\<lparr>tc_sorted := (tc_sorted t)[i := (tc_sorted t ! i)\<lparr>se_dataId := Some fileId\<rparr>]\<rparr>) (sv_cache st),
         sv_scores := snd (SetScoreDataId (sx_data fx) cid (rgd_boardid q) (ci_userId info) (rgd_pcid q)
                        (rgd_score q) fileId (sv_scores st))\<rparr>"
proof (cases "ContainsScoreWithNoData cid (rgd_boardid q) (ci_userId info) (rgd_pcid q) (rgd_score q) (sv_cache st)")
  case (Some x)
  with assms show thesis
    by (intro same [of "sv_files st"]) (cases x; simp add: CmdRecordScoreData_def)+
next
  case None
  then obtain t i where t: "findTable (sv_cache st) cid (rgd_boardid q) = Some t"
      "lookupAt (tc_lookup t) (ci_userId info) (rgd_pcid q) = Some i" "se_score (tc_sorted t ! i) = rgd_score q"
    by (auto simp: ContainsScoreWithNoData_def Let_def split: option.splits if_splits)
  obtain fileId files where f: "files_Create (sx_file fx) raw (sv_files st) = (fileId, files)"
    by (cases "files_Create (sx_file fx) raw (sv_files st)")
  show thesis
  proof (cases "fileId = 0")
    case True
    with None f assms show thesis by (intro same [of files]) (auto simp: CmdRecordScoreData_def)
  next
    case False
    with None f t assms show thesis
      by (intro stored [OF t f False]) (auto simp: CmdRecordScoreData_def SetGameData_def case_prod_unfold Let_def)
  qed
qed

lemma scores_ok_data:
  "scores_ok sd \<Longrightarrow> scores_ok (snd (SetScoreDataId f c b u ch s d sd))"
  by (auto simp: SetScoreDataId_def Let_def split: option.split intro!: scores_ok_write dest: scores_okD(4) map_of_SomeD)

lemma SetScoreDataId_boards [simp]: "sd_boards (snd (SetScoreDataId f c b u ch s d sd)) = sd_boards sd"
  by (simp add: SetScoreDataId_def Let_def split: option.split)

lemma data_caches_ok:
  assumes ok: "caches_ok st"
  shows "caches_ok (snd (CmdRecordScoreData fx req info st))"
proof (cases req)
  case None
  with ok show ?thesis by (simp add: CmdRecordScoreData_def)
next
  case (Some p)
  then obtain cid q raw where req: "req = Some (cid, q, raw)" by (cases p) auto
  obtain e st' where r: "CmdRecordScoreData fx (Some (cid, q, raw)) info st = (e, st')"
    by (cases "CmdRecordScoreData fx (Some (cid, q, raw)) info st")
  from r have "caches_ok st'"
  proof (cases rule: data_result)
    case (same f)
    with ok show ?thesis by (simp add: caches_ok_files)
  next
    case (stored t i fileId files)
    let ?t = "t\<lparr>tc_sorted := (tc_sorted t)[i := (tc_sorted t ! i)\<lparr>se_dataId := Some fileId\<rparr>]\<rparr>"
    let ?sd = "snd (SetScoreDataId (sx_data fx) cid (rgd_boardid q) (ci_userId info) (rgd_pcid q)
                        (rgd_score q) fileId (sv_scores st))"
    have t: "table_ok t" "qfind (sd_boards (sv_scores st)) (cid, rgd_boardid q) = Some (tc_config t)"
      using ok stored(1) by (auto simp: caches_ok_def)
    have "caches_ok (st\<lparr>sv_files := files, sv_cache := setTable cid (rgd_boardid q) ?t (sv_cache st)\<rparr>)"
      using caches_ok_set [of "st\<lparr>sv_files := files\<rparr>" ?t cid "rgd_boardid q"] ok set_data_table(1) [OF t(1) stored(2)] t(2)
      by (simp add: caches_ok_files)
    then show ?thesis
      unfolding stored(7) using ok scores_ok_data by (intro caches_ok_mono) (auto simp: caches_ok_def)
  qed
  with r req show ?thesis by simp
qed

subsection \<open>Start-up\<close>

lemma slot_entryOf [simp]: "slot (entryOf db ((c, b, u, ch), r)) = (u, ch)"
  by (simp add: slot_def entryOf_def)

lemma boardEntries_slots:
  assumes "qdistinct (sd_scores sd)"
  shows "distinct (map slot (boardEntries db c b sd))"
proof -
  let ?rows = "filter (\<lambda>((c', b', _), _). c' = c \<and> b' = b) (sd_scores sd)"
  have "distinct (sd_scores sd)" using assms by (simp add: qdistinct_def distinct_map)
  moreover have "inj_on (slot \<circ> entryOf db) (set ?rows)"
  proof (rule inj_onI)
    fix x y assume xy: "x \<in> set ?rows" "y \<in> set ?rows" and e: "(slot \<circ> entryOf db) x = (slot \<circ> entryOf db) y"
    obtain c1 b1 u1 ch1 r1 c2 b2 u2 ch2 r2 where v: "x = ((c1, b1, u1, ch1), r1)" "y = ((c2, b2, u2, ch2), r2)"
      by (cases x; cases y) auto
    have "(u1, ch1) = (u2, ch2)" using e by (simp add: v)
    with xy v have "fst x = fst y" by simp
    then show "x = y" using xy assms by (auto simp: v qfind_in_set [symmetric])
  qed
  ultimately have "distinct (map (slot \<circ> entryOf db) ?rows)" by (simp add: distinct_map)
  then show ?thesis by (simp add: boardEntries_def)
qed

lemma loaded_table_ok:
  fixes f :: bool and db :: Database and c :: qstring and b :: u32 and cfg :: ScoreBoardConfig
  assumes "qdistinct (sd_scores sd)"
  defines "es \<equiv> ScoresForBoard f db c b cfg sd"
  shows "table_ok \<lparr>tc_sorted = es, tc_lookup = Reindex es 0 [], tc_config = cfg, tc_lastInsert = now\<rparr>"
proof (cases f)
  case True
  then show ?thesis by (simp add: es_def ScoresForBoard_def table_ok_def exact_all)
next
  case False
  let ?all = "sort_key (rank_key (sb_sortMode cfg)) (boardEntries db c b sd)"
  have es: "es = take (unat (sb_rankLimit cfg)) ?all" using False by (simp add: es_def ScoresForBoard_def)
  have "distinct (map slot ?all)" using boardEntries_slots [OF assms(1), of db c b]
    by (simp add: distinct_map)
  then have d: "distinct (map slot es)" unfolding es by (simp add: take_map [symmetric])
  have "sorted (map (rank_key (sb_sortMode cfg)) es)"
    unfolding es by (simp add: take_map [symmetric] sorted_wrt_take)
  with d exact_all [OF d] show ?thesis by (simp add: table_ok_def es)
qed

lemma findTable_Load:
  "findTable (LoadTable c b cfg es now cache) c' b' =
    (if (c', b') = (c, b) then Some \<lparr>tc_sorted = es, tc_lookup = Reindex es 0 [], tc_config = cfg, tc_lastInsert = now\<rparr>
     else findTable cache c' b')"
  by (simp add: LoadTable_def findTable_set)

lemma loaded_cache:
  assumes "qdistinct boards"
  shows "findTable (fold (\<lambda>((c, b), cfg). LoadTable c b cfg (F c b cfg) now) boards cache) c b =
    (case qfind boards (c, b) of
       Some cfg \<Rightarrow> Some \<lparr>tc_sorted = F c b cfg, tc_lookup = Reindex (F c b cfg) 0 [], tc_config = cfg, tc_lastInsert = now\<rparr>
     | None \<Rightarrow> findTable cache c b)"
  using assms
proof (induction boards arbitrary: cache)
  case (Cons p boards)
  obtain c1 b1 cfg1 where p: "p = ((c1, b1), cfg1)" by (cases p) auto
  from Cons.prems p have d: "qdistinct boards" and n: "(c1, b1) \<notin> fst ` set boards" by (auto simp: qdistinct_def)
  show ?case
    using Cons.IH [OF d, of "LoadTable c1 b1 cfg1 (F c1 b1 cfg1) now cache"] n p
    by (auto simp: findTable_Load map_of_eq_None_iff [THEN iffD2] split: option.split)
qed simp

lemma fold_SetBoard_ok:
  assumes "scores_ok sd" and "list_all (\<lambda>(k, cfg). fits_int cfg) defs"
  defines "sd' \<equiv> fold (\<lambda>((c, b), cfg) sd. snd (SetBoard False c b cfg sd)) defs sd"
  shows "scores_ok sd'" and "sd_scores sd' = sd_scores sd"
proof -
  have "scores_ok (fold (\<lambda>((c, b), cfg) sd. snd (SetBoard False c b cfg sd)) defs sd) \<and>
      sd_scores (fold (\<lambda>((c, b), cfg) sd. snd (SetBoard False c b cfg sd)) defs sd) = sd_scores sd"
    using assms(1,2)
    by (induction defs arbitrary: sd) (auto simp: SetBoard_def scores_ok_board)
  then show "scores_ok sd'" "sd_scores sd' = sd_scores sd" by (simp_all add: sd'_def)
qed

lemma init_table:
  fixes db :: Database and now :: u64
  assumes "scores_ok (sv_scores st)" and "list_all (\<lambda>(k, cfg). fits_int cfg) defs"
  defines "st' \<equiv> InitScoreSystem defs now db st"
  shows "scores_ok (sv_scores st')" and "sd_scores (sv_scores st') = sd_scores (sv_scores st)"
    and "findTable (sv_cache st') c b = (case qfind (sd_boards (sv_scores st')) (c, b) of
        Some cfg \<Rightarrow> (let es = ScoresForBoard False db c b cfg (sv_scores st')
                      in Some \<lparr>tc_sorted = es, tc_lookup = Reindex es 0 [], tc_config = cfg, tc_lastInsert = now\<rparr>)
      | None \<Rightarrow> None)"
proof -
  show "scores_ok (sv_scores st')" and s: "sd_scores (sv_scores st') = sd_scores (sv_scores st)"
    using fold_SetBoard_ok [OF assms(1,2)] by (simp_all add: st'_def InitScoreSystem_def Let_def)
  then have "qdistinct (sd_boards (sv_scores st'))" by (intro scores_okD(1))
  note l = loaded_cache [OF this, of "\<lambda>c b cfg. ScoresForBoard False db c b cfg (sv_scores st')" now "[]" c b]
  have "sv_cache st' = fold (\<lambda>((c, b), cfg). LoadTable c b cfg (ScoresForBoard False db c b cfg (sv_scores st')) now)
      (sd_boards (sv_scores st')) []"
    by (simp add: st'_def InitScoreSystem_def Let_def)
  then show "findTable (sv_cache st') c b = (case qfind (sd_boards (sv_scores st')) (c, b) of
        Some cfg \<Rightarrow> (let es = ScoresForBoard False db c b cfg (sv_scores st')
                      in Some \<lparr>tc_sorted = es, tc_lookup = Reindex es 0 [], tc_config = cfg, tc_lastInsert = now\<rparr>)
      | None \<Rightarrow> None)"
    using l by (cases "qfind (sd_boards (sv_scores st')) (c, b)") (simp_all add: Let_def findTable_def)
qed

lemma init_caches_ok:
  assumes "caches_ok st" and "list_all (\<lambda>(k, cfg). fits_int cfg) defs"
  shows "caches_ok (InitScoreSystem defs now db st)"
proof -
  have sok: "scores_ok (sv_scores st)" using assms(1) by (simp add: caches_ok_def)
  note i = init_table [OF sok assms(2)]
  have "qdistinct (sd_scores (sv_scores (InitScoreSystem defs now db st)))" using i(1) by (rule scores_okD)
  then show ?thesis
    using i(1) by (auto simp: caches_ok_def i(3) Let_def loaded_table_ok split: option.splits)
qed

lemma caches_ok_step:
  assumes "caches_ok st" and "fitting e"
  shows "caches_ok (score_step db st e)"
proof (cases e)
  case (ScBoards fx req)
  have "scores_ok (sv_scores st)" using assms(1) by (simp add: caches_ok_def)
  then show ?thesis
    using assms(1) GetBoard_ok [of "sv_scores st"] ScBoards
    by (cases req; cases "GetBoard (sx_board fx) (fst (the req)) (snd (the req)) True (sv_scores st)")
      (auto simp: CmdGetBoardInfos_def split: option.split intro!: caches_ok_mono)
qed (use assms in \<open>auto simp: init_caches_ok record_caches_ok data_caches_ok\<close>)

interpretation scores: invariant_machine "score_step db" fitting caches_ok for db
  by unfold_locales (rule caches_ok_step)

lemma caches_ok_start: "caches_ok score_start"
  by (simp add: caches_ok_def score_start_def scores_ok_def findTable_def)

subsection \<open>The cache holds the best scores\<close>

definition improving :: "qstring \<Rightarrow> RecordScoreRequest \<Rightarrow> ClientInfo \<Rightarrow> ScoreDb \<Rightarrow> bool" where
  \<comment> \<open>not the score the user has already, and where any score is taken, not a worse one\<close>
  "improving cid q info sd \<longleftrightarrow>
     (let cfg = qvalue (sd_boards sd) (cid, rsq_boardid q) ScoreBoardConfig_default in
      case qfind (sd_scores sd) (cid, rsq_boardid q, ci_userId info, rsq_pcid q) of
        None \<Rightarrow> True
      | Some old \<Rightarrow> rsq_score q \<noteq> sr_score old \<and>
          (sb_updateMode cfg = 0 \<or> (rsq_score q > sr_score old \<longleftrightarrow> sb_sortMode cfg = 0)))"

definition newTime :: "qstring \<Rightarrow> u32 \<Rightarrow> u64 \<Rightarrow> ScoreDb \<Rightarrow> bool" where
  "newTime c b now sd \<longleftrightarrow> (\<forall>((c', b', _), r) \<in> set (sd_scores sd). c' = c \<and> b' = b \<longrightarrow> sr_timestamp r \<noteq> now)"

fun good_event :: "Database \<Rightarrow> score_server \<Rightarrow> score_event \<Rightarrow> bool" where
  "good_event db st (ScRecord fx (Some (cid, q)) now now' info) \<longleftrightarrow>
     GetUsername False (ci_userId info) db = Some (ci_npid info) \<and>
     newTime cid (rsq_boardid q) now (sv_scores st) \<and> improving cid q info (sv_scores st)"
| "good_event db st (ScData fx req info) \<longleftrightarrow> \<not> sx_data fx"
| "good_event db st e \<longleftrightarrow> fitting e"

inductive score_run :: "Database \<Rightarrow> score_server \<Rightarrow> bool" for db where
  score_run_start: "score_run db score_start"
| score_run_step: "score_run db st \<Longrightarrow> good_event db st e \<Longrightarrow> score_run db (score_step db st e)"

definition times_ok :: "ScoreDb \<Rightarrow> bool" where
  "times_ok sd \<longleftrightarrow> (\<forall>((c, b, s), r) \<in> set (sd_scores sd). \<forall>((c', b', s'), r') \<in> set (sd_scores sd).
     c' = c \<and> b' = b \<and> sr_timestamp r' = sr_timestamp r \<longrightarrow> s' = s)"

definition holds_best :: "Database \<Rightarrow> score_server \<Rightarrow> bool" where
  [inv_defs]: "holds_best db st \<longleftrightarrow> caches_ok st \<and> times_ok (sv_scores st) \<and>
     (\<forall>c b cfg. qfind (sd_boards (sv_scores st)) (c, b) = Some cfg \<longrightarrow>
        tc_sorted (GetOrCreate c b cfg (sv_cache st)) = ScoresForBoard False db c b cfg (sv_scores st))"

lemma good_fitting: "good_event db st e \<Longrightarrow> fitting e"
  by (induction db st e rule: good_event.induct) auto

lemma boardEntries_cong: "sd_scores sd' = sd_scores sd \<Longrightarrow> boardEntries db c b sd' = boardEntries db c b sd"
  by (simp add: boardEntries_def)

lemma ScoresForBoard_cong: "sd_scores sd' = sd_scores sd \<Longrightarrow> ScoresForBoard f db c b cfg sd' = ScoresForBoard f db c b cfg sd"
  by (simp add: ScoresForBoard_def boardEntries_cong [of sd' sd])

lemma no_board_no_entries:
  assumes "scores_ok sd" and "qfind (sd_boards sd) (c, b) = None"
  shows "boardEntries db c b sd = []"
  using assms(2) by (auto simp: boardEntries_def filter_empty_conv dest!: scores_okD(4) [OF assms(1)])

lemma holds_best_board:
  assumes h: "holds_best db st" and g: "GetBoard f c b m (sv_scores st) = (r, sd)"
  shows "holds_best db (st\<lparr>sv_scores := sd\<rparr>)"
proof -
  have ok: "caches_ok st" and sok: "scores_ok (sv_scores st)" using h by (simp_all add: holds_best_def caches_ok_def)
  note gb = GetBoard_ok [OF sok g]
  have ok': "caches_ok (st\<lparr>sv_scores := sd\<rparr>)" using ok gb by (intro caches_ok_mono)
  have "tc_sorted (GetOrCreate c' b' cfg (sv_cache st)) = ScoresForBoard False db c' b' cfg sd"
    if cfg: "qfind (sd_boards sd) (c', b') = Some cfg" for c' b' cfg
  proof (cases "qfind (sd_boards (sv_scores st)) (c', b') = Some cfg")
    case True
    with h show ?thesis by (simp add: holds_best_def ScoresForBoard_cong [OF gb(2)])
  next
    case False
    with gb(5) [OF cfg] have none: "qfind (sd_boards (sv_scores st)) (c', b') = None" by blast
    then have "findTable (sv_cache st) c' b' = None"
      using ok by (cases "findTable (sv_cache st) c' b'") (auto simp: caches_ok_def)
    then have "tc_sorted (GetOrCreate c' b' cfg (sv_cache st)) = []" by (simp add: GetOrCreate_def)
    moreover have "ScoresForBoard False db c' b' cfg sd = []"
      using no_board_no_entries [OF sok none] by (simp add: ScoresForBoard_def boardEntries_cong [OF gb(2)])
    ultimately show ?thesis by simp
  qed
  then show ?thesis
    using h ok' by (simp add: holds_best_def times_ok_def gb(2))
qed

lemma filter_qinsert_other:
  "(\<And>v. \<not> P (k, v)) \<Longrightarrow> filter P (qinsert k v h) = filter P h"
  by (induction h) auto

lemma boardEntries_other:
  "(c', b') \<noteq> (c, b) \<Longrightarrow> boardEntries db c' b' (sd\<lparr>sd_scores := qinsert (c, b, s) r (sd_scores sd)\<rparr>) = boardEntries db c' b' sd"
  by (simp add: boardEntries_def filter_qinsert_other split: prod.split) (subst filter_qinsert_other; auto split: prod.split)

lemma boardEntries_mem:
  "x \<in> set (boardEntries db c b sd) \<longleftrightarrow> (\<exists>u ch r. ((c, b, u, ch), r) \<in> set (sd_scores sd) \<and> x = entryOf db ((c, b, u, ch), r))"
  by (auto simp: boardEntries_def image_iff)

lemma entryOf_sel [simp]:
  "se_timestamp (entryOf db (k, r)) = sr_timestamp r" "se_score (entryOf db (k, r)) = sr_score r"
  by (auto simp: entryOf_def split: prod.split)


lemma entries_keys_inj:
  assumes ok: "scores_ok sd" and tm: "times_ok sd" and new: "newTime c b (se_timestamp e) sd"
  shows "inj_on (rank_key mode) (insert e (set (boardEntries db c b sd)))"
proof -
  have other: "se_timestamp x \<noteq> se_timestamp e" if "x \<in> set (boardEntries db c b sd)" for x
    using that new by (auto simp: boardEntries_mem newTime_def)
  have same: "x = y" if x: "x \<in> set (boardEntries db c b sd)" and y: "y \<in> set (boardEntries db c b sd)"
      and t: "se_timestamp x = se_timestamp y" for x y
  proof -
    obtain u ch r where vx: "((c, b, u, ch), r) \<in> set (sd_scores sd)" "x = entryOf db ((c, b, u, ch), r)"
      using x unfolding boardEntries_mem by blast
    obtain u' ch' r' where vy: "((c, b, u', ch'), r') \<in> set (sd_scores sd)" "y = entryOf db ((c, b, u', ch'), r')"
      using y unfolding boardEntries_mem by blast
    have "sr_timestamp r = sr_timestamp r'" using t vx vy by simp
    with vx vy tm have "(u, ch) = (u', ch')" by (fastforce simp: times_ok_def)
    with vx vy scores_okD(2) [OF ok] show "x = y" by (auto simp: qfind_in_set [symmetric])
  qed
  show ?thesis
    using other same by (auto simp: inj_on_def rank_key_def) metis+
qed

lemma boardEntries_written:
  assumes ok: "scores_ok sd" and acc: "GetUsername False (ci_userId info) db = Some (ci_npid info)"
    and eq: "sd' = sd\<lparr>sd_scores := qinsert (c, b, ci_userId info, rsq_pcid q)
        \<lparr>sr_score = rsq_score q, sr_comment = rsq_comment q, sr_gameInfo = rsq_data q, sr_dataId = None,
         sr_timestamp = now\<rparr> (sd_scores sd)\<rparr>"
  shows "set (boardEntries db c b sd') = insert (scoreEntry info q now)
    {x \<in> set (boardEntries db c b sd). slot x \<noteq> slot (scoreEntry info q now)}"
proof -
  let ?r = "\<lparr>sr_score = rsq_score q, sr_comment = rsq_comment q, sr_gameInfo = rsq_data q, sr_dataId = None,
         sr_timestamp = now\<rparr>"
  have e: "entryOf db ((c, b, ci_userId info, rsq_pcid q), ?r) = scoreEntry info q now"
    using acc by (simp add: entryOf_def scoreEntry_def)
  have s: "slot (scoreEntry info q now) = (ci_userId info, rsq_pcid q)" by (simp add: slot_def scoreEntry_def)
  have m: "((c, b, u, ch), r) \<in> set (sd_scores sd') \<longleftrightarrow>
      (u, ch) = (ci_userId info, rsq_pcid q) \<and> r = ?r \<or>
      (u, ch) \<noteq> (ci_userId info, rsq_pcid q) \<and> ((c, b, u, ch), r) \<in> set (sd_scores sd)" for u ch r
    using scores_okD(2) [OF ok] by (auto simp: eq set_qinsert)
  show ?thesis
  proof (intro set_eqI iffI)
    fix x assume "x \<in> set (boardEntries db c b sd')"
    then obtain u ch r where "((c, b, u, ch), r) \<in> set (sd_scores sd')" "x = entryOf db ((c, b, u, ch), r)"
      unfolding boardEntries_mem by blast
    then show "x \<in> insert (scoreEntry info q now) {x \<in> set (boardEntries db c b sd). slot x \<noteq> slot (scoreEntry info q now)}"
      unfolding m using e s by (auto simp: boardEntries_mem)
  next
    fix x assume "x \<in> insert (scoreEntry info q now) {x \<in> set (boardEntries db c b sd). slot x \<noteq> slot (scoreEntry info q now)}"
    then show "x \<in> set (boardEntries db c b sd')"
    proof
      assume "x = scoreEntry info q now"
      then show ?thesis unfolding boardEntries_mem m using e by metis
    next
      assume "x \<in> {x \<in> set (boardEntries db c b sd). slot x \<noteq> slot (scoreEntry info q now)}"
      then show ?thesis unfolding boardEntries_mem m using s by auto blast+
    qed
  qed
qed

lemma times_ok_write:
  assumes "times_ok sd" and "scores_ok sd" and "newTime c b (sr_timestamp r) sd"
  shows "times_ok (sd\<lparr>sd_scores := qinsert (c, b, s) r (sd_scores sd)\<rparr>)"
proof -
  have t: "s' = s''" if "((c', b', s'), r') \<in> set (sd_scores sd)" "((c', b', s''), r'') \<in> set (sd_scores sd)"
      "sr_timestamp r' = sr_timestamp r''" for c' b' s' r' s'' r''
    using assms(1) that unfolding times_ok_def by fastforce
  have n: "sr_timestamp r' \<noteq> sr_timestamp r" if "((c, b, s'), r') \<in> set (sd_scores sd)" for s' r'
    using assms(3) that unfolding newTime_def by fastforce
  show ?thesis
    unfolding times_ok_def using scores_okD(2) [OF assms(2)] t n n [THEN not_sym]
    by (simp add: set_qinsert split_beta) blast
qed

lemma improving_key:
  assumes imp: "improving cid q info sd" and acc: "RecordScore f cid (rsq_boardid q) cfg (scoreEntry info q now) sd = (None, sd')"
    and cfg: "qfind (sd_boards sd) (cid, rsq_boardid q) = Some cfg"
    and x: "x \<in> set (boardEntries db cid (rsq_boardid q) sd)" "slot x = slot (scoreEntry info q now)" and ok: "scores_ok sd"
  shows "rank_key (sb_sortMode cfg) (scoreEntry info q now) < rank_key (sb_sortMode cfg) x"
proof -
  obtain u ch r where r: "((cid, rsq_boardid q, u, ch), r) \<in> set (sd_scores sd)" "x = entryOf db ((cid, rsq_boardid q, u, ch), r)"
    using x(1) unfolding boardEntries_mem by blast
  with x(2) have "u = ci_userId info" "ch = rsq_pcid q" by (simp_all add: slot_def scoreEntry_def entryOf_def)
  with r have old: "qfind (sd_scores sd) (cid, rsq_boardid q, ci_userId info, rsq_pcid q) = Some r"
    using scores_okD(2) [OF ok] by (simp add: qfind_in_set)
  have "rsq_score q \<noteq> sr_score r" "sb_updateMode cfg = 0 \<or> (rsq_score q > sr_score r \<longleftrightarrow> sb_sortMode cfg = 0)"
    using imp cfg by (simp_all add: improving_def old)
  moreover have "sb_updateMode cfg = 0 \<Longrightarrow> if sb_sortMode cfg = 0 then rsq_score q \<ge> sr_score r else rsq_score q \<le> sr_score r"
    using acc old by (auto simp: RecordScore_def Let_def scoreEntry_def split: if_splits)
  ultimately have "if sb_sortMode cfg = 0 then rsq_score q > sr_score r else rsq_score q < sr_score r"
    by (cases "sb_updateMode cfg = 0") auto
  then show ?thesis by (auto simp: rank_key_def r(2) scoreEntry_def less_prod_def split: if_splits)
qed

lemma record_holds_best:
  assumes h: "holds_best db st" and good: "good_event db st (ScRecord fx (Some (cid, q)) now now' info)"
    and r: "CmdRecordScore fx (Some (cid, q)) now now' info st = (r, st')"
  shows "holds_best db st'"
proof -
  have ok: "caches_ok st" and sok: "scores_ok (sv_scores st)" and tm: "times_ok (sv_scores st)"
    using h by (simp_all add: holds_best_def caches_ok_def)
  let ?b = "rsq_boardid q" and ?e = "scoreEntry info q now"
  from r ok show ?thesis
  proof (cases rule: record_result)
    case (board sd)
    with holds_best_board [OF h] show ?thesis by simp
  next
    case (refused cfg sd)
    with holds_best_board [OF h] show ?thesis by simp
  next
    case (stored cfg sd sd' t)
    note g = GetBoard_ok [OF sok stored(1)]
    have hb: "holds_best db (st\<lparr>sv_scores := sd\<rparr>)" by (rule holds_best_board [OF h stored(1)])
    have cfg: "qfind (sd_boards sd) (cid, ?b) = Some cfg" by (rule g(3)) simp
    have key: "sd' = sd\<lparr>sd_scores := qinsert (cid, ?b, ci_userId info, rsq_pcid q)
        \<lparr>sr_score = rsq_score q, sr_comment = rsq_comment q, sr_gameInfo = rsq_data q, sr_dataId = None,
         sr_timestamp = now\<rparr> (sd_scores sd)\<rparr>"
      using RecordScore_effect [OF stored(2)] by (simp add: scoreEntry_def)
    have new: "newTime cid ?b now sd" and imp: "improving cid q info sd"
    proof -
      show "newTime cid ?b now sd" using good by (simp add: newTime_def g(2))
      have "qvalue (sd_boards sd) (cid, ?b) ScoreBoardConfig_default =
          qvalue (sd_boards (sv_scores st)) (cid, ?b) ScoreBoardConfig_default"
        using stored(1) by (auto simp: GetBoard_def CreateBoard_def SetBoard_def Let_def qfind_qinsert
            split: option.splits if_splits)
      then show "improving cid q info sd" using good by (simp add: improving_def g(2))
    qed
    let ?t0 = "GetOrCreate cid ?b cfg (sv_cache st)"
    have t0: "table_ok ?t0" "tc_config ?t0 = cfg"
      using GetOrCreate_ok [of "st\<lparr>sv_scores := sd\<rparr>" cid ?b cfg] hb cfg by (simp_all add: holds_best_def)
    have fit: "fits_int cfg" using scores_okD(3) [OF g(1) cfg] .
    have items: "tc_sorted ?t0 = take (unat (sb_rankLimit cfg)) (sort_key (rank_key (sb_sortMode cfg)) (boardEntries db cid ?b sd))"
      using hb cfg by (simp add: holds_best_def ScoresForBoard_def)
    have sok': "scores_ok sd'" using scores_ok_write [OF g(1), of cid ?b] cfg by (simp add: key)
    have tms: "times_ok sd" using tm by (simp add: times_ok_def g(2))
    have top: "tc_sorted t = take (unat (sb_rankLimit cfg)) (sort_key (rank_key (sb_sortMode cfg)) (boardEntries db cid ?b sd'))"
      unfolding stored(3)
    proof (rule board.put_top)
      show "table_ok ?t0 \<and> tc_config ?t0 = cfg \<and> fits_int cfg" using t0 fit by simp
      show "inj_on (rank_key (sb_sortMode cfg)) (insert ?e (set (boardEntries db cid ?b sd)))"
        by (rule entries_keys_inj [OF g(1) tms]) (use new in \<open>simp add: scoreEntry_def\<close>)
      show "set (boardEntries db cid ?b sd') = insert ?e {x \<in> set (boardEntries db cid ?b sd). slot x \<noteq> slot ?e}"
        by (rule boardEntries_written [OF g(1) _ key]) (use good in simp)
      show "rank_key (sb_sortMode cfg) ?e < rank_key (sb_sortMode cfg) x"
        if "x \<in> set (boardEntries db cid ?b sd)" "slot x = slot ?e" for x
        by (rule improving_key [OF imp stored(2) cfg that g(1)])
    qed (use items boardEntries_slots [OF scores_okD(2) [OF g(1)]] boardEntries_slots [OF scores_okD(2) [OF sok']] in simp_all)
    have "tc_sorted (GetOrCreate c' b' cfg' (sv_cache st')) = ScoresForBoard False db c' b' cfg' (sv_scores st')"
      if c': "qfind (sd_boards (sv_scores st')) (c', b') = Some cfg'" for c' b' cfg'
    proof (cases "(c', b') = (cid, ?b)")
      case True
      with c' cfg have "cfg' = cfg" by (simp add: stored(4) key)
      with True top show ?thesis by (simp add: stored(4) GetOrCreate_def findTable_set ScoresForBoard_def)
    next
      case False
      then have "boardEntries db c' b' sd' = boardEntries db c' b' sd" unfolding key by (rule boardEntries_other)
      then have same: "ScoresForBoard False db c' b' cfg' sd' = ScoresForBoard False db c' b' cfg' sd"
        by (simp add: ScoresForBoard_def)
      have tab: "findTable (sv_cache st') c' b' = findTable (sv_cache st) c' b'"
        using False by (auto simp: stored(4) findTable_set)
      have "qfind (sd_boards sd) (c', b') = Some cfg'" using c' by (simp add: stored(4) key)
      then have "tc_sorted (GetOrCreate c' b' cfg' (sv_cache st)) = ScoresForBoard False db c' b' cfg' sd"
        using hb by (simp add: holds_best_def)
      then show ?thesis using same tab by (simp add: GetOrCreate_def stored(4))
    qed
    moreover have "caches_ok st'" using record_caches_ok [OF ok, of fx "Some (cid, q)" now now' info] r by simp
    moreover have "times_ok (sv_scores st')"
      using times_ok_write [OF tms g(1), of cid ?b] new by (simp add: stored(4) key)
    ultimately show ?thesis by (simp add: holds_best_def)
  qed
qed

lemma insort_key_map: "(\<And>x. key (f x) = key x) \<Longrightarrow> insort_key key (f x) (map f xs) = map f (insort_key key x xs)"
  by (induction xs) simp_all

lemma sort_key_map: "(\<And>x. key (f x) = key x) \<Longrightarrow> sort_key key (map f xs) = map f (sort_key key xs)"
  by (induction xs) (simp_all add: insort_key_map)

lemma qinsert_in_place:
  "qdistinct h \<Longrightarrow> k \<in> set (qkeys h) \<Longrightarrow> qinsert k v h = map (\<lambda>(k', v'). if k' = k then (k', v) else (k', v')) h"
proof (induction h)
  case (Cons p h)
  obtain k1 v1 where p: "p = (k1, v1)" by (cases p)
  from Cons.prems p have d: "qdistinct h" "k1 \<notin> fst ` set h" by (auto simp: qdistinct_def)
  show ?case
  proof (cases "k1 = k")
    case True
    with d have "map (\<lambda>(k', v'). if k' = k then (k', v) else (k', v')) h = h"
      by (intro map_idI) force
    with True p show ?thesis by simp
  next
    case False
    with Cons d p show ?thesis by auto
  qed
qed simp

definition withData :: "userid \<times> int \<Rightarrow> u64 \<Rightarrow> ScoreEntry \<Rightarrow> ScoreEntry" where
  "withData s d x = (if slot x = s then x\<lparr>se_dataId := Some d\<rparr> else x)"

lemma withData_keys [simp]: "slot (withData s d x) = slot x" "rank_key m (withData s d x) = rank_key m x"
  by (simp_all add: withData_def slot_def rank_key_def)

lemma boardEntries_data:
  assumes "scores_ok sd" and "qfind (sd_scores sd) (c, b, u, ch) = Some r"
  shows "boardEntries db c b (sd\<lparr>sd_scores := qinsert (c, b, u, ch) (r\<lparr>sr_dataId := Some d\<rparr>) (sd_scores sd)\<rparr>)
    = map (withData (u, ch) d) (boardEntries db c b sd)"
proof -
  have q: "qdistinct (sd_scores sd)" using assms(1) by (rule scores_okD)
  have "(c, b, u, ch) \<in> set (qkeys (sd_scores sd))" using map_of_SomeD [OF assms(2)] by (rule qkey_in)
  note p = qinsert_in_place [OF q this]
  have "map (entryOf db) (filter (\<lambda>((c', b', _), _). c' = c \<and> b' = b)
        (map (\<lambda>(k', v'). if k' = (c, b, u, ch) then (k', r\<lparr>sr_dataId := Some d\<rparr>) else (k', v')) h)) =
      map (withData (u, ch) d) (map (entryOf db) (filter (\<lambda>((c', b', _), _). c' = c \<and> b' = b) h))"
    if "\<And>v. ((c, b, u, ch), v) \<in> set h \<Longrightarrow> v = r" for h
    using that
  proof (induction h)
    case (Cons x h)
    obtain c1 b1 u1 ch1 v where x: "x = ((c1, b1, u1, ch1), v)" by (cases x) auto
    have v: "(c1, b1, u1, ch1) = (c, b, u, ch) \<Longrightarrow> v = r" using Cons.prems x by auto
    have ih: "map (entryOf db) (filter (\<lambda>((c', b', _), _). c' = c \<and> b' = b)
        (map (\<lambda>(k', v'). if k' = (c, b, u, ch) then (k', r\<lparr>sr_dataId := Some d\<rparr>) else (k', v')) h)) =
      map (withData (u, ch) d) (map (entryOf db) (filter (\<lambda>((c', b', _), _). c' = c \<and> b' = b) h))"
      using Cons.prems by (intro Cons.IH) auto
    have "entryOf db ((c, b, u, ch), r\<lparr>sr_dataId := Some d\<rparr>) = withData (u, ch) d (entryOf db ((c, b, u, ch), r))"
      by (simp add: withData_def) (simp add: entryOf_def)
    moreover have "(u1, ch1) \<noteq> (u, ch) \<Longrightarrow> withData (u, ch) d (entryOf db ((c, b, u1, ch1), v)) = entryOf db ((c, b, u1, ch1), v)"
      by (auto simp: withData_def)
    ultimately show ?case using ih v x by auto
  qed simp
  from this [of "sd_scores sd"] show ?thesis
    using assms(2) q by (simp add: boardEntries_def p qfind_in_set [symmetric])
qed

lemma data_holds_best:
  assumes h: "holds_best db st" and fx: "\<not> sx_data fx"
    and r: "CmdRecordScoreData fx (Some (cid, q, raw)) info st = (e, st')"
  shows "holds_best db st'"
proof -
  have ok: "caches_ok st" and sok: "scores_ok (sv_scores st)" using h by (simp_all add: holds_best_def caches_ok_def)
  have ok': "caches_ok st'" using data_caches_ok [OF ok, of fx "Some (cid, q, raw)" info] r by simp
  from r show ?thesis
  proof (cases rule: data_result)
    case (same f)
    with h show ?thesis by (simp add: holds_best_def caches_ok_files)
  next
    case (stored t i fileId files)
    let ?b = "rgd_boardid q" and ?s = "(ci_userId info, rgd_pcid q)" and ?sd = "sv_scores st"
    have t: "table_ok t" "qfind (sd_boards ?sd) (cid, ?b) = Some (tc_config t)"
      using ok stored(1) by (auto simp: caches_ok_def)
    have i: "i < length (tc_sorted t)" "slot (tc_sorted t ! i) = ?s" using t(1) stored(2) by (auto simp: table_ok_def exact_def)
    have es: "tc_sorted t = ScoresForBoard False db cid ?b (tc_config t) ?sd"
      using h t(2) stored(1) unfolding holds_best_def GetOrCreate_def by fastforce
    have "tc_sorted t ! i \<in> set (boardEntries db cid ?b ?sd)"
      using nth_mem [OF i(1)] unfolding es ScoresForBoard_def by (auto dest: in_set_takeD)
    then obtain u ch row where row: "((cid, ?b, u, ch), row) \<in> set (sd_scores ?sd)"
        "tc_sorted t ! i = entryOf db ((cid, ?b, u, ch), row)"
      unfolding boardEntries_mem by blast
    with i(2) have "(u, ch) = ?s" by simp
    with row have f: "qfind (sd_scores ?sd) (cid, ?b, ci_userId info, rgd_pcid q) = Some row"
      using scores_okD(2) [OF sok] by (simp add: qfind_in_set)
    have "sr_score row = rgd_score q" using stored(3) row(2) by simp
    with f fx have sd': "sv_scores st' = ?sd\<lparr>sd_scores := qinsert (cid, ?b, ci_userId info, rgd_pcid q)
        (row\<lparr>sr_dataId := Some fileId\<rparr>) (sd_scores ?sd)\<rparr>"
      by (simp add: stored(7) SetScoreDataId_def)
    have entries: "boardEntries db cid ?b (sv_scores st') = map (withData ?s fileId) (boardEntries db cid ?b ?sd)"
      unfolding sd' by (rule boardEntries_data [OF sok f])
    have tab: "(tc_sorted t)[i := (tc_sorted t ! i)\<lparr>se_dataId := Some fileId\<rparr>] = map (withData ?s fileId) (tc_sorted t)"
      using set_data_table(2) [OF t(1) stored(2), of fileId] by (simp add: withData_def [abs_def])
    have "tc_sorted (GetOrCreate c' b' cfg' (sv_cache st')) = ScoresForBoard False db c' b' cfg' (sv_scores st')"
      if c': "qfind (sd_boards (sv_scores st')) (c', b') = Some cfg'" for c' b' cfg'
    proof (cases "(c', b') = (cid, ?b)")
      case True
      with c' t(2) have "cfg' = tc_config t" by (simp add: sd')
      then have "ScoresForBoard False db cid ?b cfg' (sv_scores st') = map (withData ?s fileId) (tc_sorted t)"
        unfolding es ScoresForBoard_def entries by (simp add: sort_key_map take_map)
      with True tab show ?thesis by (simp add: stored(7) GetOrCreate_def findTable_set)
    next
      case False
      then have "boardEntries db c' b' (sv_scores st') = boardEntries db c' b' ?sd"
        unfolding sd' by (rule boardEntries_other)
      moreover have "findTable (sv_cache st') c' b' = findTable (sv_cache st) c' b'"
        using False by (auto simp: stored(7) findTable_set)
      moreover have "tc_sorted (GetOrCreate c' b' cfg' (sv_cache st)) = ScoresForBoard False db c' b' cfg' ?sd"
        using h c' by (simp add: holds_best_def sd')
      ultimately show ?thesis by (simp add: GetOrCreate_def ScoresForBoard_def)
    qed
    moreover have "times_ok (sv_scores st')"
    proof -
      have key: "(cid, ?b, ci_userId info, rgd_pcid q) \<in> set (qkeys (sd_scores ?sd))"
        using map_of_SomeD [OF f] by (rule qkey_in)
      have "\<exists>r0. ((c, b, s), r0) \<in> set (sd_scores ?sd) \<and> sr_timestamp r0 = sr_timestamp r"
        if "((c, b, s), r) \<in> set (sd_scores (sv_scores st'))" for c b s r
        using that map_of_SomeD [OF f] scores_okD(2) [OF sok] by (auto simp: sd' set_qinsert)
      moreover have "s = s'" if "((c, b, s), r) \<in> set (sd_scores ?sd)" "((c, b, s'), r') \<in> set (sd_scores ?sd)"
          "sr_timestamp r = sr_timestamp r'" for c b s r s' r'
        using h that unfolding holds_best_def times_ok_def by fastforce
      ultimately show ?thesis unfolding times_ok_def by (clarsimp; metis)
    qed
    ultimately show ?thesis using ok' by (simp add: holds_best_def)
  qed
qed

lemma init_holds_best:
  assumes h: "holds_best db st" and f: "list_all (\<lambda>(k, cfg). fits_int cfg) defs"
  shows "holds_best db (InitScoreSystem defs now db st)"
proof -
  let ?st' = "InitScoreSystem defs now db st"
  have ok: "caches_ok st" and sok: "scores_ok (sv_scores st)" using h by (simp_all add: holds_best_def caches_ok_def)
  note i = init_table [OF sok f, of now db]
  have "tc_sorted (GetOrCreate c b cfg (sv_cache ?st')) = ScoresForBoard False db c b cfg (sv_scores ?st')"
    if "qfind (sd_boards (sv_scores ?st')) (c, b) = Some cfg" for c b cfg
    using i(3) [of c b] that by (simp add: GetOrCreate_def Let_def)
  moreover have "times_ok (sv_scores ?st')" using h by (simp add: holds_best_def times_ok_def i(2))
  ultimately show ?thesis using init_caches_ok [OF ok f] by (simp add: holds_best_def)
qed

lemma holds_best_step:
  assumes h: "holds_best db st" and good: "good_event db st e"
  shows "holds_best db (score_step db st e)"
proof (cases e)
  case (ScRestart defs now)
  with init_holds_best [OF h] good show ?thesis by simp
next
  case (ScBoards fx req)
  show ?thesis
  proof (cases req)
    case None
    with h ScBoards show ?thesis by (simp add: CmdGetBoardInfos_def)
  next
    case (Some p)
    obtain c b r sd where "p = (c, b)" "GetBoard (sx_board fx) c b True (sv_scores st) = (r, sd)" by (metis surj_pair)
    with holds_best_board [OF h this(2)] Some ScBoards show ?thesis
      by (auto simp: CmdGetBoardInfos_def split: option.split)
  qed
next
  case (ScRecord fx req now now' info)
  show ?thesis
  proof (cases req)
    case None
    with h ScRecord show ?thesis by (simp add: CmdRecordScore_def)
  next
    case (Some p)
    obtain cid q r st' where "p = (cid, q)" "CmdRecordScore fx (Some (cid, q)) now now' info st = (r, st')" by (metis surj_pair)
    with record_holds_best [OF h _ this(2)] good Some ScRecord show ?thesis by simp
  qed
next
  case (ScData fx req info)
  show ?thesis
  proof (cases req)
    case None
    with h ScData show ?thesis by (simp add: CmdRecordScoreData_def)
  next
    case (Some p)
    obtain cid q raw r st' where "p = (cid, q, raw)" "CmdRecordScoreData fx (Some (cid, q, raw)) info st = (r, st')" by (metis surj_pair)
    with data_holds_best [OF h _ this(2)] good Some ScData show ?thesis by simp
  qed
qed

lemma score_run_best: "score_run db st \<Longrightarrow> holds_best db st"
proof (induction rule: score_run.induct)
  case score_run_start
  show ?case using caches_ok_start by (simp add: holds_best_def times_ok_def score_start_def)
qed (rule holds_best_step)

subsection \<open>Properties\<close>

text \<open>C6: Whatever start-ups, board queries, records and data uploads happen, with whatever database and
  file failures, every table of the score cache stays well-formed: sorted best first, at most one
  entry per user and character, never longer than its rank limit, its index naming exactly the
  position of every entry, and its configuration the one in the database.\<close>

theorem reachable_caches_ok:
  assumes "list_all fitting es" and "findTable (sv_cache (foldl (score_step db) score_start es)) c b = Some t"
  shows "sorted (map (rank_key (sb_sortMode (tc_config t))) (tc_sorted t)) \<and> distinct (map slot (tc_sorted t)) \<and>
    length (tc_sorted t) \<le> unat (sb_rankLimit (tc_config t)) \<and>
    (\<forall>u ch i. lookupAt (tc_lookup t) u ch = Some i \<longleftrightarrow> i < length (tc_sorted t) \<and> slot (tc_sorted t ! i) = (u, ch)) \<and>
    qfind (sd_boards (sv_scores (foldl (score_step db) score_start es))) (c, b) = Some (tc_config t)"
proof -
  have "caches_ok (foldl (score_step db) score_start es)" by (rule scores.run_inv [OF caches_ok_start assms(1)])
  with assms(2) show ?thesis by (simp add: caches_ok_def table_ok_def exact_def)
qed

definition example_accounts :: Database where
  "example_accounts = Database_empty\<lparr>db_accounts := map (\<lambda>(i, n). (i, \<lparr>ur_username = n, ur_hash = [], ur_salt = [],
     ur_avatarUrl = [], ur_email = [], ur_emailCheck = n, ur_token = [], ur_admin = False, ur_statAgent = False,
     ur_banned = False\<rparr>)) [(1, ''alice''), (2, ''bobby'')], db_nextUserId := 3\<rparr>"

definition example_player :: "userid \<Rightarrow> ClientInfo" where
  "example_player u = ClientInfo_default\<lparr>ci_userId := u, ci_npid := if u = 1 then ''alice'' else ''bobby''\<rparr>"

definition example_record :: "userid \<Rightarrow> int \<Rightarrow> u64 \<Rightarrow> score_event" where
  "example_record u score now = ScRecord no_score_faults
     (Some (''NPWR00001_00'', \<lparr>rsq_boardid = 7, rsq_pcid = 0, rsq_score = score, rsq_comment = ''gg'', rsq_data = []\<rparr>))
     now now (example_player u)"

definition one_place :: ScoreBoardConfig where
  "one_place = ScoreBoardConfig_default\<lparr>sb_rankLimit := 1\<rparr>"

definition example_boards :: score_event where
  "example_boards = ScRestart [((''NPWR00001_00'', 7), one_place)] 1"

definition example_after :: "score_event list \<Rightarrow> score_server" where
  "example_after es = foldl (score_step example_accounts) score_start es"

lemma example_best:
  "map_option tc_sorted (findTable (sv_cache (example_after [example_boards, example_record 1 50 5, example_record 2 60 6])) ''NPWR00001_00'' 7)
    = Some [scoreEntry (example_player 2) \<lparr>rsq_boardid = 7, rsq_pcid = 0, rsq_score = 60, rsq_comment = ''gg'', rsq_data = []\<rparr> 6]"
  by code_simp

lemma reachable_caches_ok_witness:
  "\<exists>t. findTable (sv_cache (example_after [example_boards, example_record 1 50 5, example_record 2 60 6])) ''NPWR00001_00'' 7 = Some t \<and>
     distinct (map slot (tc_sorted t)) \<and> tc_sorted t \<noteq> []"
proof -
  obtain t where t: "findTable (sv_cache (example_after [example_boards, example_record 1 50 5, example_record 2 60 6])) ''NPWR00001_00'' 7 = Some t"
      "tc_sorted t \<noteq> []"
    using example_best by auto
  have "list_all fitting [example_boards, example_record 1 50 5, example_record 2 60 6]" by code_simp
  from reachable_caches_ok [OF this t(1) [unfolded example_after_def]] t show ?thesis by blast
qed

text \<open>C5: The cache refines the score table: after any run over a fixed set of accounts in which every record
  is sent under its account's name, has a new time on its board and improves on the user's score there (no
  tie, and no worse score where boards take any), the database takes the data id of every upload, and
  configured rank limits fit an \<open>int\<close>, every board of the cache holds exactly what the database would
  list, its best rows up to the rank limit in ranking order with the account names, through restarts,
  other failed statements and uploads.\<close>

theorem cache_holds_best:
  assumes "score_run db st" and "qfind (sd_boards (sv_scores st)) (c, b) = Some cfg"
  shows "tc_sorted (GetOrCreate c b cfg (sv_cache st)) = ScoresForBoard False db c b cfg (sv_scores st)"
  using score_run_best [OF assms(1)] assms(2) by (simp add: holds_best_def)

lemma example_run: "score_run example_accounts (example_after [example_boards, example_record 1 50 5, example_record 2 60 6])"
  unfolding example_after_def foldl.simps
  by (intro score_run_step score_run_start) code_simp+

lemma cache_holds_best_witness:
  "tc_sorted (GetOrCreate ''NPWR00001_00'' 7 one_place (sv_cache (example_after [example_boards, example_record 1 50 5, example_record 2 60 6])))
     = ScoresForBoard False example_accounts ''NPWR00001_00'' 7 one_place
         (sv_scores (example_after [example_boards, example_record 1 50 5, example_record 2 60 6]))"
  by (rule cache_holds_best [OF example_run]) code_simp

text \<open>The two side conditions are needed. On a board with one place, a user who records the best score a
  second time keeps the place in the cache although the database now ranks another user's equal but
  older score first; and where boards take any score, a user who records a worse score keeps the
  place although another user's better score is in the database.\<close>

theorem record_again_diverges:
  shows "map se_userId (tc_sorted (GetOrCreate ''NPWR00001_00'' 7 one_place
            (sv_cache (example_after [example_boards, example_record 1 50 5, example_record 2 50 6, example_record 1 50 8])))) = [1] \<and>
    map se_userId (ScoresForBoard False example_accounts ''NPWR00001_00'' 7 one_place
            (sv_scores (example_after [example_boards, example_record 1 50 5, example_record 2 50 6, example_record 1 50 8]))) = [2] \<and>
    map se_userId (tc_sorted (GetOrCreate ''NPWR00001_00'' 7 (one_place\<lparr>sb_updateMode := 1\<rparr>)
            (sv_cache (example_after [ScRestart [((''NPWR00001_00'', 7), one_place\<lparr>sb_updateMode := 1\<rparr>)] 1,
               example_record 1 50 5, example_record 2 40 6, example_record 1 10 8])))) = [1] \<and>
    map se_userId (ScoresForBoard False example_accounts ''NPWR00001_00'' 7 (one_place\<lparr>sb_updateMode := 1\<rparr>)
            (sv_scores (example_after [ScRestart [((''NPWR00001_00'', 7), one_place\<lparr>sb_updateMode := 1\<rparr>)] 1,
               example_record 1 50 5, example_record 2 40 6, example_record 1 10 8]))) = [2]"
  by (intro conjI) code_simp+

lemma AppendEntries:
  "fold (\<lambda>i. AppendEntry (es ! i) i wc wg) is resp =
    resp\<lparr>gr_rankarray := gr_rankarray resp @ map (\<lambda>i. ToRankData (es ! i) i) is,
         gr_commentarray := gr_commentarray resp @ (if wc then map (\<lambda>i. se_comment (es ! i)) is else []),
         gr_infoarray := gr_infoarray resp @ (if wg then map (\<lambda>i. se_gameInfo (es ! i)) is else [])\<rparr>"
  by (induction "is" arbitrary: resp) (simp_all add: AppendEntry_def)

lemma int_of_i32_low: "uint w < 2 ^ 31 \<Longrightarrow> int_of_i32 (uint (w :: u32)) = uint w"
  by (simp only: int_of_i32_def word_of_int_uint sint_u32 if_True)

lemma int_of_i32_high: "2 ^ 31 \<le> uint w \<Longrightarrow> int_of_i32 (uint (w :: u32)) = uint w - 2 ^ 32"
  by (simp only: int_of_i32_def word_of_int_uint sint_u32 not_less [symmetric] if_False)

lemma two31: "(n < 2 ^ 31) = (int n < 2 ^ 31)" "(n \<le> 2 ^ 31) = (int n \<le> 2 ^ 31)" "(2 ^ 31 \<le> n) = (2 ^ 31 \<le> int n)"
  by simp_all

lemma range_answer:
  assumes t: "findTable cache c b = Some t"
    and le: "(if start = 0 then 1 else unat start) < 2 ^ 31" "(if start = 0 then 1 else unat start) + unat num \<le> 2 ^ 31"
  shows "ScoreBoard.GetScoreRange c b start num wc wg now cache =
    (let is = [(if start = 0 then 1 else unat start) - 1..<min ((if start = 0 then 1 else unat start) - 1 + unat num) (length (tc_sorted t))]
     in Some \<lparr>gr_rankarray = map (\<lambda>i. ToRankData (tc_sorted t ! i) i) is,
              gr_commentarray = (if wc then map (\<lambda>i. se_comment (tc_sorted t ! i)) is else []),
              gr_infoarray = (if wg then map (\<lambda>i. se_gameInfo (tc_sorted t ! i)) is else []),
              gr_lastsortdate = tc_lastInsert t, gr_totalrecord = word_of_nat (length (tc_sorted t))\<rparr>)"
proof -
  define w where "w = (if start = 0 then 1 else start)"
  define first where "first = (if start = 0 then 1 else unat start)"
  have w: "uint w = int first" by (simp add: w_def first_def)
  have f1: "1 \<le> first" by (simp add: first_def Suc_le_eq unat_gt_0)
  let ?len = "length (tc_sorted t)"
  let ?is = "[first - 1..<min (first - 1 + unat num) ?len]"
  have un: "uint num = int (unat num)" by simp
  have le': "int first < 2 ^ 31" "int first + int (unat num) \<le> 2 ^ 31"
    using le [folded first_def] unfolding two31 of_nat_add by blast+
  have low: "uint w < 2 ^ 31" "uint num < 2 ^ 31" unfolding w un using le' f1 by linarith+
  have s: "int_of_i32 (uint w) = int first" "int_of_i32 (uint num) = int (unat num)"
    by (rule trans [OF int_of_i32_low [OF low(1)] w], rule trans [OF int_of_i32_low [OF low(2)] un])
  have range: "nat (int first - 1) = first - 1"
      "nat (min (int first - 1 + int (unat num)) (int ?len)) = min (first - 1 + unat num) ?len"
    using f1 by linarith+
  have "\<not> (int first - 1 < - (2 ^ 31) \<or> int first - 1 + int (unat num) < - (2 ^ 31) \<or> 2 ^ 31 \<le> int first - 1 + int (unat num))"
      "\<not> (int first - 1 < 0 \<and> int first - 1 < min (int first - 1 + int (unat num)) (int ?len))"
    using le' f1 by linarith+
  then have no: "(int first - 1 < - (2 ^ 31) \<or> int first - 1 + int (unat num) < - (2 ^ 31) \<or> 2 ^ 31 \<le> int first - 1 + int (unat num)) = False"
      "(int first - 1 < 0 \<and> int first - 1 < min (int first - 1 + int (unat num)) (int ?len)) = False"
    by blast+
  show ?thesis
    unfolding GetScoreRange_def t option.case Let_def w_def [symmetric] first_def [symmetric] s range no if_False AppendEntries
    by (simp add: GetScoreResponse_default_def)
qed

lemma range_undefined:
  assumes t: "findTable cache c b = Some t" and high: "2 ^ 31 \<le> unat start" "0 < unat num" "unat num < 2 ^ 31"
  shows "ScoreBoard.GetScoreRange c b start num wc wg now cache = None"
proof -
  let ?len = "length (tc_sorted t)"
  have un: "uint num = int (unat num)" by simp
  have hi: "(2 ^ 31 :: int) \<le> int (unat start)" "0 < int (unat num)" "int (unat num) < 2 ^ 31"
    using high unfolding two31 of_nat_0_less_iff by blast+
  have us: "uint start = int (unat start)" by simp
  have nz: "start \<noteq> 0" using hi(1) by auto
  have "int_of_i32 (uint start) = uint start - 2 ^ 32" using hi(1) unfolding us [symmetric] by (rule int_of_i32_high)
  moreover have "int_of_i32 (uint num) = uint num" using hi(3) unfolding un [symmetric] by (rule int_of_i32_low)
  ultimately have s: "int_of_i32 (uint start) = int (unat start) - 2 ^ 32" "int_of_i32 (uint num) = int (unat num)"
    unfolding us un by blast+
  have "int (unat start) < 2 ^ 32" using uint_lt2p [of start] unfolding us by simp
  with hi have "int (unat start) - 2 ^ 32 - 1 < 0 \<and> int (unat start) - 2 ^ 32 - 1 <
      min (int (unat start) - 2 ^ 32 - 1 + int (unat num)) (int ?len)" by linarith
  then show ?thesis
    unfolding GetScoreRange_def t option.case Let_def if_not_P [OF nz] s by (simp only: if_True if_cancel simp_thms)
qed

text \<open>C35: The score range command on a board the cache has: a query whose start rank is below \<open>2^31\<close> and
  whose start rank and count are at most \<open>2^31\<close> together (a start rank of 0 counts as 1) is answered
  with the ranks asked for that exist, in ranking order, each with its rank, with comments and game
  data when asked for, and with the time of the last entry and the number of all entries. A start
  rank of \<open>2^31\<close> or more, with a count from 1 to \<open>2^31 - 1\<close>, leaves the defined behaviour of C++: the
  position is negative.\<close>

theorem score_range_reply:
  assumes t: "findTable (sv_cache st) c (grq_boardid q) = Some t"
  defines "first \<equiv> (if grq_startrank q = 0 then 1 else unat (grq_startrank q))" and "num \<equiv> unat (grq_numranks q)"
  shows "(first < 2 ^ 31 \<and> first + num \<le> 2 ^ 31 \<longrightarrow>
      CmdGetScoreRange (Some (c, q)) now st =
        (let is = [first - 1..<min (first - 1 + num) (length (tc_sorted t))]
         in Some (NoError, Some
            \<lparr>gr_rankarray = map (\<lambda>i. ToRankData (tc_sorted t ! i) i) is,
             gr_commentarray = (if grq_withcomment q then map (\<lambda>i. se_comment (tc_sorted t ! i)) is else []),
             gr_infoarray = (if grq_withgameinfo q then map (\<lambda>i. se_gameInfo (tc_sorted t ! i)) is else []),
             gr_lastsortdate = tc_lastInsert t, gr_totalrecord = word_of_nat (length (tc_sorted t))\<rparr>))) \<and>
    (2 ^ 31 \<le> unat (grq_startrank q) \<and> 0 < num \<and> num < 2 ^ 31 \<longrightarrow>
       CmdGetScoreRange (Some (c, q)) now st = None)"
  unfolding first_def num_def
  using range_answer [OF t, of "grq_startrank q" "grq_numranks q" "grq_withcomment q" "grq_withgameinfo q" now]
    range_undefined [OF t, of "grq_startrank q" "grq_numranks q" "grq_withcomment q" "grq_withgameinfo q" now]
  unfolding CmdGetScoreRange_def Let_def by (intro conjI impI; elim conjE; simp only: option.case prod.case option.map simp_thms)

lemma score_range_reply_witness:
  "let ask = (\<lambda>start. CmdGetScoreRange (Some (''NPWR00001_00'', \<lparr>grq_boardid = 7, grq_startrank = start, grq_numranks = 1,
         grq_withcomment = True, grq_withgameinfo = False\<rparr>)) 9
         (example_after [example_boards, example_record 1 50 5, example_record 2 60 6]))
   in map_option (\<lambda>r. map_option gr_commentarray (snd r)) (ask 1) = Some (Some [''gg'']) \<and> ask 0x80000001 = None"
proof -
  let ?st = "example_after [example_boards, example_record 1 50 5, example_record 2 60 6]"
  let ?q = "\<lambda>start. \<lparr>grq_boardid = 7, grq_startrank = start, grq_numranks = 1, grq_withcomment = True, grq_withgameinfo = False\<rparr>"
  obtain t where t: "findTable (sv_cache ?st) ''NPWR00001_00'' 7 = Some t"
      "tc_sorted t = [scoreEntry (example_player 2) \<lparr>rsq_boardid = 7, rsq_pcid = 0, rsq_score = 60, rsq_comment = ''gg'', rsq_data = []\<rparr> 6]"
    using example_best by auto
  have b: "findTable (sv_cache ?st) ''NPWR00001_00'' (grq_boardid (?q start)) = Some t" for start using t(1) by simp
  have "map_option (\<lambda>r. map_option gr_commentarray (snd r)) (CmdGetScoreRange (Some (''NPWR00001_00'', ?q 1)) 9 ?st) = Some (Some [''gg''])"
    using score_range_reply [OF b [of 1], of 9] by (simp add: t(2) scoreEntry_def Let_def)
  moreover have "CmdGetScoreRange (Some (''NPWR00001_00'', ?q 0x80000001)) 9 ?st = None"
    using score_range_reply [OF b [of "0x80000001"], of 9] by simp
  ultimately show ?thesis by simp
qed

definition rankOf :: "ScoreTableCache \<Rightarrow> userid \<times> int \<Rightarrow> ScoreRankData" where
  "rankOf t = (\<lambda>(u, c). case lookupAt (tc_lookup t) u c of
     None \<Rightarrow> ScoreRankData_default | Some i \<Rightarrow> ToRankData (tc_sorted t ! i) i)"

lemma ids_ranks:
  assumes "findTable cache c b = Some t"
  shows "gr_rankarray (GetScoreByIds c b ids wc wg now cache) = map (rankOf t) ids"
proof -
  have "gr_rankarray (fold (\<lambda>(uid, cid). case lookupAt (tc_lookup t) uid cid of
          None \<Rightarrow> appendBlankEntry wc wg
        | Some idx \<Rightarrow> AppendEntry (tc_sorted t ! idx) idx wc wg) ids resp) = gr_rankarray resp @ map (rankOf t) ids" for resp
    by (induction ids arbitrary: resp)
      (auto simp: rankOf_def appendBlankEntry_def AppendEntry_def split: option.split)
  then show ?thesis by (simp add: GetScoreByIds_def assms GetScoreResponse_default_def)
qed

text \<open>A query by user and character answers every id in the order asked, at the same position: the entry
  of that user and character with its rank on the board when there is one, and a blank entry when
  there is none.\<close>

theorem score_ids_aligned:
  fixes ids :: "(userid \<times> int) list" and wc wg :: bool and now :: u64
  assumes "table_ok t" and "findTable cache c b = Some t"
  defines "ranks \<equiv> gr_rankarray (GetScoreByIds c b ids wc wg now cache)"
  shows "length ranks = length ids \<and>
    (\<forall>j < length ids.
       (\<forall>i < length (tc_sorted t). slot (tc_sorted t ! i) = ids ! j \<longrightarrow> ranks ! j = ToRankData (tc_sorted t ! i) i) \<and>
       (ids ! j \<notin> slot ` set (tc_sorted t) \<longrightarrow> ranks ! j = ScoreRankData_default))"
proof -
  have r: "ranks = map (rankOf t) ids" using ids_ranks [OF assms(2)] by (simp add: ranks_def)
  have ex: "exact (tc_lookup t) (tc_sorted t)" using assms(1) by (simp add: table_ok_def)
  show ?thesis
  proof (intro conjI allI impI)
    show "length ranks = length ids" by (simp add: r)
  next
    fix j i assume j: "j < length ids" and i: "i < length (tc_sorted t)" "slot (tc_sorted t ! i) = ids ! j"
    obtain u ch where u: "ids ! j = (u, ch)" by (cases "ids ! j")
    with ex i have "lookupAt (tc_lookup t) u ch = Some i" by (simp add: exact_def)
    with j u show "ranks ! j = ToRankData (tc_sorted t ! i) i" by (simp add: r rankOf_def)
  next
    fix j assume j: "j < length ids" and n: "ids ! j \<notin> slot ` set (tc_sorted t)"
    obtain u ch where u: "ids ! j = (u, ch)" by (cases "ids ! j")
    have "lookupAt (tc_lookup t) u ch = None"
    proof (cases "lookupAt (tc_lookup t) u ch")
      case (Some i)
      with ex have "i < length (tc_sorted t)" "slot (tc_sorted t ! i) = (u, ch)" by (simp_all add: exact_def)
      with n u show ?thesis by (metis image_eqI nth_mem)
    qed simp
    with j u show "ranks ! j = ScoreRankData_default" by (simp add: r rankOf_def)
  qed
qed

lemma score_ids_aligned_witness:
  "\<exists>r. gr_rankarray (GetScoreByIds ''NPWR00001_00'' 7 [(1, 0), (2, 0)] False False 9
     (sv_cache (example_after [example_boards, example_record 1 50 5, example_record 2 60 6]))) = [ScoreRankData_default, r]"
proof -
  let ?st = "example_after [example_boards, example_record 1 50 5, example_record 2 60 6]"
  obtain t where t: "findTable (sv_cache ?st) ''NPWR00001_00'' 7 = Some t"
      "tc_sorted t = [scoreEntry (example_player 2) \<lparr>rsq_boardid = 7, rsq_pcid = 0, rsq_score = 60, rsq_comment = ''gg'', rsq_data = []\<rparr> 6]"
    using example_best by auto
  have "caches_ok ?st" using score_run_best [OF example_run] by (simp add: holds_best_def)
  then have "table_ok t" using t(1) by (simp add: caches_ok_def)
  from score_ids_aligned [OF this t(1), where ids = "[(1, 0), (2, 0)]" and wc = False and wg = False and now = "9"] t(2) show ?thesis
    by (auto simp: slot_def scoreEntry_def example_player_def ClientInfo_default_def less_Suc_eq length_Suc_conv)
qed

lemma kept_file:
  "i \<in> set (AllDataIds sd) \<Longrightarrow> qfind (sf_files (CleanOrphans (AllDataIds sd) f)) i = qfind (sf_files f) i"
proof -
  assume "i \<in> set (AllDataIds sd)"
  then have "qfind (filter (\<lambda>(i, _). i \<in> set (AllDataIds sd)) h) i = qfind h i" for h :: "(u64, bytes) qhash"
    by (induction h) auto
  then show ?thesis by (simp add: CleanOrphans_def)
qed

lemma AllDataIds_row: "qfind (sd_scores sd) k = Some row \<Longrightarrow> sr_dataId row = Some i \<Longrightarrow> i \<in> set (AllDataIds sd)"
  by (drule map_of_SomeD) (force simp: AllDataIds_def List.map_filter_def)

lemma restart_scores: "sd_scores (sv_scores (InitScoreSystem defs now db st)) = sd_scores (sv_scores st)"
proof -
  have "sd_scores (fold (\<lambda>((c, b), cfg) sd. snd (SetBoard False c b cfg sd)) ds sd) = sd_scores sd" for ds sd
    by (induction ds arbitrary: sd) (auto simp: SetBoard_def)
  then show ?thesis by (simp add: InitScoreSystem_def Let_def)
qed

lemma restart_files:
  "sv_files (InitScoreSystem defs now db st) =
     CleanOrphans (AllDataIds (sv_scores (InitScoreSystem defs now db st))) (files_Init (sv_files st))"
  by (simp add: InitScoreSystem_def Let_def)

text \<open>C21: Data that a user uploads for a score is what readers get right after the upload: both queries,
  by the user's name and by account id, return the uploaded bytes, and a second upload for the same
  score is refused. When the database takes the update and its row has the score, the row gets the
  number of the file with the bytes, and a restart of the score system keeps that row and that
  file.\<close>

theorem score_data_roundtrip:
  assumes ok: "caches_ok st" and up: "CmdRecordScoreData fx (Some (cid, q, raw)) info st = (NoError, st')"
    and fx: "\<not> sx_file fx'" "\<not> sx_account fx'"
  shows "(ci_userId info \<noteq> 0 \<longrightarrow>
      CmdGetScoreGameDataByAccId fx' (Some (cid, \<lparr>gda_boardid = rgd_boardid q, gda_accountid = ci_userId info,
        gda_pcid = rgd_pcid q\<rparr>)) st' = (NoError, Some raw)) \<and>
    (npid \<noteq> [] \<and> GetUserId False npid db = Some (ci_userId info) \<longrightarrow>
      CmdGetScoreData fx' (Some (cid, \<lparr>ggd_boardid = rgd_boardid q, ggd_npid = npid, ggd_pcid = rgd_pcid q\<rparr>)) db st'
        = (NoError, Some raw)) \<and>
    CmdRecordScoreData fx' (Some (cid, q, raw')) info st' = (ScoreHasData, st') \<and>
    (let key = (cid, rgd_boardid q, ci_userId info, rgd_pcid q); restarted = InitScoreSystem defs now db st' in
     \<forall>row. \<not> sx_data fx \<and> qfind (sd_scores (sv_scores st)) key = Some row \<and> sr_score row = rgd_score q \<longrightarrow>
       (\<exists>fileId. sv_scores st' = (sv_scores st)\<lparr>sd_scores :=
            qinsert key (row\<lparr>sr_dataId := Some fileId\<rparr>) (sd_scores (sv_scores st))\<rparr> \<and>
          qfind (sf_files (sv_files st')) fileId = Some raw \<and>
          qfind (sd_scores (sv_scores restarted)) key = Some (row\<lparr>sr_dataId := Some fileId\<rparr>) \<and>
          qfind (sf_files (sv_files restarted)) fileId = Some raw))"
  using up
proof (cases rule: data_result)
  case (same f)
  then show ?thesis by simp
next
  case (stored t i fileId files)
  let ?b = "rgd_boardid q" and ?u = "ci_userId info" and ?c = "rgd_pcid q"
  let ?t = "t\<lparr>tc_sorted := (tc_sorted t)[i := (tc_sorted t ! i)\<lparr>se_dataId := Some fileId\<rparr>]\<rparr>"
  have "table_ok t" using ok stored(1) by (auto simp: caches_ok_def)
  then have i: "i < length (tc_sorted t)" using stored(2) by (auto simp: table_ok_def exact_def)
  have t': "findTable (sv_cache st') cid ?b = Some ?t" by (simp add: stored(7) findTable_set)
  have g: "GetGameDataId cid ?b ?u ?c (sv_cache st') = (True, fileId)"
    using i stored(2) by (simp add: GetGameDataId_def t')
  have f: "sf_files (sv_files st') = qinsert fileId raw (sf_files (sv_files st))"
    using stored(4,5) by (auto simp: stored(7) files_Create_def Let_def split: if_splits)
  have rd: "readData False (True, fileId) st' = (NoError, Some raw)"
    by (simp add: readData_def files_Read_def f qfind_qinsert)
  have "ContainsScoreWithNoData cid ?b ?u ?c (rgd_score q) (sv_cache st') = Some CacheHasData"
    using i stored(2,3) by (simp add: ContainsScoreWithNoData_def t')
  then have again: "CmdRecordScoreData fx' (Some (cid, q, raw')) info st' = (ScoreHasData, st')"
    by (simp add: CmdRecordScoreData_def)
  have "\<exists>d. sv_scores st' = (sv_scores st)\<lparr>sd_scores :=
        qinsert (cid, ?b, ?u, ?c) (row\<lparr>sr_dataId := Some d\<rparr>) (sd_scores (sv_scores st))\<rparr> \<and>
      qfind (sf_files (sv_files st')) d = Some raw \<and>
      qfind (sd_scores (sv_scores (InitScoreSystem defs now db st'))) (cid, ?b, ?u, ?c) = Some (row\<lparr>sr_dataId := Some d\<rparr>) \<and>
      qfind (sf_files (sv_files (InitScoreSystem defs now db st'))) d = Some raw"
    if row: "\<not> sx_data fx" "qfind (sd_scores (sv_scores st)) (cid, ?b, ?u, ?c) = Some row" "sr_score row = rgd_score q" for row
  proof -
    have db': "sv_scores st' = (sv_scores st)\<lparr>sd_scores :=
        qinsert (cid, ?b, ?u, ?c) (row\<lparr>sr_dataId := Some fileId\<rparr>) (sd_scores (sv_scores st))\<rparr>"
      using row by (simp add: stored(7) SetScoreDataId_def)
    have kept: "qfind (sd_scores (sv_scores (InitScoreSystem defs now db st'))) (cid, ?b, ?u, ?c) = Some (row\<lparr>sr_dataId := Some fileId\<rparr>)"
      by (simp add: restart_scores db' qfind_qinsert)
    have "sf_files (files_Init (sv_files st')) = sf_files (sv_files st')" by (simp add: files_Init_def Let_def)
    then have "qfind (sf_files (sv_files (InitScoreSystem defs now db st'))) fileId = Some raw"
      unfolding restart_files using AllDataIds_row [OF kept, of fileId] by (simp add: kept_file f qfind_qinsert)
    with db' kept show ?thesis by (intro exI [of _ fileId]) (simp add: f qfind_qinsert)
  qed
  with again show ?thesis
    using g rd fx by (simp add: CmdGetScoreGameDataByAccId_def CmdGetScoreData_def Let_def)
qed

definition example_upload :: "ErrorType \<times> score_server" where
  "example_upload = CmdRecordScoreData no_score_faults
     (Some (''NPWR00001_00'', \<lparr>rgd_boardid = 7, rgd_pcid = 0, rgd_score = 60\<rparr>, [4, 2])) (example_player 2)
     (example_after [example_boards, example_record 1 50 5, example_record 2 60 6])"

lemma score_data_roundtrip_witness:
  "CmdGetScoreData no_score_faults (Some (''NPWR00001_00'', \<lparr>ggd_boardid = 7, ggd_npid = ''BOBBY'', ggd_pcid = 0\<rparr>))
     example_accounts (snd example_upload) = (NoError, Some [4, 2])"
proof -
  let ?q = "\<lparr>rgd_boardid = 7, rgd_pcid = 0, rgd_score = 60\<rparr>"
  have "caches_ok (example_after [example_boards, example_record 1 50 5, example_record 2 60 6])"
    using score_run_best [OF example_run] by (simp add: holds_best_def)
  moreover have "fst example_upload = NoError" by code_simp
  then have "CmdRecordScoreData no_score_faults (Some (''NPWR00001_00'', ?q, [4, 2])) (example_player 2)
     (example_after [example_boards, example_record 1 50 5, example_record 2 60 6]) = (NoError, snd example_upload)"
    unfolding example_upload_def by (metis prod.collapse)
  moreover have "GetUserId False ''BOBBY'' example_accounts = Some (ci_userId (example_player 2))" by code_simp
  ultimately show ?thesis
    using score_data_roundtrip [of _ no_score_faults "''NPWR00001_00''" ?q "[4, 2]" "example_player 2"
        "snd example_upload" no_score_faults "''BOBBY''" example_accounts]
    by (simp add: no_score_faults_def)
qed

end
