(* ===== verification/RoomQueries.thy ===== *)
theory RoomQueries
  imports RoomCommands
begin

text \<open>
  The read-only commands of \<open>src/cmd_matching.cpp\<close>: world lists, the room search with its
  filters, room and member data, user info and signaling infos.
\<close>

subsection \<open>Filters\<close>

definition MatchIntFilter :: "u32 \<Rightarrow> u32 \<Rightarrow> u32 \<Rightarrow> bool" where
  "MatchIntFilter op' roomValue filterValue =
     (if op' = 1 then roomValue = filterValue
      else if op' = 2 then roomValue \<noteq> filterValue
      else if op' = 3 then roomValue < filterValue
      else if op' = 4 then roomValue \<le> filterValue
      else if op' = 5 then roomValue > filterValue
      else if op' = 6 then roomValue \<ge> filterValue
      else False)"

definition matchesIntFilter :: "Room \<Rightarrow> MatchingIntSearchFilter \<Rightarrow> bool" where
  "matchesIntFilter room f =
     (let i = ucast (fi_attr_id f) :: u16 in
      if i = 0 then True
      else if i < SEARCHABLE_INT_ATTR_EXTERNAL_1_ID \<or> i > SEARCHABLE_INT_ATTR_EXTERNAL_8_ID then False
      else let slot = r_searchIntAttr room ! (unat i - unat SEARCHABLE_INT_ATTR_EXTERNAL_1_ID)
           in MatchIntFilter (fi_op f) (ia_value slot) (fi_attr_value f))"

definition matchesBinFilter :: "Room \<Rightarrow> MatchingBinSearchFilter \<Rightarrow> bool" where
  "matchesBinFilter room f =
     (if fb_attr_id f = 0 then True
      else if (ucast (fb_attr_id f) :: u16) \<noteq> SEARCHABLE_BIN_ATTR_EXTERNAL_1_ID then False
      else let eq = (ba_data (r_searchBinAttr room) = fb_data f)
           in \<not> ((fb_op f = 1 \<and> \<not> eq) \<or> (fb_op f = 2 \<and> eq)))"

definition RoomMatchesFilters :: "Room \<Rightarrow> SearchRoomRequest \<Rightarrow> bool" where
  "RoomMatchesFilters room req =
     (if r_flagAttr room AND FLAG_ATTR_HIDDEN \<noteq> 0 then False
      else let flagFilter = srq_flag_filter req AND NOT FLAG_ATTR_NAT_TYPE_RESTRICTION;
               flagAttr = srq_flag_attr req AND NOT FLAG_ATTR_NAT_TYPE_RESTRICTION
           in if r_flagAttr room AND flagFilter \<noteq> flagAttr then False
              else list_all (matchesIntFilter room) (srq_int_filters req)
                 \<and> list_all (matchesBinFilter room) (srq_bin_filters req))"

subsection \<open>Search\<close>

definition searchCandidates :: "MatchingSharedState \<Rightarrow> ComId \<Rightarrow> u32 \<Rightarrow> u64 \<Rightarrow> u64 list" where
  "searchCandidates mx key worldId lobbyId =
     (if worldId \<noteq> 0 then qvalue (mx_worldRooms mx) (key, worldId) []
      else if lobbyId \<noteq> 0 then qvalue (mx_lobbyRooms mx) (key, lobbyId) []
      else map snd (filter (\<lambda>k. fst k = key) (qkeys (mx_rooms mx))))"

definition searchMatches :: "MatchingSharedState \<Rightarrow> ComId \<Rightarrow> SearchRoomRequest \<Rightarrow> Room list" where
  "searchMatches mx key req =
     filter (\<lambda>room. RoomMatchesFilters room req)
       (List.map_filter (\<lambda>rid. qfind (mx_rooms mx) (key, rid))
          (searchCandidates mx key (srq_world_id req) (srq_lobby_id req)))"

definition searchRangeStart :: "SearchRoomRequest \<Rightarrow> u32" where
  "searchRangeStart req = (if srq_range_filter_start req < 1 then 1 else srq_range_filter_start req)"

definition searchRangeMax :: "SearchRoomRequest \<Rightarrow> u32" where
  "searchRangeMax req =
     (if srq_range_filter_max req = 0 \<or> srq_range_filter_max req > 20 then 20
      else srq_range_filter_max req)"

definition CmdSearchRoom ::
  "SearchRoomRequest option \<Rightarrow> ClientSession \<Rightarrow> SharedState \<Rightarrow> SearchRoomReply result" where
  [handler_defs]: "CmdSearchRoom req cs sh =
     (case req of None \<Rightarrow> reject Malformed cs sh
      | Some req \<Rightarrow>
        (let matches = searchMatches (ss_matching sh) (my_key cs) req;
             rangeStart = searchRangeStart req;
             page = take (unat (searchRangeMax req)) (drop (unat (rangeStart - 1)) matches);
             rooms = map (\<lambda>r. BuildRoomDataExternal r (RequestedAttrIds (srq_attr_ids req))) page
         in ((NoError, Some \<lparr>srr_rooms = rooms, srr_range_start = rangeStart,
                srr_range_total = word_of_nat (length matches),
                srr_range_result = word_of_nat (length rooms)\<rparr>), cs, sh, [])))"

subsection \<open>Worlds\<close>

definition countRoomsAndMembers :: "MatchingSharedState \<Rightarrow> ComId \<Rightarrow> u32 \<Rightarrow> u32 \<times> u32" where
  "countRoomsAndMembers mx key worldId =
     foldl (\<lambda>(roomsNum, roomMembersNum) rid.
         (case qfind (mx_rooms mx) (key, rid) of
            None \<Rightarrow> (roomsNum, roomMembersNum)
          | Some room \<Rightarrow> (roomsNum + 1, roomMembersNum + word_of_nat (length (r_members room)))))
       (0, 0) (qvalue (mx_worldRooms mx) (key, worldId) [])"

definition worldEntry :: "MatchingSharedState \<Rightarrow> ComId \<Rightarrow> u32 \<Rightarrow> u32 \<Rightarrow> u32 \<Rightarrow> MatchingWorld" where
  "worldEntry mx key worldId lobbies maxLobby =
     (let (roomsNum, roomMembersNum) = countRoomsAndMembers mx key worldId
      in \<lparr>pw_world_id = worldId, pw_lobbies_num = lobbies, pw_max_lobby_members = maxLobby,
          pw_lobby_members_num = 0, pw_rooms_num = roomsNum, pw_room_members_num = roomMembersNum\<rparr>)"

definition CmdGetWorldInfoList ::
  "u32 option \<Rightarrow> ClientSession \<Rightarrow> SharedState \<Rightarrow> MatchingWorld list result" where
  \<comment> \<open>the request's \<open>server_id\<close>\<close>
  [handler_defs]: "CmdGetWorldInfoList req cs sh =
     (case req of None \<Rightarrow> reject Malformed cs sh
      | Some server_id \<Rightarrow>
        (let serverId = ucast server_id :: u16;
             mx = ss_matching sh; key = my_key cs;
             configs = qvalue (mx_worldConfigs mx) key []
         in if configs \<noteq> []
            then ((NoError, Some (map (\<lambda>wc. worldEntry mx key (wc_worldId wc) (wc_lobbiesNum wc)
                                               (wc_maxLobbyMembersNum wc))
                    (filter (\<lambda>wc. \<not> (serverId \<noteq> 0 \<and> wc_serverId wc \<noteq> serverId)) configs))), cs, sh, [])
            else
              (let found = foldl (\<lambda>ids w. if w \<in> set ids then ids else ids @ [w]) []
                     (map snd (filter (\<lambda>k. fst k = key) (qkeys (mx_worldRooms mx))));
                   worldIds = (if found = [] then [1] else found)
               in ((NoError, Some (map (\<lambda>w. worldEntry mx key w 0 0) worldIds)), cs, sh, []))))"

subsection \<open>Room, member and user data\<close>

definition CmdGetRoomDataExternalList ::
  "GetRoomDataExternalListRequest option \<Rightarrow> ClientSession \<Rightarrow> SharedState
     \<Rightarrow> MatchingRoomDataExternal list result" where
  [handler_defs]: "CmdGetRoomDataExternalList req cs sh =
     (case req of None \<Rightarrow> reject Malformed cs sh
      | Some req \<Rightarrow>
        ((NoError, Some (map (\<lambda>r. BuildRoomDataExternal r (RequestedAttrIds (grq_attr_ids req)))
           (List.map_filter (\<lambda>rid. qfind (rooms_of sh) (my_key cs, rid)) (grq_room_ids req)))), cs, sh, []))"

definition memberDataExternal :: "Room \<Rightarrow> RoomMember \<Rightarrow> MatchingRoomMemberDataExternal" where
  "memberDataExternal room member =
     \<lparr>pmx_npid = rm_npid member, pmx_member_id = ucast (rm_memberId member),
      pmx_account_id = u64_of_int (rm_userId member), pmx_platform = rm_platform member,
      pmx_join_date = rm_joinDate member,
      pmx_role = (if rm_memberId member = r_ownerMemberId room then 2 else 1)\<rparr>"

definition CmdGetRoomMemberDataExternalList ::
  "u64 option \<Rightarrow> ClientSession \<Rightarrow> SharedState \<Rightarrow> MatchingRoomMemberDataExternal list result" where
  \<comment> \<open>the request's \<open>room_id\<close>\<close>
  [handler_defs]: "CmdGetRoomMemberDataExternalList req cs sh =
     (case req of None \<Rightarrow> reject Malformed cs sh
      | Some roomId \<Rightarrow>
        (case qfind (rooms_of sh) (my_key cs, roomId) of
           None \<Rightarrow> reject NotFound cs sh
         | Some room \<Rightarrow>
           ((NoError, Some (map (memberDataExternal room)
              (List.map_filter (qfind (r_members room)) (sortedMemberIds room)))), cs, sh, [])))"

definition userInfoEntry ::
  "GetUserInfoListRequest \<Rightarrow> ClientSession \<Rightarrow> SharedState \<Rightarrow> qstring \<Rightarrow> MatchingUserInfo" where
  "userInfoEntry req cs sh npid =
     (let mx = ss_matching sh;
          user0 = \<lparr>pu_npid = npid, pu_account_id = 0, pu_platform = 0, pu_user_bin_attrs = []\<rparr>;
          user1 = (case qfind (mx_rooms mx) (my_key cs, ms_roomId (cs_matching cs)) of
                     None \<Rightarrow> user0
                   | Some room \<Rightarrow>
                       (case findByNpid room npid of
                          None \<Rightarrow> user0
                        | Some member \<Rightarrow> user0\<lparr>pu_account_id := u64_of_int (rm_userId member),
                                               pu_platform := rm_platform member\<rparr>))
      in case qfind (mx_userInfo mx) (my_key cs, npid) of
           None \<Rightarrow> user1
         | Some slots \<Rightarrow>
             (let user2 = (if pu_account_id user1 = 0 \<and> npid = my_npid cs
                           then user1\<lparr>pu_account_id := u64_of_int (ci_userId (cs_info cs)),
                                      pu_platform := 3\<rparr>
                           else user1);
                  wanted = (\<lambda>slot. ba_set slot \<and>
                     (guq_attr_ids req = [] \<or>
                      list_ex (\<lambda>a. (ucast a :: u16) = ba_attrId slot) (guq_attr_ids req)))
              in user2\<lparr>pu_user_bin_attrs :=
                   map (\<lambda>slot. MatchingBinAttr_default\<lparr>pba_attr_id := ucast (ba_attrId slot),
                                 pba_data := ba_data slot\<rparr>) (filter wanted slots)\<rparr>))"

definition CmdGetUserInfoList ::
  "GetUserInfoListRequest option \<Rightarrow> ClientSession \<Rightarrow> SharedState \<Rightarrow> MatchingUserInfo list result" where
  [handler_defs]: "CmdGetUserInfoList req cs sh =
     (case req of None \<Rightarrow> reject Malformed cs sh
      | Some req \<Rightarrow>
        ((NoError, Some (map (userInfoEntry req cs sh) (guq_npids req))), cs, sh, []))"

subsection \<open>Signaling\<close>

definition findMemberInRooms :: "MatchingSharedState \<Rightarrow> ComId \<Rightarrow> qstring \<Rightarrow> RoomMember option" where
  \<comment> \<open>in the first room of the key, in iteration order, that the user is in\<close>
  "findMemberInRooms mx key npid =
     (case List.find (\<lambda>(k, room). fst k = key \<and> findByNpid room npid \<noteq> None) (mx_rooms mx) of
        None \<Rightarrow> None
      | Some (_, room) \<Rightarrow> findByNpid room npid)"

definition CmdRequestSignalingInfos ::
  "qstring option \<Rightarrow> ClientSession \<Rightarrow> SharedState \<Rightarrow> RequestSignalingInfosReply result" where
  \<comment> \<open>the request's \<open>target_npid\<close>\<close>
  [handler_defs]: "CmdRequestSignalingInfos req cs sh =
     (case req of None \<Rightarrow> reject Malformed cs sh
      | Some targetNpid \<Rightarrow>
        (let mx = ss_matching sh;
             (targetIp, targetPort) = qvalue (mx_udpExt mx) targetNpid ([], 0);
             tm = findMemberInRooms mx (my_key cs) targetNpid;
             targetMemberId = (case tm of None \<Rightarrow> 0 | Some m \<Rightarrow> rm_memberId m);
             (targetIp, targetPort) =
               (case tm of None \<Rightarrow> (targetIp, targetPort)
                | Some m \<Rightarrow> if targetIp = [] then (rm_addr m, rm_port m) else (targetIp, targetPort))
         in if targetIp = [] then reject NotFound cs sh
            else ((NoError, Some \<lparr>sgr_target_npid = targetNpid, sgr_target_ip = targetIp,
                     sgr_target_port = ucast targetPort,
                     sgr_target_member_id = ucast targetMemberId\<rparr>), cs, sh, [])))"

end
