(* ===== verification/RoomInvariant.thy ===== *)
theory RoomInvariant
  imports RoomQueries
begin

text \<open>
  What the matching commands keep true of a room and of the room table: member ids are unique
  and keys, every user is in a room at most once, the owner is a member (and, in rooms of up to
  64 slots, the only member with the owner flag), slots are within the room's range and not
  shared, the cached slot counts are those of the masks, FULL is set on full rooms only, and the
  world and lobby indexes list exactly the rooms of their world or lobby.
\<close>

subsection \<open>Members\<close>

definition members_ok :: "(u16, RoomMember) qhash \<Rightarrow> nat \<Rightarrow> bool" where
  [inv_defs]: "members_ok ms maxSlot \<longleftrightarrow>
     qdistinct ms \<and> length ms \<le> maxSlot \<and>
     (\<forall>p \<in> set ms. rm_memberId (snd p) = fst p \<and>
        0 < memberSlot (snd p) \<and> memberSlot (snd p) \<le> min 65 maxSlot) \<and>
     (\<forall>p \<in> set ms. \<forall>q \<in> set ms. rm_npid (snd p) = rm_npid (snd q) \<longrightarrow> p = q) \<and>
     (\<forall>p \<in> set ms. \<forall>q \<in> set ms. memberSlot (snd p) = memberSlot (snd q) \<and>
        memberSlot (snd p) \<le> 64 \<longrightarrow> p = q)"

lemma members_ok_subset:
  assumes "members_ok ms n" and "qdistinct ms'" and "set ms' \<subseteq> set ms"
  shows "members_ok ms' n"
proof -
  have "distinct ms'" using assms(2) by (simp add: qdistinct_def distinct_map)
  then have "length ms' = card (set ms')" by (simp add: distinct_card)
  also have "\<dots> \<le> card (set ms)" using assms(3) by (simp add: card_mono)
  also have "\<dots> \<le> length ms" by (rule card_length)
  finally have "length ms' \<le> n" using assms(1) by (simp add: members_ok_def)
  with assms show ?thesis unfolding members_ok_def by blast
qed

lemma members_ok_qremove: "members_ok ms n \<Longrightarrow> members_ok (qremove k ms) n"
  by (rule members_ok_subset) (auto simp: members_ok_def set_qremove)

lemma members_ok_qmodify:
  assumes ok: "members_ok ms n" and npid: "\<And>m. rm_npid (f m) = rm_npid m"
    and mid: "\<And>m. rm_memberId (f m) = rm_memberId m"
  shows "members_ok (qmodify k f ms) n"
proof -
  have slot: "memberSlot (f m) = memberSlot m" for m by (simp add: memberSlot_def mid)
  have d: "qdistinct ms" using ok by (simp add: members_ok_def)
  let ?g = "\<lambda>p. (fst p, if fst p = k then f (snd p) else snd p)"
  have s: "set (qmodify k f ms) = ?g ` set ms"
    using set_qmodify [OF d, of k f] by (simp add: case_prod_unfold)
  have g: "fst (?g p) = fst p" "rm_npid (snd (?g p)) = rm_npid (snd p)"
    "rm_memberId (snd (?g p)) = rm_memberId (snd p)" "memberSlot (snd (?g p)) = memberSlot (snd p)" for p
    by (simp_all add: npid mid slot)
  have ok1: "rm_memberId (snd a) = fst a \<and> 0 < memberSlot (snd a) \<and> memberSlot (snd a) \<le> min 65 n"
    if "a \<in> set ms" for a using ok that by (simp add: members_ok_def)
  have ok2: "a = b" if "a \<in> set ms" "b \<in> set ms" "rm_npid (snd a) = rm_npid (snd b)" for a b
    using ok that unfolding members_ok_def by blast
  have ok3: "a = b" if "a \<in> set ms" "b \<in> set ms" "memberSlot (snd a) = memberSlot (snd b)"
    "memberSlot (snd a) \<le> 64" for a b
    using ok that unfolding members_ok_def by blast
  show ?thesis
    unfolding members_ok_def s
  proof (intro conjI ballI impI)
    show "qdistinct (qmodify k f ms)" using d by simp
    show "length (qmodify k f ms) \<le> n" using ok by (simp add: members_ok_def)
  next
    fix p assume "p \<in> ?g ` set ms"
    then obtain a where a: "a \<in> set ms" "p = ?g a" by blast
    show "rm_memberId (snd p) = fst p" "0 < memberSlot (snd p)" "memberSlot (snd p) \<le> min 65 n"
      using ok1 [OF a(1)] a(2) g by (metis, metis, metis)
    fix q assume "q \<in> ?g ` set ms"
    then obtain b where b: "b \<in> set ms" "q = ?g b" by blast
    show "p = q" if "rm_npid (snd p) = rm_npid (snd q)"
      using ok2 [OF a(1) b(1)] that a(2) b(2) g(2) by metis
    show "p = q" if "memberSlot (snd p) = memberSlot (snd q) \<and> memberSlot (snd p) \<le> 64"
      using ok3 [OF a(1) b(1)] that a(2) b(2) g(4) by metis
  qed
qed

lemma memberSlot_update [simp]: "memberSlot (m\<lparr>rm_memberId := i\<rparr>) = unat (slotOf i)"
  by (simp add: memberSlot_def)

lemma members_ok_addMember:
  assumes ok: "members_ok (r_members room) n" and room: "length (r_members room) < n"
    and new: "\<forall>p \<in> set (r_members room). rm_npid (snd p) \<noteq> rm_npid proto"
    and n: "n = unat (r_maxSlot room)"
  shows "members_ok (r_members (snd (addMember proto room))) n"
proof -
  let ?mid = "fst (allocMemberId room)" and ?ms = "r_members room"
  let ?m = "proto\<lparr>rm_memberId := ?mid\<rparr>"
  have eq: "r_members (snd (addMember proto room)) = qinsert ?mid ?m ?ms"
    by (simp add: addMember_def allocMemberId_def Let_def)
  have d: "qdistinct ?ms" using ok by (simp add: members_ok_def)
  have slot: "memberSlot ?m = firstFreeSlot room"
    using memberSlot_allocMemberId [of room] by simp
  have free: "firstFreeSlot room \<le> 64 \<Longrightarrow> \<forall>p \<in> set ?ms. memberSlot (snd p) \<noteq> firstFreeSlot room"
    using firstFreeSlot_free [of room] slotTaken_memberSlot [of "firstFreeSlot room" room]
      firstFreeSlot_le [of room] by auto
  have bounds: "0 < firstFreeSlot room" "firstFreeSlot room \<le> min 65 n"
    using firstFreeSlot_pos firstFreeSlot_le [of room] firstFreeSlot_le_members [of room] room by auto
  have len: "length (qinsert ?mid ?m ?ms) \<le> n"
    using length_qinsert_le [of ?mid ?m ?ms] room by simp
  have set: "set (qinsert ?mid ?m ?ms) \<subseteq> insert (?mid, ?m) (set ?ms)"
    using d by (auto simp: set_qinsert)
  show ?thesis
    unfolding members_ok_def eq
  proof (intro conjI ballI impI)
    show "qdistinct (qinsert ?mid ?m ?ms)" using d by simp
    show "length (qinsert ?mid ?m ?ms) \<le> n" by (rule len)
  next
    fix p assume "p \<in> set (qinsert ?mid ?m ?ms)"
    then have p: "p = (?mid, ?m) \<or> p \<in> set ?ms" using set by blast
    then show "rm_memberId (snd p) = fst p" "0 < memberSlot (snd p)"
      "memberSlot (snd p) \<le> min 65 n"
      using ok bounds slot by (auto simp: members_ok_def)
    fix q assume "q \<in> set (qinsert ?mid ?m ?ms)"
    then have q: "q = (?mid, ?m) \<or> q \<in> set ?ms" using set by blast
    show "p = q" if "rm_npid (snd p) = rm_npid (snd q)"
      using p q that new ok unfolding members_ok_def by fastforce
    show "p = q" if "memberSlot (snd p) = memberSlot (snd q) \<and> memberSlot (snd p) \<le> 64"
    proof (cases "p \<in> set ?ms \<and> q \<in> set ?ms")
      case True
      with that ok show ?thesis unfolding members_ok_def by blast
    next
      case False
      with p q that slot free show ?thesis by auto
    qed
  qed
qed

subsection \<open>The invariant of a room\<close>

definition counts_ok :: "Room \<Rightarrow> bool" where
  "counts_ok room \<longleftrightarrow>
     (let R = RecomputeRoomSlotCounts room in
      r_publicSlots room = r_publicSlots R \<and> r_privateSlots room = r_privateSlots R \<and>
      r_openPublicSlots room = r_openPublicSlots R \<and> r_openPrivateSlots room = r_openPrivateSlots R)"

lemma counts_ok_Recompute [simp]: "counts_ok (RecomputeRoomSlotCounts room)"
  by (simp add: counts_ok_def Let_def)

lemma counts_ok_cong:
  assumes "counts_ok a" and "r_maxSlot b = r_maxSlot a" and "r_groups b = r_groups a"
    and "r_passwdSlotMask b = r_passwdSlotMask a" and "joinedSlotMask b = joinedSlotMask a"
    and "r_publicSlots b = r_publicSlots a" "r_privateSlots b = r_privateSlots a"
    and "r_openPublicSlots b = r_openPublicSlots a" "r_openPrivateSlots b = r_openPrivateSlots a"
  shows "counts_ok b"
proof -
  have "roomPrivateMask b = roomPrivateMask a" using assms by (intro Recompute_cong) auto
  with assms show ?thesis by (simp add: counts_ok_def RecomputeRoomSlotCounts_def Let_def)
qed

lemma joinedSlotMask_cong [simp]:
  "joinedSlotMask (r\<lparr>r_flagAttr := x\<rparr>) = joinedSlotMask r"
  "joinedSlotMask (r\<lparr>r_blockedUsers := y\<rparr>) = joinedSlotMask r"
  "joinedSlotMask (r\<lparr>r_internalBinAttr := z\<rparr>) = joinedSlotMask r"
  by (simp_all add: joinedSlotMask_def)

lemma bits_of_eqI: "bits_of a = bits_of b \<Longrightarrow> a = b"
  by (rule bit_word_eqI) (auto simp: bits_of_def)

lemma joinedSlotMask_members:
  assumes "memberSlot ` set (qvalues (r_members a)) = memberSlot ` set (qvalues (r_members b))"
  shows "joinedSlotMask a = joinedSlotMask b"
proof (rule bits_of_eqI)
  have "(\<exists>m \<in> A. memberSlot m = s) \<longleftrightarrow> s \<in> memberSlot ` A" for s A by blast
  then show "bits_of (joinedSlotMask a) = bits_of (joinedSlotMask b)"
    by (simp only: bits_of_joinedSlotMask assms)
qed

definition hasOwnerFlag :: "RoomMember \<Rightarrow> bool" where
  "hasOwnerFlag m \<longleftrightarrow> rm_flagAttr m AND MEMBER_FLAG_ATTR_OWNER \<noteq> 0"

definition room_ok :: "Room \<Rightarrow> bool" where
  [inv_defs]: "room_ok room \<longleftrightarrow>
     members_ok (r_members room) (unat (r_maxSlot room)) \<and>
     r_ownerMemberId room \<in> set (qkeys (r_members room)) \<and>
     counts_ok room \<and>
     r_ownerSuccession room = [] \<and>
     (r_flagAttr room AND FLAG_ATTR_FULL \<noteq> 0 \<longrightarrow> Room_isFull room) \<and>
     length (r_searchIntAttr room) = 8 \<and> length (r_externalBinAttr room) = 2 \<and>
     length (r_internalBinAttr room) = 2 \<and>
     (r_maxSlot room \<le> 64 \<longrightarrow>
        (\<forall>p \<in> set (r_members room). hasOwnerFlag (snd p) \<longleftrightarrow> fst p = r_ownerMemberId room))"

lemma room_okD:
  assumes "room_ok room"
  shows "members_ok (r_members room) (unat (r_maxSlot room))"
    and "r_ownerMemberId room \<in> set (qkeys (r_members room))"
    and "counts_ok room" and "r_ownerSuccession room = []"
    and "r_flagAttr room AND FLAG_ATTR_FULL \<noteq> 0 \<Longrightarrow> Room_isFull room"
    and "length (r_searchIntAttr room) = 8" and "length (r_externalBinAttr room) = 2"
    and "length (r_internalBinAttr room) = 2"
    and "r_maxSlot room \<le> 64 \<Longrightarrow> p \<in> set (r_members room) \<Longrightarrow>
           hasOwnerFlag (snd p) \<longleftrightarrow> fst p = r_ownerMemberId room"
    and "qdistinct (r_members room)" and "r_members room \<noteq> []"
  using assms by (auto simp: room_ok_def members_ok_def)

lemma word_andnot_zero [simp]: "(x AND NOT f) AND f = (0 :: 'a::len word)"
  by (rule bit_word_eqI) (auto simp: bit_simps)

lemma room_ok_flags:
  assumes "room_ok r" and "x AND FLAG_ATTR_FULL \<noteq> 0 \<longrightarrow> r_flagAttr r AND FLAG_ATTR_FULL \<noteq> 0"
  shows "room_ok (r\<lparr>r_flagAttr := x\<rparr>)"
proof -
  have "counts_ok (r\<lparr>r_flagAttr := x\<rparr>)"
    by (rule counts_ok_cong [OF room_okD(3) [OF assms(1)]]) (simp_all add: joinedSlotMask_def)
  with assms show ?thesis by (simp add: room_ok_def Room_isFull_def)
qed

lemma room_ok_recount:
  assumes "room_ok r"
  shows "room_ok (RecomputeRoomSlotCounts (r\<lparr>r_passwdSlotMask := x\<rparr>))"
  using assms by (simp add: room_ok_def Room_isFull_def)

subsection \<open>Attribute updates\<close>

definition attrs_only :: "Room \<Rightarrow> Room \<Rightarrow> bool" where
  \<comment> \<open>the rooms differ in their attribute slots only\<close>
  "attrs_only r r' \<longleftrightarrow>
     r = r'\<lparr>r_searchIntAttr := r_searchIntAttr r, r_searchBinAttr := r_searchBinAttr r,
           r_externalBinAttr := r_externalBinAttr r, r_internalBinAttr := r_internalBinAttr r\<rparr> \<and>
     length (r_searchIntAttr r') = length (r_searchIntAttr r) \<and>
     length (r_externalBinAttr r') = length (r_externalBinAttr r) \<and>
     length (r_internalBinAttr r') = length (r_internalBinAttr r)"

lemma attrs_only_refl [simp]: "attrs_only r r"
  by (simp add: attrs_only_def)

lemma attrs_only_trans [trans]: "attrs_only r s \<Longrightarrow> attrs_only s t \<Longrightarrow> attrs_only r t"
  by (cases r; cases s; cases t) (simp add: attrs_only_def)

lemma attrs_only_fold: "(\<And>a r. attrs_only r (f a r)) \<Longrightarrow> attrs_only r (fold f as r)"
  by (induction as arbitrary: r) (auto intro: attrs_only_trans)

lemma attrs_only_frame:
  assumes "attrs_only r r'"
  shows "r_members r' = r_members r" "r_maxSlot r' = r_maxSlot r" "r_ownerMemberId r' = r_ownerMemberId r"
    "r_flagAttr r' = r_flagAttr r" "r_roomId r' = r_roomId r" "r_worldId r' = r_worldId r"
    "r_lobbyId r' = r_lobbyId r" "r_serverId r' = r_serverId r"
    "r_ownerSuccession r' = r_ownerSuccession r" "r_passwdSlotMask r' = r_passwdSlotMask r"
    "r_groups r' = r_groups r"
    "r_publicSlots r' = r_publicSlots r" "r_privateSlots r' = r_privateSlots r"
    "r_openPublicSlots r' = r_openPublicSlots r" "r_openPrivateSlots r' = r_openPrivateSlots r"
    "r_blockedUsers r' = r_blockedUsers r"
    "r_memberIdCounter r' = r_memberIdCounter r" "r_roomPassword r' = r_roomPassword r"
    "length (r_searchIntAttr r') = length (r_searchIntAttr r)"
    "length (r_externalBinAttr r') = length (r_externalBinAttr r)"
    "length (r_internalBinAttr r') = length (r_internalBinAttr r)"
  using assms by (cases r; cases r'; simp add: attrs_only_def)+

lemma attrs_only_ops:
  "attrs_only r (setSearchIntAttr ia r)" "attrs_only r (setSearchBinAttr ba r)"
  "attrs_only r (setExternalBinAttr ba r)" "attrs_only r (applyCreateBinAttr d i ba r)"
  by (simp_all add: attrs_only_def setSearchIntAttr_def setSearchBinAttr_def setExternalBinAttr_def
      applyCreateBinAttr_def Let_def split: option.split)

lemma attrs_only_setInternalBinAttr: "attrs_only (snd ur) (snd (setInternalBinAttr now i ur a))"
  by (simp add: attrs_only_def setInternalBinAttr_def Let_def split: prod.split option.split)

lemma attrs_only_setInternalBinAttrs: "attrs_only r (snd (setInternalBinAttrs as now i r))"
proof -
  have "attrs_only (snd ur) (snd (foldl (setInternalBinAttr now i) ur as))" for ur
  proof (induction as arbitrary: ur)
    case Nil
    show ?case by simp
  next
    case (Cons a as)
    show ?case
      using attrs_only_trans [OF attrs_only_setInternalBinAttr Cons] by simp
  qed
  from this [of "([], r)"] show ?thesis by (simp add: setInternalBinAttrs_def)
qed

lemma joinedSlotMask_eq: "r_members a = r_members b \<Longrightarrow> joinedSlotMask a = joinedSlotMask b"
  by (simp add: joinedSlotMask_def)

lemma room_ok_attrs_only:
  assumes ok: "room_ok r" and a: "attrs_only r r'"
  shows "room_ok r'"
proof -
  note f = attrs_only_frame [OF a]
  have "counts_ok r'"
    by (rule counts_ok_cong [OF room_okD(3) [OF ok]]) (simp_all add: f joinedSlotMask_eq [OF f(1)])
  with ok show ?thesis by (simp add: room_ok_def Room_isFull_def f)
qed

subsection \<open>The room operations keep the invariant\<close>

lemma addMember_frame [simp]:
  "r_maxSlot (snd (addMember m r)) = r_maxSlot r" "r_ownerMemberId (snd (addMember m r)) = r_ownerMemberId r"
  "r_flagAttr (snd (addMember m r)) = r_flagAttr r" "r_roomId (snd (addMember m r)) = r_roomId r"
  "r_worldId (snd (addMember m r)) = r_worldId r" "r_lobbyId (snd (addMember m r)) = r_lobbyId r"
  "r_ownerSuccession (snd (addMember m r)) = r_ownerSuccession r"
  "r_searchIntAttr (snd (addMember m r)) = r_searchIntAttr r"
  "r_externalBinAttr (snd (addMember m r)) = r_externalBinAttr r"
  "r_internalBinAttr (snd (addMember m r)) = r_internalBinAttr r"
  "r_blockedUsers (snd (addMember m r)) = r_blockedUsers r"
  "fst (addMember m r) = m\<lparr>rm_memberId := fst (allocMemberId r)\<rparr>"
  "r_members (snd (addMember m r)) =
     qinsert (fst (allocMemberId r)) (m\<lparr>rm_memberId := fst (allocMemberId r)\<rparr>) (r_members r)"
  by (simp_all add: addMember_def allocMemberId_def Let_def)

lemma FULL_bit [simp]: "FLAG_ATTR_FULL \<noteq> 0"
  by (simp add: FLAG_ATTR_FULL_def)

lemma hasOwnerFlag_simps [simp]:
  "hasOwnerFlag (m\<lparr>rm_memberId := i\<rparr>) = hasOwnerFlag m"
  "hasOwnerFlag (m\<lparr>rm_flagAttr := x OR MEMBER_FLAG_ATTR_OWNER\<rparr>)"
proof -
  have "(x OR MEMBER_FLAG_ATTR_OWNER) AND MEMBER_FLAG_ATTR_OWNER = MEMBER_FLAG_ATTR_OWNER"
    by (rule bit_word_eqI) (auto simp: bit_simps)
  then show "hasOwnerFlag (m\<lparr>rm_flagAttr := x OR MEMBER_FLAG_ATTR_OWNER\<rparr>)"
    by (simp add: hasOwnerFlag_def) (simp add: MEMBER_FLAG_ATTR_OWNER_def)
qed (simp add: hasOwnerFlag_def)

definition newcomer :: "RoomMember \<Rightarrow> Room \<Rightarrow> bool" where
  "newcomer m room \<longleftrightarrow> (\<forall>p \<in> set (r_members room). rm_npid (snd p) \<noteq> rm_npid m)"

lemma joinRoom_eqs:
  "joinRoom m r = (fst (addMember m r), word_of_nat (length (r_members (snd (addMember m r)))),
     (if word_of_nat (length (r_members (snd (addMember m r)))) \<ge> r_maxSlot r
      then (RecomputeRoomSlotCounts (snd (addMember m r)))\<lparr>r_flagAttr := r_flagAttr r OR FLAG_ATTR_FULL\<rparr>
      else RecomputeRoomSlotCounts (snd (addMember m r))))"
  using addMember_frame(1,3) [of m r]
  by (cases "addMember m r") (simp add: joinRoom_def Let_def del: addMember_frame)

lemma members_after_join:
  assumes ok: "room_ok room" and free: "\<not> Room_isFull room" and new: "newcomer m room"
  shows "members_ok (r_members (snd (addMember m room))) (unat (r_maxSlot room))"
  using ok free new
  by (intro members_ok_addMember) (auto simp: room_ok_def Room_isFull_def newcomer_def)

lemma room_ok_joinRoom:
  assumes ok: "room_ok room" and free: "\<not> Room_isFull room" and new: "newcomer m room"
    and flag: "\<not> hasOwnerFlag m"
  shows "room_ok (snd (snd (joinRoom m room)))"
proof -
  let ?mid = "fst (allocMemberId room)"
  let ?r1 = "snd (addMember m room)"
  let ?len = "length (r_members ?r1)"
  have mem: "members_ok (r_members ?r1) (unat (r_maxSlot room))"
    by (rule members_after_join [OF ok free new])
  then have len: "?len \<le> unat (r_maxSlot room)" unfolding members_ok_def by blast
  also have "\<dots> < 2 ^ 16" using unsigned_less [of "r_maxSlot room"] by simp
  finally have u: "unat (word_of_nat ?len :: u16) = ?len" by (simp add: unat_of_nat_small)
  have d: "qdistinct (r_members room)" by (rule room_okD [OF ok])
  have notfull: "r_flagAttr room AND FLAG_ATTR_FULL = 0"
    using room_okD(5) [OF ok] free by blast
  have flags: "hasOwnerFlag (snd p) \<longleftrightarrow> fst p = r_ownerMemberId room"
    if small: "r_maxSlot room \<le> 64" and p: "p \<in> set (r_members ?r1)" for p
  proof -
    have "length (r_members room) < 64"
      using small free by (auto simp: Room_isFull_def word_le_nat_alt)
    then have fresh: "?mid \<notin> set (qkeys (r_members room))"
      using allocMemberId_fresh [of room] ok by (fastforce simp: room_ok_def members_ok_def)
    have "p = (?mid, m\<lparr>rm_memberId := ?mid\<rparr>) \<or> p \<in> set (r_members room)"
      using p d by (auto simp: set_qinsert)
    then show ?thesis
    proof
      assume "p = (?mid, m\<lparr>rm_memberId := ?mid\<rparr>)"
      moreover have "?mid \<noteq> r_ownerMemberId room" using fresh room_okD(2) [OF ok] by metis
      ultimately show ?thesis using flag by simp
    next
      assume "p \<in> set (r_members room)"
      then show ?thesis by (rule room_okD(9) [OF ok small])
    qed
  qed
  have owner: "r_ownerMemberId room \<in> set (qkeys (r_members ?r1))"
    using room_okD(2) [OF ok] by (simp only: addMember_frame qkeys_qinsert) simp
  have base: "room_ok (RecomputeRoomSlotCounts ?r1)"
    using mem owner flags notfull ok by (simp add: room_ok_def del: addMember_frame(13))
  show ?thesis
  proof (cases "word_of_nat ?len \<ge> r_maxSlot room")
    case True
    then have "?len \<ge> unat (r_maxSlot room)" by (simp add: word_le_nat_alt u del: addMember_frame(13))
    then have "Room_isFull (RecomputeRoomSlotCounts ?r1)"
      by (simp add: Room_isFull_def del: addMember_frame(13))
    moreover have "counts_ok ((RecomputeRoomSlotCounts ?r1)\<lparr>r_flagAttr := r_flagAttr room OR FLAG_ATTR_FULL\<rparr>)"
      by (rule counts_ok_cong [OF room_okD(3) [OF base]]) (simp_all add: joinedSlotMask_def)
    ultimately show ?thesis
      using base True by (simp add: joinRoom_eqs room_ok_def Room_isFull_def del: addMember_frame(13))
  next
    case False
    then show ?thesis using base by (simp add: joinRoom_eqs del: addMember_frame(13))
  qed
qed

lemma qremove_notin: "k \<notin> set (qkeys h) \<Longrightarrow> qremove k h = h"
  by (simp add: delete_id)

lemma dropMember_eq:
  "r_ownerSuccession room = [] \<Longrightarrow> dropMember mid room = room\<lparr>r_members := qremove mid (r_members room)\<rparr>"
  by (simp add: dropMember_def removeMember_def Let_def removeAll_ids_def map_of_eq_None_iff
      qremove_notin split: option.split)

definition afterDrop :: "u16 \<Rightarrow> Room \<Rightarrow> Room" where
  \<comment> \<open>the room once a member is gone, its counts are updated and FULL is cleared\<close>
  "afterDrop mid room =
     (let r = RecomputeRoomSlotCounts (dropMember mid room)
      in r\<lparr>r_flagAttr := r_flagAttr r AND NOT FLAG_ATTR_FULL\<rparr>)"

lemma leaveRoom_eq:
  "leaveRoom mid room =
     (if r_members (dropMember mid room) = [] then None
      else Some (if mid = r_ownerMemberId room then transferOwner (afterDrop mid room)
                 else afterDrop mid room))"
  by (simp add: leaveRoom_def afterDrop_def Room_isEmpty_def Let_def)

lemma afterDrop_frame:
  assumes "r_ownerSuccession room = []"
  shows "r_members (afterDrop mid room) = qremove mid (r_members room)"
    "r_maxSlot (afterDrop mid room) = r_maxSlot room"
    "r_ownerMemberId (afterDrop mid room) = r_ownerMemberId room"
    "r_ownerSuccession (afterDrop mid room) = []"
    "r_flagAttr (afterDrop mid room) = r_flagAttr room AND NOT FLAG_ATTR_FULL"
    "r_roomId (afterDrop mid room) = r_roomId room"
    "r_worldId (afterDrop mid room) = r_worldId room"
    "r_lobbyId (afterDrop mid room) = r_lobbyId room"
    "r_searchIntAttr (afterDrop mid room) = r_searchIntAttr room"
    "r_externalBinAttr (afterDrop mid room) = r_externalBinAttr room"
    "r_internalBinAttr (afterDrop mid room) = r_internalBinAttr room"
  by (simp_all add: afterDrop_def Let_def dropMember_eq [OF assms] assms)

lemma counts_ok_afterDrop: "counts_ok (afterDrop mid room)"
  unfolding afterDrop_def Let_def
  by (rule counts_ok_cong [OF counts_ok_Recompute]) (simp_all add: joinedSlotMask_def)

lemma members_ok_afterDrop:
  "room_ok room \<Longrightarrow> members_ok (r_members (afterDrop mid room)) (unat (r_maxSlot (afterDrop mid room)))"
  by (simp add: afterDrop_frame room_okD members_ok_qremove)

lemma room_ok_afterDrop:
  assumes ok: "room_ok room" and other: "mid \<noteq> r_ownerMemberId room"
  shows "room_ok (afterDrop mid room)"
proof -
  note f = afterDrop_frame [OF room_okD(4) [OF ok]]
  have owner: "r_ownerMemberId room \<in> set (qkeys (qremove mid (r_members room)))"
    using room_okD(2) [OF ok] other by (simp only: qkeys_qremove) simp
  have flags: "hasOwnerFlag (snd p) \<longleftrightarrow> fst p = r_ownerMemberId room"
    if "r_maxSlot room \<le> 64" "p \<in> set (qremove mid (r_members room))" for p
    using that room_okD(9) [OF ok] by (auto simp: set_qremove)
  show ?thesis
    using ok members_ok_afterDrop [OF ok, of mid] counts_ok_afterDrop [of mid room] owner flags
    by (simp add: room_ok_def f)
qed

lemma slots_qmodify:
  assumes "qdistinct ms" and "\<And>m. rm_memberId (f m) = rm_memberId m"
  shows "memberSlot ` set (qvalues (qmodify k f ms)) = memberSlot ` set (qvalues ms)"
proof -
  let ?g = "\<lambda>p. (fst p, if fst p = k then f (snd p) else snd p)"
  have s: "set (qmodify k f ms) = ?g ` set ms"
    using set_qmodify [OF assms(1), of k f] by (simp add: case_prod_unfold)
  have g: "memberSlot (snd (?g p)) = memberSlot (snd p)" for p
    by (simp add: memberSlot_def assms(2))
  show ?thesis unfolding set_map s image_image g ..
qed

lemma room_ok_transferOwner:
  assumes ok: "room_ok room" and own: "mid = r_ownerMemberId room"
    and left: "r_members (dropMember mid room) \<noteq> []"
  shows "room_ok (transferOwner (afterDrop mid room))"
proof -
  note f = afterDrop_frame [OF room_okD(4) [OF ok]]
  let ?ms = "qremove mid (r_members room)" and ?r = "afterDrop mid room"
  let ?new = "rm_memberId (snd (hd ?ms))"
  let ?f = "\<lambda>om. om\<lparr>rm_flagAttr := rm_flagAttr om OR MEMBER_FLAG_ATTR_OWNER\<rparr>"
  have ne: "?ms \<noteq> []" using left by (simp add: dropMember_eq room_okD [OF ok])
  have mok: "members_ok ?ms (unat (r_maxSlot room))"
    using members_ok_afterDrop [OF ok, of mid] by (simp only: f)
  then have d: "qdistinct ?ms" by (simp add: members_ok_def)
  have hd: "hd ?ms \<in> set ?ms" using ne by simp
  then have new: "?new = fst (hd ?ms)" using mok unfolding members_ok_def by blast
  have t: "transferOwner ?r = ?r\<lparr>r_ownerSuccession := [], r_ownerMemberId := ?new,
      r_members := qmodify ?new ?f ?ms\<rparr>"
    by (simp add: transferOwner_def Let_def f)
  have slots: "memberSlot ` set (qvalues (qmodify ?new ?f ?ms)) = memberSlot ` set (qvalues ?ms)"
    by (rule slots_qmodify [OF d]) simp
  have "counts_ok (transferOwner ?r)"
    by (rule counts_ok_cong [OF counts_ok_afterDrop [of mid room]])
      (use joinedSlotMask_members [of "transferOwner ?r" ?r] in \<open>simp_all add: t f slots del: set_map\<close>)
  moreover have "members_ok (qmodify ?new ?f ?ms) (unat (r_maxSlot room))"
    by (rule members_ok_qmodify [OF mok]) simp_all
  moreover have "?new \<in> set (qkeys (qmodify ?new ?f ?ms))"
    using hd new by (simp only: qkeys_qmodify) auto
  moreover have "hasOwnerFlag (snd p) \<longleftrightarrow> fst p = ?new"
    if small: "r_maxSlot room \<le> 64" and p: "p \<in> set (qmodify ?new ?f ?ms)" for p
  proof -
    obtain k m where km: "(k, m) \<in> set ?ms" "p = (k, if k = ?new then ?f m else m)"
      using p set_qmodify [OF d, of ?new ?f] by auto
    then have "k \<noteq> mid" "(k, m) \<in> set (r_members room)" by (auto simp: set_qremove)
    then have "\<not> hasOwnerFlag m" using room_okD(9) [OF ok small] own by force
    with km show ?thesis by simp
  qed
  ultimately show ?thesis
    using ok by (simp add: room_ok_def t f)
qed

lemma room_ok_leaveRoom: "room_ok room \<Longrightarrow> leaveRoom mid room = Some room' \<Longrightarrow> room_ok room'"
  using room_ok_afterDrop room_ok_transferOwner by (auto simp: leaveRoom_eq split: if_splits)

lemma room_ok_blockedUsers: "room_ok room \<Longrightarrow> room_ok (room\<lparr>r_blockedUsers := us\<rparr>)"
proof -
  assume ok: "room_ok room"
  have "counts_ok (room\<lparr>r_blockedUsers := us\<rparr>)"
    by (rule counts_ok_cong [OF room_okD(3) [OF ok]]) (simp_all add: joinedSlotMask_def)
  with ok show ?thesis by (simp add: room_ok_def Room_isFull_def)
qed

lemma room_ok_kickMember:
  "room_ok room \<Longrightarrow> mid \<noteq> r_ownerMemberId room \<Longrightarrow> room_ok (kickMember b mid target room)"
  using room_ok_afterDrop [of room mid]
    room_ok_afterDrop [of "room\<lparr>r_blockedUsers := r_blockedUsers room @ [rm_npid target]\<rparr>" mid]
  by (simp add: kickMember_def Let_def afterDrop_def room_ok_blockedUsers)

lemma createRoomBase_form:
  "\<exists>r. attrs_only r (createRoomBase req ms rid maxSlot) \<and> r_members r = [] \<and> r_maxSlot r = maxSlot \<and>
     r_ownerSuccession r = [] \<and> r_flagAttr r AND FLAG_ATTR_FULL = 0 \<and>
     length (r_searchIntAttr r) = 8 \<and> length (r_externalBinAttr r) = 2 \<and>
     length (r_internalBinAttr r) = 2 \<and> r_roomId r = rid \<and> r_memberIdCounter r = 0"
  unfolding createRoomBase_def Let_def
  by (rule exI, rule conjI, rule attrs_only_fold, rule attrs_only_ops) (simp add: Room_default_def)

lemma createRoomBase_facts:
  fixes req ms rid maxSlot
  defines "r \<equiv> createRoomBase req ms rid maxSlot"
  shows "r_members r = []" "r_maxSlot r = maxSlot" "r_ownerSuccession r = []"
    "r_flagAttr r AND FLAG_ATTR_FULL = 0" "length (r_searchIntAttr r) = 8"
    "length (r_externalBinAttr r) = 2" "length (r_internalBinAttr r) = 2" "r_roomId r = rid"
    "r_memberIdCounter r = 0"
  using createRoomBase_form [of req ms rid maxSlot] unfolding r_def
  by (auto simp: attrs_only_frame)

lemma createOwner_room:
  "\<exists>gs. snd (createOwner req info addr now room) = room\<lparr>r_groups := gs\<rparr>"
proof (cases "r_groups room = []")
  case True
  then have "snd (createOwner req info addr now room) = room\<lparr>r_groups := r_groups room\<rparr>"
    by (simp add: createOwner_def Let_def)
  then show ?thesis by blast
next
  case False
  then show ?thesis by (auto simp: createOwner_def Let_def)
qed

lemma setMemberBinAttr_frame [simp]:
  "rm_flagAttr (setMemberBinAttr as d m) = rm_flagAttr m" "rm_npid (setMemberBinAttr as d m) = rm_npid m"
  "rm_userId (setMemberBinAttr as d m) = rm_userId m"
  "hasOwnerFlag (setMemberBinAttr as d m) = hasOwnerFlag m"
  by (simp_all add: setMemberBinAttr_def hasOwnerFlag_def split: list.split)

lemma createOwner_member:
  "rm_flagAttr (fst (createOwner req info addr now room)) = MEMBER_FLAG_ATTR_OWNER"
  "rm_npid (fst (createOwner req info addr now room)) = ci_npid info"
  "rm_userId (fst (createOwner req info addr now room)) = ci_userId info"
  by (simp_all add: createOwner_def Let_def)

text \<open>The new room before its slot counts: one member, the owner.\<close>

lemma createRoom_form:
  assumes "createRoom req cs sh now rid maxSlot = (member, room)"
  obtains r proto gs base where
    "base = (createRoomBase req (cs_matching cs) rid maxSlot)\<lparr>r_groups := gs\<rparr>"
    "rm_flagAttr proto = MEMBER_FLAG_ATTR_OWNER" "rm_npid proto = my_npid cs"
    "member = fst (addMember proto base)"
    "attrs_only ((snd (addMember proto base))\<lparr>r_ownerMemberId := rm_memberId member\<rparr>) r"
    "room = RecomputeRoomSlotCounts r"
proof -
  let ?b = "createRoomBase req (cs_matching cs) rid maxSlot"
  let ?o = "createOwner req (cs_info cs) (GetSelfSignalingAddr sh cs) now ?b"
  obtain gs where gs: "snd ?o = ?b\<lparr>r_groups := gs\<rparr>" using createOwner_room by blast
  let ?m = "addMember (fst ?o) (snd ?o)"
  let ?r3 = "(snd ?m)\<lparr>r_ownerMemberId := rm_memberId (fst ?m)\<rparr>"
  let ?r4 = "fold (applyCreateBinAttr (rm_joinDate (fst ?m)) (rm_memberId (fst ?m)))
      (crq_internal_bin_attrs req @ crq_external_search_bin_attrs req @ crq_external_bin_attrs req) ?r3"
  have "createRoom req cs sh now rid maxSlot = (fst ?m, RecomputeRoomSlotCounts ?r4)"
    by (simp only: createRoom_def Let_def case_prod_unfold)
  then have "member = fst ?m" "room = RecomputeRoomSlotCounts ?r4" using assms by simp_all
  moreover have "attrs_only ?r3 ?r4" by (rule attrs_only_fold) (rule attrs_only_ops)
  ultimately show thesis
    using that [of "?b\<lparr>r_groups := gs\<rparr>" gs "fst ?o" ?r4] createOwner_member gs by metis
qed

lemma room_ok_createRoom:
  assumes c: "createRoom req cs sh now rid maxSlot = (member, room)" and pos: "maxSlot \<noteq> 0"
  shows "room_ok room" and "r_roomId room = rid" and "r_maxSlot room = maxSlot"
    and "r_members room = [(rm_memberId member, member)]" and "rm_npid member = my_npid cs"
    and "r_ownerMemberId room = rm_memberId member"
proof -
  from c obtain r proto gs base where
    base: "base = (createRoomBase req (cs_matching cs) rid maxSlot)\<lparr>r_groups := gs\<rparr>"
    and p: "rm_flagAttr proto = MEMBER_FLAG_ATTR_OWNER" "rm_npid proto = my_npid cs"
    and m: "member = fst (addMember proto base)"
    and a: "attrs_only ((snd (addMember proto base))\<lparr>r_ownerMemberId := rm_memberId member\<rparr>) r"
    and room: "room = RecomputeRoomSlotCounts r"
    by (rule createRoom_form)
  note f = attrs_only_frame [OF a]
  have mem: "r_members r = [(rm_memberId member, member)]"
    by (simp add: f m base createRoomBase_facts)
  have "members_ok (r_members (snd (addMember proto base))) (unat maxSlot)"
    using pos by (intro members_ok_addMember)
      (simp_all add: base createRoomBase_facts members_ok_def unat_gt_0)
  then have "members_ok (r_members r) (unat maxSlot)" by (simp add: f)
  moreover have "hasOwnerFlag member"
    by (simp add: hasOwnerFlag_def m p MEMBER_FLAG_ATTR_OWNER_def)
  moreover have "r_maxSlot r = maxSlot" by (simp add: f base createRoomBase_facts)
  ultimately show "room_ok room"
    by (simp add: room room_ok_def mem f base createRoomBase_facts)
  show "r_roomId room = rid" "r_maxSlot room = maxSlot" "r_ownerMemberId room = rm_memberId member"
    by (simp_all add: room f base createRoomBase_facts)
  show "r_members room = [(rm_memberId member, member)]" by (simp add: room mem)
  show "rm_npid member = my_npid cs" by (simp add: m p)
qed

end
