(* ===== verification/Matching.thy ===== *)
theory Matching
  imports RoomInvariant
begin

text \<open>
  The matching service as a machine: every matching command of every connection is a step on
  the shared state and the sessions. The room invariant and the consistency of the world and
  lobby indexes hold in every reachable state.
\<close>

subsection \<open>Indexes\<close>

definition worldOf :: "Room \<Rightarrow> u32 option" where
  "worldOf room = (if r_worldId room \<noteq> 0 then Some (r_worldId room) else None)"

definition lobbyOf :: "Room \<Rightarrow> u64 option" where
  "lobbyOf room = (if r_worldId room = 0 \<and> r_lobbyId room \<noteq> 0 then Some (r_lobbyId room) else None)"

definition index_ok ::
  "(ComId \<times> u64, Room) qhash \<Rightarrow> (Room \<Rightarrow> 'w option) \<Rightarrow> (ComId \<times> 'w, u64 list) qhash \<Rightarrow> bool" where
  \<comment> \<open>an index entry lists, once each, the rooms whose world (lobby) it is\<close>
  "index_ok rooms sel idx \<longleftrightarrow>
     (\<forall>key w. distinct (qvalue idx (key, w) []) \<and>
        (\<forall>rid. rid \<in> set (qvalue idx (key, w) []) \<longleftrightarrow>
           (case qfind rooms (key, rid) of None \<Rightarrow> False | Some room \<Rightarrow> sel room = Some w)))"

definition matching_ok :: "MatchingSharedState \<Rightarrow> bool" where
  [inv_defs]: "matching_ok mx \<longleftrightarrow>
     qdistinct (mx_rooms mx) \<and>
     (\<forall>e \<in> set (mx_rooms mx). room_ok (snd e) \<and> r_roomId (snd e) = snd (fst e)
        \<and> snd (fst e) < mx_nextRoomId mx) \<and>
     index_ok (mx_rooms mx) worldOf (mx_worldRooms mx) \<and>
     index_ok (mx_rooms mx) lobbyOf (mx_lobbyRooms mx)"

lemma qvalue_qat_update:
  "qvalue (qat_update k d f h) k' d = (if k' = k then f (qvalue h k d) else qvalue h k' d)"
  by (simp add: qfind_qat_update)

lemma index_ok_insert:
  assumes ok: "index_ok rooms sel idx" and new: "qfind rooms (key, rid) = None" and w: "sel room = Some w"
  shows "index_ok (qinsert (key, rid) room rooms) sel (qat_update (key, w) [] (\<lambda>ids. ids @ [rid]) idx)"
  unfolding index_ok_def qvalue_qat_update qfind_qinsert
proof (intro allI conjI)
  fix key' w'
  let ?l = "qvalue idx (key', w') []"
  have d: "distinct ?l" and m: "x \<in> set ?l \<longleftrightarrow>
      (case qfind rooms (key', x) of None \<Rightarrow> False | Some room \<Rightarrow> sel room = Some w')" for x
    using ok unfolding index_ok_def by blast+
  have "rid \<notin> set (qvalue idx (key, w) [])"
    using ok new unfolding index_ok_def by (metis option.case(1))
  then show "distinct (if (key', w') = (key, w) then qvalue idx (key, w) [] @ [rid] else ?l)"
    using d by auto
  fix x
  show "x \<in> set (if (key', w') = (key, w) then qvalue idx (key, w) [] @ [rid] else ?l) \<longleftrightarrow>
      (case if (key', x) = (key, rid) then Some room else qfind rooms (key', x) of
         None \<Rightarrow> False | Some room \<Rightarrow> sel room = Some w')"
    using m [of x] new w by (cases "key' = key"; cases "w' = w"; cases "x = rid") simp_all
qed

lemma index_ok_insert_None:
  "index_ok rooms sel idx \<Longrightarrow> qfind rooms (key, rid) = None \<Longrightarrow> sel room = None
     \<Longrightarrow> index_ok (qinsert (key, rid) room rooms) sel idx"
  unfolding index_ok_def qfind_qinsert by (simp split: if_splits)

lemma index_ok_update:
  "index_ok rooms sel idx \<Longrightarrow> qfind rooms (key, rid) = Some old \<Longrightarrow> sel room = sel old
     \<Longrightarrow> index_ok (qinsert (key, rid) room rooms) sel idx"
  unfolding index_ok_def qfind_qinsert by (simp split: if_splits)

lemma index_ok_remove:
  assumes ok: "index_ok rooms sel idx" and old: "qfind rooms (key, rid) = Some room" and w: "sel room = Some w"
  shows "index_ok (qremove (key, rid) rooms) sel (qat_update (key, w) [] (removeAll_ids rid) idx)"
  unfolding index_ok_def qvalue_qat_update qfind_qremove
proof (intro allI conjI)
  fix key' w'
  let ?l = "qvalue idx (key', w') []"
  have d: "distinct ?l" and m: "x \<in> set ?l \<longleftrightarrow>
      (case qfind rooms (key', x) of None \<Rightarrow> False | Some room \<Rightarrow> sel room = Some w')" for x
    using ok unfolding index_ok_def by blast+
  have "distinct (removeAll_ids rid (qvalue idx (key, w) []))"
    using ok unfolding index_ok_def removeAll_ids_def by simp
  then show "distinct (if (key', w') = (key, w) then removeAll_ids rid (qvalue idx (key, w) []) else ?l)"
    using d by auto
  fix x
  show "x \<in> set (if (key', w') = (key, w) then removeAll_ids rid (qvalue idx (key, w) []) else ?l) \<longleftrightarrow>
      (case if (key', x) = (key, rid) then None else qfind rooms (key', x) of
         None \<Rightarrow> False | Some room \<Rightarrow> sel room = Some w')"
    using m [of x] old w by (cases "key' = key"; cases "w' = w"; cases "x = rid") simp_all
qed

lemma index_ok_remove_None:
  "index_ok rooms sel idx \<Longrightarrow> qfind rooms (key, rid) = Some room \<Longrightarrow> sel room = None
     \<Longrightarrow> index_ok (qremove (key, rid) rooms) sel idx"
  unfolding index_ok_def qfind_qremove by (auto split: if_splits option.splits)

subsection \<open>Steps on the room table\<close>

lemma matching_okD:
  assumes "matching_ok mx"
  shows "qdistinct (mx_rooms mx)"
    and "qfind (mx_rooms mx) (key, rid) = Some room \<Longrightarrow> room_ok room"
    and "qfind (mx_rooms mx) (key, rid) = Some room \<Longrightarrow> r_roomId room = rid"
    and "qfind (mx_rooms mx) (key, rid) = Some room \<Longrightarrow> rid < mx_nextRoomId mx"
    and "index_ok (mx_rooms mx) worldOf (mx_worldRooms mx)"
    and "index_ok (mx_rooms mx) lobbyOf (mx_lobbyRooms mx)"
  using assms by (force simp: matching_ok_def dest: map_of_SomeD)+

lemma matching_ok_next_fresh: "matching_ok mx \<Longrightarrow> qfind (mx_rooms mx) (key, mx_nextRoomId mx) = None"
  using matching_okD(4) by (metis not_None_eq order_less_irrefl)

lemma matching_ok_set_room:
  assumes ok: "matching_ok mx" and old: "qfind (mx_rooms mx) (key, rid) = Some old"
    and new: "room_ok room" "r_roomId room = r_roomId old" "r_worldId room = r_worldId old"
      "r_lobbyId room = r_lobbyId old"
  shows "matching_ok (mx\<lparr>mx_rooms := qinsert (key, rid) room (mx_rooms mx)\<rparr>)"
proof -
  have "worldOf room = worldOf old" "lobbyOf room = lobbyOf old"
    using new by (simp_all add: worldOf_def lobbyOf_def)
  then have idx: "index_ok (qinsert (key, rid) room (mx_rooms mx)) worldOf (mx_worldRooms mx)"
    "index_ok (qinsert (key, rid) room (mx_rooms mx)) lobbyOf (mx_lobbyRooms mx)"
    by (simp_all add: index_ok_update [OF matching_okD(5) [OF ok] old] index_ok_update [OF matching_okD(6) [OF ok] old])
  have "e \<in> set (mx_rooms mx) \<or> e = ((key, rid), room)" if "e \<in> set (qinsert (key, rid) room (mx_rooms mx))" for e
    using that set_qinsert [OF matching_okD(1) [OF ok]] by auto
  then have "\<forall>e \<in> set (qinsert (key, rid) room (mx_rooms mx)). room_ok (snd e) \<and> r_roomId (snd e) = snd (fst e)
      \<and> snd (fst e) < mx_nextRoomId mx"
    using ok new matching_okD(3,4) [OF ok old] by (fastforce simp: matching_ok_def)
  with idx ok show ?thesis by (simp add: matching_ok_def)
qed

lemma indexRoom_frame [simp]:
  "mx_rooms (indexRoom key w l f mx) = mx_rooms mx"
  "mx_nextRoomId (indexRoom key w l f mx) = mx_nextRoomId mx"
  "mx_udpExt (indexRoom key w l f mx) = mx_udpExt mx"
  by (simp_all add: indexRoom_def)

lemma matching_ok_destroy:
  assumes ok: "matching_ok mx" and old: "qfind (mx_rooms mx) (key, rid) = Some room"
  shows "matching_ok (indexRoom key (r_worldId room) (r_lobbyId room) (removeAll_ids rid)
           (mx\<lparr>mx_rooms := qremove (key, rid) (mx_rooms mx)\<rparr>))"
proof -
  note W = matching_okD(5) [OF ok] and L = matching_okD(6) [OF ok]
  have "\<forall>e \<in> set (qremove (key, rid) (mx_rooms mx)). room_ok (snd e) \<and> r_roomId (snd e) = snd (fst e)
      \<and> snd (fst e) < mx_nextRoomId mx"
    using ok by (auto simp: matching_ok_def set_qremove)
  then show ?thesis
    using ok old index_ok_remove [OF W old] index_ok_remove_None [OF W old]
      index_ok_remove [OF L old] index_ok_remove_None [OF L old]
    by (simp add: matching_ok_def indexRoom_def worldOf_def lobbyOf_def)
qed

lemma matching_ok_create:
  assumes ok: "matching_ok mx" and room: "room_ok room" "r_roomId room = mx_nextRoomId mx"
    and wrap: "unat (mx_nextRoomId mx) < 2 ^ 64 - 1"
  shows "matching_ok (indexRoom key (r_worldId room) (r_lobbyId room) (\<lambda>ids. ids @ [mx_nextRoomId mx])
           (mx\<lparr>mx_nextRoomId := mx_nextRoomId mx + 1,
              mx_rooms := qinsert (key, mx_nextRoomId mx) room (mx_rooms mx)\<rparr>))"
proof -
  let ?n = "mx_nextRoomId mx"
  note W = matching_okD(5) [OF ok] and L = matching_okD(6) [OF ok]
    and new = matching_ok_next_fresh [OF ok, of key]
  have n: "unat (?n + 1) = Suc (unat ?n)"
    using wrap by (simp add: unat_word_ariths)
  have "x < ?n + 1 \<longleftrightarrow> x < ?n \<or> x = ?n" for x
    by (simp add: word_less_nat_alt n less_Suc_eq word_unat_eq_iff)
  moreover have "e \<in> set (mx_rooms mx) \<or> e = ((key, ?n), room)"
    if "e \<in> set (qinsert (key, ?n) room (mx_rooms mx))" for e
    using that set_qinsert [OF matching_okD(1) [OF ok]] by auto
  ultimately have "\<forall>e \<in> set (qinsert (key, ?n) room (mx_rooms mx)). room_ok (snd e)
      \<and> r_roomId (snd e) = snd (fst e) \<and> snd (fst e) < ?n + 1"
    using ok room by (fastforce simp: matching_ok_def)
  then show ?thesis
    using ok index_ok_insert [OF W new] index_ok_insert_None [OF W new]
      index_ok_insert [OF L new] index_ok_insert_None [OF L new]
    by (simp add: matching_ok_def indexRoom_def worldOf_def lobbyOf_def)
qed

subsection \<open>The commands keep the invariant\<close>

definition res_error :: "'r result \<Rightarrow> ErrorType" where "res_error r = fst (fst r)"
definition res_reply :: "'r result \<Rightarrow> 'r option" where "res_reply r = snd (fst r)"
definition res_session :: "'r result \<Rightarrow> ClientSession" where "res_session r = fst (snd r)"
definition res_shared :: "'r result \<Rightarrow> SharedState" where "res_shared r = fst (snd (snd r))"
definition res_outs :: "'r result \<Rightarrow> out list" where "res_outs r = snd (snd (snd r))"

lemma res_simps [simp]:
  "res_error ((e, rep), cs, sh, outs) = e" "res_reply ((e, rep), cs, sh, outs) = rep"
  "res_session ((e, rep), cs, sh, outs) = cs" "res_shared ((e, rep), cs, sh, outs) = sh"
  "res_outs ((e, rep), cs, sh, outs) = outs"
  by (simp_all add: res_error_def res_reply_def res_session_def res_shared_def res_outs_def)

lemma matching_setClientContext [simp]: "ss_matching (setClientContext u c sh) = ss_matching sh"
  by (simp add: setClientContext_def)

lemma createMaxSlot_pos: "createMaxSlot req \<noteq> 0"
  by (simp add: createMaxSlot_def Let_def)

lemma CmdCreateRoom_ok:
  assumes ok: "matching_ok (ss_matching sh)" and wrap: "unat (mx_nextRoomId (ss_matching sh)) < 2 ^ 64 - 1"
  shows "matching_ok (ss_matching (res_shared (CmdCreateRoom req nowMs cs sh)))"
proof (cases req)
  case None
  with ok show ?thesis by (simp add: CmdCreateRoom_def)
next
  case (Some q)
  let ?rid = "mx_nextRoomId (ss_matching sh)"
  obtain member room where c:
    "createRoom q cs sh (MatchingTimestampUsec nowMs) ?rid (createMaxSlot q) = (member, room)"
    by fastforce
  note r = room_ok_createRoom [OF c createMaxSlot_pos]
  show ?thesis
    using matching_ok_create [OF ok r(1,2) wrap, of "my_key cs"]
    by (simp add: CmdCreateRoom_def Some c Let_def)
qed

lemma findByNpid_None: "findByNpid room npid = None \<longleftrightarrow> (\<forall>p \<in> set (r_members room). rm_npid (snd p) \<noteq> npid)"
  by (simp add: findByNpid_def find_None_iff)

lemma findByNpid_Some:
  "room_ok room \<Longrightarrow> findByNpid room npid = Some m \<Longrightarrow>
     (rm_memberId m, m) \<in> set (r_members room) \<and> rm_npid m = npid"
  by (force simp: findByNpid_def room_ok_def members_ok_def dest!: find_SomeD)

lemma createJoiner_frame [simp]:
  "rm_npid (createJoiner req info addr now) = ci_npid info"
  "rm_userId (createJoiner req info addr now) = ci_userId info"
  "\<not> hasOwnerFlag (createJoiner req info addr now)"
  by (simp_all add: createJoiner_def) (simp add: hasOwnerFlag_def RoomMember_default_def)

lemma joinRefusal_None:
  "joinRefusal req info room = None \<Longrightarrow> \<not> Room_isFull room \<and>
     newcomer (createJoiner req info addr now) room"
  by (auto simp: joinRefusal_def newcomer_def findByNpid_None split: if_splits)

lemma joinRoom_frame [simp]:
  "r_roomId (snd (snd (joinRoom m r))) = r_roomId r" "r_worldId (snd (snd (joinRoom m r))) = r_worldId r"
  "r_lobbyId (snd (snd (joinRoom m r))) = r_lobbyId r" "r_maxSlot (snd (snd (joinRoom m r))) = r_maxSlot r"
  "r_ownerMemberId (snd (snd (joinRoom m r))) = r_ownerMemberId r"
  "fst (joinRoom m r) = fst (addMember m r)"
  "r_members (snd (snd (joinRoom m r))) = r_members (snd (addMember m r))"
  by (simp_all add: joinRoom_eqs)

lemma CmdJoinRoom_ok:
  assumes ok: "matching_ok (ss_matching sh)"
  shows "matching_ok (ss_matching (res_shared (CmdJoinRoom req nowMs cs sh)))"
proof (cases req)
  case None
  with ok show ?thesis by (simp add: CmdJoinRoom_def)
next
  case (Some q)
  show ?thesis
  proof (cases "qfind (rooms_of sh) (my_key cs, jrq_room_id q)")
    case None
    with ok Some show ?thesis by (simp add: CmdJoinRoom_def Let_def)
  next
    case room: (Some room)
    show ?thesis
    proof (cases "joinRefusal q (cs_info cs) room")
      case None
      let ?m = "createJoiner q (cs_info cs) (GetSelfSignalingAddr sh cs) (MatchingTimestampUsec nowMs)"
      have "room_ok (snd (snd (joinRoom ?m room)))"
        using joinRefusal_None [OF None] matching_okD(2) [OF ok room] by (intro room_ok_joinRoom) simp_all
      then have "matching_ok ((ss_matching sh)\<lparr>mx_rooms :=
          qinsert (my_key cs, jrq_room_id q) (snd (snd (joinRoom ?m room))) (rooms_of sh)\<rparr>)"
        by (intro matching_ok_set_room [OF ok room]) simp_all
      then show ?thesis
        by (simp add: CmdJoinRoom_def Some room None Let_def case_prod_unfold)
    next
      case (Some e)
      with ok \<open>req = Some q\<close> room show ?thesis by (simp add: CmdJoinRoom_def Let_def)
    qed
  qed
qed

lemma transferOwner_frame [simp]:
  "r_roomId (transferOwner r) = r_roomId r" "r_worldId (transferOwner r) = r_worldId r"
  "r_lobbyId (transferOwner r) = r_lobbyId r" "r_flagAttr (transferOwner r) = r_flagAttr r"
  "r_maxSlot (transferOwner r) = r_maxSlot r"
  by (simp_all add: transferOwner_def Let_def split: prod.split)

lemma leaveRoom_frame:
  assumes "room_ok room" and "leaveRoom mid room = Some room'"
  shows "r_roomId room' = r_roomId room" "r_worldId room' = r_worldId room"
    "r_lobbyId room' = r_lobbyId room"
  using assms afterDrop_frame [OF room_okD(4) [OF assms(1)]]
  by (auto simp: leaveRoom_eq split: if_splits)

lemma leaveRoomShared_ok:
  assumes ok: "matching_ok (ss_matching sh)" and room: "qfind (rooms_of sh) (key, rid) = Some room"
  shows "matching_ok (ss_matching (snd (leaveRoomShared key rid mid room sh)))"
proof (cases "leaveRoom mid room")
  case None
  then show ?thesis
    using matching_ok_destroy [OF ok room] by (simp add: leaveRoomShared_def)
next
  case (Some room')
  note rok = matching_okD(2) [OF ok room]
  show ?thesis
    using matching_ok_set_room [OF ok room room_ok_leaveRoom [OF rok Some] leaveRoom_frame [OF rok Some]]
    by (simp add: leaveRoomShared_def Some)
qed

lemma CmdLeaveRoom_ok:
  "matching_ok (ss_matching sh) \<Longrightarrow> matching_ok (ss_matching (res_shared (CmdLeaveRoom req cs sh)))"
  using leaveRoomShared_ok
  by (auto simp: CmdLeaveRoom_def Let_def case_prod_unfold split: option.split)

lemma DoLeaveRoom_ok:
  "matching_ok (ss_matching sh) \<Longrightarrow> matching_ok (ss_matching (fst (snd (DoLeaveRoom rid cs sh))))"
  using leaveRoomShared_ok
  by (auto simp: DoLeaveRoom_def Let_def case_prod_unfold split: option.split)

lemma CleanupMatchingOnDisconnect_ok:
  "matching_ok (ss_matching sh) \<Longrightarrow>
     matching_ok (ss_matching (fst (snd (CleanupMatchingOnDisconnect cs sh))))"
  by (simp add: CleanupMatchingOnDisconnect_def DoLeaveRoom_ok)

lemma kickMember_frame [simp]:
  assumes "r_ownerSuccession room = []"
  shows "r_roomId (kickMember b mid t room) = r_roomId room"
    "r_worldId (kickMember b mid t room) = r_worldId room"
    "r_lobbyId (kickMember b mid t room) = r_lobbyId room"
    "r_ownerMemberId (kickMember b mid t room) = r_ownerMemberId room"
    "r_maxSlot (kickMember b mid t room) = r_maxSlot room"
    "r_members (kickMember b mid t room) = qremove mid (r_members room)"
  using assms by (simp_all add: kickMember_def Let_def dropMember_eq)

lemma CmdKickoutRoomMember_ok:
  assumes ok: "matching_ok (ss_matching sh)"
  shows "matching_ok (ss_matching (res_shared (CmdKickoutRoomMember req cs sh)))"
proof -
  have "matching_ok ((ss_matching sh)\<lparr>mx_rooms :=
      qinsert (my_key cs, rid) (kickMember b mid t room) (rooms_of sh)\<rparr>)"
    if room: "qfind (rooms_of sh) (my_key cs, rid) = Some room" and "mid \<noteq> r_ownerMemberId room"
    for rid room b mid t
    using that matching_okD(2) [OF ok room]
    by (intro matching_ok_set_room [OF ok room]) (simp_all add: room_ok_kickMember room_okD)
  with ok show ?thesis
    by (auto simp: CmdKickoutRoomMember_def Let_def split: option.split)
qed

lemma setInternalFlags_frame [simp]:
  "r_roomId (setInternalFlags ff fa r) = r_roomId r" "r_worldId (setInternalFlags ff fa r) = r_worldId r"
  "r_lobbyId (setInternalFlags ff fa r) = r_lobbyId r" "r_members (setInternalFlags ff fa r) = r_members r"
  "r_ownerMemberId (setInternalFlags ff fa r) = r_ownerMemberId r"
  "r_maxSlot (setInternalFlags ff fa r) = r_maxSlot r"
  by (simp_all add: setInternalFlags_def Let_def)

lemma setInternalFlags_FULL:
  "r_flagAttr (setInternalFlags ff fa r) AND FLAG_ATTR_FULL = r_flagAttr r AND FLAG_ATTR_FULL"
  by (rule bit_word_eqI) (auto simp: setInternalFlags_def Let_def bit_simps)

lemma room_ok_setInternalFlags: "room_ok r \<Longrightarrow> room_ok (setInternalFlags ff fa r)"
  using room_ok_flags [of r "r_flagAttr (setInternalFlags ff fa r)"] setInternalFlags_FULL [of ff fa r]
  by (simp add: setInternalFlags_def Let_def)

lemma CmdSetRoomDataInternal_ok:
  assumes ok: "matching_ok (ss_matching sh)"
  shows "matching_ok (ss_matching (res_shared (CmdSetRoomDataInternal req nowMs cs sh)))"
proof (cases req)
  case None
  with ok show ?thesis by (simp add: CmdSetRoomDataInternal_def)
next
  case (Some q)
  show ?thesis
  proof (cases "qfind (rooms_of sh) (my_key cs, siq_room_id q)")
    case None
    with ok Some show ?thesis by (simp add: CmdSetRoomDataInternal_def Let_def)
  next
    case room: (Some room)
    let ?r1 = "setInternalFlags (siq_flag_filter q) (siq_flag_attr q) room"
    let ?r2 = "if siq_has_passwd_mask q
               then RecomputeRoomSlotCounts (?r1\<lparr>r_passwdSlotMask := siq_passwd_slot_mask q\<rparr>) else ?r1"
    have r1: "room_ok ?r1" by (rule room_ok_setInternalFlags [OF matching_okD(2) [OF ok room]])
    then have r2: "room_ok ?r2" using room_ok_recount by auto
    have f2: "r_roomId ?r2 = r_roomId room" "r_worldId ?r2 = r_worldId room" "r_lobbyId ?r2 = r_lobbyId room"
      by simp_all
    let ?r3 = "\<lambda>i. snd (setInternalBinAttrs (siq_bin_attrs q) (MatchingTimestampUsec nowMs) i ?r2)"
    have "matching_ok ((ss_matching sh)\<lparr>mx_rooms :=
        qinsert (my_key cs, siq_room_id q) (?r3 i) (rooms_of sh)\<rparr>)" for i
    proof (rule matching_ok_set_room [OF ok room])
      note a = attrs_only_setInternalBinAttrs [of ?r2 "siq_bin_attrs q" "MatchingTimestampUsec nowMs" i]
      show "room_ok (?r3 i)" by (rule room_ok_attrs_only [OF r2 a])
      show "r_roomId (?r3 i) = r_roomId room" "r_worldId (?r3 i) = r_worldId room"
        "r_lobbyId (?r3 i) = r_lobbyId room"
        using attrs_only_frame [OF a] f2 by metis+
    qed
    then show ?thesis
      by (simp add: CmdSetRoomDataInternal_def Some room Let_def case_prod_unfold)
  qed
qed

lemma CmdSetRoomDataExternal_ok:
  assumes ok: "matching_ok (ss_matching sh)"
  shows "matching_ok (ss_matching (res_shared (CmdSetRoomDataExternal req cs sh)))"
proof -
  have a: "attrs_only r (fold setExternalBinAttr es (fold setSearchBinAttr bs (fold setSearchIntAttr is r)))"
    for es bs "is" r
    by (rule attrs_only_trans [OF attrs_only_trans [OF
          attrs_only_fold [where f = setSearchIntAttr, OF attrs_only_ops(1)]
          attrs_only_fold [where f = setSearchBinAttr, OF attrs_only_ops(2)]]
          attrs_only_fold [where f = setExternalBinAttr, OF attrs_only_ops(3)]])
  have "matching_ok ((ss_matching sh)\<lparr>mx_rooms := qinsert (my_key cs, rid)
      (fold setExternalBinAttr es (fold setSearchBinAttr bs (fold setSearchIntAttr is room))) (rooms_of sh)\<rparr>)"
    if room: "qfind (rooms_of sh) (my_key cs, rid) = Some room" for rid room es bs "is"
    by (rule matching_ok_set_room [OF ok room room_ok_attrs_only [OF matching_okD(2) [OF ok room] a]
        attrs_only_frame(5-7) [OF a]])
  with ok show ?thesis
    by (auto simp: CmdSetRoomDataExternal_def Let_def split: option.split)
qed

lemma CmdSetUserInfo_ok:
  "matching_ok (ss_matching sh) \<Longrightarrow> matching_ok (ss_matching (res_shared (CmdSetUserInfo req cs sh)))"
  by (auto simp: CmdSetUserInfo_def Let_def matching_ok_def split: option.split)

lemma Context_ok:
  "matching_ok (ss_matching sh) \<Longrightarrow> matching_ok (ss_matching (res_shared (CmdContextStart c cs sh)))"
  "matching_ok (ss_matching sh) \<Longrightarrow> matching_ok (ss_matching (res_shared (CmdContextStop c cs sh)))"
  by (auto simp: CmdContextStart_def CmdContextStop_def split: option.split)

subsection \<open>The machine\<close>

text \<open>
  The state is the shared state and the session of every connection. Besides the commands, the
  machine has the steps by which the rest of the server changes what the commands read: a login
  (a session gets its user, key and address), the client table, and the address table the STUN
  server fills. The read-only commands leave the state as it is.
\<close>

record server =
  sv_shared :: SharedState
  sv_session :: "nat \<Rightarrow> ClientSession"

datatype matching_event =
    EvContextStart nat "u32 option"
  | EvContextStop nat "u32 option"
  | EvCreateRoom nat "CreateRoomRequest option" int
  | EvJoinRoom nat "JoinRoomRequest option" int
  | EvLeaveRoom nat "u64 option"
  | EvKickoutRoomMember nat "KickoutRoomMemberRequest option"
  | EvSetRoomDataInternal nat "SetRoomDataInternalRequest option" int
  | EvSetRoomDataExternal nat "SetRoomDataExternalRequest option"
  | EvSetUserInfo nat "MatchingBinAttr list option"
  | EvSendRoomMessage nat "SendRoomMessageRequest option"
  | EvDisconnect nat
  | EvSession nat ClientSession
  | EvClients "(userid, ClientEntry) qhash" "(qstring, userid) qhash"
  | EvUdpExt qstring "qstring \<times> u16"

definition apply_result :: "nat \<Rightarrow> 'r result \<Rightarrow> server \<Rightarrow> server" where
  "apply_result c r sv = sv\<lparr>sv_shared := res_shared r, sv_session := (sv_session sv)(c := res_session r)\<rparr>"

fun matching_step :: "server \<Rightarrow> matching_event \<Rightarrow> server" where
  "matching_step sv (EvContextStart c q) =
     apply_result c (CmdContextStart q (sv_session sv c) (sv_shared sv)) sv"
| "matching_step sv (EvContextStop c q) =
     apply_result c (CmdContextStop q (sv_session sv c) (sv_shared sv)) sv"
| "matching_step sv (EvCreateRoom c q t) =
     apply_result c (CmdCreateRoom q t (sv_session sv c) (sv_shared sv)) sv"
| "matching_step sv (EvJoinRoom c q t) =
     apply_result c (CmdJoinRoom q t (sv_session sv c) (sv_shared sv)) sv"
| "matching_step sv (EvLeaveRoom c q) =
     apply_result c (CmdLeaveRoom q (sv_session sv c) (sv_shared sv)) sv"
| "matching_step sv (EvKickoutRoomMember c q) =
     apply_result c (CmdKickoutRoomMember q (sv_session sv c) (sv_shared sv)) sv"
| "matching_step sv (EvSetRoomDataInternal c q t) =
     apply_result c (CmdSetRoomDataInternal q t (sv_session sv c) (sv_shared sv)) sv"
| "matching_step sv (EvSetRoomDataExternal c q) =
     apply_result c (CmdSetRoomDataExternal q (sv_session sv c) (sv_shared sv)) sv"
| "matching_step sv (EvSetUserInfo c q) =
     apply_result c (CmdSetUserInfo q (sv_session sv c) (sv_shared sv)) sv"
| "matching_step sv (EvSendRoomMessage c q) =
     apply_result c (CmdSendRoomMessage q (sv_session sv c) (sv_shared sv)) sv"
| "matching_step sv (EvDisconnect c) =
     (let (cs, sh, _) = CleanupMatchingOnDisconnect (sv_session sv c) (sv_shared sv)
      in sv\<lparr>sv_shared := sh, sv_session := (sv_session sv)(c := cs)\<rparr>)"
| "matching_step sv (EvSession c cs) = sv\<lparr>sv_session := (sv_session sv)(c := cs)\<rparr>"
| "matching_step sv (EvClients cl ids) =
     sv\<lparr>sv_shared := (sv_shared sv)\<lparr>ss_clients := cl, ss_npidToUserId := ids\<rparr>\<rparr>"
| "matching_step sv (EvUdpExt npid a) =
     sv\<lparr>sv_shared := set_matching ((ss_matching (sv_shared sv))
         \<lparr>mx_udpExt := qinsert npid a (mx_udpExt (ss_matching (sv_shared sv)))\<rparr>) (sv_shared sv)\<rparr>"

lemma matching_ok_udpExt [simp]: "matching_ok (mx\<lparr>mx_udpExt := u\<rparr>) = matching_ok mx"
  by (simp add: matching_ok_def)

definition server_ok :: "server \<Rightarrow> bool" where
  [inv_defs]: "server_ok sv \<longleftrightarrow> matching_ok (ss_matching (sv_shared sv))"

definition rooms_created :: "server \<Rightarrow> nat" where
  "rooms_created sv = unat (mx_nextRoomId (ss_matching (sv_shared sv)))"

definition initial_server :: "(nat \<Rightarrow> ClientSession) \<Rightarrow> server" where
  "initial_server sessions = \<lparr>sv_shared = SharedState_default, sv_session = sessions\<rparr>"

lemma server_ok_initial [simp]: "server_ok (initial_server ss)"
  by (simp add: server_ok_def initial_server_def SharedState_default_def MatchingSharedState_default_def
      matching_ok_def index_ok_def)

lemma sv_shared_apply [simp]: "sv_shared (apply_result c r sv) = res_shared r"
  by (simp add: apply_result_def)

fun is_create :: "matching_event \<Rightarrow> bool" where
  "is_create (EvCreateRoom c q t) \<longleftrightarrow> True" | "is_create _ \<longleftrightarrow> False"

lemma CmdSendRoomMessage_shared [simp]: "res_shared (CmdSendRoomMessage q cs sh) = sh"
  by (auto simp: CmdSendRoomMessage_def Let_def split: option.split)

lemmas command_oks = CmdCreateRoom_ok CmdJoinRoom_ok CmdLeaveRoom_ok CmdKickoutRoomMember_ok
  CmdSetRoomDataInternal_ok CmdSetRoomDataExternal_ok CmdSetUserInfo_ok Context_ok
  CleanupMatchingOnDisconnect_ok

lemma server_ok_step:
  assumes "server_ok sv" and "is_create e \<Longrightarrow> rooms_created sv < 2 ^ 64 - 1"
  shows "server_ok (matching_step sv e)"
  using assms
  by (cases e) (simp_all add: server_ok_def rooms_created_def Let_def case_prod_unfold command_oks)

lemma nextRoomId_set_room [simp]: "mx_nextRoomId (mx\<lparr>mx_rooms := r\<rparr>) = mx_nextRoomId mx"
  by simp

lemma leaveRoomShared_next [simp]:
  "mx_nextRoomId (ss_matching (snd (leaveRoomShared key rid mid room sh))) = mx_nextRoomId (ss_matching sh)"
  by (simp add: leaveRoomShared_def split: option.split)

lemma nextRoomId_frame [simp]:
  "mx_nextRoomId (ss_matching (res_shared (CmdJoinRoom a t cs sh))) = mx_nextRoomId (ss_matching sh)"
  "mx_nextRoomId (ss_matching (res_shared (CmdLeaveRoom b cs sh))) = mx_nextRoomId (ss_matching sh)"
  "mx_nextRoomId (ss_matching (res_shared (CmdKickoutRoomMember c cs sh))) = mx_nextRoomId (ss_matching sh)"
  "mx_nextRoomId (ss_matching (res_shared (CmdSetRoomDataInternal d t cs sh))) = mx_nextRoomId (ss_matching sh)"
  "mx_nextRoomId (ss_matching (res_shared (CmdSetRoomDataExternal e cs sh))) = mx_nextRoomId (ss_matching sh)"
  "mx_nextRoomId (ss_matching (res_shared (CmdSetUserInfo f cs sh))) = mx_nextRoomId (ss_matching sh)"
  "mx_nextRoomId (ss_matching (res_shared (CmdContextStart g cs sh))) = mx_nextRoomId (ss_matching sh)"
  "mx_nextRoomId (ss_matching (res_shared (CmdContextStop g cs sh))) = mx_nextRoomId (ss_matching sh)"
  "mx_nextRoomId (ss_matching (fst (snd (CleanupMatchingOnDisconnect cs sh)))) = mx_nextRoomId (ss_matching sh)"
  by (auto simp: handler_defs CleanupMatchingOnDisconnect_def DoLeaveRoom_def Let_def case_prod_unfold
      split: option.split)

lemma nextRoomId_create:
  "mx_nextRoomId (ss_matching (res_shared (CmdCreateRoom a t cs sh))) =
     (case a of None \<Rightarrow> mx_nextRoomId (ss_matching sh) | Some _ \<Rightarrow> mx_nextRoomId (ss_matching sh) + 1)"
  by (simp add: CmdCreateRoom_def Let_def case_prod_unfold split: option.split)

lemma rooms_created_step:
  "rooms_created (matching_step sv e) \<le> rooms_created sv + (if is_create e then 1 else 0)"
  by (cases e) (auto simp: rooms_created_def nextRoomId_create Let_def case_prod_unfold unat_word_ariths
      split: option.split)

interpretation matching: bounded_machine matching_step rooms_created is_create "2 ^ 64 - 1" server_ok
  by unfold_locales (simp_all add: server_ok_step rooms_created_step)

subsection \<open>Reachable states\<close>

text \<open>C1: After any sequence of matching commands, logins, disconnects and client or address table
  changes, in any interleaving of any connections, with fewer than 2^64 - 1 CreateRoom requests
  among them, the room table is well-formed: every room has unique member ids and users, a member
  as its owner, at most \<open>maxSlot\<close> members, no two of them in the same one of the slots 1 to 64,
  up-to-date slot counts and the FULL flag only when it is full; and the world and lobby indexes list
  exactly the rooms of that world or lobby. (\<open>maxSlot\<close> is the client's choice: beyond 64 members
  the code puts all further ones into slot 65.)\<close>

theorem reachable_matching_ok:
  assumes "length (filter is_create es) < 2 ^ 64 - 1"
  shows "matching_ok (ss_matching (sv_shared (foldl matching_step (initial_server sessions) es)))"
proof -
  have "rooms_created (initial_server sessions) + length (filter is_create es) \<le> 2 ^ 64 - 1"
    using assms by (simp add: rooms_created_def initial_server_def SharedState_default_def
        MatchingSharedState_default_def)
  from matching.bounded_run_inv [OF server_ok_initial this]
  show ?thesis by (simp add: server_ok_def)
qed

lemma open_slots_free:
  assumes ok: "room_ok room" and small: "r_maxSlot room \<le> 64"
  shows "unat (r_openPublicSlots room) + unat (r_openPrivateSlots room) + length (r_members room)
      = unat (r_maxSlot room)"
proof -
  let ?ms = "r_members room"
  have m64: "unat (r_maxSlot room) \<le> 64" using small by (simp add: word_le_nat_alt)
  have mok: "members_ok ?ms (unat (r_maxSlot room))" by (rule room_okD [OF ok])
  then have b: "0 < memberSlot (snd p)" "memberSlot (snd p) \<le> min 65 (unat (r_maxSlot room))"
    if "p \<in> set ?ms" for p
    using that by (simp_all add: members_ok_def)
  let ?f = "\<lambda>p. memberSlot (snd p) - 1"
  have "inj_on ?f (set ?ms)"
  proof (rule inj_onI)
    fix p q assume pq: "p \<in> set ?ms" "q \<in> set ?ms" "?f p = ?f q"
    then have "memberSlot (snd p) = memberSlot (snd q)" using b [OF pq(1)] b [OF pq(2)] by linarith
    moreover have "memberSlot (snd p) \<le> 64" using b(2) [OF pq(1)] m64 by simp
    ultimately show "p = q" using mok pq unfolding members_ok_def by blast
  qed
  moreover have "joinedSlotSet room = ?f ` set ?ms"
  proof (intro set_eqI iffI)
    fix k assume "k \<in> joinedSlotSet room"
    then obtain m where "m \<in> set (qvalues ?ms)" "memberSlot m = Suc k"
      by (auto simp: joinedSlotSet_def bits_of_joinedSlotMask)
    then show "k \<in> ?f ` set ?ms" by force
  next
    fix k assume "k \<in> ?f ` set ?ms"
    then obtain p where p: "p \<in> set ?ms" "k = memberSlot (snd p) - 1" by blast
    then have "k < unat (r_maxSlot room)" "memberSlot (snd p) = Suc k" using b [OF p(1)] by linarith+
    then show "k \<in> joinedSlotSet room"
      using p(1) m64 by (auto simp: joinedSlotSet_def bits_of_joinedSlotMask validSlotSet_def)
  qed
  moreover have "distinct ?ms"
    using mok by (simp add: members_ok_def qdistinct_def distinct_map)
  ultimately have "card (joinedSlotSet room) = length ?ms"
    by (simp add: card_image distinct_card)
  moreover have "r_openPublicSlots room = r_openPublicSlots (RecomputeRoomSlotCounts room)"
    "r_openPrivateSlots room = r_openPrivateSlots (RecomputeRoomSlotCounts room)"
    using room_okD(3) [OF ok] by (simp_all add: counts_ok_def Let_def)
  ultimately show ?thesis
    using Recompute_open_total [of room] m64 by simp
qed

text \<open>In every reachable state, a room of at most 64 slots advertises exactly its free
  slots: the open public and open private slots add up to \<open>maxSlot\<close> less the number of
  members; and its owner is the one member that carries the owner flag.\<close>

theorem reachable_open_slots:
  assumes "length (filter is_create es) < 2 ^ 64 - 1"
    and "qfind (rooms_of (sv_shared (foldl matching_step (initial_server sessions) es))) (key, rid) = Some room"
    and "r_maxSlot room \<le> 64"
  shows "unat (r_openPublicSlots room) + unat (r_openPrivateSlots room)
           = unat (r_maxSlot room) - length (r_members room)
       \<and> (\<forall>p \<in> set (r_members room). hasOwnerFlag (snd p) \<longleftrightarrow> fst p = r_ownerMemberId room)"
proof -
  have "rooms_created (initial_server sessions) + length (filter is_create es) \<le> 2 ^ 64 - 1"
    using assms(1) by (simp add: rooms_created_def initial_server_def SharedState_default_def
        MatchingSharedState_default_def)
  from matching.bounded_run_inv [OF server_ok_initial this] assms(2)
  have "room_ok room" by (auto simp: server_ok_def dest: matching_okD(2))
  from open_slots_free [OF this assms(3)] room_okD(9) [OF this assms(3)]
  show ?thesis by auto
qed

subsection \<open>Deliveries\<close>

lemma set_map_filter': "set (List.map_filter f xs) = {y. \<exists>x \<in> set xs. f x = Some y}"
  by (induction xs) (auto simp: List.map_filter_simps split: option.split)

definition contextOf :: "SharedState \<Rightarrow> qstring \<Rightarrow> (nat \<times> u32) option" where
  \<comment> \<open>the connection of a user who is online with a matching context, and the context id\<close>
  "contextOf sh npid =
     (case qfind (ss_npidToUserId sh) npid of None \<Rightarrow> None
      | Some uid \<Rightarrow> (case qfind (ss_clients sh) uid of None \<Rightarrow> None
          | Some c \<Rightarrow> if ce_matchingContextId c \<noteq> 0 then Some (ce_send c, ce_matchingContextId c) else None))"

lemma SendMatchingNotification_set:
  "set (SendMatchingNotification sh b npid) = {(c, b ctx) | c ctx. contextOf sh npid = Some (c, ctx)}"
  by (auto simp: SendMatchingNotification_def contextOf_def split: option.splits if_splits)

lemma contextOf_Some:
  "contextOf sh npid = Some (c, ctx) \<longleftrightarrow> (\<exists>uid cl. qfind (ss_npidToUserId sh) npid = Some uid \<and>
     qfind (ss_clients sh) uid = Some cl \<and> ce_matchingContextId cl \<noteq> 0 \<and>
     c = ce_send cl \<and> ctx = ce_matchingContextId cl)"
  by (auto simp: contextOf_def split: option.splits)

lemma NotifyRoomMembers_set:
  assumes "qfind (rooms_of sh) (key, rid) = Some room"
  shows "set (NotifyRoomMembers sh b key rid ex) =
    {(c, b ctx) | c ctx. \<exists>p \<in> set (r_members room). rm_npid (snd p) \<noteq> ex \<and> contextOf sh (rm_npid (snd p)) = Some (c, ctx)}"
proof -
  let ?client = "\<lambda>member. if rm_npid member = ex then None
      else (case qfind (ss_npidToUserId sh) (rm_npid member) of None \<Rightarrow> None
            | Some userId \<Rightarrow> qfind (ss_clients sh) userId)"
  let ?rc = "List.map_filter ?client (qvalues (r_members room))"
  have "cl \<in> set ?rc \<longleftrightarrow> (\<exists>p \<in> set (r_members room). rm_npid (snd p) \<noteq> ex \<and>
      (\<exists>uid. qfind (ss_npidToUserId sh) (rm_npid (snd p)) = Some uid \<and> qfind (ss_clients sh) uid = Some cl))" for cl
    unfolding set_map_filter' by (auto split: option.splits if_splits)
  then have rc: "set ?rc = {cl. \<exists>p \<in> set (r_members room). rm_npid (snd p) \<noteq> ex \<and>
      (\<exists>uid. qfind (ss_npidToUserId sh) (rm_npid (snd p)) = Some uid \<and> qfind (ss_clients sh) uid = Some cl)}"
    by blast
  have "set (NotifyRoomMembers sh b key rid ex) =
      (\<lambda>c. (ce_send c, b (ce_matchingContextId c))) ` {cl \<in> set ?rc. ce_matchingContextId cl \<noteq> 0}"
    by (simp add: NotifyRoomMembers_def assms Let_def)
  also have "\<dots> = {(c, b ctx) | c ctx. \<exists>p \<in> set (r_members room). rm_npid (snd p) \<noteq> ex \<and>
      contextOf sh (rm_npid (snd p)) = Some (c, ctx)}"
    unfolding rc contextOf_Some by blast
  finally show ?thesis .
qed

lemma event_contexts:
  "(\<And>ctx. ne_ctx_id (b ctx) = ctx) \<Longrightarrow>
     {(c, ctx). \<exists>e. (c, RoomEventPkt e) \<in> {(c, RoomEventPkt (b ctx)) | c ctx. P c ctx} \<and> ne_ctx_id e = ctx}
       = {(c, ctx). P c ctx}"
  by auto

lemma contextOf_matching [simp]: "contextOf (set_matching mx sh) npid = contextOf sh npid"
  by (simp add: contextOf_def split: option.split)

lemma NotifyRoomMembers_list:
  assumes "qfind (rooms_of sh) (key, rid) = Some room"
  shows "NotifyRoomMembers sh b key rid ex =
    List.map_filter (\<lambda>m. if rm_npid m = ex then None
        else map_option (\<lambda>(c, ctx). (c, b ctx)) (contextOf sh (rm_npid m))) (qvalues (r_members room))"
proof -
  have "map (\<lambda>c. (ce_send c, b (ce_matchingContextId c))) (filter (\<lambda>c. ce_matchingContextId c \<noteq> 0)
        (List.map_filter (\<lambda>m. if rm_npid m = ex then None
           else (case qfind (ss_npidToUserId sh) (rm_npid m) of None \<Rightarrow> None
                 | Some userId \<Rightarrow> qfind (ss_clients sh) userId)) ms)) =
      List.map_filter (\<lambda>m. if rm_npid m = ex then None
        else map_option (\<lambda>(c, ctx). (c, b ctx)) (contextOf sh (rm_npid m))) ms" for ms
    by (induction ms) (auto simp: List.map_filter_simps contextOf_def split: option.split)
  then show ?thesis by (simp add: NotifyRoomMembers_def assms Let_def)
qed

subsection \<open>What the commands do\<close>

text \<open>C39: A matching command that answers with an error leaves the session, the room table and
  everything else shared as it was, sends nothing to other clients and no reply body.\<close>

theorem failed_commands_change_nothing:
  "(res_error (CmdCreateRoom a t cs sh) \<noteq> NoError \<longrightarrow>
      CmdCreateRoom a t cs sh = ((res_error (CmdCreateRoom a t cs sh), None), cs, sh, [])) \<and>
   (res_error (CmdJoinRoom b t cs sh) \<noteq> NoError \<longrightarrow>
      CmdJoinRoom b t cs sh = ((res_error (CmdJoinRoom b t cs sh), None), cs, sh, [])) \<and>
   (res_error (CmdLeaveRoom c cs sh) \<noteq> NoError \<longrightarrow>
      CmdLeaveRoom c cs sh = ((res_error (CmdLeaveRoom c cs sh), None), cs, sh, [])) \<and>
   (res_error (CmdKickoutRoomMember d cs sh) \<noteq> NoError \<longrightarrow>
      CmdKickoutRoomMember d cs sh = ((res_error (CmdKickoutRoomMember d cs sh), None), cs, sh, [])) \<and>
   (res_error (CmdSetRoomDataInternal e t cs sh) \<noteq> NoError \<longrightarrow>
      CmdSetRoomDataInternal e t cs sh = ((res_error (CmdSetRoomDataInternal e t cs sh), None), cs, sh, [])) \<and>
   (res_error (CmdSetRoomDataExternal f cs sh) \<noteq> NoError \<longrightarrow>
      CmdSetRoomDataExternal f cs sh = ((res_error (CmdSetRoomDataExternal f cs sh), None), cs, sh, [])) \<and>
   (res_error (CmdSendRoomMessage g cs sh) \<noteq> NoError \<longrightarrow>
      CmdSendRoomMessage g cs sh = ((res_error (CmdSendRoomMessage g cs sh), None), cs, sh, [])) \<and>
   (res_error (CmdContextStart h cs sh) \<noteq> NoError \<longrightarrow>
      CmdContextStart h cs sh = ((res_error (CmdContextStart h cs sh), None), cs, sh, [])) \<and>
   (res_error (CmdContextStop h cs sh) \<noteq> NoError \<longrightarrow>
      CmdContextStop h cs sh = ((res_error (CmdContextStop h cs sh), None), cs, sh, [])) \<and>
   (res_error (CmdSetUserInfo i cs sh) \<noteq> NoError \<longrightarrow>
      CmdSetUserInfo i cs sh = ((res_error (CmdSetUserInfo i cs sh), None), cs, sh, []))"
proof (intro conjI impI)
  show "CmdCreateRoom a t cs sh = ((res_error (CmdCreateRoom a t cs sh), None), cs, sh, [])"
    if "res_error (CmdCreateRoom a t cs sh) \<noteq> NoError"
    using that by (auto simp: CmdCreateRoom_def Let_def case_prod_unfold split: option.splits)
  show "CmdJoinRoom b t cs sh = ((res_error (CmdJoinRoom b t cs sh), None), cs, sh, [])"
    if "res_error (CmdJoinRoom b t cs sh) \<noteq> NoError"
    using that by (auto simp: CmdJoinRoom_def Let_def case_prod_unfold split: option.splits)
  show "CmdLeaveRoom c cs sh = ((res_error (CmdLeaveRoom c cs sh), None), cs, sh, [])"
    if "res_error (CmdLeaveRoom c cs sh) \<noteq> NoError"
    using that by (auto simp: CmdLeaveRoom_def Let_def case_prod_unfold split: option.splits)
  show "CmdKickoutRoomMember d cs sh = ((res_error (CmdKickoutRoomMember d cs sh), None), cs, sh, [])"
    if "res_error (CmdKickoutRoomMember d cs sh) \<noteq> NoError"
    using that by (auto simp: CmdKickoutRoomMember_def Let_def split: option.splits if_splits)
  show "CmdSetRoomDataInternal e t cs sh = ((res_error (CmdSetRoomDataInternal e t cs sh), None), cs, sh, [])"
    if "res_error (CmdSetRoomDataInternal e t cs sh) \<noteq> NoError"
    using that by (auto simp: CmdSetRoomDataInternal_def Let_def case_prod_unfold split: option.splits)
  show "CmdSetRoomDataExternal f cs sh = ((res_error (CmdSetRoomDataExternal f cs sh), None), cs, sh, [])"
    if "res_error (CmdSetRoomDataExternal f cs sh) \<noteq> NoError"
    using that by (auto simp: CmdSetRoomDataExternal_def Let_def split: option.splits)
  show "CmdSendRoomMessage g cs sh = ((res_error (CmdSendRoomMessage g cs sh), None), cs, sh, [])"
    if "res_error (CmdSendRoomMessage g cs sh) \<noteq> NoError"
    using that by (auto simp: CmdSendRoomMessage_def Let_def split: option.splits if_splits)
  show "CmdContextStart h cs sh = ((res_error (CmdContextStart h cs sh), None), cs, sh, [])"
    if "res_error (CmdContextStart h cs sh) \<noteq> NoError"
    using that by (auto simp: CmdContextStart_def split: option.splits)
  show "CmdContextStop h cs sh = ((res_error (CmdContextStop h cs sh), None), cs, sh, [])"
    if "res_error (CmdContextStop h cs sh) \<noteq> NoError"
    using that by (auto simp: CmdContextStop_def split: option.splits)
  show "CmdSetUserInfo i cs sh = ((res_error (CmdSetUserInfo i cs sh), None), cs, sh, [])"
    if "res_error (CmdSetUserInfo i cs sh) \<noteq> NoError"
    using that by (auto simp: CmdSetUserInfo_def Let_def split: option.splits)
qed

text \<open>C9: Joining a room of at most 64 slots that exists and refuses nothing adds exactly one member:
  the joiner, under a fresh member id whose slot no one holds and that lies within \<open>maxSlot\<close>. The
  other members, their ids, the owner and every other room stay as they were, and the FULL flag is
  set exactly when the last place was taken. The reply carries the room, the new id, the flags and
  the new member count, and the joiner's session is in that room under that id, not as its owner.\<close>

theorem join_adds_one_member:
  assumes ok: "matching_ok (ss_matching sh)"
    and room: "qfind (rooms_of sh) (my_key cs, jrq_room_id q) = Some room"
    and small: "r_maxSlot room \<le> 64" and free: "joinRefusal q (cs_info cs) room = None"
  shows "let R = CmdJoinRoom (Some q) nowMs cs sh; k = (my_key cs, jrq_room_id q); ms = cs_matching (res_session R) in
    \<exists>m room' rep. R = ((NoError, Some rep), res_session R, res_shared R, res_outs R) \<and>
      qfind (rooms_of (res_shared R)) k = Some room' \<and>
      (\<forall>k'. k' \<noteq> k \<longrightarrow> qfind (rooms_of (res_shared R)) k' = qfind (rooms_of sh) k') \<and>
      r_members room' = r_members room @ [(rm_memberId m, m)] \<and> rm_npid m = my_npid cs \<and>
      rm_memberId m \<notin> set (qkeys (r_members room)) \<and>
      0 < memberSlot m \<and> memberSlot m \<le> unat (r_maxSlot room) \<and>
      (\<forall>p \<in> set (r_members room). memberSlot (snd p) \<noteq> memberSlot m) \<and>
      r_ownerMemberId room' = r_ownerMemberId room \<and> r_maxSlot room' = r_maxSlot room \<and>
      r_flagAttr room' = (if Suc (length (r_members room)) = unat (r_maxSlot room)
                          then r_flagAttr room OR FLAG_ATTR_FULL else r_flagAttr room) \<and>
      (r_flagAttr room' AND FLAG_ATTR_FULL \<noteq> 0 \<longleftrightarrow> length (r_members room') = unat (r_maxSlot room')) \<and>
      jrr_room_id rep = jrq_room_id q \<and> jrr_flags rep = r_flagAttr room' \<and>
      jrr_member_id rep = ucast (rm_memberId m) \<and>
      unat (jrr_cur_members rep) = Suc (length (r_members room)) \<and>
      ms_roomId ms = jrq_room_id q \<and> ms_myMemberId ms = rm_memberId m \<and> \<not> ms_isRoomOwner ms \<and>
      ms_maxSlots ms = r_maxSlot room' \<and> ms_roomFlags ms = r_flagAttr room' \<and>
      ms_ctxId ms = ms_ctxId (cs_matching cs) \<and> cs_info (res_session R) = cs_info cs"
proof -
  let ?j = "createJoiner q (cs_info cs) (GetSelfSignalingAddr sh cs) (MatchingTimestampUsec nowMs)"
  let ?m = "fst (addMember ?j room)" and ?r = "snd (snd (joinRoom ?j room))"
  note rok = matching_okD(2) [OF ok room]
  have nf: "\<not> Room_isFull room" using joinRefusal_None [OF free] by blast
  then have l: "length (r_members room) < unat (r_maxSlot room)" by (simp add: Room_isFull_def)
  moreover have m64: "unat (r_maxSlot room) \<le> 64" using small by (simp add: word_le_nat_alt)
  ultimately have l64: "length (r_members room) < 64" by simp
  have fresh: "fst (allocMemberId room) \<notin> set (qkeys (r_members room))"
    using allocMemberId_fresh [OF l64] rok by (fastforce simp: room_ok_def members_ok_def)
  then have mem: "r_members ?r = r_members room @ [(rm_memberId ?m, ?m)]"
    by (simp add: qinsert_new)
  have slot: "memberSlot ?m = firstFreeSlot room"
    using memberSlot_allocMemberId [of room] by simp
  have fle: "firstFreeSlot room \<le> unat (r_maxSlot room)"
    using firstFreeSlot_le_members [of room] l by linarith
  have other: "memberSlot (snd p) \<noteq> firstFreeSlot room" if "p \<in> set (r_members room)" for p
    using firstFreeSlot_free [of room] slotTaken_memberSlot [of "firstFreeSlot room" room] fle m64 that by auto
  have cur: "unat (word_of_nat (Suc (length (r_members room))) :: u16) = Suc (length (r_members room))"
    using l64 by (intro unat_of_nat_small) simp
  then have cur32: "unat (ucast (word_of_nat (Suc (length (r_members room))) :: u16) :: u32)
      = Suc (length (r_members room))"
    using l64 by (simp only: unsigned_ucast_eq cur) (simp add: take_bit_nat_eq_self)
  have len: "fst (snd (joinRoom ?j room)) = word_of_nat (Suc (length (r_members room)))"
    using mem by (simp only: joinRoom_eqs fst_conv snd_conv) (simp add: joinRoom_eqs qinsert_new [OF fresh])
  have count: "length (r_members (snd (addMember ?j room))) = Suc (length (r_members room))"
    using fresh by (simp add: qinsert_new)
  have unset: "r_flagAttr room AND FLAG_ATTR_FULL = 0"
    using room_okD(5) [OF rok] nf by blast
  have "word_of_nat (Suc (length (r_members room))) \<ge> r_maxSlot room \<longleftrightarrow>
      Suc (length (r_members room)) = unat (r_maxSlot room)"
    using l by (simp only: word_le_nat_alt cur) linarith
  then have flag: "r_flagAttr ?r = (if Suc (length (r_members room)) = unat (r_maxSlot room)
      then r_flagAttr room OR FLAG_ATTR_FULL else r_flagAttr room)"
    unfolding joinRoom_eqs snd_conv count by simp
  have full: "r_flagAttr ?r AND FLAG_ATTR_FULL \<noteq> 0 \<longleftrightarrow> length (r_members ?r) = unat (r_maxSlot ?r)"
    unfolding flag using count unset by (simp add: bit.conj_disj_distrib2)
  show ?thesis
    unfolding Let_def
    by (rule exI [of _ ?m], rule exI [of _ ?r])
      (use mem fresh slot fle other firstFreeSlot_pos [of room] cur32 len flag full in
        \<open>simp add: CmdJoinRoom_def room free Let_def case_prod_unfold qfind_qinsert enterRoom_def
           del: addMember_frame(13)\<close>)
qed

lemma leaveRoom_None_iff:
  assumes "room_ok room" and "(mid, m) \<in> set (r_members room)"
  shows "leaveRoom mid room = None \<longleftrightarrow> length (r_members room) = 1"
proof -
  have "qremove mid (r_members room) = [] \<longleftrightarrow> length (qremove mid (r_members room)) = 0" by simp
  moreover have "Suc (length (qremove mid (r_members room))) = length (r_members room)"
    by (rule length_qremove_in) (use assms room_okD(10) qkey_in in fast)+
  ultimately show ?thesis
    by (auto simp: leaveRoom_eq dropMember_eq room_okD [OF assms(1)])
qed

lemma leaveRoom_members:
  assumes ok: "room_ok room" and l: "leaveRoom mid room = Some room'"
  shows "set (qkeys (r_members room')) = set (qkeys (r_members room)) - {mid}"
    and "mid \<noteq> r_ownerMemberId room \<Longrightarrow> r_ownerMemberId room' = r_ownerMemberId room"
proof -
  note f = afterDrop_frame [OF room_okD(4) [OF ok]]
  have t: "set (qkeys (r_members (transferOwner r))) = set (qkeys (r_members r))" for r
    by (simp add: transferOwner_def Let_def del: set_map split: prod.split)
  have "set (qkeys (r_members room')) = set (qkeys (qremove mid (r_members room)))"
    using l f t [of "afterDrop mid room"] by (auto simp: leaveRoom_eq simp del: set_map split: if_splits)
  then show "set (qkeys (r_members room')) = set (qkeys (r_members room)) - {mid}"
    by (simp only: qkeys_qremove)
  show "r_ownerMemberId room' = r_ownerMemberId room" if "mid \<noteq> r_ownerMemberId room"
    using l f that by (auto simp: leaveRoom_eq split: if_splits)
qed

lemma index_ok_notin:
  "index_ok rooms sel idx \<Longrightarrow> qfind rooms (key, rid) = None \<Longrightarrow> rid \<notin> set (qvalue idx (key, w) [])"
  unfolding index_ok_def by (metis option.case(1))

lemma ResetMatchingRoomState_room:
  "ms_roomId (cs_matching (ResetMatchingRoomState rid cs)) = rid \<longleftrightarrow>
     rid = 0 \<and> ms_roomId (cs_matching cs) = 0"
  by (auto simp: ResetMatchingRoomState_def ResetLocalMatchingRoomState_def)

lemma leaveRoom_exact:
  assumes ok: "room_ok room" and l: "leaveRoom mid room = Some room'"
  shows "r_members room' =
      (let rest = qremove mid (r_members room)
       in if mid = r_ownerMemberId room
          then qmodify (r_ownerMemberId room') (\<lambda>m. m\<lparr>rm_flagAttr := rm_flagAttr m OR MEMBER_FLAG_ATTR_OWNER\<rparr>) rest
          else rest)"
    and "r_flagAttr room' = r_flagAttr room AND NOT FLAG_ATTR_FULL"
  using l afterDrop_frame [OF room_okD(4) [OF ok], of mid]
  by (auto simp: leaveRoom_eq transferOwner_def Let_def split: if_splits)

definition memberLeftEvent :: "u64 \<Rightarrow> u16 \<Rightarrow> qstring \<Rightarrow> u32 \<Rightarrow> NotifyRoomEvent" where
  "memberLeftEvent rid mid npid ctx = NotifyRoomEvent_default\<lparr>ne_ctx_id := ctx, ne_room_id := rid,
     ne_event := EVENT_MEMBER_LEFT, ne_event_cause := CAUSE_LEAVE_ACTION,
     ne_member := Some (BuildRoomMemberData (leftMember mid npid))\<rparr>"

text \<open>C24: Leaving a room (its ids start at 1) as one of its members takes the member out. If it was
  the last one the room is gone, no index lists it and nobody is told; otherwise the room keeps the
  other members in their order and unchanged, except that a leaving owner is replaced by a remaining
  member, which gets the owner's flag; the flags stay apart from FULL, which is cleared; and each
  remaining member who is online with a matching context is told once, on its own connection and
  under its own context id, by a MemberLeft event with the room and the id and online id of the member
  who left. Every other room stays as it was, and the session no longer points at the room.\<close>

theorem leave_room_effect:
  assumes ok: "matching_ok (ss_matching sh)" and room: "qfind (rooms_of sh) (my_key cs, rid) = Some room"
    and me: "findByNpid room (my_npid cs) = Some me" and pos: "rid \<noteq> 0"
  shows "let R = CmdLeaveRoom (Some rid) cs sh; mx' = ss_matching (res_shared R); mid = rm_memberId me;
             rest = qremove mid (r_members room) in
    res_error R = NoError \<and> ms_roomId (cs_matching (res_session R)) \<noteq> rid \<and>
    (\<forall>k'. k' \<noteq> (my_key cs, rid) \<longrightarrow> qfind (mx_rooms mx') k' = qfind (rooms_of sh) k') \<and>
    (if length (r_members room) = 1
     then qfind (mx_rooms mx') (my_key cs, rid) = None \<and> res_outs R = [] \<and>
       (\<forall>w. rid \<notin> set (qvalue (mx_worldRooms mx') (my_key cs, w) [])) \<and>
       (\<forall>l. rid \<notin> set (qvalue (mx_lobbyRooms mx') (my_key cs, l) []))
     else \<exists>room'. qfind (mx_rooms mx') (my_key cs, rid) = Some room' \<and>
       set (qkeys (r_members room')) = set (qkeys (r_members room)) - {mid} \<and>
       r_ownerMemberId room' \<in> set (qkeys (r_members room')) \<and>
       r_members room' =
         (if mid = r_ownerMemberId room
          then qmodify (r_ownerMemberId room') (\<lambda>m. m\<lparr>rm_flagAttr := rm_flagAttr m OR MEMBER_FLAG_ATTR_OWNER\<rparr>) rest
          else rest) \<and>
       (mid \<noteq> r_ownerMemberId room \<longrightarrow> r_ownerMemberId room' = r_ownerMemberId room) \<and>
       r_flagAttr room' = r_flagAttr room AND NOT FLAG_ATTR_FULL \<and>
       res_outs R = List.map_filter (\<lambda>m. if rm_npid m = [] then None
           else map_option (\<lambda>(c, ctx). (c, RoomEventPkt (memberLeftEvent rid mid (my_npid cs) ctx))) (contextOf sh (rm_npid m)))
         (qvalues (r_members room')))"
proof -
  let ?R = "CmdLeaveRoom (Some rid) cs sh" and ?mid = "rm_memberId me"
  let ?rooms = "mx_rooms (ss_matching (res_shared (CmdLeaveRoom (Some rid) cs sh)))"
  note rok = matching_okD(2) [OF ok room]
  have me_in: "(?mid, me) \<in> set (r_members room)" using findByNpid_Some [OF rok me] by blast
  have sh': "res_shared ?R = snd (leaveRoomShared (my_key cs) rid ?mid room sh)"
    and e: "res_error ?R = NoError" and s: "res_session ?R = ResetMatchingRoomState rid cs"
    and outs: "res_outs ?R = (if fst (leaveRoomShared (my_key cs) rid ?mid room sh) then []
      else SendRoomMemberEvent (res_shared ?R) (my_key cs) rid EVENT_MEMBER_LEFT CAUSE_LEAVE_ACTION
        (leftMember ?mid (my_npid cs)) [])"
    by (simp_all add: CmdLeaveRoom_def room me Let_def case_prod_unfold)
  have ok': "matching_ok (ss_matching (res_shared ?R))" by (rule CmdLeaveRoom_ok [OF ok])
  have ss: "ms_roomId (cs_matching (res_session ?R)) \<noteq> rid"
    using pos by (simp add: s ResetMatchingRoomState_room)
  have others: "\<forall>k'. k' \<noteq> (my_key cs, rid) \<longrightarrow> qfind ?rooms k' = qfind (rooms_of sh) k'"
    by (auto simp: sh' leaveRoomShared_def qfind_qremove qfind_qinsert split: option.split)
  show ?thesis
  proof (cases "leaveRoom ?mid room")
    case None
    then have gone: "qfind ?rooms (my_key cs, rid) = None"
      by (simp add: sh' leaveRoomShared_def qfind_qremove)
    have quiet: "res_outs ?R = []" using None by (simp add: outs leaveRoomShared_def)
    have "\<forall>w. rid \<notin> set (qvalue (mx_worldRooms (ss_matching (res_shared ?R))) (my_key cs, w) [])"
      "\<forall>l. rid \<notin> set (qvalue (mx_lobbyRooms (ss_matching (res_shared ?R))) (my_key cs, l) [])"
      using index_ok_notin [OF matching_okD(5) [OF ok'] gone] index_ok_notin [OF matching_okD(6) [OF ok'] gone]
      by blast+
    with gone quiet None leaveRoom_None_iff [OF rok me_in] e ss others show ?thesis
      by (simp add: Let_def)
  next
    case (Some room')
    then have shr: "res_shared ?R = set_room (my_key cs, rid) room' sh"
      and quiet: "\<not> fst (leaveRoomShared (my_key cs) rid ?mid room sh)"
      by (simp_all add: sh' leaveRoomShared_def)
    then have r: "qfind ?rooms (my_key cs, rid) = Some room'" by (simp add: qfind_qinsert)
    have ctx: "contextOf (res_shared ?R) npid = contextOf sh npid" for npid by (simp add: shr)
    have event: "NotifyRoomEvent_default\<lparr>ne_room_id := rid, ne_event := EVENT_MEMBER_LEFT,
        ne_event_cause := CAUSE_LEAVE_ACTION, ne_member := Some (BuildRoomMemberData (leftMember ?mid (my_npid cs))),
        ne_ctx_id := ctx\<rparr> = memberLeftEvent rid ?mid (my_npid cs) ctx" for ctx
      by (simp add: memberLeftEvent_def)
    have told: "res_outs ?R = List.map_filter (\<lambda>m. if rm_npid m = [] then None
          else map_option (\<lambda>(c, ctx). (c, RoomEventPkt (memberLeftEvent rid ?mid (my_npid cs) ctx))) (contextOf sh (rm_npid m)))
        (qvalues (r_members room'))"
      by (simp add: outs quiet SendRoomMemberEvent_def Let_def NotifyRoomMembers_list [OF r] ctx event cong: if_cong)
    from Some leaveRoom_None_iff [OF rok me_in] have "length (r_members room) \<noteq> 1" by simp
    with others show ?thesis
      using leaveRoom_members [OF rok Some] leaveRoom_exact [OF rok Some] r e ss told
        room_okD(2) [OF room_ok_leaveRoom [OF rok Some]]
      by (simp add: Let_def del: set_map)
  qed
qed

text \<open>C29: Kicking succeeds for the room's owner only, and only on another member; the target is
  then out of the room, and when the owner asked for a block, a later attempt of that user to
  join the room is answered with \<open>Blocked\<close>.\<close>

theorem kick_by_owner_blocks:
  assumes ok: "matching_ok (ss_matching sh)" and room: "qfind (rooms_of sh) (my_key cs, krq_room_id q) = Some room"
    and okk: "res_error (CmdKickoutRoomMember (Some q) cs sh) = NoError"
  shows "let R = CmdKickoutRoomMember (Some q) cs sh; mid = ucast (krq_target_member_id q) in
    \<exists>me target room'. findByNpid room (my_npid cs) = Some me \<and> r_ownerMemberId room = rm_memberId me \<and>
      qfind (r_members room) mid = Some target \<and> rm_npid target \<noteq> my_npid cs \<and>
      qfind (rooms_of (res_shared R)) (my_key cs, krq_room_id q) = Some room' \<and>
      findByNpid room' (rm_npid target) = None \<and> r_ownerMemberId room' = r_ownerMemberId room \<and>
      (krq_block_kick_flag q \<noteq> 0 \<longrightarrow>
        (\<forall>j them t. my_npid them = rm_npid target \<and> my_key them = my_key cs \<and> jrq_room_id j = krq_room_id q
           \<longrightarrow> res_error (CmdJoinRoom (Some j) t them (res_shared R)) = Blocked))"
proof -
  let ?R = "CmdKickoutRoomMember (Some q) cs sh" and ?mid = "ucast (krq_target_member_id q) :: u16"
  note rok = matching_okD(2) [OF ok room]
  from okk room obtain me target where
    me: "findByNpid room (my_npid cs) = Some me" and own: "r_ownerMemberId room = rm_memberId me"
    and ne: "?mid \<noteq> rm_memberId me" and t: "qfind (r_members room) ?mid = Some target"
    by (auto simp: CmdKickoutRoomMember_def Let_def split: option.splits if_splits)
  let ?r = "kickMember (krq_block_kick_flag q \<noteq> 0) ?mid target room"
  have r: "qfind (rooms_of (res_shared ?R)) (my_key cs, krq_room_id q) = Some ?r"
    using me own ne t okk
    by (auto simp: CmdKickoutRoomMember_def Let_def room qfind_qinsert split: if_splits)
  note f = kickMember_frame [OF room_okD(4) [OF rok]]
  have mok: "members_ok (r_members room) (unat (r_maxSlot room))" by (rule room_okD [OF rok])
  have me_in: "(rm_memberId me, me) \<in> set (r_members room)" "rm_npid me = my_npid cs"
    using findByNpid_Some [OF rok me] by blast+
  have t_in: "(?mid, target) \<in> set (r_members room)" using t by (rule map_of_SomeD)
  have npids: "p = (?mid, target)" if "p \<in> set (r_members room)" "rm_npid (snd p) = rm_npid target" for p
    using mok that t_in unfolding members_ok_def by (metis snd_conv)
  have tne: "rm_npid target \<noteq> my_npid cs" using npids [OF me_in(1)] me_in(2) ne by auto
  have gone: "findByNpid ?r (rm_npid target) = None"
    using npids by (auto simp: findByNpid_None f set_qremove)
  have "length (qremove ?mid (r_members room)) < length (r_members room)"
    using length_qremove_in [OF room_okD(10) [OF rok] qkey_in [OF t_in]] by simp
  also have "\<dots> \<le> unat (r_maxSlot room)" using mok by (simp add: members_ok_def)
  finally have nf: "\<not> Room_isFull ?r" by (simp add: Room_isFull_def f)
  have blocked: "res_error (CmdJoinRoom (Some j) tm them (res_shared ?R)) = Blocked"
    if b: "krq_block_kick_flag q \<noteq> 0" and them: "my_npid them = rm_npid target" "my_key them = my_key cs"
      "jrq_room_id j = krq_room_id q" for j them tm
  proof -
    have "rm_npid target \<in> set (r_blockedUsers ?r)"
      using b by (simp add: kickMember_def Let_def dropMember_eq room_okD [OF rok])
    then have "joinRefusal j (cs_info them) ?r = Some Blocked"
      using nf gone them by (simp add: joinRefusal_def joinDenied_def Let_def)
    then show ?thesis
      by (simp add: CmdJoinRoom_def them r Let_def)
  qed
  show ?thesis
    unfolding Let_def
    by (rule exI [of _ me], rule exI [of _ target], rule exI [of _ ?r])
      (intro conjI impI allI me own t tne r gone f(4) blocked; (elim conjE)?; assumption)
qed

subsection \<open>Search\<close>

definition inSearchScope :: "SearchRoomRequest \<Rightarrow> Room \<Rightarrow> bool" where
  "inSearchScope q room \<longleftrightarrow>
     (if srq_world_id q \<noteq> 0 then r_worldId room = srq_world_id q
      else srq_lobby_id q \<noteq> 0 \<longrightarrow> r_worldId room = 0 \<and> r_lobbyId room = srq_lobby_id q)"

lemma set_searchCandidates:
  assumes ok: "matching_ok mx"
  shows "rid \<in> set (searchCandidates mx key (srq_world_id q) (srq_lobby_id q)) \<longleftrightarrow>
     (\<exists>room. qfind (mx_rooms mx) (key, rid) = Some room \<and> inSearchScope q room)"
proof -
  have w: "rid \<in> set (qvalue (mx_worldRooms mx) (key, w) []) \<longleftrightarrow>
      (\<exists>room. qfind (mx_rooms mx) (key, rid) = Some room \<and> worldOf room = Some w)" for w
    using matching_okD(5) [OF ok] unfolding index_ok_def by (cases "qfind (mx_rooms mx) (key, rid)") auto
  have l: "rid \<in> set (qvalue (mx_lobbyRooms mx) (key, l) []) \<longleftrightarrow>
      (\<exists>room. qfind (mx_rooms mx) (key, rid) = Some room \<and> lobbyOf room = Some l)" for l
    using matching_okD(6) [OF ok] unfolding index_ok_def by (cases "qfind (mx_rooms mx) (key, rid)") auto
  have a: "rid \<in> set (map snd (filter (\<lambda>k. fst k = key) (qkeys (mx_rooms mx)))) \<longleftrightarrow>
      (\<exists>room. qfind (mx_rooms mx) (key, rid) = Some room)"
    using matching_okD(1) [OF ok] by (force simp: qfind_in_set)
  show ?thesis
    unfolding searchCandidates_def inSearchScope_def
    using w l a by (auto simp: worldOf_def lobbyOf_def simp del: set_map)
qed

lemma distinct_searchCandidates:
  assumes ok: "matching_ok mx"
  shows "distinct (searchCandidates mx key w l)"
proof -
  have "distinct (qkeys (mx_rooms mx))" using matching_okD(1) [OF ok] by (simp add: qdistinct_def)
  then have "distinct (filter (\<lambda>k. fst k = key) (qkeys (mx_rooms mx)))" by (rule distinct_filter)
  moreover have "inj_on snd (set (filter (\<lambda>k. fst k = key) ks))" for ks :: "(ComId \<times> u64) list"
    by (auto simp: inj_on_def)
  ultimately have "distinct (map snd (filter (\<lambda>k. fst k = key) (qkeys (mx_rooms mx))))"
    by (simp only: distinct_map simp_thms)
  then show ?thesis
    using matching_okD(5,6) [OF ok] by (simp add: searchCandidates_def index_ok_def)
qed

lemma searchMatches_roomIds:
  assumes ok: "matching_ok mx"
  shows "distinct (map r_roomId (searchMatches mx key q))"
proof -
  let ?f = "\<lambda>rid. qfind (mx_rooms mx) (key, rid)"
  have "distinct (map r_roomId (filter P (List.map_filter ?f ids))) \<and>
      set (map r_roomId (List.map_filter ?f ids)) \<subseteq> set ids" if "distinct ids" for ids P
    using that
  proof (induction ids)
    case Nil
    then show ?case by (simp add: List.map_filter_simps)
  next
    case (Cons i ids)
    then show ?case
      using matching_okD(3) [OF ok, of key i]
      by (cases "?f i") (auto simp: List.map_filter_simps)
  qed
  from this [OF distinct_searchCandidates [OF ok]] show ?thesis by (simp add: searchMatches_def)
qed

lemma set_searchMatches:
  assumes ok: "matching_ok mx"
  shows "set (searchMatches mx key q) =
    {room. qfind (mx_rooms mx) (key, r_roomId room) = Some room \<and> inSearchScope q room \<and> RoomMatchesFilters room q}"
  using set_searchCandidates [OF ok] matching_okD(3) [OF ok]
  by (fastforce simp: searchMatches_def set_map_filter')

text \<open>C27: A search finds, each once, exactly the rooms of the session's title that are in the requested
  world (or else lobby), are not hidden and pass every filter. The reply holds the descriptions of
  the rooms from the requested start position on (1 is the first), as many as requested, 20 at most
  and by default, with the start position, the number of all rooms found and the number of rooms in the
  reply. Searching changes nothing.\<close>

theorem search_sound_complete:
  assumes ok: "matching_ok (ss_matching sh)"
  shows "let found = searchMatches (ss_matching sh) (my_key cs) q;
             asked = unat (srq_range_filter_max q);
             count = (if asked = 0 \<or> asked > 20 then 20 else asked);
             page = take count (drop (unat (srq_range_filter_start q) - 1) found) in
    \<exists>rep. CmdSearchRoom (Some q) cs sh = ((NoError, Some rep), cs, sh, []) \<and>
      distinct (map r_roomId found) \<and>
      set found = {room. qfind (rooms_of sh) (my_key cs, r_roomId room) = Some room \<and>
                      inSearchScope q room \<and> RoomMatchesFilters room q} \<and>
      (\<forall>room \<in> set found. r_flagAttr room AND FLAG_ATTR_HIDDEN = 0) \<and>
      srr_rooms rep = map (\<lambda>room. BuildRoomDataExternal room (RequestedAttrIds (srq_attr_ids q))) page \<and>
      map prx_room_id (srr_rooms rep) = map r_roomId page \<and>
      unat (srr_range_start rep) = max 1 (unat (srq_range_filter_start q)) \<and>
      srr_range_total rep = word_of_nat (length found) \<and>
      unat (srr_range_result rep) = length page"
proof -
  let ?all = "searchMatches (ss_matching sh) (my_key cs) q"
  let ?page = "take (unat (searchRangeMax q)) (drop (unat (searchRangeStart q - 1)) ?all)"
  let ?b = "\<lambda>r. BuildRoomDataExternal r (RequestedAttrIds (srq_attr_ids q))"
  let ?rep = "\<lparr>srr_rooms = map ?b ?page, srr_range_start = searchRangeStart q,
      srr_range_total = word_of_nat (length ?all), srr_range_result = word_of_nat (length (map ?b ?page))\<rparr>"
  have c: "CmdSearchRoom (Some q) cs sh = ((NoError, Some ?rep), cs, sh, [])"
    by (simp add: CmdSearchRoom_def Let_def)
  have id: "prx_room_id (?b r) = r_roomId r" for r by (simp add: BuildRoomDataExternal_def Let_def)
  have start: "unat (searchRangeStart q) = max 1 (unat (srq_range_filter_start q))"
    by (auto simp: searchRangeStart_def word_less_nat_alt)
  have "searchRangeStart q \<noteq> 0" by (auto simp: searchRangeStart_def)
  then have offset: "unat (searchRangeStart q - 1) = unat (srq_range_filter_start q) - 1"
    using start by (simp add: unat_minus_one)
  have count: "unat (searchRangeMax q) = (let asked = unat (srq_range_filter_max q)
      in if asked = 0 \<or> asked > 20 then 20 else asked)"
    by (simp add: searchRangeMax_def Let_def unat_eq_0 word_less_nat_alt)
  then have "unat (searchRangeMax q) \<le> 20" by (simp add: Let_def)
  then have "unat (word_of_nat (length ?page) :: u32) = length ?page" by (intro unat_of_nat_small) simp
  then have result: "unat (srr_range_result ?rep) = length ?page" by simp
  have hid: "\<forall>room \<in> set ?all. r_flagAttr room AND FLAG_ATTR_HIDDEN = 0"
    using set_searchMatches [OF ok, of "my_key cs" q] by (simp add: RoomMatchesFilters_def split: if_splits)
  show ?thesis
    unfolding Let_def count [unfolded Let_def, symmetric] offset [symmetric]
    by (rule exI [of _ ?rep])
      (intro conjI c hid result set_searchMatches [OF ok] searchMatches_roomIds [OF ok]; simp add: id comp_def start)
qed

text \<open>When a user joins a room, exactly the other members who are online with a matching
  context are told, each on their own connection and under their own context id, by a
  MemberJoined event with the joiner's member id and online id.\<close>

theorem join_notifies_members:
  assumes ok: "matching_ok (ss_matching sh)"
    and room: "qfind (rooms_of sh) (my_key cs, jrq_room_id q) = Some room"
    and free: "joinRefusal q (cs_info cs) room = None"
  shows "let R = CmdJoinRoom (Some q) nowMs cs sh in
    (\<forall>c pkt. (c, pkt) \<in> set (res_outs R) \<longrightarrow> (\<exists>e m. pkt = RoomEventPkt e \<and> ne_event e = EVENT_MEMBER_JOINED \<and>
       ne_room_id e = jrq_room_id q \<and> ne_member e = Some m \<and> pm_npid m = my_npid cs \<and>
       jrr_member_id (the (res_reply R)) = pm_member_id m)) \<and>
    {(c, ctx). \<exists>e. (c, RoomEventPkt e) \<in> set (res_outs R) \<and> ne_ctx_id e = ctx} =
    {(c, ctx). \<exists>p \<in> set (r_members (the (qfind (rooms_of (res_shared R)) (my_key cs, jrq_room_id q)))).
       rm_npid (snd p) \<noteq> my_npid cs \<and> contextOf sh (rm_npid (snd p)) = Some (c, ctx)}"
proof -
  let ?R = "CmdJoinRoom (Some q) nowMs cs sh" and ?k = "(my_key cs, jrq_room_id q)"
  let ?j = "createJoiner q (cs_info cs) (GetSelfSignalingAddr sh cs) (MatchingTimestampUsec nowMs)"
  let ?m = "fst (addMember ?j room)" and ?r = "snd (snd (joinRoom ?j room))"
  let ?pb = "\<lambda>ctx. NotifyRoomEvent_default\<lparr>ne_room_id := jrq_room_id q, ne_event := EVENT_MEMBER_JOINED,
      ne_event_cause := CAUSE_SERVER_OPERATION, ne_member := Some (BuildRoomMemberData ?m), ne_ctx_id := ctx\<rparr>"
  have found: "findById ?r (rm_memberId ?m) = Some ?m"
    by (simp add: findById_def qfind_qinsert)
  have k: "qfind (rooms_of (res_shared ?R)) ?k = Some ?r"
    by (simp add: CmdJoinRoom_def room free Let_def case_prod_unfold qfind_qinsert)
  have rep: "jrr_member_id (the (res_reply ?R)) = ucast (rm_memberId ?m)"
    by (simp add: CmdJoinRoom_def room free Let_def case_prod_unfold)
  have outs: "res_outs ?R = NotifyRoomMembers (set_room ?k ?r sh) (\<lambda>ctx. RoomEventPkt (?pb ctx))
      (my_key cs) (jrq_room_id q) (my_npid cs)"
    using found
    by (simp add: CmdJoinRoom_def room free Let_def case_prod_unfold qfind_qinsert SendRoomMemberEvent_def
        del: addMember_frame)
  have k': "qfind (rooms_of (set_room ?k ?r sh)) ?k = Some ?r" by (simp add: qfind_qinsert)
  have npid: "pm_npid (BuildRoomMemberData ?m) = my_npid cs" "pm_member_id (BuildRoomMemberData ?m) = ucast (rm_memberId ?m)"
    by (simp_all add: BuildRoomMemberData_def)
  have pb: "ne_event (?pb ctx) = EVENT_MEMBER_JOINED" "ne_room_id (?pb ctx) = jrq_room_id q"
    "ne_member (?pb ctx) = Some (BuildRoomMemberData ?m)" "ne_ctx_id (?pb ctx) = ctx" for ctx
    by simp_all
  have set: "set (res_outs ?R) = {(c, RoomEventPkt (?pb ctx)) | c ctx. \<exists>p \<in> set (r_members ?r).
      rm_npid (snd p) \<noteq> my_npid cs \<and> contextOf sh (rm_npid (snd p)) = Some (c, ctx)}"
    unfolding outs NotifyRoomMembers_set [OF k'] contextOf_matching ..
  show ?thesis
    unfolding Let_def k rep option.sel set npid(2) [symmetric]
  proof (intro conjI allI impI)
    fix c pkt
    assume "(c, pkt) \<in> {(c, RoomEventPkt (?pb ctx)) | c ctx. \<exists>p \<in> set (r_members ?r).
      rm_npid (snd p) \<noteq> my_npid cs \<and> contextOf sh (rm_npid (snd p)) = Some (c, ctx)}"
    then obtain ctx where "pkt = RoomEventPkt (?pb ctx)" by blast
    with pb npid show "\<exists>e m. pkt = RoomEventPkt e \<and> ne_event e = EVENT_MEMBER_JOINED \<and>
        ne_room_id e = jrq_room_id q \<and> ne_member e = Some m \<and> pm_npid m = my_npid cs \<and>
        pm_member_id (BuildRoomMemberData ?m) = pm_member_id m" by blast
  qed (rule event_contexts, rule pb(4))
qed

text \<open>A room message is accepted from members only. Each copy goes to the connection of
  another member of the room, under that member's context id, with the sender's member id and
  the message as sent; nobody outside the room receives it, and a broadcast reaches every other
  member who is online with a context.\<close>

theorem room_message_delivery:
  assumes okk: "res_error (CmdSendRoomMessage (Some q) cs sh) = NoError"
  shows "let outs = res_outs (CmdSendRoomMessage (Some q) cs sh) in
    \<exists>room src. qfind (rooms_of sh) (my_key cs, smq_room_id q) = Some room \<and>
      findByNpid room (my_npid cs) = Some src \<and>
      (\<forall>c pkt. (c, pkt) \<in> set outs \<longrightarrow> (\<exists>p n. p \<in> set (r_members room) \<and> rm_npid (snd p) \<noteq> my_npid cs \<and>
         pkt = RoomMessagePkt n \<and> contextOf sh (rm_npid (snd p)) = Some (c, nm_ctx_id n) \<and>
         nm_src_member_id n = ucast (rm_memberId src) \<and> nm_msg n = smq_msg q)) \<and>
      (ucast (smq_cast_type q) = MATCHING2_CASTTYPE_BROADCAST \<longrightarrow>
         (\<forall>p \<in> set (r_members room). \<forall>c ctx. rm_npid (snd p) \<noteq> my_npid cs \<and>
            contextOf sh (rm_npid (snd p)) = Some (c, ctx) \<longrightarrow>
            (\<exists>n. (c, RoomMessagePkt n) \<in> set outs \<and> nm_ctx_id n = ctx)))"
proof -
  let ?ct = "ucast (smq_cast_type q) :: u8"
  from okk obtain room src targets where
    room: "qfind (rooms_of sh) (my_key cs, smq_room_id q) = Some room"
    and src: "findByNpid room (my_npid cs) = Some src"
    and t: "messageTargets room (my_npid cs) ?ct (smq_dst_member_ids q) = Some targets"
    and ne: "\<not> (targets = [] \<and> (?ct = MATCHING2_CASTTYPE_UNICAST \<or> ?ct = MATCHING2_CASTTYPE_MULTICAST))"
    by (auto simp: CmdSendRoomMessage_def Let_def split: option.splits if_splits)
  define notif where "notif = \<lparr>nm_ctx_id = 0, nm_room_id = smq_room_id q,
      nm_src_member_id = ucast (rm_memberId src), nm_event = MATCHING2_ROOM_MSG_EVENT_MESSAGE,
      nm_cast_type = ucast ?ct, nm_dst_member_ids = map (\<lambda>m. ucast (rm_memberId m)) targets,
      nm_src_npid = rm_npid src, nm_src_account_id = u64_of_int (rm_userId src),
      nm_src_platform = rm_platform src, nm_msg = smq_msg q\<rparr>"
  have outs: "res_outs (CmdSendRoomMessage (Some q) cs sh) = concat (map (\<lambda>m. SendMatchingNotification sh
      (\<lambda>ctx. RoomMessagePkt (notif\<lparr>nm_ctx_id := ctx\<rparr>)) (rm_npid m)) targets)"
    using ne by (simp add: CmdSendRoomMessage_def room src t notif_def Let_def del: de_Morgan_conj)
  have members: "\<exists>p \<in> set (r_members room). snd p = m" if "m \<in> set targets" for m
    using that t by (force simp: messageTargets_def Let_def set_map_filter' dest: map_of_SomeD
        split: if_splits list.splits option.splits)
  have others: "rm_npid m \<noteq> my_npid cs" if "m \<in> set targets" for m
    using that t by (auto simp: messageTargets_def Let_def split: if_splits list.splits)
  have all: "snd p \<in> set targets"
    if "?ct = MATCHING2_CASTTYPE_BROADCAST" "p \<in> set (r_members room)" "rm_npid (snd p) \<noteq> my_npid cs" for p
    using that t by (auto simp: messageTargets_def MATCHING2_CASTTYPE_BROADCAST_def
        MATCHING2_CASTTYPE_UNICAST_def MATCHING2_CASTTYPE_MULTICAST_def Let_def)
  have n: "nm_src_member_id notif = ucast (rm_memberId src)" "nm_msg notif = smq_msg q"
    by (simp_all add: notif_def)
  have sound: "\<exists>p n. p \<in> set (r_members room) \<and> rm_npid (snd p) \<noteq> my_npid cs \<and>
      pkt = RoomMessagePkt n \<and> contextOf sh (rm_npid (snd p)) = Some (c, nm_ctx_id n) \<and>
      nm_src_member_id n = ucast (rm_memberId src) \<and> nm_msg n = smq_msg q"
    if "(c, pkt) \<in> set (res_outs (CmdSendRoomMessage (Some q) cs sh))" for c pkt
  proof -
    from that obtain m ctx where m: "m \<in> set targets" "contextOf sh (rm_npid m) = Some (c, ctx)"
      "pkt = RoomMessagePkt (notif\<lparr>nm_ctx_id := ctx\<rparr>)"
      by (auto simp: outs SendMatchingNotification_set)
    from members [OF m(1)] obtain p where "p \<in> set (r_members room)" "snd p = m" by blast
    with m others [OF m(1)] n show ?thesis
      by (intro exI [of _ p] exI [of _ "notif\<lparr>nm_ctx_id := ctx\<rparr>"]) simp
  qed
  have complete: "\<exists>n. (c, RoomMessagePkt n) \<in> set (res_outs (CmdSendRoomMessage (Some q) cs sh)) \<and> nm_ctx_id n = ctx"
    if "?ct = MATCHING2_CASTTYPE_BROADCAST" "p \<in> set (r_members room)" "rm_npid (snd p) \<noteq> my_npid cs"
      "contextOf sh (rm_npid (snd p)) = Some (c, ctx)" for p c ctx
    by (intro exI [of _ "notif\<lparr>nm_ctx_id := ctx\<rparr>"])
      (use all [OF that(1-3)] that(4) in \<open>auto simp: outs SendMatchingNotification_set\<close>)
  show ?thesis
    unfolding Let_def
    by (rule exI [of _ room], rule exI [of _ src]) (use room src sound complete in blast)
qed

text \<open>Setting a room's internal data changes exactly the flag bits the request's filter
  selects, and never the FULL flag, which stays with the server.\<close>

theorem internal_flags_bits:
  "bit (r_flagAttr (setInternalFlags flagFilter flagAttr room)) k \<longleftrightarrow>
     (if bit flagFilter k \<and> \<not> bit FLAG_ATTR_FULL k then bit flagAttr k else bit (r_flagAttr room) k)"
  by (auto simp: setInternalFlags_def Let_def bit_simps dest: bit_imp_le_length)

text \<open>A context stop before the connection drops disables the clean-up of the matching
  state: the room table keeps the rooms, and the member entry, of the user who is gone.\<close>

theorem context_stop_skips_cleanup:
  "rooms_of (sv_shared (foldl matching_step sv [EvContextStop c (Some ctx), EvDisconnect c])) = rooms_of (sv_shared sv)"
  by (simp add: apply_result_def CmdContextStop_def CleanupMatchingOnDisconnect_def)

subsection \<open>A concrete run\<close>

text \<open>Alice (connection 0) creates a room of four slots, Bob (connection 1) joins it.\<close>

definition example_create :: CreateRoomRequest where
  "example_create = \<lparr>crq_max_slots = 4, crq_team_id = 0, crq_world_id = 1, crq_lobby_id = 0,
     crq_flags = 0, crq_group_config_count = 0, crq_external_search_int_attrs = [],
     crq_external_search_bin_attrs = [], crq_external_bin_attrs = [], crq_member_bin_attrs = [],
     crq_join_group_label_present = False, crq_room_password_present = False, crq_sig_type = 0,
     crq_sig_flag = 0, crq_sig_main_member = 0, crq_internal_bin_attrs = [],
     crq_allowed_online_ids = [], crq_blocked_online_ids = [], crq_allowed_account_ids = [],
     crq_blocked_account_ids = [], crq_group_configs = [], crq_room_password = [],
     crq_has_passwd_slot_mask = False, crq_passwd_slot_mask = 0, crq_join_group_label = []\<rparr>"

definition example_join :: JoinRoomRequest where
  "example_join = \<lparr>jrq_room_id = 1, jrq_team_id = 0, jrq_member_bin_attrs = [],
     jrq_blocked_online_ids = [], jrq_blocked_account_ids = []\<rparr>"

definition example_user :: "int \<Rightarrow> qstring \<Rightarrow> nat \<Rightarrow> ClientSession" where
  "example_user uid npid conn = \<lparr>cs_authenticated = True,
     cs_info = ClientInfo_default\<lparr>ci_userId := uid, ci_npid := npid\<rparr>,
     cs_matching = MatchingSessionState_default, cs_peer = Some ''127.0.0.1'', cs_conn = conn\<rparr>"

definition alice :: ClientSession where "alice = example_user 7 ''alice'' 0"
definition bob :: ClientSession where "bob = example_user 8 ''bob'' 1"

definition example_client :: "qstring \<Rightarrow> nat \<Rightarrow> ClientEntry" where
  "example_client npid conn = \<lparr>ce_npid = npid, ce_send = conn, ce_matchingContextId = 5,
     ce_friends = [], ce_gameStatus = [], ce_gameData = [], ce_localizedGameStatus = [],
     ce_npTitleId = [], ce_titleName = [], ce_platform = ''PS4'', ce_presenceUpdatedAt = 0,
     ce_appearOffline = False, ce_notifyWithData = False\<rparr>"

definition example_events :: "matching_event list" where
  "example_events =
     [EvClients [(7, example_client ''alice'' 0), (8, example_client ''bob'' 1)] [(''alice'', 7), (''bob'', 8)],
      EvCreateRoom 0 (Some example_create) 0]"

definition example_start :: server where
  "example_start = initial_server (\<lambda>c. if c = 0 then alice else bob)"

definition example_one :: SharedState where
  "example_one = sv_shared (foldl matching_step example_start example_events)"

definition example_two :: SharedState where
  "example_two = sv_shared (foldl matching_step example_start (example_events @ [EvJoinRoom 1 (Some example_join) 0]))"

definition room_in :: "SharedState \<Rightarrow> Room" where
  "room_in sh = the (qfind (rooms_of sh) ([], 1))"

lemma example_ok: "matching_ok (ss_matching example_one)" "matching_ok (ss_matching example_two)"
proof -
  have r: "rooms_created example_start = 1"
    by (simp add: example_start_def rooms_created_def initial_server_def SharedState_default_def
        MatchingSharedState_default_def)
  have i: "server_ok example_start" unfolding example_start_def by (rule server_ok_initial)
  from matching.bounded_run_inv [OF i, of example_events]
    matching.bounded_run_inv [OF i, of "example_events @ [EvJoinRoom 1 (Some example_join) 0]"]
  show "matching_ok (ss_matching example_one)" "matching_ok (ss_matching example_two)"
    by (simp_all add: r example_events_def example_one_def example_two_def server_ok_def)
qed

lemma room_in_one: "qfind (rooms_of example_one) ([], 1) = Some (room_in example_one)"
proof -
  have "qfind (rooms_of example_one) ([], 1) \<noteq> None" by code_simp
  then show ?thesis by (auto simp: room_in_def)
qed

lemma room_in_two: "qfind (rooms_of example_two) ([], 1) = Some (room_in example_two)"
proof -
  have "qfind (rooms_of example_two) ([], 1) \<noteq> None" by code_simp
  then show ?thesis by (auto simp: room_in_def)
qed

lemma example_keys: "my_key alice = []" "my_key bob = []" "my_npid alice = ''alice''" "my_npid bob = ''bob''"
  "jrq_room_id example_join = 1"
  by code_simp+

lemma example_join_free: "joinRefusal example_join (cs_info bob) (room_in example_one) = None"
  by code_simp

lemma example_one_small: "r_maxSlot (room_in example_one) \<le> 64"
  by code_simp

lemma reachable_matching_ok_witness:
  "matching_ok (ss_matching (sv_shared (foldl matching_step (initial_server (\<lambda>c. if c = 0 then alice else bob)) example_events)))"
  by (rule reachable_matching_ok) (simp add: example_events_def)

lemma reachable_open_slots_witness:
  "unat (r_openPublicSlots (room_in example_one)) + unat (r_openPrivateSlots (room_in example_one)) = 4 - 1"
proof -
  have m: "unat (r_maxSlot (room_in example_one)) = 4" "length (r_members (room_in example_one)) = 1"
    by code_simp+
  show ?thesis
    using reachable_open_slots [of example_events "\<lambda>c. if c = 0 then alice else bob" "[]" 1 "room_in example_one"]
      room_in_one example_one_small m
    by (simp add: example_one_def example_start_def example_events_def)
qed

lemma failed_commands_change_nothing_witness:
  "CmdJoinRoom None 0 bob example_one = ((Malformed, None), bob, example_one, [])"
proof -
  have e: "res_error (CmdJoinRoom None 0 bob example_one) = Malformed" by (simp add: CmdJoinRoom_def)
  show ?thesis
    using failed_commands_change_nothing [of None 0 bob example_one None None None None None None None None] e by simp
qed

lemma join_adds_one_member_witness:
  "\<exists>m room'. qfind (rooms_of (res_shared (CmdJoinRoom (Some example_join) 0 bob example_one))) ([], 1) = Some room' \<and>
     r_members room' = r_members (room_in example_one) @ [(rm_memberId m, m)] \<and> rm_npid m = ''bob'' \<and>
     r_flagAttr room' AND FLAG_ATTR_FULL = 0"
proof -
  have room: "qfind (rooms_of example_one) (my_key bob, jrq_room_id example_join) = Some (room_in example_one)"
    using room_in_one by (simp add: example_keys)
  have slots: "Suc (length (r_members (room_in example_one))) = 2" "unat (r_maxSlot (room_in example_one)) = 4"
    by code_simp+
  obtain m room' where
    "qfind (rooms_of (res_shared (CmdJoinRoom (Some example_join) 0 bob example_one)))
       (my_key bob, jrq_room_id example_join) = Some room'"
    and mem: "r_members room' = r_members (room_in example_one) @ [(rm_memberId m, m)]" and "rm_npid m = my_npid bob"
    and "r_maxSlot room' = r_maxSlot (room_in example_one)"
    and "r_flagAttr room' AND FLAG_ATTR_FULL \<noteq> 0 \<longleftrightarrow> length (r_members room') = unat (r_maxSlot room')"
    using join_adds_one_member [OF example_ok(1) room example_one_small example_join_free, of 0]
    unfolding Let_def by (elim exE conjE) (rule that)
  then show ?thesis using slots by (auto simp: example_keys)
qed

lemma example_owner: "findByNpid (room_in example_two) ''alice'' \<noteq> None"
  "length (r_members (room_in example_two)) = 2"
  by code_simp+

lemma leave_room_effect_witness:
  "res_error (CmdLeaveRoom (Some 1) alice example_two) = NoError \<and>
   (\<exists>room'. qfind (rooms_of (res_shared (CmdLeaveRoom (Some 1) alice example_two))) ([], 1) = Some room' \<and>
      r_ownerMemberId room' \<in> set (qkeys (r_members room')))"
proof -
  obtain me where me: "findByNpid (room_in example_two) ''alice'' = Some me" using example_owner by blast
  have room: "qfind (rooms_of example_two) (my_key alice, 1) = Some (room_in example_two)"
    using room_in_two by (simp add: example_keys)
  have two: "length (r_members (room_in example_two)) \<noteq> 1" using example_owner(2) by simp
  have id: "(1 :: u64) \<noteq> 0" by simp
  show ?thesis
    using leave_room_effect [OF example_ok(2) room _ id, of me] two
    unfolding Let_def by (simp only: example_keys me if_False simp_thms) blast
qed

definition example_kick :: KickoutRoomMemberRequest where
  "example_kick = \<lparr>krq_room_id = 1, krq_target_member_id = 0x22, krq_block_kick_flag = 1\<rparr>"

lemma example_kick_ok: "res_error (CmdKickoutRoomMember (Some example_kick) alice example_two) = NoError"
  by code_simp

lemma kick_by_owner_blocks_witness:
  "\<exists>target. qfind (r_members (room_in example_two)) 0x22 = Some target \<and> rm_npid target \<noteq> ''alice'' \<and>
     (\<forall>j them t. my_npid them = rm_npid target \<and> my_key them = [] \<and> jrq_room_id j = 1 \<longrightarrow>
        res_error (CmdJoinRoom (Some j) t them
          (res_shared (CmdKickoutRoomMember (Some example_kick) alice example_two))) = Blocked)"
proof -
  have k: "krq_room_id example_kick = 1" "krq_block_kick_flag example_kick \<noteq> 0"
    "(ucast (krq_target_member_id example_kick) :: u16) = 0x22"
    by (simp_all add: example_kick_def)
  show ?thesis
    using kick_by_owner_blocks [of example_two alice example_kick "room_in example_two", OF example_ok(2) _ example_kick_ok]
      room_in_two k
    by (auto simp: example_keys Let_def)
qed

definition example_search :: SearchRoomRequest where
  "example_search = \<lparr>srq_world_id = 1, srq_lobby_id = 0, srq_range_filter_start = 1,
     srq_range_filter_max = 20, srq_flag_filter = 0, srq_flag_attr = 0, srq_int_filters = [],
     srq_bin_filters = [], srq_attr_ids = []\<rparr>"

lemma search_sound_complete_witness:
  "\<exists>rep. CmdSearchRoom (Some example_search) bob example_two = ((NoError, Some rep), bob, example_two, []) \<and>
     map prx_room_id (srr_rooms rep) = [1] \<and> unat (srr_range_result rep) = 1"
proof -
  have e: "unat (srq_range_filter_max example_search) = 20" "unat (srq_range_filter_start example_search) = 1"
    "map r_roomId (searchMatches (ss_matching example_two) (my_key bob) example_search) = [1]"
    by code_simp+
  then show ?thesis
    using search_sound_complete [OF example_ok(2), of bob example_search]
    by (auto simp: Let_def map_eq_Cons_conv)
qed

lemma join_notifies_members_witness:
  "{(c, ctx). \<exists>e. (c, RoomEventPkt e) \<in> set (res_outs (CmdJoinRoom (Some example_join) 0 bob example_one)) \<and>
      ne_ctx_id e = ctx} = {(0, 5)}"
proof -
  have m: "map (\<lambda>p. rm_npid (snd p)) (r_members (the (qfind (rooms_of (res_shared
      (CmdJoinRoom (Some example_join) 0 bob example_one))) ([], 1)))) = [''alice'', ''bob'']"
    and c: "contextOf example_one ''alice'' = Some (0, 5)"
    by code_simp+
  have n: "(\<exists>p \<in> set ps. rm_npid (snd p) \<noteq> ''bob'' \<and> contextOf example_one (rm_npid (snd p)) = Some x) \<longleftrightarrow> x = (0, 5)"
    if "map (\<lambda>p. rm_npid (snd p)) ps = [''alice'', ''bob'']" for ps :: "(u16 \<times> RoomMember) list" and x
    using that c by (auto simp: map_eq_Cons_conv)
  show ?thesis
    using join_notifies_members [of example_one bob example_join "room_in example_one" 0, OF example_ok(1) _
        example_join_free] room_in_one n [OF m]
    by (simp add: example_keys Let_def)
qed

definition example_message :: SendRoomMessageRequest where
  "example_message = \<lparr>smq_room_id = 1, smq_cast_type = 1, smq_dst_member_ids = [], smq_msg = [1, 2]\<rparr>"

lemma example_message_ok: "res_error (CmdSendRoomMessage (Some example_message) bob example_two) = NoError"
  by code_simp

lemma room_message_delivery_witness:
  "\<exists>n. (0, RoomMessagePkt n) \<in> set (res_outs (CmdSendRoomMessage (Some example_message) bob example_two))
     \<and> nm_ctx_id n = 5"
proof -
  have m: "map (\<lambda>p. rm_npid (snd p)) (r_members (room_in example_two)) = [''alice'', ''bob'']"
    and c: "contextOf example_two ''alice'' = Some (0, 5)"
    by code_simp+
  have "''alice'' \<in> set (map (\<lambda>p. rm_npid (snd p)) (r_members (room_in example_two)))" unfolding m by simp
  then obtain p where p: "p \<in> set (r_members (room_in example_two))" "rm_npid (snd p) = ''alice''"
    by auto
  have b: "(ucast (smq_cast_type example_message) :: u8) = MATCHING2_CASTTYPE_BROADCAST"
    "smq_room_id example_message = 1"
    by (simp_all add: example_message_def MATCHING2_CASTTYPE_BROADCAST_def)
  show ?thesis
    using room_message_delivery [of example_message bob example_two, OF example_message_ok] p c b room_in_two
    by (fastforce simp: example_keys Let_def)
qed

end
