(* ===== verification/Online.thy ===== *)
theory Online
  imports Presence Matching
begin

text \<open>
  The server as one machine: connections, accounts, friends, presence, usage and matching
  commands in any order, over one database and one shared state. The invariants of the parts
  are kept together: the tables are well-formed, every friend list in memory agrees with the
  friendship table, the usage counters count, and the rooms and their indexes are consistent.
\<close>

subsection \<open>The machine\<close>

record community =
  cm_server :: server
  cm_db :: Database

datatype community_event =
    EvConnect nat "qstring option"
  | EvCreate nat bool "RegistrationRequest option" bytes qstring
  | EvLogin nat faults "LoginRequest option" int
  | EvDelete nat bool stream
  | EvFriend nat friend_op faults "qstring option"
  | EvAppear nat "bool option"
  | EvScore nat bool CommandType stream         \<comment> \<open>a command that leads with a game id\<close>
  | EvMatching matching_event
  | EvHangUp nat int

definition newSession :: "nat \<Rightarrow> qstring option \<Rightarrow> ClientSession" where
  "newSession conn peer = \<lparr>cs_authenticated = False, cs_info = ClientInfo_default,
     cs_matching = MatchingSessionState_default, cs_peer = peer, cs_conn = conn\<rparr>"

fun friend_command_type :: "friend_op \<Rightarrow> CommandType" where
  "friend_command_type OpAddFriend = AddFriend"
| "friend_command_type OpRemoveFriend = RemoveFriend"
| "friend_command_type OpAddBlock = AddBlock"
| "friend_command_type OpRemoveBlock = RemoveBlock"

abbreviation cm_session :: "community \<Rightarrow> nat \<Rightarrow> ClientSession" where
  "cm_session cm c \<equiv> sv_session (cm_server cm) c"

abbreviation cm_shared :: "community \<Rightarrow> SharedState" where
  "cm_shared cm \<equiv> sv_shared (cm_server cm)"

definition allowed :: "CommandType \<Rightarrow> nat \<Rightarrow> community \<Rightarrow> bool" where
  "allowed cmd c cm \<longleftrightarrow> DispatchCommand (cs_authenticated (cm_session cm c)) (Some cmd) = DHandle cmd"

definition set_session :: "nat \<Rightarrow> ClientSession \<Rightarrow> SharedState \<Rightarrow> community \<Rightarrow> community" where
  "set_session c cs sh cm =
     cm\<lparr>cm_server := (cm_server cm)\<lparr>sv_shared := sh, sv_session := (sv_session (cm_server cm))(c := cs)\<rparr>\<rparr>"

definition set_shared :: "SharedState \<Rightarrow> Database \<Rightarrow> community \<Rightarrow> community" where
  "set_shared sh db cm = cm\<lparr>cm_server := (cm_server cm)\<lparr>sv_shared := sh\<rparr>, cm_db := db\<rparr>"

fun community_step :: "auth_functions \<Rightarrow> config \<Rightarrow> community \<Rightarrow> community_event \<Rightarrow> community" where
  "community_step au cf cm (EvConnect c peer) = set_session c (newSession c peer) (cm_shared cm) cm"
| "community_step au cf cm (EvCreate c fault req salt token) =
     (if allowed Create c cm then cm\<lparr>cm_db := snd (CmdCreate au cf fault req salt token (cm_db cm))\<rparr> else cm)"
| "community_step au cf cm (EvLogin c fa req nowMs) =
     (if allowed Login c cm
      then (let (_, cs, sh, _) = CmdLogin au cf fa req nowMs (cm_session cm c) (cm_shared cm) (cm_db cm)
            in set_session c cs sh cm)
      else cm)"
| "community_step au cf cm (EvDelete c fault data) =
     (if allowed Delete c cm
      then (let (_, cs, sh, db) = CmdDelete au fault data (cm_session cm c) (cm_shared cm) (cm_db cm)
            in (set_session c cs sh cm)\<lparr>cm_db := db\<rparr>)
      else cm)"
| "community_step au cf cm (EvFriend c opr fa req) =
     (if allowed (friend_command_type opr) c cm
      then (let (_, sh, db, _) = friend_command opr fa req (cm_session cm c) (cm_shared cm) (cm_db cm)
            in set_shared sh db cm)
      else cm)"
| "community_step au cf cm (EvAppear c req) =
     (if allowed SetAppearOffline c cm
      then (let (_, sh, _) = CmdSetAppearOffline req (cm_session cm c) (cm_shared cm) in set_shared sh (cm_db cm) cm)
      else cm)"
| "community_step au cf cm (EvScore c fault cmd data) =
     (if allowed cmd c cm
      then (let (sh, db, _) = attributeGame fault cmd data (cm_session cm c) (cm_shared cm) (cm_db cm)
            in set_shared sh db cm)
      else cm)"
| "community_step au cf cm (EvMatching e) = cm\<lparr>cm_server := matching_step (cm_server cm) e\<rparr>"
| "community_step au cf cm (EvHangUp c nowMs) =
     (let (cs, sh, _) = CleanupOnDisconnect nowMs (cm_session cm c) (cm_shared cm) in set_session c cs sh cm)"

fun event_ok :: "community_event \<Rightarrow> bool" where
  \<comment> \<open>the database may refuse to write a relation, but it answers its queries;
      matching events are commands and address datagrams\<close>
  "event_ok (EvLogin c fa req nowMs) = (\<not> fa_account fa \<and> \<not> fa_rel_read fa)"
| "event_ok (EvFriend c opr fa req) = (\<not> fa_account fa \<and> \<not> fa_rel_read fa)"
| "event_ok (EvMatching e) = (case e of EvSession c cs \<Rightarrow> False | EvClients cl ids \<Rightarrow> False | EvDisconnect c \<Rightarrow> False | _ \<Rightarrow> True)"
| "event_ok e = True"

definition initial_community :: community where
  "initial_community = \<lparr>cm_server = initial_server (\<lambda>c. newSession c None), cm_db = Database_empty\<rparr>"

subsection \<open>Invariants of the tables\<close>

definition has_account :: "Database \<Rightarrow> userid \<Rightarrow> bool" where
  "has_account db u \<longleftrightarrow> qfind (db_accounts db) u \<noteq> None"

definition row_states :: "(u8 \<times> u8) list" where
  \<comment> \<open>a request either way, friends, a block either way, both blocked: never friend and blocked\<close>
  "row_states = [(FRIEND, 0), (0, FRIEND), (FRIEND, FRIEND), (BLOCKED, 0), (0, BLOCKED), (BLOCKED, BLOCKED)]"

definition friendship_ok :: "Database \<Rightarrow> bool" where
  "friendship_ok db \<longleftrightarrow>
     qdistinct (db_friendship db) \<and>
     (\<forall>((i, j), st) \<in> set (db_friendship db).
        i < j \<and> has_account db i \<and> has_account db j \<and> st \<in> set row_states)"

definition accounts_ok :: "Database \<Rightarrow> bool" where
  "accounts_ok db \<longleftrightarrow>
     qdistinct (db_accounts db) \<and> (\<forall>u. has_account db u \<longrightarrow> 0 < u \<and> u < db_nextUserId db) \<and>
     0 < db_nextUserId db \<and>
     distinct (map (\<lambda>r. nocase (ur_username r)) (qvalues (db_accounts db)))"

definition mutual :: "Database \<Rightarrow> userid \<Rightarrow> userid \<Rightarrow> bool" where
  "mutual db a b \<longleftrightarrow> a \<noteq> b \<and>
     (let (x, y) = relStatus (db_friendship db) a b in hasFriend x \<and> hasFriend y)"

definition listed :: "SharedState \<Rightarrow> userid \<Rightarrow> userid set option" where
  \<comment> \<open>the friend list in memory of a connected user\<close>
  "listed sh u = map_option (\<lambda>c. set (qkeys (ce_friends c))) (qfind (ss_clients sh) u)"

definition list_ok :: "Database \<Rightarrow> userid \<Rightarrow> userid set \<Rightarrow> bool" where
  "list_ok db u fs \<longleftrightarrow>
     u < db_nextUserId db \<and> (\<forall>v \<in> fs. v < db_nextUserId db) \<and>
     (has_account db u \<longrightarrow> (\<forall>v. has_account db v \<longrightarrow> (v \<in> fs \<longleftrightarrow> mutual db u v)))"

definition online_ok :: "Database \<Rightarrow> SharedState \<Rightarrow> bool" where
  "online_ok db sh \<longleftrightarrow> qdistinct (ss_clients sh) \<and> (\<forall>u fs. listed sh u = Some fs \<longrightarrow> list_ok db u fs)"

definition people_ok :: "community \<Rightarrow> bool" where
  [inv_defs]: "people_ok cm \<longleftrightarrow>
     accounts_ok (cm_db cm) \<and> friendship_ok (cm_db cm) \<and> online_ok (cm_db cm) (cm_shared cm)"

subsection \<open>Reading and changing one pair\<close>

lemma row_states_swap [simp]: "(y, x) \<in> set row_states \<longleftrightarrow> (x, y) \<in> set row_states"
  by (auto simp: row_states_def)

lemma mutual_sym: "mutual db a b = mutual db b a"
  using rel.get_swap [of a b "db_friendship db"] by (auto simp: mutual_def split: prod.splits)

lemma mutual_pair:
  "mutual db a b \<longleftrightarrow> (a, b) \<in> so_requests (rel.meaning (db_friendship db)) \<and>
                    (b, a) \<in> so_requests (rel.meaning (db_friendship db))"
  using rel.other_side [of a b "db_friendship db"]
  by (auto simp: mutual_def rel.meaning_def split: prod.splits)

lemma relStatus_rows:
  assumes "friendship_ok db" and "a \<noteq> b"
  shows "relStatus (db_friendship db) a b \<in> insert (0, 0) (set row_states)"
    and "relStatus (db_friendship db) a b \<noteq> (0, 0) \<Longrightarrow> has_account db a \<and> has_account db b"
proof -
  have row: "st \<in> set row_states \<and> has_account db i \<and> has_account db j"
    if "qfind (db_friendship db) (i, j) = Some st" for i j st
    using map_of_SomeD [OF that] assms(1) by (auto simp: friendship_ok_def)
  show "relStatus (db_friendship db) a b \<in> insert (0, 0) (set row_states)"
    by (auto simp: relStatus_def orderedIds_def split: option.split dest!: row)
  show "relStatus (db_friendship db) a b \<noteq> (0, 0) \<Longrightarrow> has_account db a \<and> has_account db b"
    by (auto simp: relStatus_def orderedIds_def split: option.splits if_splits dest!: row)
qed

lemma mutual_account: "friendship_ok db \<Longrightarrow> mutual db a b \<Longrightarrow> has_account db a \<and> has_account db b"
  using relStatus_rows(2) [of db a b] by (cases "relStatus (db_friendship db) a b = (0, 0)") (auto simp: mutual_def split: prod.splits)

lemma mutual_put:
  assumes "a \<noteq> b" and "db_friendship db' = relPut a b (x, y) (db_friendship db)"
  shows "mutual db' u v \<longleftrightarrow> (if {u, v} = {a, b} then hasFriend x \<and> hasFriend y else mutual db u v)"
proof (cases "u = v")
  case False
  with assms show ?thesis
    by (auto simp: mutual_def rel.get_put doubleton_eq_iff split: if_splits prod.splits)
qed (use assms in \<open>auto simp: mutual_def doubleton_eq_iff\<close>)

lemma mutual_del:
  assumes "a \<noteq> b" and "db_friendship db' = relDel a b (db_friendship db)"
  shows "mutual db' u v \<longleftrightarrow> {u, v} \<noteq> {a, b} \<and> mutual db u v"
proof (cases "u = v")
  case False
  with assms show ?thesis
    by (auto simp: mutual_def rel.get_del split: if_splits prod.splits)
qed (use assms in \<open>auto simp: mutual_def doubleton_eq_iff\<close>)

lemma friendship_ok_put:
  assumes "friendship_ok db" and "a \<noteq> b" and "has_account db a" and "has_account db b"
    and "(x, y) \<in> set row_states"
  shows "friendship_ok (db\<lparr>db_friendship := relPut a b (x, y) (db_friendship db)\<rparr>)"
  using assms by (auto simp: friendship_ok_def relPut_def orderedIds_def set_qinsert has_account_def)

lemma friendship_ok_del:
  "friendship_ok db \<Longrightarrow> friendship_ok (db\<lparr>db_friendship := relDel a b (db_friendship db)\<rparr>)"
  by (auto simp: friendship_ok_def relDel_def orderedIds_def set_qremove has_account_def)

lemma accounts_ok_rel [simp]: "accounts_ok (db\<lparr>db_friendship := t\<rparr>) = accounts_ok db"
  by (simp add: accounts_ok_def has_account_def)

subsection \<open>The friend lists in memory\<close>

lemma listed_entry [simp]:
  "listed (addFriendEntry a b n sh) = (listed sh)(a := map_option (insert b) (listed sh a))"
  "listed (removeFriendEntry a b sh) = (listed sh)(a := map_option (\<lambda>fs. fs - {b}) (listed sh a))"
  by (auto simp: listed_def addFriendEntry_def removeFriendEntry_def qfind_qmodify
      qkeys_qinsert [simplified] qkeys_qremove [simplified] option.map_comp comp_def fun_eq_iff map_option_case split: option.split)

lemma qdistinct_entry [simp]:
  "qdistinct (ss_clients sh) \<Longrightarrow> qdistinct (ss_clients (addFriendEntry a b n sh))"
  "qdistinct (ss_clients sh) \<Longrightarrow> qdistinct (ss_clients (removeFriendEntry a b sh))"
  by (simp_all add: addFriendEntry_def removeFriendEntry_def)

lemma listed_cong: "ss_clients sh' = ss_clients sh \<Longrightarrow> listed sh' = listed sh"
  by (simp add: listed_def fun_eq_iff)

lemma online_okD:
  assumes "online_ok db sh" and "listed sh u = Some fs"
  shows "u < db_nextUserId db" and "v \<in> fs \<Longrightarrow> v < db_nextUserId db"
    and "has_account db u \<Longrightarrow> has_account db v \<Longrightarrow> v \<in> fs \<longleftrightarrow> mutual db u v"
proof -
  have "list_ok db u fs" using assms by (simp add: online_ok_def)
  then show "u < db_nextUserId db" "v \<in> fs \<Longrightarrow> v < db_nextUserId db"
    "has_account db u \<Longrightarrow> has_account db v \<Longrightarrow> v \<in> fs \<longleftrightarrow> mutual db u v"
    by (auto simp: list_ok_def)
qed

lemma online_okI:
  assumes "qdistinct (ss_clients sh)" and "\<And>u fs. listed sh u = Some fs \<Longrightarrow> list_ok db u fs"
  shows "online_ok db sh"
  using assms by (simp add: online_ok_def)

lemma online_ok_cong:
  assumes "online_ok db sh" and "listed sh' = listed sh" and "qdistinct (ss_clients sh')"
    and "db_nextUserId db' = db_nextUserId db" and "db_accounts db' = db_accounts db"
    and "\<And>u v. mutual db' u v = mutual db u v"
  shows "online_ok db' sh'"
  using assms by (auto simp: online_ok_def list_ok_def has_account_def)

definition setMember :: "bool \<Rightarrow> 'a \<Rightarrow> 'a set \<Rightarrow> 'a set" where
  "setMember yes x s = (if yes then insert x s else s - {x})"

text \<open>One pair changes in the table and in both lists: the lists still agree with the table.\<close>

lemma online_ok_pair:
  assumes ok: "online_ok db sh" and ne: "a \<noteq> b"
    and l: "listed sh' = (listed sh)(a := map_option (setMember m b) (listed sh a),
                                     b := map_option (setMember m a) (listed sh b))"
    and d: "qdistinct (ss_clients sh')"
    and db: "db_nextUserId db' = db_nextUserId db" "db_accounts db' = db_accounts db"
    and mu: "\<And>u v. mutual db' u v \<longleftrightarrow> (if {u, v} = {a, b} then m else mutual db u v)"
    and acc: "accounts_ok db" "has_account db a" "has_account db b"
  shows "online_ok db' sh'"
proof (rule online_okI [OF d])
  fix u fs assume u: "listed sh' u = Some fs"
  have lt: "a < db_nextUserId db" "b < db_nextUserId db" using acc by (auto simp: accounts_ok_def)
  have ha: "has_account db' w = has_account db w" for w by (simp add: has_account_def db)
  obtain old where old: "listed sh u = Some old" and fs: "fs = (if u = a then setMember m b old else
      if u = b then setMember m a old else old)"
    using u l ne by (auto split: if_splits)
  note o = online_okD [OF ok old]
  show "list_ok db' u fs"
    unfolding list_ok_def db ha
  proof (intro conjI ballI impI allI)
    show "u < db_nextUserId db" by (rule o)
    fix v assume "v \<in> fs"
    then show "v < db_nextUserId db" using lt o(2) [of v] by (auto simp: fs setMember_def split: if_splits)
  next
    fix v assume "has_account db u" "has_account db v"
    with o(3) [of v] ne show "v \<in> fs \<longleftrightarrow> mutual db' u v"
      by (auto simp: fs mu setMember_def doubleton_eq_iff)
  qed
qed

subsection \<open>The friend commands keep the invariants\<close>

abbreviation tables_ok :: "Database \<Rightarrow> SharedState \<Rightarrow> bool" where
  "tables_ok db sh \<equiv> accounts_ok db \<and> friendship_ok db \<and> online_ok db sh"

lemma listed_befriend:
  "a = my_id cs \<Longrightarrow> a \<noteq> b \<Longrightarrow> listed (fst (befriendOnline cs n b sh)) =
    (listed sh)(a := map_option (setMember True b) (listed sh a), b := map_option (setMember True a) (listed sh b))"
  by (auto simp: befriendOnline_def Let_def setMember_def [abs_def] fun_eq_iff)

lemma listed_unfriend:
  "a = my_id cs \<Longrightarrow> a \<noteq> b \<Longrightarrow> listed (fst (unfriendOnline cs n b sh)) =
    (listed sh)(a := map_option (setMember False b) (listed sh a), b := map_option (setMember False a) (listed sh b))"
  by (auto simp: unfriendOnline_def Let_def setMember_def [abs_def] fun_eq_iff)

lemma qdistinct_befriend [simp]:
  "qdistinct (ss_clients sh) \<Longrightarrow> qdistinct (ss_clients (fst (befriendOnline cs n b sh)))"
  "qdistinct (ss_clients sh) \<Longrightarrow> qdistinct (ss_clients (fst (unfriendOnline cs n b sh)))"
  by (simp_all add: befriendOnline_def unfriendOnline_def Let_def)

text \<open>A command writes one pair: the row, and the lists when the friendship changes.\<close>

lemma tables_ok_write:
  assumes ok: "tables_ok db sh" and ne: "a \<noteq> b" and acc: "has_account db a" "has_account db b"
    and db: "db' = db\<lparr>db_friendship := relPut a b (x, y) (db_friendship db)\<rparr> \<and> (x, y) \<in> set row_states
         \<or> db' = db\<lparr>db_friendship := relDel a b (db_friendship db)\<rparr> \<and> x = 0"
    and lists: "listed sh' = listed sh \<and> mutual db a b = (hasFriend x \<and> hasFriend y)
         \<or> listed sh' = (listed sh)(a := map_option (setMember (hasFriend x \<and> hasFriend y) b) (listed sh a),
                                    b := map_option (setMember (hasFriend x \<and> hasFriend y) a) (listed sh b))"
    and d: "qdistinct (ss_clients sh')"
  shows "tables_ok db' sh'"
proof -
  have f: "friendship_ok db'" using db ok ne acc friendship_ok_put friendship_ok_del by blast
  have same: "db_nextUserId db' = db_nextUserId db" "db_accounts db' = db_accounts db" using db by auto
  have a: "accounts_ok db'" using db ok by auto
  have mu: "mutual db' u v \<longleftrightarrow> (if {u, v} = {a, b} then hasFriend x \<and> hasFriend y else mutual db u v)" for u v
    using db
  proof
    assume "db' = db\<lparr>db_friendship := relPut a b (x, y) (db_friendship db)\<rparr> \<and> (x, y) \<in> set row_states"
    then show ?thesis by (intro mutual_put [OF ne]) simp
  next
    assume "db' = db\<lparr>db_friendship := relDel a b (db_friendship db)\<rparr> \<and> x = 0"
    then show ?thesis using mutual_del [OF ne, of db' db u v] by simp
  qed
  from lists show ?thesis
  proof
    assume l: "listed sh' = listed sh \<and> mutual db a b = (hasFriend x \<and> hasFriend y)"
    then have "mutual db' u v = mutual db u v" for u v
      using mu [of u v] mutual_sym [of db u v] by (auto simp: doubleton_eq_iff split: if_splits)
    with l ok d same a f show ?thesis using online_ok_cong [of db sh sh' db'] by simp
  next
    assume "listed sh' = (listed sh)(a := map_option (setMember (hasFriend x \<and> hasFriend y) b) (listed sh a),
                                    b := map_option (setMember (hasFriend x \<and> hasFriend y) a) (listed sh b))"
    from online_ok_pair [OF _ ne this d same mu _ acc] ok a f show ?thesis by simp
  qed
qed

lemma has_account_get: "GetUserId fault n db = Some b \<Longrightarrow> has_account db b"
  using find_account by (simp add: has_account_def)

definition written :: "friend_result \<Rightarrow> SharedState \<times> Database" where
  "written r = (fst (snd r), fst (snd (snd r)))"

lemma written_refuse [simp]: "written (e, sh, db, outs) = (sh, db)"
  by (simp add: written_def)

lemma Set_cases:
  obtains "SetRelStatus fault a b x y db = (False, db)"
  | "SetRelStatus fault a b x y db = (True, db\<lparr>db_friendship := relPut a b (x, y) (db_friendship db)\<rparr>)"
    "a \<noteq> b" "has_account db a" "has_account db b"
  by (cases "fault \<or> a = b \<or> qfind (db_accounts db) a = None \<or> qfind (db_accounts db) b = None")
    (auto simp: SetRelStatus_eq has_account_def)

lemma store_cases:
  obtains "storeOrDelete fa a b x y db = (False, db)"
  | "storeOrDelete fa a b x y db = (True, db\<lparr>db_friendship := relPut a b (x, y) (db_friendship db)\<rparr>)"
    "(x, y) \<noteq> (0, 0)"
  | "storeOrDelete fa a b x y db = (True, db\<lparr>db_friendship := relDel a b (db_friendship db)\<rparr>)"
    "x = 0" "y = 0"
proof (cases "x = 0 \<and> y = 0")
  case True
  with that(1,3) show thesis by (cases "fa_rel_write fa") (simp_all add: storeOrDelete_def DeleteRel_eq)
next
  case False
  then show thesis
    by (cases rule: Set_cases [of "fa_rel_write fa" a b x y db])
      (intro that(1) that(2), auto simp: storeOrDelete_def)+
qed

lemma mutual_read:
  "relStatus (db_friendship db) a b = (x, y) \<Longrightarrow> a \<noteq> b \<Longrightarrow> mutual db a b \<longleftrightarrow> hasFriend x \<and> hasFriend y"
  by (simp add: mutual_def)

lemmas friend_command_defs = CmdAddFriend_def CmdRemoveFriend_def CmdAddBlock_def CmdRemoveBlock_def

lemma friend_op_cases:
  assumes "\<not> fa_account fa" and "\<not> fa_rel_read fa"
  obtains (refused) "written (friend_command opr fa req cs sh db) = (sh, db)"
  | (read) n b res x y where "req = Some n" "GetUserId False n db = Some b" "b \<noteq> my_id cs"
      "GetRelStatus False (my_id cs) b db = (res, x, y)" "res \<noteq> RelError"
      "relStatus (db_friendship db) (my_id cs) b = (x, y)" "res \<noteq> RelOk \<Longrightarrow> x = 0 \<and> y = 0"
      "fa_account fa = False" "fa_rel_read fa = False"
proof (cases req)
  case None
  then show thesis by (intro refused, cases opr) (simp_all add: friend_command_defs)
next
  case (Some n)
  show thesis
  proof (cases "GetUserId False n db")
    case None
    with Some assms show thesis by (intro refused, cases opr) (simp_all add: friend_command_defs)
  next
    case b: (Some b)
    show thesis
    proof (cases "b = my_id cs")
      case True
      with b Some assms show thesis by (intro refused, cases opr) (simp_all add: friend_command_defs)
    next
      case False
      obtain res x y where rd: "GetRelStatus False (my_id cs) b db = (res, x, y)" "res \<noteq> RelError"
          "relStatus (db_friendship db) (my_id cs) b = (x, y)" "res \<noteq> RelOk \<Longrightarrow> x = 0 \<and> y = 0"
        by (rule GetRelStatus_read [of "my_id cs" b db]) blast
      show thesis by (rule read [OF Some b False rd]) (use assms in simp_all)
    qed
  qed
qed

lemma AddFriend_tables:
  assumes ok: "tables_ok db sh" and fa: "\<not> fa_account fa" "\<not> fa_rel_read fa"
    and w: "written (friend_command OpAddFriend fa req cs sh db) = (sh', db')"
  shows "tables_ok db' sh'"
  using fa
proof (cases rule: friend_op_cases [where opr = OpAddFriend and req = req and cs = cs and sh = sh and db = db])
  case refused
  with w ok show ?thesis by simp
next
  case (read n b res x y)
  let ?a = "my_id cs"
  note ne = read(3)
  show ?thesis
  proof (cases "hasBlocked x \<or> hasBlocked y \<or> hasFriend x")
    case True
    then have "res = RelOk" using read(7) by (cases "res = RelOk") auto
    with True read have "written (friend_command OpAddFriend fa req cs sh db) = (sh, db)"
      by (cases "hasBlocked x \<or> hasBlocked y") (simp_all add: CmdAddFriend_def)
    with w ok show ?thesis by simp
  next
    case nf: False
    have xy: "(x, y) \<in> {(0, 0), (0, FRIEND)}"
      using relStatus_rows(1) [of db ?a b] ok read(6) ne nf by (auto simp: row_states_def)
    show ?thesis
    proof (cases rule: Set_cases [of "fa_rel_write fa" ?a b "x OR FRIEND" y db])
      case 1
      have "written (friend_command OpAddFriend fa req cs sh db) = (sh, db)"
        using read nf 1 by (cases "res = RelOk") (simp_all add: CmdAddFriend_def Let_def)
      with ok w show ?thesis by simp
    next
      case 2
      let ?db = "db\<lparr>db_friendship := relPut ?a b (x OR FRIEND, y) (db_friendship db)\<rparr>"
      have r: "written (friend_command OpAddFriend fa req cs sh db) =
          (if hasFriend y then fst (befriendOnline cs n b sh) else sh, ?db)"
        using read nf 2 by (cases "res = RelOk") (simp_all add: CmdAddFriend_def Let_def case_prod_unfold)
      have rs: "(x OR FRIEND, y) \<in> set row_states" using xy by (auto simp: row_states_def)
      have l: "listed sh' = listed sh \<and> mutual db ?a b = (hasFriend (x OR FRIEND) \<and> hasFriend y) \<or>
          listed sh' = (listed sh)(?a := map_option (setMember (hasFriend (x OR FRIEND) \<and> hasFriend y) b) (listed sh ?a),
                                    b := map_option (setMember (hasFriend (x OR FRIEND) \<and> hasFriend y) ?a) (listed sh b))"
        using r w ne nf listed_befriend [OF refl ne [symmetric], of n sh] mutual_read [OF read(6)]
        by (cases "hasFriend y") simp_all
      have d: "qdistinct (ss_clients sh')"
        using r w ok by (auto simp: online_ok_def split: if_splits)
      show ?thesis
        by (rule tables_ok_write [OF ok 2(2-4) disjI1 l d]) (use r w rs in simp)
    qed
  qed
qed


lemma qdistinct_online: "online_ok db sh \<Longrightarrow> qdistinct (ss_clients sh)"
  by (simp add: online_ok_def)

lemma relation_accounts:
  assumes "friendship_ok db" and "a \<noteq> b" and "relStatus (db_friendship db) a b = (x, y)"
    and "hasFriend x \<or> hasFriend y \<or> hasBlocked x \<or> hasBlocked y"
  shows "has_account db a \<and> has_account db b"
proof -
  have "(x, y) \<noteq> (0, 0)" using assms(4) by auto
  with relStatus_rows(2) [OF assms(1,2)] assms(3) show ?thesis by simp
qed

lemma RemoveFriend_tables:
  assumes ok: "tables_ok db sh" and fa: "\<not> fa_account fa" "\<not> fa_rel_read fa"
    and w: "written (friend_command OpRemoveFriend fa req cs sh db) = (sh', db')"
  shows "tables_ok db' sh'"
  using fa
proof (cases rule: friend_op_cases [where opr = OpRemoveFriend and req = req and cs = cs and sh = sh and db = db])
  case refused
  with w ok show ?thesis by simp
next
  case (read n b res x y)
  let ?a = "my_id cs" and ?x = "x AND NOT FRIEND" and ?y = "y AND NOT FRIEND"
  note ne = read(3)
  show ?thesis
  proof (cases "hasFriend x \<or> hasFriend y")
    case False
    with read have "written (friend_command OpRemoveFriend fa req cs sh db) = (sh, db)"
      by (simp add: CmdRemoveFriend_def)
    with w ok show ?thesis by simp
  next
    case True
    then have rok: "res = RelOk" using read(7) by (cases "res = RelOk") auto
    have st: "(x, y) \<in> set row_states"
      using relStatus_rows(1) [of db ?a b] ok read(6) ne True by auto
    then have xy: "?x = 0 \<and> ?y = 0" using True by (auto simp: row_states_def FRIEND_def BLOCKED_def hasFriend_def)
    have acc: "has_account db ?a \<and> has_account db b"
      using relation_accounts [OF _ ne [symmetric] read(6)] ok True by blast
    have r: "written (friend_command OpRemoveFriend fa req cs sh db) =
        (if fa_rel_write fa then (sh, db) else
          (fst (unfriendOnline cs n b sh), db\<lparr>db_friendship := relDel ?a b (db_friendship db)\<rparr>))"
      using read True by (cases "hasFriend x")
        (simp_all add: CmdRemoveFriend_def rok xy storeOrDelete_def DeleteRel_eq Let_def case_prod_unfold)
    show ?thesis
    proof (cases "fa_rel_write fa")
      case True
      with r w ok show ?thesis by simp
    next
      case False
      with r w have e: "sh' = fst (unfriendOnline cs n b sh)"
          "db' = db\<lparr>db_friendship := relDel ?a b (db_friendship db)\<rparr>" by auto
      show ?thesis
        by (rule tables_ok_write [of db sh ?a b _ 0 0])
          (use ok ne acc e listed_unfriend [of ?a cs b n sh] in \<open>auto simp: qdistinct_online\<close>)
    qed
  qed
qed

lemma AddBlock_tables:
  assumes ok: "tables_ok db sh" and fa: "\<not> fa_account fa" "\<not> fa_rel_read fa"
    and w: "written (friend_command OpAddBlock fa req cs sh db) = (sh', db')"
  shows "tables_ok db' sh'"
  using fa
proof (cases rule: friend_op_cases [where opr = OpAddBlock and req = req and cs = cs and sh = sh and db = db])
  case refused
  with w ok show ?thesis by simp
next
  case (read n b res x y)
  let ?a = "my_id cs" and ?x = "(x OR BLOCKED) AND NOT FRIEND" and ?y = "y AND NOT FRIEND"
  note ne = read(3)
  have st: "(x, y) \<in> insert (0, 0) (set row_states)"
    using relStatus_rows(1) [of db ?a b] ok read(6) ne by auto
  then have rs: "(?x, ?y) \<in> set row_states" by (auto simp: row_states_def FRIEND_def BLOCKED_def)
  show ?thesis
  proof (cases rule: Set_cases [of "fa_rel_write fa" ?a b ?x ?y db])
    case 1
    have "written (friend_command OpAddBlock fa req cs sh db) = (sh, db)"
      using read 1 by (cases "res = RelOk") (simp_all add: CmdAddBlock_def Let_def)
    with ok w show ?thesis by simp
  next
    case 2
    have r: "written (friend_command OpAddBlock fa req cs sh db) =
        (if hasFriend x \<and> hasFriend y then fst (unfriendOnline cs n b sh) else sh,
         db\<lparr>db_friendship := relPut ?a b (?x, ?y) (db_friendship db)\<rparr>)"
      using read 2 by (cases "res = RelOk") (simp_all add: CmdAddBlock_def Let_def case_prod_unfold)
    with w have e: "sh' = (if hasFriend x \<and> hasFriend y then fst (unfriendOnline cs n b sh) else sh)"
        "db' = db\<lparr>db_friendship := relPut ?a b (?x, ?y) (db_friendship db)\<rparr>" by auto
    show ?thesis
      by (rule tables_ok_write [of db sh ?a b _ ?x ?y])
        (use ok 2 e rs listed_unfriend [of ?a cs b n sh] mutual_read [OF read(6)] in \<open>auto simp: qdistinct_online\<close>)
  qed
qed

lemma RemoveBlock_tables:
  assumes ok: "tables_ok db sh" and fa: "\<not> fa_account fa" "\<not> fa_rel_read fa"
    and w: "written (friend_command OpRemoveBlock fa req cs sh db) = (sh', db')"
  shows "tables_ok db' sh'"
  using fa
proof (cases rule: friend_op_cases [where opr = OpRemoveBlock and req = req and cs = cs and sh = sh and db = db])
  case refused
  with w ok show ?thesis by simp
next
  case (read n b res x y)
  let ?a = "my_id cs" and ?x = "x AND NOT BLOCKED"
  note ne = read(3)
  show ?thesis
  proof (cases "hasBlocked x")
    case False
    with read have "written (friend_command OpRemoveBlock fa req cs sh db) = (sh, db)"
      by (simp add: CmdRemoveBlock_def)
    with w ok show ?thesis by simp
  next
    case True
    then have rok: "res = RelOk" using read(7) by (cases "res = RelOk") auto
    have st: "(x, y) \<in> set row_states"
      using relStatus_rows(1) [of db ?a b] ok read(6) ne True by auto
    then have xy: "?x = 0 \<and> y \<in> {0, BLOCKED}" using True by (auto simp: row_states_def FRIEND_def BLOCKED_def hasBlocked_def)
    then have nf: "\<not> hasFriend x \<and> \<not> hasFriend y" using True st by (auto simp: row_states_def)
    have acc: "has_account db ?a \<and> has_account db b"
      using relation_accounts [OF _ ne [symmetric] read(6)] ok True by blast
    have rs: "y \<noteq> 0 \<Longrightarrow> (0, y) \<in> set row_states" using xy by (auto simp: row_states_def)
    have r: "written (friend_command OpRemoveBlock fa req cs sh db) = (sh, snd (storeOrDelete fa ?a b ?x y db))
        \<or> written (friend_command OpRemoveBlock fa req cs sh db) = (sh, db)"
      using read True by (simp add: CmdRemoveBlock_def rok case_prod_unfold Let_def)
    show ?thesis
    proof (cases "db' = db")
      case True
      with r w ok show ?thesis by auto
    next
      case False
      with r w have e: "sh' = sh" "db' = snd (storeOrDelete fa ?a b ?x y db)" by auto
      show ?thesis
        by (cases rule: store_cases [of fa ?a b ?x y db];
            rule tables_ok_write [of db sh ?a b _ 0 y])
          (use False e ok ne acc xy nf rs mutual_read [OF read(6)] in \<open>auto simp: qdistinct_online\<close>)
    qed
  qed
qed

lemma friend_command_tables:
  assumes "tables_ok db sh" and "\<not> fa_account fa" and "\<not> fa_rel_read fa"
    and "friend_command opr fa req cs sh db = (e, sh', db', outs)"
  shows "tables_ok db' sh'"
  using assms AddFriend_tables [OF assms(1-3), of req cs sh' db'] RemoveFriend_tables [OF assms(1-3), of req cs sh' db']
    AddBlock_tables [OF assms(1-3), of req cs sh' db'] RemoveBlock_tables [OF assms(1-3), of req cs sh' db']
  by (cases opr) (simp_all add: written_def)

subsection \<open>Reading all relations of a user\<close>

lemma map_filter_mem: "y \<in> set (List.map_filter f xs) \<longleftrightarrow> (\<exists>x \<in> set xs. f x = Some y)"
  by (induction xs) (auto simp: List.map_filter_simps split: option.splits)

lemma friendship_row:
  assumes "friendship_ok db"
  shows "((i, j), st) \<in> set (db_friendship db) \<longleftrightarrow> qfind (db_friendship db) (i, j) = Some st"
  using assms by (simp add: friendship_ok_def qfind_in_set)

lemma relationRows_mem:
  assumes ok: "friendship_ok db" and fa: "\<not> fa_account fa"
  shows "((v, n), x, y) \<in> set (relationRows fa u db) \<longleftrightarrow>
     u \<noteq> v \<and> map_option ur_username (qfind (db_accounts db) v) = Some n \<and>
     relStatus (db_friendship db) u v = (x, y) \<and> (x, y) \<noteq> (0, 0)"
    (is "?row \<longleftrightarrow> ?rel")
proof
  assume ?row
  then obtain row where row: "row \<in> set (db_friendship db)" "(case row of ((i, j), s) \<Rightarrow> i = u \<or> j = u)"
      "(let (otherId, me, other) = rotateRow u row in
         map_option (\<lambda>n. ((otherId, n), me, other)) (GetUsername (fa_account fa) otherId db)) = Some ((v, n), x, y)"
    by (auto simp: relationRows_def map_filter_mem)
  obtain i j st where ijst: "row = ((i, j), st)" by (cases row) auto
  have r: "((i, j), st) \<in> set (db_friendship db)" "i = u \<or> j = u"
      "rotateRow u ((i, j), st) = (v, x, y)" "map_option ur_username (qfind (db_accounts db) v) = Some n"
    using row fa by (auto simp: ijst GetUsername_def split: prod.splits)
  have "i < j" and "st \<in> set row_states" using r(1) ok by (auto simp: friendship_ok_def)
  then have "st \<noteq> (0, 0)" by (auto simp: row_states_def FRIEND_def BLOCKED_def)
  with r \<open>i < j\<close> show ?rel
    unfolding friendship_row [OF ok]
    by (cases st) (auto simp: rotateRow_def relStatus_def orderedIds_def split: if_splits)
next
  assume rel: ?rel
  define key where "key = (if u < v then (u, v) else (v, u))"
  have "qfind (db_friendship db) key = Some (if u < v then (x, y) else (y, x))"
    using rel by (auto simp: relStatus_def orderedIds_def key_def split: option.splits if_splits)
  then have "(key, if u < v then (x, y) else (y, x)) \<in> set (db_friendship db)" by (rule map_of_SomeD)
  moreover have "rotateRow u (key, if u < v then (x, y) else (y, x)) = (v, x, y)"
    using rel by (auto simp: rotateRow_def key_def)
  ultimately show ?row
    using rel fa unfolding relationRows_def map_filter_mem
    by (intro bexI [of _ "(key, if u < v then (x, y) else (y, x))"]) (auto simp: GetUsername_def key_def)
qed

lemma relationRows_keys:
  assumes "friendship_ok db"
  shows "distinct (map (\<lambda>r. fst (fst r)) (relationRows fa u db))"
proof -
  let ?f = "\<lambda>row. let (otherId, me, other) = rotateRow u row in
         map_option (\<lambda>n. ((otherId, n), me, other)) (GetUsername (fa_account fa) otherId db)"
  let ?rows = "filter (\<lambda>row. ?f row \<noteq> None) (filter (\<lambda>((i, j), s). i = u \<or> j = u) (db_friendship db))"
  have q: "qdistinct (db_friendship db)" using assms by (simp add: friendship_ok_def)
  then have "distinct (db_friendship db)" by (simp add: qdistinct_def distinct_map)
  then have d: "distinct ?rows" by simp
  have f: "fst (fst (the (?f row))) = fst (rotateRow u row)" if "?f row \<noteq> None" for row
    using that by (cases "rotateRow u row") auto
  have "inj_on (\<lambda>row. fst (rotateRow u row)) (set ?rows)"
  proof (rule inj_onI)
    fix r r' assume r: "r \<in> set ?rows" "r' \<in> set ?rows" and e: "fst (rotateRow u r) = fst (rotateRow u r')"
    obtain i j st i' j' st' where c: "r = ((i, j), st)" "r' = ((i', j'), st')" by (cases r; cases r') auto
    have lt: "i < j" "i' < j'" using r c assms by (auto simp: friendship_ok_def)
    from r c have u: "i = u \<or> j = u" "i' = u \<or> j' = u" by auto
    with e c lt have "(i, j) = (i', j')"
      by (auto simp: rotateRow_def split: prod.splits if_splits)
    with r c q show "r = r'" by (auto simp: qfind_in_set [symmetric])
  qed
  then have "distinct (map (\<lambda>row. fst (rotateRow u row)) ?rows)" using d by (simp add: distinct_map)
  moreover have "map (\<lambda>r. fst (fst r)) (relationRows fa u db) = map (\<lambda>row. fst (rotateRow u row)) ?rows"
    unfolding relationRows_def List.map_filter_def map_map comp_def
    by (rule map_cong [OF refl], rule f) (unfold set_filter, blast)
  ultimately show ?thesis by simp
qed

lemma relationship_lists:
  assumes ok: "friendship_ok db" and fa: "\<not> fa_account fa" "\<not> fa_rel_read fa"
    and u: "map_option ur_username (qfind (db_accounts db) v) = Some n"
  shows "(v, n) \<in> set (rl_friends (GetRelationships fa u db)) \<longleftrightarrow> mutual db u v"
proof -
  have "(v, n) \<in> set (rl_friends (GetRelationships fa u db)) \<longleftrightarrow>
      (\<exists>x y. ((v, n), x, y) \<in> set (relationRows fa u db) \<and> hasFriend x \<and> hasFriend y)"
    using fa by (force simp: GetRelationships_def Let_def image_iff)
  also have "\<dots> \<longleftrightarrow> mutual db u v"
    unfolding relationRows_mem [OF ok fa(1)] using u
    by (cases "relStatus (db_friendship db) u v") (auto simp: mutual_def)
  finally show ?thesis .
qed

lemma friends_listed:
  assumes ok: "friendship_ok db" and fa: "\<not> fa_account fa" "\<not> fa_rel_read fa"
  shows "fst ` set (rl_friends (GetRelationships fa u db)) = {v. mutual db u v}"
proof (intro set_eqI iffI)
  fix v assume "v \<in> fst ` set (rl_friends (GetRelationships fa u db))"
  then obtain n where n: "(v, n) \<in> set (rl_friends (GetRelationships fa u db))" by auto
  then obtain x y where "((v, n), x, y) \<in> set (relationRows fa u db)"
    using fa by (force simp: GetRelationships_def Let_def image_iff)
  then have "map_option ur_username (qfind (db_accounts db) v) = Some n"
    by (simp add: relationRows_mem [OF ok fa(1)])
  with n show "v \<in> {v. mutual db u v}" by (simp add: relationship_lists [OF ok fa])
next
  fix v assume v: "v \<in> {v. mutual db u v}"
  then have "has_account db v" using mutual_account [OF ok] by auto
  then obtain r where "qfind (db_accounts db) v = Some r" by (auto simp: has_account_def)
  with v relationship_lists [OF ok fa, of v "ur_username r" u]
  have "(v, ur_username r) \<in> set (rl_friends (GetRelationships fa u db))" by simp
  then show "v \<in> fst ` set (rl_friends (GetRelationships fa u db))" by force
qed

subsection \<open>Accounts and connections keep the invariants\<close>

lemma tables_ok_list_update:
  \<comment> \<open>a user's list appears or goes; the others stay\<close>
  assumes ok: "tables_ok db sh" and l: "listed sh' = (listed sh)(u := fs)" and d: "qdistinct (ss_clients sh')"
    and new: "\<And>s. fs = Some s \<Longrightarrow> list_ok db u s"
  shows "tables_ok db sh'"
  using ok l d new by (auto simp: online_ok_def split: if_splits)

lemma list_ok_mutual: "accounts_ok db \<Longrightarrow> friendship_ok db \<Longrightarrow> has_account db u \<Longrightarrow> list_ok db u {v. mutual db u v}"
  by (auto simp: list_ok_def accounts_ok_def dest: mutual_account)

lemma mutual_insert_same:
  "online_ok db sh \<Longrightarrow> has_account db u \<Longrightarrow> has_account db v \<Longrightarrow> mutual db v u \<Longrightarrow>
    map_option (insert u) (listed sh v) = listed sh v"
  by (cases "listed sh v") (auto simp: online_okD(3) [of db sh v])

lemma listed_register:
  assumes "friendship_ok db" and "\<not> fa_account fa" and "\<not> fa_rel_read fa" and "online_ok db sh"
    and "has_account db u"
  shows "listed (fst (registerLogin req u conn (GetRelationships fa u db) sh)) =
    (listed sh)(u := Some {v. mutual db u v})"
proof -
  let ?fr = "rl_friends (GetRelationships fa u db)"
  have f: "fst ` set ?fr = {v. mutual db u v}" by (rule friends_listed [OF assms(1-3)])
  have step: "listed (fold (\<lambda>(v, _). addFriendEntry v u n) fr sh) =
      (\<lambda>v. if v \<in> fst ` set fr then map_option (insert u) (listed sh v) else listed sh v)" for fr n
  proof (induction fr arbitrary: sh)
    case (Cons p fr)
    obtain v m where "p = (v, m)" by (cases p)
    then show ?case by (auto simp: Cons.IH fun_eq_iff option.map_comp comp_def)
  qed simp
  have same: "listed (fold (\<lambda>(v, _). addFriendEntry v u n) ?fr sh) = listed sh" for n
    unfolding step f
    using mutual_insert_same [OF assms(4,5)] mutual_account [OF assms(1)] mutual_sym
    by (auto simp: fun_eq_iff)
  have e: "set (qkeys (fold (\<lambda>(i, n). qinsert i n) fr h)) = fst ` set fr \<union> set (qkeys h)"
    for fr :: "(userid \<times> qstring) list" and h
    by (induction fr arbitrary: h) (auto simp: qkeys_qinsert [simplified] split: prod.splits)
  have "set (qkeys (ce_friends (loginEntry req conn (GetRelationships fa u db)))) = {v. mutual db u v}"
    unfolding loginEntry_def ClientEntry.simps e f by simp
  with same show ?thesis
    by (auto simp: registerLogin_def Let_def listed_def qfind_qinsert fun_eq_iff)
qed

lemma qdistinct_register: "qdistinct (ss_clients sh) \<Longrightarrow> qdistinct (ss_clients (fst (registerLogin req u conn rels sh)))"
proof -
  assume "qdistinct (ss_clients sh)"
  then have "qdistinct (ss_clients (fold (\<lambda>(v, _). addFriendEntry v u n) fr sh))"
    for n and fr :: "(userid \<times> qstring) list"
    by (induction fr arbitrary: sh) auto
  then show ?thesis by (simp add: registerLogin_def Let_def)
qed

lemma CheckUser_account: "CheckUser au fault npid pw tok chk db = Some (u, r) \<Longrightarrow> has_account db u"
  by (auto simp: CheckUser_def has_account_def map_of_eq_None_iff split: if_splits option.splits dest!: find_SomeD qkey_in)

lemma Login_tables:
  assumes ok: "tables_ok db sh" and fa: "\<not> fa_account fa" "\<not> fa_rel_read fa"
    and r: "CmdLogin au cf fa req nowMs cs sh db = (e, cs', sh', outs)"
  shows "tables_ok db sh'"
proof (cases "sh' = sh")
  case False
  with r obtain q u user where q: "req = Some q"
      "CheckUser au (fa_account fa) (lrq_npid q) (lrq_password q) (lrq_token q) (cf_emailValidated cf) db = Some (u, user)"
      "sh' = UsageOnLogin (fst (registerLogin q u (cs_conn cs) (GetRelationships fa u db) sh))"
    by (auto simp: CmdLogin_def Let_def case_prod_unfold split: option.splits if_splits)
  have acc: "has_account db u" using q(2) by (rule CheckUser_account)
  have l: "listed sh' = (listed sh)(u := Some {v. mutual db u v})"
    using listed_register [OF _ fa _ acc, of sh] ok q(3) listed_cong [of "UsageOnLogin _"] by simp
  show ?thesis
    by (rule tables_ok_list_update [OF ok l])
      (use ok acc q(3) in \<open>auto simp: qdistinct_online qdistinct_register list_ok_mutual\<close>)
qed (use ok in simp)

lemma Delete_tables:
  assumes ok: "tables_ok db sh"
    and r: "CmdDelete au fault dat cs sh db = (e, cs', sh', db')"
  shows "tables_ok db' sh'"
proof (cases "db' = db \<and> sh' = sh")
  case False
  with r obtain u where q: "db' = snd (DeleteUser False u db)"
      "sh' = sh \<or> sh' = sh\<lparr>ss_clients := qremove u (ss_clients sh)\<rparr>"
    by (auto simp: CmdDelete_def Let_def DeleteUser_def split: option.splits if_splits prod.splits)
  have ha: "has_account db' v \<longleftrightarrow> v \<noteq> u \<and> has_account db v" for v
    by (simp add: q(1) DeleteUser_def has_account_def qfind_qremove)
  have fr: "qfind (db_friendship db') (i, j) = (if i = u \<or> j = u then None else qfind (db_friendship db) (i, j))" for i j
  proof -
    have "qfind (filter (\<lambda>((i, j), s). i \<noteq> u \<and> j \<noteq> u) h) (i, j) = (if i = u \<or> j = u then None else qfind h (i, j))"
      for h :: "(userid \<times> userid, u8 \<times> u8) qhash"
      by (induction h) auto
    then show ?thesis by (simp add: q(1) DeleteUser_def)
  qed
  then have mu: "v \<noteq> u \<Longrightarrow> w \<noteq> u \<Longrightarrow> mutual db' v w = mutual db v w" for v w
    by (simp add: mutual_def relStatus_def orderedIds_def)
  have a: "accounts_ok db'"
  proof -
    have "distinct (map (\<lambda>r. nocase (ur_username r)) (qvalues (qremove u (db_accounts db))))"
      using ok by (auto simp: accounts_ok_def AList.delete_eq distinct_map inj_on_def)
    moreover have "db_accounts db' = qremove u (db_accounts db)" "db_nextUserId db' = db_nextUserId db"
      by (simp_all add: q(1) DeleteUser_def)
    ultimately show ?thesis using ok by (simp add: accounts_ok_def ha)
  qed
  have "db_friendship db' = filter (\<lambda>((i, j), s). i \<noteq> u \<and> j \<noteq> u) (db_friendship db)"
    by (simp add: q(1) DeleteUser_def)
  then have f: "friendship_ok db'"
    using ok by (auto simp: friendship_ok_def ha qdistinct_def distinct_map_filter)
  have n: "db_nextUserId db' = db_nextUserId db" by (simp add: q(1) DeleteUser_def)
  have lo: "list_ok db w fs \<Longrightarrow> list_ok db' w fs" for w fs
    by (auto simp: list_ok_def ha mu n)
  have "listed sh' = listed sh \<or> listed sh' = (listed sh)(u := None)"
    using q(2) by (auto simp: listed_def fun_eq_iff qfind_qremove)
  then have "online_ok db' sh'"
    using ok q(2) by (auto simp: online_ok_def lo split: if_splits)
  with a f show ?thesis by simp
qed (use ok in simp)


lemma Create_database:
  assumes "CmdCreate au cf fault req salt token db = (e, db')"
  obtains "db' = db" | rec where
    "db' = db\<lparr>db_accounts := qinsert (db_nextUserId db) rec (db_accounts db), db_nextUserId := db_nextUserId db + 1\<rparr>"
    "\<not> list_ex (\<lambda>r. nocase (ur_username r) = nocase (ur_username rec)) (qvalues (db_accounts db))"
proof (cases "db' = db")
  case False
  have c: "snd (case p of (None, d) \<Rightarrow> (NoError, d) | (Some DbExistingUsername, d) \<Rightarrow> (CreationExistingUsername, d)
       | (Some DbExistingEmail, d) \<Rightarrow> (CreationExistingEmail, d) | (Some _, d) \<Rightarrow> (CreationError, d)) = snd p"
    for p :: "DbError option \<times> Database"
    by (cases p) (simp split: option.split DbError.split)
  have "db' = snd (CmdCreate au cf fault req salt token db)" using assms by simp
  then have "db' = db \<or> (\<exists>n pw av em. db' = snd (CreateAccount au fault n pw av em salt token db))"
    unfolding CmdCreate_def Let_def by (cases req) (simp_all add: if_distrib [of snd] c, blast)
  with False obtain n pw av em where "db' = snd (CreateAccount au fault n pw av em salt token db)" by blast
  with False have q: "CreateAccount au fault n pw av em salt token db = (None, db')"
    by (auto simp: CreateAccount_def Let_def split: if_splits)
  from q that(2) show ?thesis by (auto simp: CreateAccount_def Let_def split: if_splits)
qed (rule that(1))

lemma Create_tables:
  assumes ok: "tables_ok db sh"
    and r: "CmdCreate au cf fault req salt token db = (e, db')"
  shows "tables_ok db' sh"
  using r
proof (cases rule: Create_database)
  case (2 rec)
  let ?new = "db_nextUserId db"
  note d = 2(1) and n = 2(2)
  have fresh: "\<not> has_account db ?new" using ok by (auto simp: accounts_ok_def)
  then have "?new \<notin> set (qkeys (db_accounts db))" by (simp add: has_account_def map_of_eq_None_iff)
  then have ins: "qinsert ?new rec (db_accounts db) = db_accounts db @ [(?new, rec)]" by (rule qinsert_new)
  have ha: "has_account db' v \<longleftrightarrow> v = ?new \<or> has_account db v" for v
    by (simp add: has_account_def d qfind_qinsert)
  have mu: "mutual db' v w = mutual db v w" for v w by (simp add: mutual_def d)
  have a: "accounts_ok db'"
  proof -
    have "distinct (map (\<lambda>r. nocase (ur_username r)) (qvalues (db_accounts db')))"
      using ok n by (auto simp: d ins accounts_ok_def list_ex_iff)
    moreover have "qdistinct (db_accounts db')" using ok by (simp add: d accounts_ok_def)
    ultimately show ?thesis using ok by (auto simp: accounts_ok_def ha) (auto simp: d)
  qed
  have f: "friendship_ok db'"
    using ok by (auto simp: friendship_ok_def ha) (auto simp: d)
  have no: "\<not> mutual db ?new v" "\<not> mutual db v ?new" for v
    using mutual_account [of db] fresh ok by auto
  have "list_ok db' w fs" if "list_ok db w fs" for w fs
    using that no by (auto simp: list_ok_def ha mu) (auto simp: d)
  with ok have "online_ok db' sh" by (auto simp: online_ok_def)
  with a f show ?thesis by simp
qed (use ok in simp)

lemma Appear_tables:
  assumes ok: "tables_ok db sh" and r: "CmdSetAppearOffline req cs sh = (e, sh', outs)"
  shows "tables_ok db sh'"
proof -
  have "ss_clients sh' = ss_clients sh \<or>
      ss_clients sh' = qmodify (my_id cs) (\<lambda>c. c\<lparr>ce_appearOffline := the req\<rparr>) (ss_clients sh)"
    using r by (auto simp: CmdSetAppearOffline_def Let_def split: option.splits if_splits)
  then have "listed sh' = listed sh \<and> (qdistinct (ss_clients sh) \<longrightarrow> qdistinct (ss_clients sh'))"
    by (auto simp: listed_def fun_eq_iff qfind_qmodify option.map_comp comp_def)
  with ok show ?thesis by (auto simp: online_ok_def)
qed

lemma Score_tables:
  assumes ok: "tables_ok db sh" and r: "attributeGame fault cmd dat cs sh db = (sh', db', outs)"
  shows "tables_ok db' sh'"
proof -
  have "ss_clients sh' = ss_clients sh" and "\<exists>t. db' = db\<lparr>db_titleNames := t\<rparr>"
    using r usage_frame(7) by (fastforce simp: attributeGame_def Let_def SetTitleName_def case_prod_unfold
        split: option.splits if_splits intro: exI [of _ "db_titleNames db"])+
  then show ?thesis
    using ok listed_cong [of sh' sh] by (auto simp: online_ok_def list_ok_def accounts_ok_def friendship_ok_def
        has_account_def mutual_def)
qed

subsection \<open>Matching commands leave people alone\<close>

definition people :: "SharedState \<Rightarrow> (userid, ClientEntry) qhash \<times> int \<times> (qstring, int) qhash \<times> (userid, qstring) qhash" where
  "people sh = (ss_clients sh, ss_usageTotalOnline sh, ss_usageGameUsers sh, ss_usageClientGame sh)"

lemma people_set [simp]: "people (set_matching mx sh) = people sh"
  by (simp add: people_def)

lemma people_leave [simp]: "people (snd (leaveRoomShared key rid mid room sh)) = people sh"
  by (simp add: leaveRoomShared_def split: option.split)

lemma people_frame [simp]:
  "people (res_shared (CmdJoinRoom a t cs sh)) = people sh"
  "people (res_shared (CmdLeaveRoom b cs sh)) = people sh"
  "people (res_shared (CmdKickoutRoomMember c cs sh)) = people sh"
  "people (res_shared (CmdSetRoomDataInternal d t cs sh)) = people sh"
  "people (res_shared (CmdSetRoomDataExternal e cs sh)) = people sh"
  "people (res_shared (CmdSetUserInfo f cs sh)) = people sh"
  "people (res_shared (CmdCreateRoom g t cs sh)) = people sh"
  "people (fst (snd (CleanupMatchingOnDisconnect cs sh))) = people sh"
  by (auto simp: handler_defs CleanupMatchingOnDisconnect_def DoLeaveRoom_def Let_def case_prod_unfold
      split: option.split)

lemma people_eqD:
  assumes "people sh' = people sh"
  shows "listed sh' = listed sh" and "qdistinct (ss_clients sh') = qdistinct (ss_clients sh)"
    and "usage_ok sh' = usage_ok sh" and "online_ok db sh' = online_ok db sh"
  using assms listed_cong [of sh' sh] by (simp_all add: people_def usage_ok_def online_ok_def)

lemma context_people:
  assumes "sh' = res_shared (CmdContextStart q cs sh) \<or> sh' = res_shared (CmdContextStop q cs sh)"
  shows "usage_ok sh' = usage_ok sh" and "online_ok db sh \<Longrightarrow> online_ok db sh'"
proof -
  have "sh' = sh \<or> (\<exists>u ctx. sh' = setClientContext u ctx sh)"
    using assms by (auto simp: CmdContextStart_def CmdContextStop_def Let_def split: option.splits if_splits)
  moreover have "listed (setClientContext u ctx sh) = listed sh" "usage_ok (setClientContext u ctx sh) = usage_ok sh"
      "qdistinct (ss_clients sh) \<Longrightarrow> qdistinct (ss_clients (setClientContext u ctx sh))" for u ctx
    by (simp_all add: listed_def fun_eq_iff qfind_qmodify option.map_comp comp_def setClientContext_def usage_ok_def)
  ultimately show "usage_ok sh' = usage_ok sh" and "online_ok db sh \<Longrightarrow> online_ok db sh'"
    by (auto simp: online_ok_def)
qed

lemma matching_people:
  assumes "event_ok (EvMatching e)" and "sh = sv_shared sv" and "sh' = sv_shared (matching_step sv e)"
  shows "usage_ok sh' = usage_ok sh" and "online_ok db sh \<Longrightarrow> online_ok db sh'"
proof -
  have "people sh' = people sh \<or>
      (\<exists>q cs. sh' = res_shared (CmdContextStart q cs sh) \<or> sh' = res_shared (CmdContextStop q cs sh))"
    using assms by (cases e) auto
  then show "usage_ok sh' = usage_ok sh" "online_ok db sh \<Longrightarrow> online_ok db sh'"
    using context_people [of sh' _ _ sh] people_eqD [of sh' sh] by blast+
qed

lemma HangUp_people:
  assumes r: "CleanupOnDisconnect nowMs cs sh = (cs', sh', outs, fouts)"
  shows "usage_ok sh \<Longrightarrow> usage_ok sh'" and "tables_ok db sh \<Longrightarrow> tables_ok db sh'"
proof -
  let ?sh1 = "fst (snd (CleanupMatchingOnDisconnect cs sh))" and ?cs1 = "fst (CleanupMatchingOnDisconnect cs sh)"
  have p: "people ?sh1 = people sh" by simp
  have c: "sh' = sh \<or> sh' = UsageOnLogout (my_id ?cs1) (fst (removeClient ?cs1 ?sh1))"
    using r by (auto simp: CleanupOnDisconnect_def Let_def case_prod_unfold split: if_splits)
  have u: "usage_ok (fst (removeClient cs1 sh1)) = usage_ok sh1" for cs1 sh1
    by (simp add: removeClient_def usage_ok_def split: option.split)
  show "usage_ok sh \<Longrightarrow> usage_ok sh'"
    using c u [of ?cs1 ?sh1] people_eqD(3) [OF p] by auto
  have l: "listed (fst (removeClient cs1 sh1)) = (listed sh1)(my_id cs1 := None)"
      "qdistinct (ss_clients sh1) \<Longrightarrow> qdistinct (ss_clients (fst (removeClient cs1 sh1)))" for cs1 sh1
    by (auto simp: removeClient_def listed_def fun_eq_iff qfind_qremove split: option.split)
  show "tables_ok db sh'" if ok: "tables_ok db sh"
  proof (cases "sh' = sh")
    case False
    with c have e: "sh' = UsageOnLogout (my_id ?cs1) (fst (removeClient ?cs1 ?sh1))" by simp
    have "listed sh' = (listed ?sh1)(my_id ?cs1 := None)"
      unfolding e l(1) [symmetric] by (rule listed_cong) simp
    moreover have ok1: "tables_ok db ?sh1" using ok people_eqD(4) [OF p] by simp
    moreover have "qdistinct (ss_clients sh')"
      unfolding e usage_frame using qdistinct_online [of db ?sh1] ok1 by (intro l(2)) blast
    ultimately show ?thesis by (intro tables_ok_list_update [of db ?sh1 sh' "my_id ?cs1" None]) simp_all
  qed (use ok in simp)
qed

subsection \<open>Every step keeps the invariants\<close>

lemmas result_simps = set_session_def set_shared_def Let_def case_prod_unfold

lemma people_ok_step:
  assumes ok: "people_ok cm" and ev: "event_ok e"
  shows "people_ok (community_step au cf cm e)"
proof -
  let ?db = "cm_db cm" and ?sh = "cm_shared cm"
  have t: "tables_ok ?db ?sh" using ok by (simp add: people_ok_def)
  show ?thesis
  proof (cases e)
    case (EvCreate c fault req salt token)
    with t show ?thesis using Create_tables [OF t, of au cf fault req salt token]
      by (cases "CmdCreate au cf fault req salt token ?db") (simp add: people_ok_def)
  next
    case (EvLogin c fa req nowMs)
    with t ev show ?thesis using Login_tables [OF t, of fa au cf req nowMs "cm_session cm c"]
      by (cases "CmdLogin au cf fa req nowMs (cm_session cm c) ?sh ?db") (simp add: people_ok_def set_session_def)
  next
    case (EvDelete c fault dat)
    with t show ?thesis using Delete_tables [OF t, of au fault dat "cm_session cm c"]
      by (cases "CmdDelete au fault dat (cm_session cm c) ?sh ?db") (simp add: people_ok_def set_session_def)
  next
    case (EvFriend c opr fa req)
    with t ev show ?thesis using friend_command_tables [OF t, of fa opr req "cm_session cm c"]
      by (cases "friend_command opr fa req (cm_session cm c) ?sh ?db") (simp add: people_ok_def set_shared_def)
  next
    case (EvAppear c req)
    with t show ?thesis using Appear_tables [OF t, of req "cm_session cm c"]
      by (cases "CmdSetAppearOffline req (cm_session cm c) ?sh") (simp add: people_ok_def set_shared_def)
  next
    case (EvScore c fault cmd dat)
    with t show ?thesis using Score_tables [OF t, of fault cmd dat "cm_session cm c"]
      by (cases "attributeGame fault cmd dat (cm_session cm c) ?sh ?db") (simp add: people_ok_def set_shared_def)
  next
    case (EvMatching m)
    with t ev show ?thesis using matching_people(2) [of m ?sh "cm_server cm" _ ?db] by (simp add: people_ok_def)
  next
    case (EvHangUp c nowMs)
    with t show ?thesis using HangUp_people(2) [of nowMs "cm_session cm c" ?sh]
      by (cases "CleanupOnDisconnect nowMs (cm_session cm c) ?sh") (simp add: people_ok_def set_session_def)
  qed (use t in \<open>simp add: people_ok_def set_session_def\<close>)
qed

definition usage_kept :: "community \<Rightarrow> bool" where
  [inv_defs]: "usage_kept cm \<longleftrightarrow> usage_ok (cm_shared cm)"

text \<open>What a step of the accounts, friends and presence part may do to the shared state.\<close>

lemma usage_clients [simp]: "usage_ok (sh\<lparr>ss_clients := cl\<rparr>) = usage_ok sh"
    "usage_ok (sh\<lparr>ss_npidToUserId := ids\<rparr>) = usage_ok sh"
  by (simp_all add: usage_ok_def)

lemma entry_only:
  "usage_ok (addFriendEntry a b n sh) = usage_ok sh" "usage_ok (removeFriendEntry a b sh) = usage_ok sh"
  "ss_matching (addFriendEntry a b n sh) = ss_matching sh" "ss_matching (removeFriendEntry a b sh) = ss_matching sh"
  by (simp_all add: addFriendEntry_def removeFriendEntry_def)

lemma befriend_only:
  "usage_ok (fst (befriendOnline cs n b sh)) = usage_ok sh" "usage_ok (fst (unfriendOnline cs n b sh)) = usage_ok sh"
  "ss_matching (fst (befriendOnline cs n b sh)) = ss_matching sh" "ss_matching (fst (unfriendOnline cs n b sh)) = ss_matching sh"
  by (simp_all add: befriendOnline_def unfriendOnline_def Let_def entry_only)

lemma friend_command_shared:
  "fst (snd (friend_command opr fa req cs sh db)) \<in>
     {sh} \<union> {fst (befriendOnline cs n b sh) |n b. True} \<union> {fst (unfriendOnline cs n b sh) |n b. True}"
  by (cases opr; cases req)
    (auto simp: friend_command_defs Let_def case_prod_unfold split: option.split)

lemma friend_only:
  "usage_ok (fst (snd (friend_command opr fa req cs sh db))) = usage_ok sh"
  "ss_matching (fst (snd (friend_command opr fa req cs sh db))) = ss_matching sh"
  using friend_command_shared [of opr fa req cs sh db] by (auto simp: befriend_only)

lemma register_only:
  "usage_ok (fst (registerLogin q u conn rels sh)) = usage_ok sh"
  "ss_matching (fst (registerLogin q u conn rels sh)) = ss_matching sh"
proof -
  have "usage_ok (fold (\<lambda>(v, _). addFriendEntry v u n) fr sh) = usage_ok sh \<and>
      ss_matching (fold (\<lambda>(v, _). addFriendEntry v u n) fr sh) = ss_matching sh"
    for n and fr :: "(userid \<times> qstring) list"
    by (induction fr arbitrary: sh) (simp_all add: entry_only case_prod_unfold)
  then show "usage_ok (fst (registerLogin q u conn rels sh)) = usage_ok sh"
    "ss_matching (fst (registerLogin q u conn rels sh)) = ss_matching sh"
    by (simp_all add: registerLogin_def Let_def)
qed

lemma login_only:
  "usage_ok sh \<Longrightarrow> usage_ok (fst (snd (snd (CmdLogin au cf fa req nowMs cs sh db))))"
  "ss_matching (fst (snd (snd (CmdLogin au cf fa req nowMs cs sh db)))) = ss_matching sh"
  by (auto simp: CmdLogin_def Let_def case_prod_unfold register_only split: option.split)

lemma delete_only:
  "usage_ok (fst (snd (snd (CmdDelete au fault dat cs sh db)))) = usage_ok sh"
  "ss_matching (fst (snd (snd (CmdDelete au fault dat cs sh db)))) = ss_matching sh"
  by (auto simp: CmdDelete_def Let_def DeleteUser_def split: option.split prod.split)

lemma appear_only:
  "usage_ok (fst (snd (CmdSetAppearOffline req cs sh))) = usage_ok sh"
  "ss_matching (fst (snd (CmdSetAppearOffline req cs sh))) = ss_matching sh"
  by (auto simp: CmdSetAppearOffline_def Let_def split: option.split)

lemma score_only:
  "usage_ok sh \<Longrightarrow> usage_ok (fst (attributeGame fault cmd dat cs sh db))"
  "ss_matching (fst (attributeGame fault cmd dat cs sh db)) = ss_matching sh"
  by (simp_all add: attributeGame_def Let_def case_prod_unfold)

lemma usage_kept_step:
  assumes ok: "usage_kept cm" and ev: "event_ok e"
  shows "usage_kept (community_step au cf cm e)"
proof (cases e)
  case (EvMatching m)
  with ok ev show ?thesis using matching_people(1) [of m "cm_shared cm" "cm_server cm"] by (simp add: usage_kept_def)
next
  case (EvHangUp c nowMs)
  with ok show ?thesis using HangUp_people(1) [of nowMs "cm_session cm c" "cm_shared cm"]
    by (cases "CleanupOnDisconnect nowMs (cm_session cm c) (cm_shared cm)") (simp add: usage_kept_def set_session_def)
qed (use ok in \<open>simp_all add: usage_kept_def result_simps login_only delete_only friend_only appear_only score_only\<close>)

interpretation people: invariant_machine "community_step au cf" event_ok "\<lambda>cm. people_ok cm \<and> usage_kept cm" for au cf
  by unfold_locales (simp add: people_ok_step usage_kept_step)

definition rooms_made :: "community \<Rightarrow> nat" where
  "rooms_made cm = rooms_created (cm_server cm)"

fun makes_room :: "community_event \<Rightarrow> bool" where
  "makes_room (EvMatching e) \<longleftrightarrow> is_create e" | "makes_room _ \<longleftrightarrow> False"

definition rooms_kept :: "community \<Rightarrow> bool" where
  [inv_defs]: "rooms_kept cm \<longleftrightarrow> server_ok (cm_server cm)"

lemma hangup_only:
  "ss_matching (fst (snd (CleanupOnDisconnect nowMs cs sh))) = ss_matching sh \<or>
   ss_matching (fst (snd (CleanupOnDisconnect nowMs cs sh))) = ss_matching (fst (snd (CleanupMatchingOnDisconnect cs sh)))"
proof -
  have "ss_matching (fst (removeClient cs1 sh1)) = ss_matching sh1" for cs1 sh1
    by (simp add: removeClient_def split: option.split)
  then show ?thesis by (simp add: CleanupOnDisconnect_def Let_def case_prod_unfold)
qed

lemma rooms_step:
  shows "rooms_kept cm \<Longrightarrow> (makes_room e \<Longrightarrow> rooms_made cm < 2 ^ 64 - 1) \<Longrightarrow> rooms_kept (community_step au cf cm e)"
    and "rooms_made (community_step au cf cm e) \<le> rooms_made cm + (if makes_room e then 1 else 0)"
proof -
  have same: "ss_matching (cm_shared (community_step au cf cm e)) = ss_matching (cm_shared cm)"
    if "\<forall>m. e \<noteq> EvMatching m" "\<forall>c t. e \<noteq> EvHangUp c t"
    using that by (cases e) (simp_all add: result_simps login_only delete_only friend_only appear_only score_only)
  show "rooms_kept (community_step au cf cm e)" if "rooms_kept cm" "makes_room e \<Longrightarrow> rooms_made cm < 2 ^ 64 - 1"
  proof (cases e)
    case (EvMatching m)
    then show ?thesis using that server_ok_step [of "cm_server cm" m] by (simp add: rooms_kept_def rooms_made_def)
  next
    case (EvHangUp c t)
    then show ?thesis
      using that hangup_only [of t "cm_session cm c" "cm_shared cm"] CleanupMatchingOnDisconnect_ok
      by (auto simp: rooms_kept_def server_ok_def result_simps)
  qed (use that same in \<open>simp_all add: rooms_kept_def server_ok_def\<close>)
  show "rooms_made (community_step au cf cm e) \<le> rooms_made cm + (if makes_room e then 1 else 0)"
  proof (cases e)
    case (EvMatching m)
    then show ?thesis using rooms_created_step [of "cm_server cm" m] by (simp add: rooms_made_def)
  next
    case (EvHangUp c t)
    then show ?thesis
      using hangup_only [of t "cm_session cm c" "cm_shared cm"]
      by (auto simp: rooms_made_def rooms_created_def result_simps)
  qed (use same in \<open>simp_all add: rooms_made_def rooms_created_def\<close>)
qed

interpretation hosting: bounded_machine "community_step au cf" rooms_made makes_room "2 ^ 64 - 1" rooms_kept for au cf
  by unfold_locales (simp_all add: rooms_step)

subsection \<open>Reachable servers\<close>

lemma initial_community_ok: "people_ok initial_community" "usage_kept initial_community" "rooms_kept initial_community"
  by (simp_all add: initial_community_def people_ok_def usage_kept_def rooms_kept_def accounts_ok_def
      friendship_ok_def online_ok_def has_account_def Database_empty_def listed_def usage_ok_def counted_def)
    (simp_all add: initial_server_def SharedState_default_def)

text \<open>C2: Whatever connections, registrations, logins, deletions, friend and block commands, presence
  and score commands, matching commands and hang-ups happen in whatever order, as long as the
  database answers its queries (it may refuse to write relations) and fewer than 2^64 - 1 rooms are
  asked for: account ids and names stay unique (names up to ASCII case), every friendship row joins
  two existing accounts and never says friend and blocked at once, and the friend list kept in memory
  for a connected user whose account exists contains another existing account exactly when both
  sides of the table say friend. (A deleted account stays in the lists of its friends who are
  connected; its id is not given to anyone else.) The rooms and their indexes stay consistent at the
  same time.\<close>

theorem reachable_people_ok:
  fixes au :: auth_functions and cf :: config
  assumes "list_all event_ok es" and "length (filter makes_room es) < 2 ^ 64 - 1"
  defines "cm \<equiv> foldl (community_step au cf) initial_community es"
  shows "accounts_ok (cm_db cm) \<and> friendship_ok (cm_db cm) \<and> online_ok (cm_db cm) (cm_shared cm) \<and>
    matching_ok (ss_matching (cm_shared cm))"
proof -
  have "people_ok cm \<and> usage_kept cm"
    unfolding cm_def by (rule people.run_inv) (use assms(1) initial_community_ok in auto)
  moreover have "rooms_made initial_community + length (filter makes_room es) \<le> 2 ^ 64 - 1"
    using assms(2) by (simp add: initial_community_def rooms_made_def rooms_created_def initial_server_def
        SharedState_default_def MatchingSharedState_default_def)
  then have "rooms_kept cm"
    unfolding cm_def by (intro hosting.bounded_run_inv initial_community_ok)
  ultimately show ?thesis by (simp add: people_ok_def rooms_kept_def server_ok_def)
qed

definition example_auth :: auth_functions where
  "example_auth = \<lparr>au_sha256 = (\<lambda>b. b), au_toUtf8 = map (\<lambda>c. of_char c), au_toLower = nocase,
     au_trimmed = (\<lambda>s. s), au_isLetterOrNumber = (\<lambda>c. True)\<rparr>"

definition example_config :: config where
  "example_config = \<lparr>cf_registrationSecretKey = [], cf_bannedDomains = [], cf_emailValidated = False,
     cf_matching2Enabled = True\<rparr>"

definition example_registration :: "qstring \<Rightarrow> RegistrationRequest" where
  "example_registration n = \<lparr>rrq_npid = n, rrq_password = ''pw'', rrq_avatar_url = [],
     rrq_email = n @ ''@home.org'', rrq_secret_key = []\<rparr>"

definition example_login :: "qstring \<Rightarrow> LoginRequest" where
  "example_login n = \<lparr>lrq_npid = n, lrq_password = ''pw'', lrq_token = [], lrq_title_id = ''CUSA00900'',
     lrq_title_name = [], lrq_appear_offline = False\<rparr>"

definition example_life :: "community_event list" where
  "example_life = [EvConnect 0 None, EvConnect 1 None,
     EvCreate 0 False (Some (example_registration ''alice'')) [1] ''ta'',
     EvCreate 1 False (Some (example_registration ''bobby'')) [2] ''tb'',
     EvLogin 0 no_faults (Some (example_login ''alice'')) 5, EvLogin 1 no_faults (Some (example_login ''bobby'')) 6,
     EvFriend 0 OpAddFriend no_faults (Some ''bobby''), EvFriend 1 OpAddFriend no_faults (Some ''alice''),
     EvHangUp 0 7]"

lemma example_life_ok: "list_all event_ok example_life" "length (filter makes_room example_life) < 2 ^ 64 - 1"
  by (simp_all add: example_life_def no_faults_def)

lemma reachable_people_ok_witness:
  "online_ok (cm_db (foldl (community_step example_auth example_config) initial_community example_life))
     (cm_shared (foldl (community_step example_auth example_config) initial_community example_life))"
  using reachable_people_ok [OF example_life_ok, of example_auth example_config] by blast

text \<open>In every such run the usage counters count: a game has a counter exactly when some user was last
  seen in it, the counter is the number of those users, and the number of users online never goes
  below zero.\<close>

theorem reachable_usage_counts:
  fixes au :: auth_functions and cf :: config
  assumes "list_all event_ok es"
  defines "sh \<equiv> cm_shared (foldl (community_step au cf) initial_community es)"
  shows "qfind (ss_usageGameUsers sh) game =
      (if playersOf (ss_usageClientGame sh) game = 0 then None
       else Some (int (playersOf (ss_usageClientGame sh) game))) \<and> 0 \<le> ss_usageTotalOnline sh"
proof -
  have "people_ok (foldl (community_step au cf) initial_community es) \<and>
      usage_kept (foldl (community_step au cf) initial_community es)"
    by (rule people.run_inv) (use assms(1) initial_community_ok in auto)
  then show ?thesis by (simp add: usage_kept_def usage_ok_def sh_def counted_def)
qed

lemma reachable_usage_counts_witness:
  "0 \<le> ss_usageTotalOnline (cm_shared (foldl (community_step example_auth example_config) initial_community example_life))"
  using reachable_usage_counts [OF example_life_ok(1), of example_auth example_config] by blast

lemma relationships_exact:
  fixes u v :: userid
  assumes "friendship_ok db" and "\<not> fa_account fa" and "\<not> fa_rel_read fa"
  defines "so \<equiv> rel.meaning (db_friendship db)" and "r \<equiv> GetRelationships fa u db"
  shows "((v, n) \<in> set (rl_friends r) \<longleftrightarrow> (u, v) \<in> so_requests so \<and> (v, u) \<in> so_requests so \<and> GetUsername False v db = Some n) \<and>
    ((v, n) \<in> set (rl_friendRequestsSent r) \<longleftrightarrow> (u, v) \<in> so_requests so \<and> (v, u) \<notin> so_requests so \<and> GetUsername False v db = Some n) \<and>
    ((v, n) \<in> set (rl_friendRequestsReceived r) \<longleftrightarrow> (u, v) \<notin> so_requests so \<and> (v, u) \<in> so_requests so \<and> GetUsername False v db = Some n) \<and>
    ((v, n) \<in> set (rl_blocked r) \<longleftrightarrow> (u, v) \<in> so_blocks so \<and> GetUsername False v db = Some n) \<and>
    distinct (map fst (rl_friends r)) \<and> distinct (map fst (rl_friendRequestsSent r)) \<and>
    distinct (map fst (rl_friendRequestsReceived r)) \<and> distinct (map fst (rl_blocked r))"
proof -
  let ?rows = "relationRows fa u db"
  let ?sel = "\<lambda>P. map fst (filter (\<lambda>(p, me, other). P me other) ?rows)"
  have r: "rl_friends r = ?sel (\<lambda>me other. hasFriend me \<and> hasFriend other)"
      "rl_friendRequestsSent r = ?sel (\<lambda>me other. hasFriend me \<and> \<not> hasFriend other)"
      "rl_friendRequestsReceived r = ?sel (\<lambda>me other. \<not> hasFriend me \<and> hasFriend other)"
      "rl_blocked r = ?sel (\<lambda>me other. hasBlocked me)"
    using assms(3) by (simp_all add: r_def GetRelationships_def Let_def)
  obtain x y where xy: "relStatus (db_friendship db) u v = (x, y)" by (cases "relStatus (db_friendship db) u v")
  have m: "(v, n) \<in> set (?sel P) \<longleftrightarrow> u \<noteq> v \<and> GetUsername False v db = Some n \<and> (x, y) \<noteq> (0, 0) \<and> P x y" for P
  proof -
    have "(v, n) \<in> set (?sel P) \<longleftrightarrow> (\<exists>x y. ((v, n), x, y) \<in> set ?rows \<and> P x y)" by force
    then show ?thesis by (auto simp: relationRows_mem [OF assms(1,2)] xy GetUsername_def)
  qed
  have d: "distinct (map fst (?sel P))" for P
    using relationRows_keys [OF assms(1), of fa u] by (simp add: distinct_map_filter comp_def)
  have so: "(u, v) \<in> so_requests so \<longleftrightarrow> u \<noteq> v \<and> hasFriend x" "(v, u) \<in> so_requests so \<longleftrightarrow> u \<noteq> v \<and> hasFriend y"
      "(u, v) \<in> so_blocks so \<longleftrightarrow> u \<noteq> v \<and> hasBlocked x"
    using xy rel.get_swap [of u v "db_friendship db"] by (auto simp: so_def rel.meaning_def)
  show ?thesis unfolding r m so by (intro conjI d; (cases "(x, y) = (0, 0)"; auto))
qed

text \<open>C19: \<open>GetRelationships\<close> sorts a user's relations correctly: with a well-formed friendship table the
  four lists hold exactly the accounts that are friends (both sides said so), that the user asked,
  that asked the user, and that the user blocks, with their names, and no account twice.\<close>

theorem relationships_agree:
  fixes u v :: userid
  assumes "friendship_ok db" and "\<not> fa_account fa" and "\<not> fa_rel_read fa"
  defines "so \<equiv> rel.meaning (db_friendship db)" and "r \<equiv> GetRelationships fa u db"
  shows "((v, n) \<in> set (rl_friends r) \<longleftrightarrow> (u, v) \<in> so_requests so \<and> (v, u) \<in> so_requests so \<and> GetUsername False v db = Some n) \<and>
    ((v, n) \<in> set (rl_friendRequestsSent r) \<longleftrightarrow> (u, v) \<in> so_requests so \<and> (v, u) \<notin> so_requests so \<and> GetUsername False v db = Some n) \<and>
    ((v, n) \<in> set (rl_friendRequestsReceived r) \<longleftrightarrow> (u, v) \<notin> so_requests so \<and> (v, u) \<in> so_requests so \<and> GetUsername False v db = Some n) \<and>
    ((v, n) \<in> set (rl_blocked r) \<longleftrightarrow> (u, v) \<in> so_blocks so \<and> GetUsername False v db = Some n) \<and>
    distinct (map fst (rl_friends r)) \<and> distinct (map fst (rl_friendRequestsSent r)) \<and>
    distinct (map fst (rl_friendRequestsReceived r)) \<and> distinct (map fst (rl_blocked r))"
  unfolding r_def so_def by (rule relationships_exact [OF assms(1-3)])

definition example_user_record :: "qstring \<Rightarrow> UserRecord" where
  "example_user_record n = \<lparr>ur_username = n, ur_hash = [], ur_salt = [], ur_avatarUrl = [], ur_email = [],
     ur_emailCheck = n, ur_token = [], ur_admin = False, ur_statAgent = False, ur_banned = False\<rparr>"

definition example_db :: "u8 \<times> u8 \<Rightarrow> Database" where
  "example_db st = \<lparr>db_accounts = [(1, example_user_record ''alice''), (2, example_user_record ''bobby'')],
     db_nextUserId = 3, db_friendship = (if st = (0, 0) then [] else [((1, 2), st)]), db_titleNames = []\<rparr>"

lemma example_db_friends:
  "friendship_ok (example_db (FRIEND, FRIEND))" "relStatus (db_friendship (example_db (FRIEND, FRIEND))) 1 2 = (FRIEND, FRIEND)"
  "relStatus (db_friendship (example_db (FRIEND, FRIEND))) 2 1 = (FRIEND, FRIEND)"
  "GetUsername False 2 (example_db (FRIEND, FRIEND)) = Some ''bobby''"
  by code_simp+

lemma relationships_agree_witness:
  "(2, ''bobby'') \<in> set (rl_friends (GetRelationships no_faults 1 (example_db (FRIEND, FRIEND))))"
  using relationships_agree [of "example_db (FRIEND, FRIEND)" no_faults 2 "''bobby''" 1]
  by (simp add: no_faults_def example_db_friends rel.meaning_request)

subsection \<open>Commands in a well-formed state\<close>

text \<open>C4: Each friend command refines its operation on two relations (who asked whom to be friends,
  who blocks whom): on a named, existing other account, without database failures, it answers the
  same error or success, and the table it leaves means the relations the operation gives. An error
  leaves the relations as they were.\<close>

theorem friend_commands_refine:
  assumes "GetUserId False npid db = Some b" and "b \<noteq> my_id cs" and "has_account db (my_id cs)"
    and "friend_command opr no_faults (Some npid) cs sh db = (e, sh', db', outs)"
  shows "(e, rel.meaning (db_friendship db')) = social_step opr (my_id cs) b (rel.meaning (db_friendship db)) \<and>
    (e \<noteq> NoError \<longrightarrow> rel.meaning (db_friendship db') = rel.meaning (db_friendship db))"
proof -
  have r: "(e, rel.meaning (db_friendship db')) = social_step opr (my_id cs) b (rel.meaning (db_friendship db))"
    using command_refines [OF assms(1,2), of opr sh] assms(3,4) by (simp add: has_account_def)
  moreover have "e \<noteq> NoError \<longrightarrow> rel.meaning (db_friendship db') = rel.meaning (db_friendship db)"
    using r by (cases opr) (auto split: if_splits)
  ultimately show ?thesis by simp
qed

definition example_bobby :: ClientSession where
  "example_bobby = (newSession 1 None)\<lparr>cs_authenticated := True,
     cs_info := ClientInfo_default\<lparr>ci_userId := 2, ci_npid := ''bobby''\<rparr>\<rparr>"

lemma example_request:
  "GetUserId False ''Alice'' (example_db (FRIEND, 0)) = Some 1"
  "friend_command OpAddFriend no_faults (Some ''Alice'') example_bobby SharedState_default (example_db (FRIEND, 0))
    = (NoError, SharedState_default, example_db (FRIEND, FRIEND),
       [(1, FriendNewPkt ''Alice'' False)])"
  "my_id example_bobby = 2" "has_account (example_db (FRIEND, 0)) 2"
  by code_simp+

lemma friend_commands_refine_witness:
  "(NoError, rel.meaning (db_friendship (example_db (FRIEND, FRIEND)))) =
     social_step OpAddFriend 2 1 (rel.meaning (db_friendship (example_db (FRIEND, 0))))"
  using friend_commands_refine [OF example_request(1), of example_bobby OpAddFriend SharedState_default NoError
      SharedState_default "example_db (FRIEND, FRIEND)" "[(1, FriendNewPkt ''Alice'' False)]"] example_request(2-4)
  by simp

lemma login_result:
  assumes "CmdLogin au cf fa (Some q) nowMs cs sh db = ((NoError, reply), cs', sh', outs)"
  obtains u user where
      "CheckUser au (fa_account fa) (lrq_npid q) (lrq_password q) (lrq_token q) (cf_emailValidated cf) db = Some (u, user)"
      "qfind (ss_clients sh) u = None"
      "reply = Some (loginReply u user (GetRelationships fa u db) sh)"
      "cs' = loginSession q u user sh cs"
      "sh' = UsageOnLogin (fst (registerLogin q u (cs_conn cs) (GetRelationships fa u db) sh))"
      "outs = (if lrq_appear_offline q then [] else concat (map (statusChange (lrq_npid q) True nowMs)
          (snd (registerLogin q u (cs_conn cs) (GetRelationships fa u db) sh))))"
  using assms by (auto simp: CmdLogin_def Let_def case_prod_unfold split: option.splits if_splits)

lemma loginSession_id [simp]: "my_id (loginSession q u user sh cs) = u" "cs_authenticated (loginSession q u user sh cs)"
  by (simp_all add: loginSession_def Let_def)

lemma rl_friends_iff:
  assumes "friendship_ok db" and "\<not> fa_account fa" and "\<not> fa_rel_read fa"
  shows "(v, n) \<in> set (rl_friends (GetRelationships fa u db)) \<longleftrightarrow> mutual db u v \<and> GetUsername False v db = Some n"
proof
  assume v: "(v, n) \<in> set (rl_friends (GetRelationships fa u db))"
  then obtain x y where "((v, n), x, y) \<in> set (relationRows fa u db)"
    using assms(3) by (force simp: GetRelationships_def Let_def image_iff)
  then have "GetUsername False v db = Some n"
    using relationRows_mem [OF assms(1,2)] by (simp add: GetUsername_def)
  with v relationship_lists [OF assms, of v n u] show "mutual db u v \<and> GetUsername False v db = Some n"
    by (simp add: GetUsername_def)
next
  assume "mutual db u v \<and> GetUsername False v db = Some n"
  with relationship_lists [OF assms, of v n u] show "(v, n) \<in> set (rl_friends (GetRelationships fa u db))"
    by (simp add: GetUsername_def)
qed

lemma register_senders:
  assumes "friendship_ok db" and "\<not> fa_account fa" and "\<not> fa_rel_read fa"
  shows "(conn, n) \<in> set (snd (registerLogin q u k (GetRelationships fa u db) sh)) \<longleftrightarrow>
    (\<exists>v c. mutual db u v \<and> GetUsername False v db = Some n \<and> qfind (ss_clients sh) v = Some c \<and> conn = ce_send c)"
proof -
  have "(conn, n) \<in> set (snd (registerLogin q u k (GetRelationships fa u db) sh)) \<longleftrightarrow>
      (\<exists>v m. (v, m) \<in> set (rl_friends (GetRelationships fa u db)) \<and>
         map_option (\<lambda>c. (ce_send c, m)) (qfind (ss_clients sh) v) = Some (conn, n))"
    by (simp add: registerLogin_def Let_def map_filter_mem Bex_def)
  then show ?thesis unfolding rl_friends_iff [OF assms] by auto
qed

text \<open>C13: A successful login in a well-formed state authenticates the session as the account, enters it
  with exactly its friends as its friend list, and tells exactly the connected friends: each is
  sent the status message and the presence event, unless the login asks to appear offline, when
  nobody is told. The reply lists every friend with its name and whether it is connected and not
  appearing offline, the names of the accounts the user asked, of those that asked the user and of
  those the user blocks, and the account's id and avatar.\<close>

theorem login_tells_friends:
  assumes "friendship_ok db" and "online_ok db sh" and "\<not> fa_account fa" and "\<not> fa_rel_read fa"
    and "CmdLogin au cf fa (Some q) nowMs cs sh db = ((NoError, Some reply), cs', sh', outs)"
  defines "u \<equiv> my_id cs'" and "so \<equiv> rel.meaning (db_friendship db)"
  shows "cs_authenticated cs' \<and> has_account db u \<and> listed sh u = None \<and> listed sh' u = Some {v. mutual db u v} \<and>
    ((conn, pkt) \<in> set outs \<longleftrightarrow> \<not> lrq_appear_offline q \<and>
       (\<exists>v n c. mutual db u v \<and> GetUsername False v db = Some n \<and> qfind (ss_clients sh) v = Some c \<and> conn = ce_send c \<and>
          pkt \<in> {FriendStatusPkt (lrq_npid q) True (PresenceTimestamp nowMs),
                 WebApiPushPkt [] 0 kOnlineStatus [] (lrq_npid q) n []})) \<and>
    set (lr_friends reply) = {\<lparr>fe_npid = n, fe_online = online\<rparr> |v n online. mutual db u v \<and> GetUsername False v db = Some n \<and>
       online = (case qfind (ss_clients sh) v of None \<Rightarrow> False | Some c \<Rightarrow> \<not> ce_appearOffline c)} \<and>
    set (lr_friend_requests_sent reply) =
      {n. \<exists>v. (u, v) \<in> so_requests so \<and> (v, u) \<notin> so_requests so \<and> GetUsername False v db = Some n} \<and>
    set (lr_friend_requests_received reply) =
      {n. \<exists>v. (u, v) \<notin> so_requests so \<and> (v, u) \<in> so_requests so \<and> GetUsername False v db = Some n} \<and>
    set (lr_blocked reply) = {n. \<exists>v. (u, v) \<in> so_blocks so \<and> GetUsername False v db = Some n} \<and>
    lr_user_id reply = u64_of_int u \<and>
    (\<exists>user. (u, user) \<in> set (db_accounts db) \<and> ur_username user = lrq_npid q \<and> lr_avatar_url reply = ur_avatarUrl user)"
proof -
  obtain u' user where r:
      "CheckUser au (fa_account fa) (lrq_npid q) (lrq_password q) (lrq_token q) (cf_emailValidated cf) db = Some (u', user)"
      "qfind (ss_clients sh) u' = None" "Some reply = Some (loginReply u' user (GetRelationships fa u' db) sh)"
      "cs' = loginSession q u' user sh cs"
      "sh' = UsageOnLogin (fst (registerLogin q u' (cs_conn cs) (GetRelationships fa u' db) sh))"
      "outs = (if lrq_appear_offline q then [] else concat (map (statusChange (lrq_npid q) True nowMs)
          (snd (registerLogin q u' (cs_conn cs) (GetRelationships fa u' db) sh))))"
    by (rule login_result [OF assms(5)])
  have "u' = u" by (simp add: u_def r(4))
  with r have l:
      "CheckUser au (fa_account fa) (lrq_npid q) (lrq_password q) (lrq_token q) (cf_emailValidated cf) db = Some (u, user)"
      "qfind (ss_clients sh) u = None" "reply = loginReply u user (GetRelationships fa u db) sh"
      "cs' = loginSession q u user sh cs"
      "sh' = UsageOnLogin (fst (registerLogin q u (cs_conn cs) (GetRelationships fa u db) sh))"
      "outs = (if lrq_appear_offline q then [] else concat (map (statusChange (lrq_npid q) True nowMs)
          (snd (registerLogin q u (cs_conn cs) (GetRelationships fa u db) sh))))"
    by simp_all
  have acc: "has_account db u" by (rule CheckUser_account [OF l(1)])
  have account: "(u, user) \<in> set (db_accounts db)" "ur_username user = lrq_npid q"
    using l(1) by (auto simp: CheckUser_def split: if_splits option.splits dest: find_SomeD)
  have lists: "set (lr_friend_requests_sent reply) =
      {n. \<exists>v. (u, v) \<in> so_requests so \<and> (v, u) \<notin> so_requests so \<and> GetUsername False v db = Some n}"
    "set (lr_friend_requests_received reply) =
      {n. \<exists>v. (u, v) \<notin> so_requests so \<and> (v, u) \<in> so_requests so \<and> GetUsername False v db = Some n}"
    "set (lr_blocked reply) = {n. \<exists>v. (u, v) \<in> so_blocks so \<and> GetUsername False v db = Some n}"
    using relationships_exact [OF assms(1,3,4), of _ _ u]
    by (auto simp: l(3) loginReply_def so_def image_iff Bex_def)
  have "listed sh' u = Some {v. mutual db u v}"
    using listed_register [OF assms(1,3,4,2) acc, of q "cs_conn cs"] listed_cong [of sh' "fst (registerLogin q u (cs_conn cs) (GetRelationships fa u db) sh)"]
    by (simp add: l(5))
  moreover have "(conn, pkt) \<in> set outs \<longleftrightarrow> \<not> lrq_appear_offline q \<and>
       (\<exists>v n c. mutual db u v \<and> GetUsername False v db = Some n \<and> qfind (ss_clients sh) v = Some c \<and> conn = ce_send c \<and>
          pkt \<in> {FriendStatusPkt (lrq_npid q) True (PresenceTimestamp nowMs),
                 WebApiPushPkt [] 0 kOnlineStatus [] (lrq_npid q) n []})"
  proof -
    have "(conn, pkt) \<in> set outs \<longleftrightarrow> \<not> lrq_appear_offline q \<and>
        (\<exists>n. (conn, n) \<in> set (snd (registerLogin q u (cs_conn cs) (GetRelationships fa u db) sh)) \<and>
          pkt \<in> {FriendStatusPkt (lrq_npid q) True (PresenceTimestamp nowMs),
                 WebApiPushPkt [] 0 kOnlineStatus [] (lrq_npid q) n []})"
      unfolding l(6) by (force simp: statusChange_def)
    then show ?thesis unfolding register_senders [OF assms(1,3,4)] by blast
  qed
  moreover have "set (lr_friends reply) = {\<lparr>fe_npid = n, fe_online = online\<rparr> |v n online. mutual db u v \<and> GetUsername False v db = Some n \<and>
       online = (case qfind (ss_clients sh) v of None \<Rightarrow> False | Some c \<Rightarrow> \<not> ce_appearOffline c)}"
  proof -
    have "set (lr_friends reply) = {\<lparr>fe_npid = n, fe_online = online\<rparr> |v n online.
        (v, n) \<in> set (rl_friends (GetRelationships fa u db)) \<and>
        online = (case qfind (ss_clients sh) v of None \<Rightarrow> False | Some c \<Rightarrow> \<not> ce_appearOffline c)}"
      by (force simp: l(3) loginReply_def)
    then show ?thesis by (simp add: rl_friends_iff [OF assms(1,3,4)])
  qed
  moreover have "listed sh u = None" by (simp add: listed_def l(2))
  moreover have "cs_authenticated cs'" by (simp add: l(4))
  moreover have "lr_user_id reply = u64_of_int u" "lr_avatar_url reply = ur_avatarUrl user"
    by (simp_all add: l(3) loginReply_def)
  ultimately show ?thesis using acc lists account by blast
qed

definition example_login_of :: "qstring \<Rightarrow> nat \<Rightarrow> SharedState \<Rightarrow>
    (ErrorType \<times> LoginReply option) \<times> ClientSession \<times> SharedState \<times> friend_out list" where
  "example_login_of n conn sh = CmdLogin example_auth example_config no_faults (Some (example_login n)) 5
     (newSession conn None) sh (example_db (FRIEND, FRIEND))"

definition example_alice_on :: SharedState where
  "example_alice_on = fst (snd (snd (example_login_of ''alice'' 0 SharedState_default)))"

definition example_both_on :: SharedState where
  "example_both_on = fst (snd (snd (example_login_of ''bobby'' 1 example_alice_on)))"

lemma example_tables_ok: "tables_ok (example_db (FRIEND, FRIEND)) SharedState_default"
proof -
  have "accounts_ok (example_db (FRIEND, FRIEND))"
  proof -
    have "qdistinct (db_accounts (example_db (FRIEND, FRIEND)))" 
      "distinct (map (\<lambda>r. nocase (ur_username r)) (qvalues (db_accounts (example_db (FRIEND, FRIEND)))))"
      by code_simp+
    then show ?thesis by (auto simp: accounts_ok_def has_account_def example_db_def split: if_splits)
  qed
  moreover have "online_ok (example_db (FRIEND, FRIEND)) SharedState_default"
    by (simp add: online_ok_def listed_def SharedState_default_def)
  ultimately show ?thesis by (simp add: example_db_friends)
qed

lemma example_logins:
  "fst (fst (example_login_of ''alice'' 0 SharedState_default)) = NoError"
  "fst (fst (example_login_of ''bobby'' 1 example_alice_on)) = NoError"
  "snd (fst (example_login_of ''bobby'' 1 example_alice_on)) \<noteq> None"
  "my_id (fst (snd (example_login_of ''bobby'' 1 example_alice_on))) = 2"
  by code_simp+

lemma example_alice_ok: "tables_ok (example_db (FRIEND, FRIEND)) example_alice_on"
proof -
  obtain r cs sh outs where e: "example_login_of ''alice'' 0 SharedState_default = (r, cs, sh, outs)"
    by (cases "example_login_of ''alice'' 0 SharedState_default") auto
  then show ?thesis
    using Login_tables [OF example_tables_ok _ _ e [unfolded example_login_of_def]]
    by (simp add: example_alice_on_def no_faults_def)
qed

lemma login_tells_friends_witness:
  "listed example_both_on 2 = Some {v. mutual (example_db (FRIEND, FRIEND)) 2 v}"
proof -
  obtain r cs sh outs where e: "example_login_of ''bobby'' 1 example_alice_on = ((NoError, Some r), cs, sh, outs)"
    using example_logins(2,3) by (cases "example_login_of ''bobby'' 1 example_alice_on") auto
  have "tables_ok (example_db (FRIEND, FRIEND)) example_alice_on" by (rule example_alice_ok)
  then have "listed sh (my_id cs) = Some {v. mutual (example_db (FRIEND, FRIEND)) (my_id cs) v}"
    using login_tells_friends [OF _ _ _ _ e [unfolded example_login_of_def]] by (simp add: no_faults_def)
  moreover have "my_id cs = 2" "example_both_on = sh"
    using example_logins(4) unfolding example_both_on_def e by simp_all
  ultimately show ?thesis by simp
qed

lemma find_nocase_last:
  assumes "\<not> list_ex (\<lambda>r. nocase (ur_username r) = nocase n) (qvalues h)" and "nocase (ur_username r) = nocase n"
  shows "List.find (\<lambda>(i, r). nocase (ur_username r) = nocase n) (h @ [(i, r)]) = Some (i, r)"
  using assms by (induction h) auto

lemma list_ex_cong_nocase:
  "nocase m = nocase n \<Longrightarrow> list_ex (\<lambda>r. nocase (ur_username r) = nocase m) rs = list_ex (\<lambda>r. nocase (ur_username r) = nocase n) rs"
  by simp

text \<open>C36: Who registers can log in: after a successful registration a login with the registered name and
  password (and the e-mailed token where the server asks for it) succeeds, on a session that is
  then authenticated under the new account id and name and carries the token the new account was
  stored with, with no friends; and a login with that name and a password of another hash is refused
  and changes nothing. (The database answers the login's queries, the token is the one drawn at the
  registration, and the state before is well-formed.)\<close>

theorem created_account_can_login:
  assumes ok: "accounts_ok db" "friendship_ok db" "online_ok db sh"
    and create: "CmdCreate au cf fault (Some reg) salt token db = (NoError, db')"
    and name: "lrq_npid q = rrq_npid reg" and tok: "cf_emailValidated cf \<longrightarrow> lrq_token q = token"
  shows "map_option ur_token (qfind (db_accounts db') (db_nextUserId db)) = Some token \<and>
    (lrq_password q = rrq_password reg \<longrightarrow>
      (\<exists>reply cs' sh' outs. CmdLogin au cf no_faults (Some q) nowMs cs sh db' = ((NoError, Some reply), cs', sh', outs) \<and>
         cs_authenticated cs' \<and> my_id cs' = db_nextUserId db \<and> ci_npid (cs_info cs') = rrq_npid reg \<and>
         ci_token (cs_info cs') = token \<and> lr_user_id reply = u64_of_int (db_nextUserId db) \<and> lr_friends reply = [])) \<and>
    (HashPassword au (lrq_password q) salt \<noteq> HashPassword au (rrq_password reg) salt \<longrightarrow>
      CmdLogin au cf no_faults (Some q) nowMs cs sh db' = ((LoginInvalidPassword, None), cs, sh, []))"
proof -
  let ?u = "db_nextUserId db"
  obtain av where c: "CreateAccount au fault (rrq_npid reg) (rrq_password reg) av (rrq_email reg) salt token db = (None, db')"
    using create by (auto simp: CmdCreate_def Let_def split: if_splits prod.splits option.splits DbError.splits)
  then obtain em ec where d: "db' = db\<lparr>db_accounts := qinsert ?u
        \<lparr>ur_username = rrq_npid reg, ur_hash = HashPassword au (rrq_password reg) salt, ur_salt = salt, ur_avatarUrl = av,
         ur_email = em, ur_emailCheck = ec, ur_token = token, ur_admin = False,
         ur_statAgent = False, ur_banned = False\<rparr> (db_accounts db), db_nextUserId := ?u + 1\<rparr>"
    and n: "\<not> list_ex (\<lambda>r. nocase (ur_username r) = nocase (rrq_npid reg)) (qvalues (db_accounts db))"
    by (auto simp: CreateAccount_def Let_def split: if_splits)
  define user where "user = \<lparr>ur_username = rrq_npid reg, ur_hash = HashPassword au (rrq_password reg) salt, ur_salt = salt, ur_avatarUrl = av,
         ur_email = em, ur_emailCheck = ec, ur_token = token, ur_admin = False,
         ur_statAgent = False, ur_banned = False\<rparr>"
  have fresh: "\<not> has_account db ?u" using ok by (auto simp: accounts_ok_def)
  then have "?u \<notin> set (qkeys (db_accounts db))" by (simp add: has_account_def map_of_eq_None_iff)
  then have ins: "db_accounts db' = db_accounts db @ [(?u, user)]" by (simp add: d user_def qinsert_new)
  have find: "List.find (\<lambda>(i, r). nocase (ur_username r) = nocase (lrq_npid q)) (db_accounts db') = Some (?u, user)"
    unfolding ins using n by (intro find_nocase_last) (simp_all add: name user_def)
  have off: "qfind (ss_clients sh) ?u = None"
  proof (cases "listed sh ?u")
    case (Some fs)
    from online_okD(1) [OF ok(3) this] show ?thesis by simp
  qed (simp add: listed_def)
  have none: "relationRows no_faults ?u db' = []"
  proof -
    have "filter (\<lambda>((i, j), s). i = ?u \<or> j = ?u) (db_friendship db) = []"
      using ok(2) fresh by (auto simp: filter_empty_conv friendship_ok_def)
    then show ?thesis by (simp add: relationRows_def d List.map_filter_simps)
  qed
  have u: "ur_username user = lrq_npid q" "ur_salt user = salt" "ur_token user = token"
      "ur_hash user = HashPassword au (rrq_password reg) salt"
    by (simp_all add: user_def name)
  have check: "CheckUser au False (lrq_npid q) (lrq_password q) (lrq_token q) (cf_emailValidated cf) db' =
      (if HashPassword au (lrq_password q) salt = HashPassword au (rrq_password reg) salt then Some (?u, user) else None)"
    unfolding CheckUser_def find option.case prod.case u using tok by auto
  have f: "fa_account no_faults = False" by (simp add: no_faults_def)
  show ?thesis
  proof (intro conjI impI)
    show "map_option ur_token (qfind (db_accounts db') ?u) = Some token"
      by (simp add: d qfind_qinsert)
    assume "lrq_password q = rrq_password reg"
    then have "CheckUser au False (lrq_npid q) (lrq_password q) (lrq_token q) (cf_emailValidated cf) db' = Some (?u, user)"
      using check by simp
    moreover have "\<not> ur_banned user" "ur_username user = rrq_npid reg" "ur_token user = token" by (simp_all add: user_def)
    ultimately show "\<exists>reply cs' sh' outs. CmdLogin au cf no_faults (Some q) nowMs cs sh db' = ((NoError, Some reply), cs', sh', outs) \<and>
         cs_authenticated cs' \<and> my_id cs' = ?u \<and> ci_npid (cs_info cs') = rrq_npid reg \<and>
         ci_token (cs_info cs') = token \<and> lr_user_id reply = u64_of_int ?u \<and> lr_friends reply = []"
      using off by (simp add: CmdLogin_def f Let_def case_prod_unfold loginSession_def loginReply_def GetRelationships_def none)
  next
    assume "HashPassword au (lrq_password q) salt \<noteq> HashPassword au (rrq_password reg) salt"
    then show "CmdLogin au cf no_faults (Some q) nowMs cs sh db' = ((LoginInvalidPassword, None), cs, sh, [])"
      by (simp add: CmdLogin_def f check)
  qed
qed


lemma example_hash: "HashPassword example_auth pw salt = (if pw = [] \<or> salt = [] then [] else map of_char pw @ salt)"
proof -
  have "((\<lambda>b. b) ^^ n) x = x" for n and x :: bytes by (induction n) simp_all
  then show ?thesis by (simp add: HashPassword_def example_auth_def)
qed

lemma example_registration:
  "example_registration ''alice'' = \<lparr>rrq_npid = ''alice'', rrq_password = ''pw'', rrq_avatar_url = [],
     rrq_email = ''alice@home.org'', rrq_secret_key = []\<rparr>"
  by (simp add: example_registration_def)

lemma example_conditions:
  "IsRegistrationAllowed example_config [] = True" "IsValidNpid example_auth ''alice'' = True"
  "IsBannedDomain example_auth example_config d = False"
  "au_trimmed example_auth (au_toLower example_auth ''alice@home.org'') = ''alice@home.org''"
  by (code_simp, code_simp, simp add: IsBannedDomain_def example_config_def, code_simp)

lemma created_account_can_login_witness:
  "let db' = snd (CmdCreate example_auth example_config False (Some (example_registration ''alice'')) [1] ''tok'' Database_empty);
       login = (\<lambda>pw. CmdLogin example_auth example_config no_faults (Some ((example_login ''alice'')\<lparr>lrq_password := pw\<rparr>)) 3
         (newSession 0 None) SharedState_default db')
   in fst (fst (login ''pw'')) = NoError \<and> ci_token (cs_info (fst (snd (login ''pw'')))) = ''tok'' \<and>
      fst (login ''no'') = (LoginInvalidPassword, None)"
proof -
  have ok: "accounts_ok Database_empty" "friendship_ok Database_empty" "online_ok Database_empty SharedState_default"
    using initial_community_ok(1) by (simp_all add: people_ok_def initial_community_def initial_server_def)
  have "fst (CmdCreate example_auth example_config False (Some (example_registration ''alice'')) [1] ''tok'' Database_empty) = NoError"
    unfolding CmdCreate_def option.case Let_def example_registration RegistrationRequest.simps
      CreateAccount_def example_hash example_conditions by (simp add: Database_empty_def)
  then obtain db' where c: "CmdCreate example_auth example_config False (Some (example_registration ''alice'')) [1] ''tok'' Database_empty = (NoError, db')"
    by (metis prod.collapse)
  let ?q = "\<lambda>pw. (example_login ''alice'')\<lparr>lrq_password := pw\<rparr>"
  have hash: "HashPassword example_auth ''no'' [1] \<noteq> HashPassword example_auth ''pw'' [1]"
    unfolding example_hash by code_simp
  have q: "lrq_npid (?q pw) = rrq_npid (example_registration ''alice'')" "\<not> cf_emailValidated example_config"
      "lrq_password (?q pw) = pw" "rrq_password (example_registration ''alice'') = ''pw''" for pw
    by (simp_all add: example_login_def example_registration_def example_config_def)
  note can = created_account_can_login [OF ok c q(1), of _ 3 "newSession 0 None", unfolded q(3,4)]
  obtain reply cs' sh' outs where
    "CmdLogin example_auth example_config no_faults (Some (?q ''pw'')) 3 (newSession 0 None) SharedState_default db'
       = ((NoError, Some reply), cs', sh', outs)" "ci_token (cs_info cs') = ''tok''"
    using can [of "''pw''"] q(2) by auto
  moreover have "CmdLogin example_auth example_config no_faults (Some (?q ''no'')) 3 (newSession 0 None) SharedState_default db'
       = ((LoginInvalidPassword, None), newSession 0 None, SharedState_default, [])"
    using can [of "''no''"] hash q(2) by auto
  ultimately show ?thesis by (simp add: c)
qed

text \<open>Deleting one's own account leaves the session unauthenticated, and so a later hang-up cleans up
  nothing: the count of users online, the game attributed to the user and its counter, the name
  table and every room the user is in stay as they were.\<close>

theorem delete_skips_cleanup:
  assumes "CmdDelete au fault dat cs sh db = (NoError, cs', sh', db')" and "\<not> cs_authenticated cs'"
  shows "CleanupOnDisconnect nowMs cs' sh' = (cs', sh', [], []) \<and>
    ss_matching sh' = ss_matching sh \<and> ss_npidToUserId sh' = ss_npidToUserId sh \<and>
    ss_usageTotalOnline sh' = ss_usageTotalOnline sh \<and> ss_usageClientGame sh' = ss_usageClientGame sh \<and>
    ss_usageGameUsers sh' = ss_usageGameUsers sh"
  using assms by (auto simp: CmdDelete_def CleanupOnDisconnect_def Let_def split: option.splits prod.splits if_splits bool.splits)

definition example_alice :: ClientSession where
  "example_alice = (newSession 0 None)\<lparr>cs_authenticated := True,
     cs_info := ClientInfo_default\<lparr>ci_userId := 1, ci_npid := ''alice''\<rparr>\<rparr>"

definition example_deletion :: "ErrorType \<times> ClientSession \<times> SharedState \<times> Database" where
  "example_deletion = CmdDelete example_auth False (StreamExtractor (map of_char ''alice'' @ [0] @ map of_char ''pw'' @ [0]))
     example_alice example_alice_on (example_db (FRIEND, FRIEND))"

lemma example_deletion_ok:
  "fst example_deletion = NoError" "\<not> cs_authenticated (fst (snd example_deletion))"
  "ss_usageTotalOnline example_alice_on = 1"
  by code_simp+

lemma delete_skips_cleanup_witness:
  "ss_usageTotalOnline (fst (snd (CleanupOnDisconnect 9 (fst (snd example_deletion)) (fst (snd (snd example_deletion)))))) = 1"
proof -
  obtain cs' sh' db' where e: "example_deletion = (NoError, cs', sh', db')"
    using example_deletion_ok(1) by (metis prod.collapse)
  from delete_skips_cleanup [OF e [unfolded example_deletion_def], of 9] example_deletion_ok(2,3) show ?thesis
    by (simp add: e)
qed

end
