(* ===== verification/Stats.thy ===== *)
theory Stats
  imports ScoreServer Json Online "HOL-Library.List_Lexorder"
begin

text \<open>
  The statistics page (\<open>src/stats_server.cpp\<close>) and the statements of \<open>src/database.cpp\<close>
  only it uses. Answers are built from the usage counters, the account and score tables and the score
  cache, and kept for a configured number of seconds.
\<close>

subsection \<open>What the pages show\<close>

record stats_sources =
  \<comment> \<open>what a request finds when it is answered\<close>
  so_shared :: SharedState
  so_scoreCache :: ScoreCache
  so_db :: Database
  so_scores :: ScoreDb
  so_dbOpens :: bool
  so_fault :: bool                             \<comment> \<open>queries fail\<close>
  so_now :: int                                \<comment> \<open>milliseconds\<close>
  so_timestamp :: u64                          \<comment> \<open>the clock as the score cache reads it\<close>

definition MaxRanksPerBoard :: u32 where "MaxRanksPerBoard = 100"

definition TotalUsers :: "bool \<Rightarrow> Database \<Rightarrow> nat" where
  "TotalUsers fault db = (if fault then 0 else length (db_accounts db))"

definition title_key :: "qstring \<times> qstring \<Rightarrow> nat list \<times> nat list" where
  \<comment> \<open>SQLite's \<open>BINARY\<close> collation compares bytes\<close>
  "title_key = (\<lambda>(comId, name). (map of_char name, map of_char comId))"

definition ListScoredGameTitles :: "bool \<Rightarrow> Database \<Rightarrow> ScoreDb \<Rightarrow> (qstring \<times> qstring) list" where
  "ListScoredGameTitles fault db sd =
     (if fault then []
      else sort_key title_key (map (\<lambda>comId. (comId, qvalue (db_titleNames db) comId []))
             (remdups (map (\<lambda>((comId, _, _, _), _). comId) (sd_scores sd)))))"

definition ranksToJson :: "GetScoreResponse \<Rightarrow> json" where
  "ranksToJson resp = JArray (map (\<lambda>r. JObject
     [(''rank'', JNum (uint (rd_rank r))), (''npid'', JString (rd_npid r)), (''pc_id'', JNum (rd_pcid r)),
      (''score'', JNum (rd_score r)), (''record_date'', JNum (sint (rd_recorddate r))),
      (''has_game_data'', JBool (rd_hasgamedata r)), (''account_id'', JNum (rd_accountid r))]) (gr_rankarray resp))"

definition topRanks :: "stats_sources \<Rightarrow> qstring \<Rightarrow> u32 \<Rightarrow> GetScoreResponse" where
  \<comment> \<open>from rank 1 the query is always inside the table\<close>
  "topRanks so comId boardId =
     (case ScoreBoard.GetScoreRange comId boardId 1 MaxRanksPerBoard False False (so_timestamp so) (so_scoreCache so) of
        None \<Rightarrow> GetScoreResponse_default | Some resp \<Rightarrow> resp)"

definition BuildRegisteredJson :: "stats_sources \<Rightarrow> json_object" where
  "BuildRegisteredJson so =
     (if \<not> so_dbOpens so then [(''error'', JString ''db unavailable''), (''registered_users'', JNum 0)]
      else [(''registered_users'', JNum (int (TotalUsers (so_fault so) (so_db so))))])"

definition BuildUsageJson :: "stats_sources \<Rightarrow> json_object" where
  "BuildUsageJson so =
     [(''total_users'', JNum (ss_usageTotalOnline (so_shared so))),
      (''psn_games'', JArray (map (\<lambda>(game, n). JObject [(''com_id'', JString game), (''num_users'', JNum n)])
         (filter (\<lambda>(game, n). n > 0) (ss_usageGameUsers (so_shared so)))))]"

definition boardFields :: "stats_sources \<Rightarrow> qstring \<Rightarrow> u32 \<Rightarrow> json_object" where
  "boardFields so comId boardId =
     (let resp = topRanks so comId boardId in
      [(''board_id'', JNum (uint boardId)), (''total_record'', JNum (uint (gr_totalrecord resp))),
       (''last_sort_date'', JNum (sint (gr_lastsortdate resp))), (''ranks'', ranksToJson resp)])"

definition BuildComIdScoreJson :: "qstring \<Rightarrow> stats_sources \<Rightarrow> json_object" where
  "BuildComIdScoreJson comId so =
     [(''com_id'', JString comId),
      (''boards'', JArray (map (JObject \<circ> boardFields so comId) (ListBoards (so_scoreCache so) comId)))]"

definition BuildBoardScoreJson :: "qstring \<Rightarrow> u32 \<Rightarrow> stats_sources \<Rightarrow> json_object" where
  "BuildBoardScoreJson comId boardId so = (''com_id'', JString comId) # boardFields so comId boardId"

definition BuildScoreListJson :: "stats_sources \<Rightarrow> json_object" where
  "BuildScoreListJson so =
     (if \<not> so_dbOpens so then [(''error'', JString ''db unavailable''), (''games'', JArray [])]
      else [(''games'', JArray (map (\<lambda>(comId, name). JObject [(''name'', JString name), (''commid'', JString comId)])
              (ListScoredGameTitles (so_fault so) (so_db so) (so_scores so))))])"

subsection \<open>Requests and the cache of answers\<close>

record CacheEntry =
  ce_json :: json_object
  ce_expiry :: int

record stats_server =
  st_cacheLife :: int                          \<comment> \<open>seconds\<close>
  st_cache :: "(qstring, CacheEntry) qhash"

definition CachedOrBuild ::
  "qstring \<Rightarrow> (stats_sources \<Rightarrow> json_object) \<Rightarrow> stats_sources \<Rightarrow> stats_server \<Rightarrow> json_object \<times> stats_server" where
  "CachedOrBuild key build so st =
     (let make = (let json = build so in
        (json, st\<lparr>st_cache := qinsert key \<lparr>ce_json = json, ce_expiry = so_now so + 1000 * st_cacheLife st\<rparr> (st_cache st)\<rparr>))
      in case qfind (st_cache st) key of
           None \<Rightarrow> make
         | Some e \<Rightarrow> if ce_expiry e > so_now so then (ce_json e, st) else make)"

datatype stats_route =
    RtUsage
  | RtRegistered
  | RtScoreList
  | RtScore qstring
  | RtBoard qstring qstring

definition comIdSize_ok :: "qstring \<Rightarrow> bool" where
  "comIdSize_ok comId \<longleftrightarrow> 9 \<le> length comId \<and> length comId \<le> 12"

fun cacheKey :: "(qstring \<Rightarrow> u32 option) \<Rightarrow> stats_route \<Rightarrow> qstring option" where
  \<comment> \<open>\<open>None\<close>: the request is answered with 404\<close>
  "cacheKey toUInt RtUsage = Some ''usage''"
| "cacheKey toUInt RtRegistered = Some ''registered''"
| "cacheKey toUInt RtScoreList = Some ''scorelist''"
| "cacheKey toUInt (RtScore comId) = (if comIdSize_ok comId then Some (''score:'' @ comId) else None)"
| "cacheKey toUInt (RtBoard comId boardStr) =
     (if toUInt boardStr = None \<or> \<not> comIdSize_ok comId then None
      else Some (''board:'' @ comId @ '':'' @ boardStr))"

fun buildRoute :: "(qstring \<Rightarrow> u32 option) \<Rightarrow> stats_route \<Rightarrow> stats_sources \<Rightarrow> json_object" where
  "buildRoute toUInt RtUsage so = BuildUsageJson so"
| "buildRoute toUInt RtRegistered so = BuildRegisteredJson so"
| "buildRoute toUInt RtScoreList so = BuildScoreListJson so"
| "buildRoute toUInt (RtScore comId) so = BuildComIdScoreJson comId so"
| "buildRoute toUInt (RtBoard comId boardStr) so =
     BuildBoardScoreJson comId (case toUInt boardStr of None \<Rightarrow> 0 | Some b \<Rightarrow> b) so"

definition stats_handle ::
  "(qstring \<Rightarrow> u32 option) \<Rightarrow> stats_server \<Rightarrow> stats_route \<Rightarrow> stats_sources \<Rightarrow> json_object option \<times> stats_server" where
  "stats_handle toUInt st route so =
     (case cacheKey toUInt route of
        None \<Rightarrow> (None, st)
      | Some key \<Rightarrow> (let (json, st') = CachedOrBuild key (buildRoute toUInt route) so st in (Some json, st')))"

lemma topRanks_defined:
  "ScoreBoard.GetScoreRange comId boardId 1 MaxRanksPerBoard False False now cache \<noteq> None"
  by (auto simp: GetScoreRange_def MaxRanksPerBoard_def int_of_i32_def Let_def split: option.split)

subsection \<open>Answers are fresh\<close>

text \<open>
  Every entry of the cache was built for a route with its key, no longer ago than its life.
\<close>

definition built :: "(qstring \<Rightarrow> u32 option) \<Rightarrow> (stats_route \<times> stats_sources) list \<Rightarrow> stats_server \<Rightarrow> bool" where
  "built toUInt past st \<longleftrightarrow>
     (\<forall>key e. qfind (st_cache st) key = Some e \<longrightarrow>
        (\<exists>(route, so) \<in> set past. cacheKey toUInt route = Some key \<and> ce_json e = buildRoute toUInt route so \<and>
           ce_expiry e = so_now so + 1000 * st_cacheLife st))"

definition stats_run ::
  "(qstring \<Rightarrow> u32 option) \<Rightarrow> stats_server \<Rightarrow> (stats_route \<times> stats_sources) list \<Rightarrow> stats_server" where
  "stats_run toUInt = foldl (\<lambda>st (route, so). snd (stats_handle toUInt st route so))"

lemma stats_life [simp]: "st_cacheLife (snd (stats_handle toUInt st route so)) = st_cacheLife st"
  by (simp add: stats_handle_def CachedOrBuild_def Let_def split: option.split prod.split)

lemma built_handle:
  assumes "built toUInt past st"
  shows "built toUInt (past @ [(route, so)]) (snd (stats_handle toUInt st route so))"
  using assms
  by (auto simp: built_def stats_handle_def CachedOrBuild_def Let_def qfind_qinsert split: option.split if_splits)

lemma built_run: "built toUInt past st \<Longrightarrow> built toUInt (past @ rs) (stats_run toUInt st rs)"
proof (induction rs arbitrary: past st)
  case (Cons r rs)
  obtain route so where r: "r = (route, so)" by (cases r)
  from Cons.IH [OF built_handle [OF Cons.prems, of route so]] show ?case by (simp add: r stats_run_def)
qed (simp add: stats_run_def)

lemma life_run [simp]: "st_cacheLife (stats_run toUInt st rs) = st_cacheLife st"
  by (induction rs arbitrary: st) (auto simp: stats_run_def)

lemma take_until_colon:
  assumes "CHR '':'' \<notin> set b" and "CHR '':'' \<notin> set b'" and eq: "a @ CHR '':'' # b = a' @ CHR '':'' # b'"
  shows "a = a' \<and> b = b'"
proof -
  have last: "takeWhile (\<lambda>c. c \<noteq> CHR '':'') (rev (x @ CHR '':'' # y)) = rev y" if "CHR '':'' \<notin> set y" for x y
    using that by (simp, subst takeWhile_append2) auto
  have "rev b = rev b'" using last [OF assms(1), of a] last [OF assms(2), of a'] eq by simp
  with eq show ?thesis by simp
qed

lemma cacheKey_inj:
  assumes "\<And>s v. toUInt s = Some v \<Longrightarrow> CHR '':'' \<notin> set s"
    and "cacheKey toUInt r = Some key" and "cacheKey toUInt r' = Some key"
  shows "r = r'"
proof -
  have board: "c = c' \<and> t = t'"
    if "cacheKey toUInt (RtBoard c t) = Some key" and "cacheKey toUInt (RtBoard c' t') = Some key" for c t c' t'
  proof (rule take_until_colon)
    show "CHR '':'' \<notin> set t" "CHR '':'' \<notin> set t'" using that assms(1) by (auto split: if_splits)
    show "c @ CHR '':'' # t = c' @ CHR '':'' # t'" using that by (auto split: if_splits)
  qed
  show ?thesis
  proof (cases "(\<exists>c t. r = RtBoard c t) \<and> (\<exists>c t. r' = RtBoard c t)")
    case True
    then show ?thesis using board assms(2,3) by blast
  next
    case False
    then show ?thesis using assms(2,3) by (cases r; cases r') (auto split: if_splits)
  qed
qed

text \<open>C31: The statistics page never shows anything older than the configured life: whatever requests came
  before, at whatever times, an answer is what its page would have shown at one of the requests for
  the same page, at most that many seconds ago, or now.\<close>

theorem stats_answer_fresh:
  assumes "\<And>s v. toUInt s = Some v \<Longrightarrow> CHR '':'' \<notin> set s"
    and "fst (stats_handle toUInt (stats_run toUInt \<lparr>st_cacheLife = life, st_cache = []\<rparr> past) route so) = Some json"
  shows "\<exists>so'. json = buildRoute toUInt route so' \<and>
    (so' = so \<or> (route, so') \<in> set past \<and> so_now so < so_now so' + 1000 * life)"
proof -
  let ?st = "stats_run toUInt \<lparr>st_cacheLife = life, st_cache = []\<rparr> past"
  have b: "built toUInt past ?st"
    using built_run [of toUInt "[]" "\<lparr>st_cacheLife = life, st_cache = []\<rparr>" past] by (simp add: built_def)
  obtain key where key: "cacheKey toUInt route = Some key"
    using assms(2) by (auto simp: stats_handle_def split: option.splits)
  show ?thesis
  proof (cases "\<exists>e. qfind (st_cache ?st) key = Some e \<and> ce_expiry e > so_now so")
    case True
    then obtain e where e: "qfind (st_cache ?st) key = Some e" "ce_expiry e > so_now so" by blast
    with b obtain route' so' where s: "(route', so') \<in> set past" "cacheKey toUInt route' = Some key"
        "ce_json e = buildRoute toUInt route' so'" "ce_expiry e = so_now so' + 1000 * life"
      by (fastforce simp: built_def)
    have "route' = route" by (rule cacheKey_inj [OF assms(1) s(2) key])
    moreover have "json = ce_json e" using e assms(2) key by (simp add: stats_handle_def CachedOrBuild_def Let_def)
    ultimately show ?thesis using s e(2) by auto
  next
    case False
    with assms(2) key show ?thesis
      by (auto simp: stats_handle_def CachedOrBuild_def Let_def split: option.splits if_splits)
  qed
qed

definition example_sources :: stats_sources where
  "example_sources = \<lparr>so_shared = SharedState_default, so_scoreCache = [], so_db = Database_empty,
     so_scores = \<lparr>sd_boards = [], sd_scores = []\<rparr>, so_dbOpens = True, so_fault = False, so_now = 5000, so_timestamp = 0\<rparr>"

lemma stats_answer_fresh_witness:
  "\<exists>so'. BuildUsageJson example_sources = buildRoute (\<lambda>s. None) RtUsage so' \<and>
    (so' = example_sources\<lparr>so_now := 6000, so_shared := UsageOnLogin SharedState_default\<rparr> \<or>
     (RtUsage, so') \<in> set [(RtUsage, example_sources)] \<and> 6000 < so_now so' + 1000 * 30)"
proof -
  have "fst (stats_handle (\<lambda>s. None) (stats_run (\<lambda>s. None) \<lparr>st_cacheLife = 30, st_cache = []\<rparr> [(RtUsage, example_sources)])
      RtUsage (example_sources\<lparr>so_now := 6000, so_shared := UsageOnLogin SharedState_default\<rparr>)) = Some (BuildUsageJson example_sources)"
    by code_simp
  from stats_answer_fresh [OF _ this] show ?thesis by simp
qed

subsection \<open>The usage page\<close>

text \<open>C33: Whatever game connections did before, the usage page names exactly the games some user was last
  seen in, each once, with the number of those users, and never shows a negative number of users
  online.\<close>

theorem usage_page_counts:
  fixes au :: auth_functions and cf :: config and so :: stats_sources
  assumes "list_all event_ok es"
    and "so_shared so = cm_shared (foldl (community_step au cf) initial_community es)"
  shows "\<exists>online games. BuildUsageJson so = [(''total_users'', JNum online),
      (''psn_games'', JArray (map (\<lambda>(game, n). JObject [(''com_id'', JString game), (''num_users'', JNum (int n))]) games))] \<and>
    0 \<le> online \<and> distinct (map fst games) \<and>
    (\<forall>game n. (game, n) \<in> set games \<longleftrightarrow> n = playersOf (ss_usageClientGame (so_shared so)) game \<and> n > 0)"
proof -
  let ?sh = "so_shared so"
  have "people_ok (foldl (community_step au cf) initial_community es) \<and>
      usage_kept (foldl (community_step au cf) initial_community es)"
    by (rule people.run_inv) (use assms(1) initial_community_ok in auto)
  then have ok: "usage_ok ?sh" by (simp add: usage_kept_def assms(2))
  let ?games = "map (\<lambda>(game, n). (game, nat n)) (filter (\<lambda>(game, n). n > 0) (ss_usageGameUsers ?sh))"
  have "BuildUsageJson so = [(''total_users'', JNum (ss_usageTotalOnline ?sh)),
      (''psn_games'', JArray (map (\<lambda>(game, n). JObject [(''com_id'', JString game), (''num_users'', JNum (int n))]) ?games))]"
    by (auto simp: BuildUsageJson_def)
  moreover have "distinct (map fst ?games)"
    using ok by (auto simp: usage_ok_def qdistinct_def comp_def case_prod_unfold distinct_map_filter)
  moreover have "(game, n) \<in> set ?games \<longleftrightarrow> n = playersOf (ss_usageClientGame ?sh) game \<and> n > 0" for game n
  proof -
    have "(game, n) \<in> set ?games \<longleftrightarrow> (game, int n) \<in> set (ss_usageGameUsers ?sh) \<and> n > 0" by force
    also have "\<dots> \<longleftrightarrow> qfind (ss_usageGameUsers ?sh) game = Some (int n) \<and> n > 0"
      using ok qfind_in_set [of "ss_usageGameUsers ?sh" game "int n"] by (simp add: usage_ok_def del: map_of_eq_Some_iff)
    also have "\<dots> \<longleftrightarrow> n = playersOf (ss_usageClientGame ?sh) game \<and> n > 0"
      using ok by (auto simp: usage_ok_def counted_def)
    finally show ?thesis .
  qed
  ultimately show ?thesis using ok by (auto simp: usage_ok_def intro!: exI [of _ ?games])
qed

lemma usage_page_counts_witness:
  "\<exists>online games. BuildUsageJson (example_sources\<lparr>so_shared :=
      cm_shared (foldl (community_step example_auth example_config) initial_community example_life)\<rparr>) =
    [(''total_users'', JNum online), (''psn_games'', JArray games)] \<and> 0 \<le> online"
  using usage_page_counts [OF example_life_ok(1), of "example_sources\<lparr>so_shared :=
      cm_shared (foldl (community_step example_auth example_config) initial_community example_life)\<rparr>" example_auth example_config]
  by auto

end
