(* ===== verification/StartUp.thy ===== *)
theory StartUp
  imports ScoreServer
begin

text \<open>
  The configuration files \<open>scoreboards.cfg\<close> and \<open>worlds.cfg\<close> that
  \<open>src/server.cpp\<close> reads at start-up, and the datagrams of \<open>src/stun_server.cpp\<close>.
  A file is the list of its lines; Qt's string and address functions are arguments.
\<close>

record text_functions =
  tx_trimmed :: "qstring \<Rightarrow> qstring"
  tx_split :: "char \<Rightarrow> qstring \<Rightarrow> qstring list"
  tx_toUInt :: "qstring \<Rightarrow> u32 option"
  tx_toULongLong :: "qstring \<Rightarrow> u64 option"
  tx_toLower :: "qstring \<Rightarrow> qstring"
  tx_fromUtf8 :: "bytes \<Rightarrow> qstring"
  tx_toIPv4Address :: "qstring \<Rightarrow> u32"

definition skipped :: "qstring \<Rightarrow> bool" where
  "skipped line \<longleftrightarrow> line = [] \<or> hd line = CHR ''#''"

subsection \<open>Score boards\<close>

definition scoreboardConfig :: "text_functions \<Rightarrow> qstring list \<Rightarrow> ScoreBoardConfig option" where
  "scoreboardConfig tx parts =
     (case tx_toUInt tx (tx_trimmed tx (parts ! 2)) of
        None \<Rightarrow> None
      | Some rankLimit \<Rightarrow>
        (let um = tx_trimmed tx (parts ! 3); sm = tx_trimmed tx (parts ! 4) in
         if um \<notin> {''NORMAL_UPDATE'', ''FORCE_UPDATE''} \<or> sm \<notin> {''DESCENDING_ORDER'', ''ASCENDING_ORDER''} then None
         else (case (tx_toUInt tx (tx_trimmed tx (parts ! 5)), tx_toULongLong tx (tx_trimmed tx (parts ! 6))) of
                 (Some num, Some uploadSize) \<Rightarrow>
                   Some \<lparr>sb_rankLimit = rankLimit, sb_updateMode = (if um = ''NORMAL_UPDATE'' then 0 else 1),
                         sb_sortMode = (if sm = ''DESCENDING_ORDER'' then 0 else 1),
                         sb_uploadNumLimit = num, sb_uploadSizeLimit = uploadSize\<rparr>
               | _ \<Rightarrow> None)))"

fun setTables :: "text_functions \<Rightarrow> qstring \<Rightarrow> ScoreBoardConfig \<Rightarrow> qstring list \<Rightarrow> ScoreDb \<Rightarrow> bool \<times> ScoreDb" where
  \<comment> \<open>the boards before an invalid id stay set\<close>
  "setTables tx comId cfg [] sd = (True, sd)"
| "setTables tx comId cfg (s # ss) sd =
     (case tx_toUInt tx (tx_trimmed tx s) of
        None \<Rightarrow> (False, sd)
      | Some tid \<Rightarrow> setTables tx comId cfg ss (snd (SetBoard False comId tid cfg sd)))"

definition scoreboardLine :: "text_functions \<Rightarrow> qstring \<Rightarrow> ScoreDb \<Rightarrow> bool \<times> ScoreDb" where
  "scoreboardLine tx line sd =
     (let parts = tx_split tx CHR ''|'' line in
      if length parts \<noteq> 7 then (False, sd)
      else (case scoreboardConfig tx parts of
              None \<Rightarrow> (False, sd)
            | Some cfg \<Rightarrow> setTables tx (tx_trimmed tx (parts ! 0)) cfg
                            (tx_split tx CHR '','' (tx_trimmed tx (parts ! 1))) sd))"

definition LoadScoreboardsCfg :: "text_functions \<Rightarrow> qstring list \<Rightarrow> ScoreDb \<Rightarrow> ScoreDb" where
  "LoadScoreboardsCfg tx ls =
     fold (\<lambda>raw sd. let line = tx_trimmed tx raw in if skipped line then sd else snd (scoreboardLine tx line sd)) ls"

text \<open>Whatever the file says, reading it is setting a list of boards, which is what \<open>InitScoreSystem\<close> starts with.\<close>

abbreviation set_boards :: "(board_key \<times> ScoreBoardConfig) list \<Rightarrow> ScoreDb \<Rightarrow> ScoreDb" where
  "set_boards \<equiv> fold (\<lambda>((c, b), cfg) sd. snd (SetBoard False c b cfg sd))"

lemma setTables_sets: "\<exists>defs. snd (setTables tx comId cfg ss sd) = set_boards defs sd"
proof (induction ss arbitrary: sd)
  case Nil
  show ?case by (rule exI [of _ "[]"]) simp
next
  case (Cons s ss)
  show ?case
  proof (cases "tx_toUInt tx (tx_trimmed tx s)")
    case None
    then show ?thesis by (intro exI [of _ "[]"]) simp
  next
    case (Some tid)
    obtain defs where "snd (setTables tx comId cfg ss (snd (SetBoard False comId tid cfg sd)))
        = set_boards defs (snd (SetBoard False comId tid cfg sd))"
      using Cons.IH by blast
    with Some show ?thesis by (intro exI [of _ "((comId, tid), cfg) # defs"]) simp
  qed
qed

lemma scoreboards_are_settings: "\<exists>defs. LoadScoreboardsCfg tx ls sd = set_boards defs sd"
proof (induction ls arbitrary: sd)
  case Nil
  show ?case by (rule exI [of _ "[]"]) (simp add: LoadScoreboardsCfg_def)
next
  case (Cons raw ls)
  let ?line = "tx_trimmed tx raw"
  have "\<exists>defs. (if skipped ?line then sd else snd (scoreboardLine tx ?line sd)) = set_boards defs sd"
    using setTables_sets [of tx] by (auto simp: scoreboardLine_def Let_def intro: exI [of _ "[]"] split: option.split)
  then obtain d1 where d1: "(if skipped ?line then sd else snd (scoreboardLine tx ?line sd)) = set_boards d1 sd" ..
  obtain d2 where "LoadScoreboardsCfg tx ls (set_boards d1 sd) = set_boards d2 (set_boards d1 sd)"
    using Cons.IH by blast
  with d1 have "LoadScoreboardsCfg tx (raw # ls) sd = set_boards (d1 @ d2) sd"
    by (simp add: LoadScoreboardsCfg_def Let_def)
  then show ?case ..
qed

subsection \<open>Worlds\<close>

datatype section_name = NoSection | GroupsSection | WorldsSection

definition parseGroups :: "text_functions \<Rightarrow> qstring \<Rightarrow> MatchingSharedState \<Rightarrow> bool \<times> MatchingSharedState" where
  "parseGroups tx line mx =
     (if CHR ''='' \<notin> set line then (False, mx)
      else (let titleId = tx_trimmed tx (takeWhile (\<lambda>c. c \<noteq> CHR ''='') line);
                grp = tx_trimmed tx (tl (dropWhile (\<lambda>c. c \<noteq> CHR ''='') line))
            in if titleId = [] \<or> grp = [] then (False, mx)
               else (True, mx\<lparr>mx_titleGroups := qinsert titleId grp (mx_titleGroups mx)\<rparr>)))"

definition parseWorlds :: "text_functions \<Rightarrow> qstring \<Rightarrow> MatchingSharedState \<Rightarrow> bool \<times> MatchingSharedState" where
  "parseWorlds tx line mx =
     (let parts = tx_split tx CHR ''|'' line; num = (\<lambda>i. tx_toUInt tx (tx_trimmed tx (parts ! i))) in
      if length parts \<noteq> 5 then (False, mx)
      else (let grp = tx_trimmed tx (parts ! 0) in
            if grp = [] then (False, mx)
            else (case (num 1, num 2, num 3, num 4) of
                    (Some worldId, Some serverId, Some lobbies, Some members) \<Rightarrow>
                      if worldId = 0 then (False, mx)
                      else (True, mx\<lparr>mx_worldConfigs := qat_update grp []
                             (\<lambda>ws. ws @ [\<lparr>wc_worldId = worldId, wc_serverId = ucast serverId, wc_lobbiesNum = lobbies,
                                         wc_maxLobbyMembersNum = members\<rparr>]) (mx_worldConfigs mx)\<rparr>)
                  | _ \<Rightarrow> (False, mx))))"

definition worldsLine :: "text_functions \<Rightarrow> qstring \<Rightarrow> section_name \<times> MatchingSharedState \<Rightarrow> section_name \<times> MatchingSharedState" where
  "worldsLine tx raw = (\<lambda>(section, mx).
     (let line = tx_trimmed tx raw in
      if skipped line then (section, mx)
      else if hd line = CHR ''['' \<and> last line = CHR '']''
      then (let name = tx_toLower tx (tx_trimmed tx (take (length line - 2) (tl line)))
            in (if name = ''groups'' then GroupsSection else if name = ''worlds'' then WorldsSection else NoSection, mx))
      else (section, case section of
              GroupsSection \<Rightarrow> snd (parseGroups tx line mx)
            | WorldsSection \<Rightarrow> snd (parseWorlds tx line mx)
            | NoSection \<Rightarrow> mx)))"

definition LoadWorldsCfg :: "text_functions \<Rightarrow> qstring list \<Rightarrow> MatchingSharedState \<Rightarrow> MatchingSharedState" where
  "LoadWorldsCfg tx ls mx = snd (fold (worldsLine tx) ls (NoSection, mx))"

subsection \<open>The STUN helper\<close>

definition SIGNALING_VPORT_NBO :: u16 where "SIGNALING_VPORT_NBO = 0xFFFF"
definition VPORT_HEADER_SIZE :: nat where "VPORT_HEADER_SIZE = 4"

definition FrameSignaling :: "bytes \<Rightarrow> bytes" where
  "FrameSignaling payload = toLe 2 SIGNALING_VPORT_NBO @ toLe 2 SIGNALING_VPORT_NBO @ payload"

definition StripVportHeader :: "bytes \<Rightarrow> bytes" where
  "StripVportHeader raw =
     (if length raw < VPORT_HEADER_SIZE then []
      else (let src_vp = fromLe (take 2 raw) :: u16; dst_vp = fromLe (take 2 (drop 2 raw)) :: u16
            in if src_vp \<noteq> SIGNALING_VPORT_NBO \<or> dst_vp \<noteq> SIGNALING_VPORT_NBO then []
               else drop VPORT_HEADER_SIZE raw))"

definition bigEndian :: "nat \<Rightarrow> 'a::len word \<Rightarrow> bytes" where
  \<comment> \<open>the bytes of a value in network order\<close>
  "bigEndian n w = rev (toLe n w)"

definition unmapped :: "qstring \<Rightarrow> qstring" where
  "unmapped ip = (if take 7 ip = ''::ffff:'' then drop 7 ip else ip)"

definition HandleStunPing ::
  "text_functions \<Rightarrow> bytes \<Rightarrow> qstring \<Rightarrow> u16 \<Rightarrow> MatchingSharedState \<Rightarrow> MatchingSharedState \<times> bytes option" where
  \<comment> \<open>the address is what \<open>toString\<close> gives; the datagram sent back\<close>
  "HandleStunPing tx datagram sender senderPort mx =
     (if length datagram < 21 then (mx, None)
      else (let npid = tx_trimmed tx (tx_fromUtf8 tx (takeWhile (\<lambda>b. b \<noteq> 0) (take 16 (drop 1 datagram)))) in
            if npid = [] then (mx, None)
            else (let ext = unmapped sender
                  in (mx\<lparr>mx_udpExt := qinsert npid (ext, senderPort) (mx_udpExt mx)\<rparr>,
                      Some (FrameSignaling (bigEndian 4 (tx_toIPv4Address tx ext) @ bigEndian 2 senderPort))))))"

definition stun_OnDatagram ::
  "text_functions \<Rightarrow> bytes \<Rightarrow> qstring \<Rightarrow> u16 \<Rightarrow> MatchingSharedState \<Rightarrow> MatchingSharedState \<times> bytes option" where
  \<comment> \<open>one turn of \<open>OnReadyRead\<close>\<close>
  "stun_OnDatagram tx raw sender senderPort mx =
     (let datagram = StripVportHeader raw in
      if datagram = [] then (mx, None)
      else if hd datagram = 0x01 then HandleStunPing tx datagram sender senderPort mx
      else (mx, None))"

lemma StripVportHeader_Frame [simp]: "StripVportHeader (FrameSignaling payload) = payload"
proof -
  have v: "toLe 2 (0xFFFF :: u16) = [0xFF, 0xFF]" by code_simp
  show ?thesis by (simp add: FrameSignaling_def StripVportHeader_def VPORT_HEADER_SIZE_def SIGNALING_VPORT_NBO_def v)
qed

text \<open>
  A ping names its sender: afterwards the address the session of that name gives out for
  signaling is the one the datagram came from, and the answer carries that address and port.
\<close>

lemma ping_recorded:
  assumes "length userid = 16" and "length localIp = 4"
    and "npid = tx_trimmed tx (tx_fromUtf8 tx (takeWhile (\<lambda>b. b \<noteq> 0) userid))" and "npid \<noteq> []"
    and "stun_OnDatagram tx (FrameSignaling ([0x01] @ userid @ localIp)) sender port (ss_matching sh) = (mx, reply)"
    and "ci_npid (cs_info cs) = npid" and "unmapped sender \<noteq> []"
  shows "GetSelfSignalingAddr (set_matching mx sh) cs = (unmapped sender, port) \<and>
    map_option StripVportHeader reply = Some (bigEndian 4 (tx_toIPv4Address tx (unmapped sender)) @ bigEndian 2 port)"
  using assms by (auto simp: stun_OnDatagram_def HandleStunPing_def Let_def GetSelfSignalingAddr_def qfind_qinsert)

end
