(* ===== verification/Multipart.thy ===== *)
theory Multipart
  imports Json
begin

text \<open>
  The multipart bodies of \<open>src/webapi_routes_session.cpp\<close>: the boundary of a content type
  and the parts between the boundaries. The splitter finds its way by positions in the body, and so
  does the model.
\<close>

subsection \<open>Content types\<close>

definition ExtractBoundary :: "string \<Rightarrow> string" where
  "ExtractBoundary contentType =
     (case index_of ''boundary='' contentType of
        None \<Rightarrow> []
      | Some b \<Rightarrow>
          (let v = trimmed (drop (b + 9) contentType) in
           if take 1 v = [CHR 0x22]
           then (case index_from [CHR 0x22] v 1 of Some e \<Rightarrow> qmid v 1 (int e - 1) | None \<Rightarrow> drop 1 v)
           else takeWhile (\<lambda>c. c \<notin> {CHR '';'', CHR '','', CHR '' '', CHR 0x09, CHR 0x0D, CHR 0x0A}) v))"

fun split_unquoted :: "bool \<Rightarrow> string \<Rightarrow> string list" where
  \<comment> \<open>the text between the commas outside quotes\<close>
  "split_unquoted inQuotes [] = [[]]"
| "split_unquoted inQuotes (c # cs) =
     (if c = CHR '','' \<and> \<not> inQuotes then [] # split_unquoted inQuotes cs
      else (case split_unquoted (if c = CHR 0x22 then \<not> inQuotes else inQuotes) cs of
              [] \<Rightarrow> [[c]]
            | x # xs \<Rightarrow> (c # x) # xs))"

definition NormalizeContentType :: "string \<Rightarrow> string" where
  "NormalizeContentType ct =
     (let contentType = trimmed ct in
      if contentType = [] then []
      else (let segments = map trimmed (split_unquoted False contentType) in
            if length segments < 2 then contentType
            else if list_all (\<lambda>seg. seg = hd segments) segments then hd segments
            else contentType))"

subsection \<open>Parts\<close>

record MultipartPart =
  mp_contentType :: string
  mp_contentDescription :: string
  mp_data :: string

definition CR :: char where "CR = CHR 0x0D"
definition LF :: char where "LF = CHR 0x0A"

definition parse_header :: "MultipartPart \<Rightarrow> string \<Rightarrow> MultipartPart" where
  "parse_header part raw =
     (let line = trimmed raw in
      case index_of '':'' line of
        None \<Rightarrow> part
      | Some c \<Rightarrow>
          (let name = asciiLower (trimmed (take c line));
               val = trimmed (drop (c + 1) line)
           in if name = ''content-type'' then part\<lparr>mp_contentType := val\<rparr>
              else if name = ''content-description'' then part\<lparr>mp_contentDescription := val\<rparr>
              else part))"

definition skip_newline :: "string \<Rightarrow> nat \<Rightarrow> nat" where
  "skip_newline body pos =
     (if qmid body pos 2 = [CR, LF] then pos + 2 else if body ! pos = LF then pos + 1 else pos)"

definition header_end :: "string \<Rightarrow> nat \<Rightarrow> (nat \<times> nat) option" where
  \<comment> \<open>where the header lines end, and the length of the separator\<close>
  "header_end body pos =
     (case index_from [CR, LF, CR, LF] body pos of
        Some e \<Rightarrow> Some (e, 4)
      | None \<Rightarrow> map_option (\<lambda>e. (e, 2)) (index_from [LF, LF] body pos))"

definition body_end :: "string \<Rightarrow> nat \<Rightarrow> nat" where
  "body_end body nextDelim =
     (if nextDelim \<ge> 2 \<and> qmid body (nextDelim - 2) 2 = [CR, LF] then nextDelim - 2
      else if nextDelim \<ge> 1 \<and> body ! (nextDelim - 1) = LF then nextDelim - 1
      else nextDelim)"

definition parse_part :: "string \<Rightarrow> string \<Rightarrow> MultipartPart" where
  "parse_part headers dat =
     foldl parse_header \<lparr>mp_contentType = [], mp_contentDescription = [], mp_data = dat\<rparr> (split_on LF headers)"

lemma header_end_bound: "header_end body pos = Some (e, sep) \<Longrightarrow> pos \<le> e \<and> 0 < sep"
  by (auto simp: header_end_def dest!: index_from_bound split: option.splits)

lemma skip_newline_ge: "pos \<le> skip_newline body pos"
  by (simp add: skip_newline_def)

function parts_loop :: "string \<Rightarrow> string \<Rightarrow> nat \<Rightarrow> MultipartPart list" where
  "parts_loop body delim pos =
     (if \<not> pos < length body then []
      else if qmid body pos 2 = ''--'' then []
      else
        (let pos1 = skip_newline body pos in
         case header_end body pos1 of
           None \<Rightarrow> []
         | Some (hdrEnd, sep) \<Rightarrow>
             (case index_from delim body (hdrEnd + sep) of
                None \<Rightarrow> []
              | Some nextDelim \<Rightarrow>
                  parse_part (qmid body pos1 (int hdrEnd - int pos1))
                    (qmid body (hdrEnd + sep) (int (body_end body nextDelim) - int (hdrEnd + sep)))
                  # parts_loop body delim (nextDelim + length delim))))"
  by pat_completeness auto

termination
proof (relation "measure (\<lambda>(body, delim, pos). length body - pos)")
  fix body delim :: string and pos pos1 x hdrEnd sep nextDelim
  assume "\<not> \<not> pos < length body" "pos1 = skip_newline body pos" "header_end body pos1 = Some x" "(hdrEnd, sep) = x"
    "index_from delim body (hdrEnd + sep) = Some nextDelim"
  then have "pos < nextDelim" "pos < length body"
    using skip_newline_ge [of pos body] header_end_bound [of body pos1 hdrEnd sep] index_from_bound [of delim body "hdrEnd + sep" nextDelim]
    by auto
  then show "((body, delim, nextDelim + length delim), (body, delim, pos)) \<in> measure (\<lambda>(body, delim, pos). length body - pos)"
    by simp
qed simp

declare parts_loop.simps [simp del]

definition ParseMultipartMixed :: "string \<Rightarrow> string \<Rightarrow> MultipartPart list" where
  "ParseMultipartMixed body boundary =
     (let delim = ''--'' @ boundary in
      case index_of delim body of
        None \<Rightarrow> []
      | Some p \<Rightarrow> parts_loop body delim (p + length delim))"

subsection \<open>Round trip\<close>

text \<open>The body a client writes for a list of parts.\<close>

definition header_text :: "MultipartPart \<Rightarrow> string" where
  "header_text p = ''Content-Type: '' @ mp_contentType p @ [CR, LF] @ ''Content-Description: '' @ mp_contentDescription p"

definition render_part :: "MultipartPart \<Rightarrow> string" where
  "render_part p = [CR, LF] @ header_text p @ [CR, LF, CR, LF] @ mp_data p @ [CR, LF]"

definition render_body :: "string \<Rightarrow> MultipartPart list \<Rightarrow> string" where
  "render_body boundary ps =
     concat (map (\<lambda>p. ''--'' @ boundary @ render_part p) ps) @ ''--'' @ boundary @ ''--''"

definition plain_value :: "string \<Rightarrow> bool" where
  "plain_value v \<longleftrightarrow> trimmed v = v \<and> CR \<notin> set v \<and> LF \<notin> set v"

definition part_ok :: "string \<Rightarrow> MultipartPart \<Rightarrow> bool" where
  \<comment> \<open>header values of one line without outer blanks, and data in which the delimiter does not occur\<close>
  "part_ok boundary p \<longleftrightarrow>
     plain_value (mp_contentType p) \<and> plain_value (mp_contentDescription p) \<and>
     index_of (''--'' @ boundary) (mp_data p @ [CR, LF] @ ''--'' @ boundary) = Some (length (mp_data p) + 2)"

lemma CR_LF [simp]: "CR \<noteq> LF" "LF \<noteq> CR" "is_space CR" "is_space LF"
  by (simp_all add: CR_def LF_def is_space_def)

lemma trimmed_right: "is_space c \<Longrightarrow> trimmed (s @ [c]) = trimmed s"
proof (cases "\<forall>x \<in> set s. is_space x")
  case True
  assume "is_space c"
  with True have "dropWhile is_space (s @ [c]) = []" "dropWhile is_space s = []" by auto
  then show ?thesis by (simp only: trimmed_def)
next
  case False
  assume c: "is_space c"
  from False obtain x where "x \<in> set s" "\<not> is_space x" by blast
  then have "dropWhile is_space (s @ [c]) = dropWhile is_space s @ [c]" by (rule dropWhile_append1)
  with c show ?thesis by (simp add: trimmed_def dropWhileEnd_def)
qed

lemma length_trimmed: "length (trimmed s) \<le> length s"
  using length_dropWhile_le [of is_space "rev (dropWhile is_space s)"] length_dropWhile_le [of is_space s]
  by (simp add: trimmed_def dropWhileEnd_def)

lemma trimmed_last: "trimmed v = v \<Longrightarrow> v \<noteq> [] \<Longrightarrow> \<not> is_space (last v)"
proof
  assume a: "trimmed v = v" "v \<noteq> []" "is_space (last v)"
  then have "length v = length (trimmed (butlast v))" by (metis trimmed_right append_butlast_last_id)
  also have "\<dots> \<le> length (butlast v)" by (rule length_trimmed)
  also have "\<dots> < length v" using a(2) by (cases v rule: rev_cases) simp_all
  finally show False by simp
qed

lemma trimmed_left: "is_space c \<Longrightarrow> trimmed (c # s) = trimmed s"
  by (simp add: trimmed_def)

lemma header_CR: "CR \<notin> set ''Content-Type: ''" "CR \<notin> set ''Content-Description: ''"
    "LF \<notin> set ''Content-Type: ''" "LF \<notin> set ''Content-Description: ''"
  by (simp_all add: CR_def LF_def)

lemma header_end_text:
  assumes "plain_value (mp_contentType p)" "plain_value (mp_contentDescription p)"
  shows "index_of [CR, LF, CR, LF] (header_text p @ [CR, LF, CR, LF] @ r) = Some (length (header_text p))"
proof -
  have a: "CR \<notin> set (''Content-Type: '' @ mp_contentType p)" "CR \<notin> set (''Content-Description: '' @ mp_contentDescription p)"
    using assms header_CR by (auto simp: plain_value_def)
  have "index_of [CR, LF, CR, LF] ((''Content-Description: '' @ mp_contentDescription p) @ [CR, LF, CR, LF] @ r) =
      Some (length (''Content-Description: '' @ mp_contentDescription p))"
    by (subst index_of_skip [OF a(2)]) simp
  then have "index_of [CR, LF, CR, LF] ([CR, LF] @ (''Content-Description: '' @ mp_contentDescription p) @ [CR, LF, CR, LF] @ r) =
      Some (2 + length (''Content-Description: '' @ mp_contentDescription p))"
    by (simp add: CR_def LF_def)
  then have "index_of [CR, LF, CR, LF] ((''Content-Type: '' @ mp_contentType p) @ [CR, LF] @
        (''Content-Description: '' @ mp_contentDescription p) @ [CR, LF, CR, LF] @ r) =
      Some (length (''Content-Type: '' @ mp_contentType p) + (2 + length (''Content-Description: '' @ mp_contentDescription p)))"
    by (subst index_of_skip [OF a(1)]) simp
  then show ?thesis by (simp add: header_text_def)
qed

lemma trimmed_name:
  assumes "n \<noteq> []" "\<not> is_space (hd n)" "\<not> is_space (last n)" "trimmed v = v" "c = CHR '' ''"
  shows "trimmed (n @ c # v) = (if v = [] then n else n @ c # v)"
proof -
  have "dropWhile is_space (n @ c # v) = n @ c # v" using assms(1,2) by (cases n) simp_all
  moreover have "dropWhileEnd is_space (n @ c # v) = (if v = [] then n else n @ c # v)"
  proof (cases "v = []")
    case True
    have "dropWhileEnd is_space (n @ [c]) = dropWhileEnd is_space n"
      by (simp add: dropWhileEnd_def assms(5) is_space_def)
    with True assms(1,3) show ?thesis by (simp add: dropWhileEnd_id)
  next
    case False
    with assms(4) trimmed_last show ?thesis by (simp add: dropWhileEnd_id)
  qed
  ultimately show ?thesis by (simp add: trimmed_def)
qed

lemma name_index: "index_of '':'' (''Content-Type:'' @ v) = Some 12" "index_of '':'' (''Content-Description:'' @ v) = Some 19"
  by simp_all

lemma header_line:
  assumes "plain_value v"
  shows "parse_header part (''Content-Type: '' @ v @ [CR]) = part\<lparr>mp_contentType := v\<rparr>"
    and "parse_header part (''Content-Description: '' @ v) = part\<lparr>mp_contentDescription := v\<rparr>"
proof -
  have v: "trimmed v = v" using assms by (simp add: plain_value_def)
  have "trimmed (CHR '' '' # v) = v" using v by (simp add: trimmed_left is_space_def)
  moreover have "trimmed [] = []" by code_simp
  moreover have t: "trimmed (''Content-Type:'' @ CHR '' '' # v) = (if v = [] then ''Content-Type:'' else ''Content-Type:'' @ CHR '' '' # v)"
    by (rule trimmed_name) (use v in \<open>simp_all add: is_space_def\<close>)
  moreover have d: "trimmed (''Content-Description:'' @ CHR '' '' # v) = (if v = [] then ''Content-Description:'' else ''Content-Description:'' @ CHR '' '' # v)"
    by (rule trimmed_name) (use v in \<open>simp_all add: is_space_def\<close>)
  moreover have "asciiLower (trimmed ''Content-Type'') = ''content-type''" "asciiLower (trimmed ''Content-Description'') = ''content-description''"
    "''content-description'' \<noteq> ''content-type''"
    by code_simp+
  moreover have "trimmed (''Content-Type: '' @ v @ [CR]) = trimmed (''Content-Type:'' @ CHR '' '' # v)"
    using trimmed_right [of CR "''Content-Type:'' @ CHR '' '' # v"] by simp
  ultimately show "parse_header part (''Content-Type: '' @ v @ [CR]) = part\<lparr>mp_contentType := v\<rparr>"
    "parse_header part (''Content-Description: '' @ v) = part\<lparr>mp_contentDescription := v\<rparr>"
    by (simp_all add: parse_header_def)
qed

lemma parse_part_text:
  assumes "plain_value (mp_contentType p)" "plain_value (mp_contentDescription p)"
  shows "parse_part (header_text p) (mp_data p) = p"
proof -
  have "LF \<notin> set (''Content-Type: '' @ mp_contentType p @ [CR])" "LF \<notin> set (''Content-Description: '' @ mp_contentDescription p)"
    using assms header_CR by (auto simp: plain_value_def)
  then have "split_on LF (header_text p) = [''Content-Type: '' @ mp_contentType p @ [CR], ''Content-Description: '' @ mp_contentDescription p]"
    using split_on_no [of LF "''Content-Type: '' @ mp_contentType p @ [CR]" "''Content-Description: '' @ mp_contentDescription p"]
      split_on_last [of LF "''Content-Description: '' @ mp_contentDescription p"]
    by (simp add: header_text_def del: split_on.simps)
  with assms show ?thesis by (simp add: parse_part_def header_line del: append.simps)
qed

lemma index_from_at: "n = length a \<Longrightarrow> index_from pat (a @ b) n = map_option ((+) n) (index_of pat b)"
  by (simp add: index_from_def)

lemma qmid_at: "n = length a \<Longrightarrow> l = int (length b) \<Longrightarrow> qmid (a @ b @ c) n l = b"
  by (simp add: qmid_def)

fun rest_of :: "string \<Rightarrow> MultipartPart list \<Rightarrow> string" where
  \<comment> \<open>what follows a delimiter\<close>
  "rest_of boundary [] = ''--''"
| "rest_of boundary (p # ps) = render_part p @ (''--'' @ boundary) @ rest_of boundary ps"

lemma render_rest: "render_body boundary ps = (''--'' @ boundary) @ rest_of boundary ps"
  by (induction ps) (simp_all add: render_body_def)

lemma parts_loop_part:
  assumes ok: "part_ok boundary p" and delim: "delim = ''--'' @ boundary"
    and body: "body = pre @ render_part p @ delim @ rest"
  shows "parts_loop body delim (length pre) = p # parts_loop body delim (length pre + length (render_part p) + length delim)"
proof -
  let ?h = "header_text p" and ?d = "mp_data p"
  let ?pos = "length pre + 2"
  let ?start = "?pos + length ?h + 4"
  let ?stop = "?start + length ?d"
  have v: "plain_value (mp_contentType p)" "plain_value (mp_contentDescription p)"
    and d: "index_of delim (?d @ [CR, LF] @ delim) = Some (length ?d + 2)"
    using ok by (simp_all add: part_ok_def delim)
  have b1: "body = pre @ [CR, LF] @ (?h @ [CR, LF, CR, LF] @ ?d @ [CR, LF] @ delim @ rest)"
    by (simp add: body render_part_def)
  have b2: "body = (pre @ [CR, LF]) @ ?h @ ([CR, LF, CR, LF] @ ?d @ [CR, LF] @ delim @ rest)"
    by (simp add: b1)
  have b3: "body = (pre @ [CR, LF] @ ?h @ [CR, LF, CR, LF]) @ ?d @ ([CR, LF] @ delim @ rest)"
    by (simp add: b1)
  have b4: "body = (pre @ [CR, LF] @ ?h @ [CR, LF, CR, LF] @ ?d) @ [CR, LF] @ (delim @ rest)"
    by (simp add: b1)
  have n: "length pre < length body" by (simp add: b1)
  have q: "qmid body (length pre) 2 = [CR, LF]"
    unfolding b1 by (rule qmid_at) simp_all
  then have q': "qmid body (length pre) 2 \<noteq> ''--''" by (simp add: CR_def)
  have s: "skip_newline body (length pre) = ?pos" by (simp add: skip_newline_def q)
  have "index_from [CR, LF, CR, LF] body ?pos = Some (?pos + length ?h)"
    unfolding b2 by (subst index_from_at) (use header_end_text [OF v, of "?d @ [CR, LF] @ delim @ rest"] in simp_all)
  then have e: "header_end body ?pos = Some (?pos + length ?h, 4)" by (simp add: header_end_def)
  have "index_of delim (?d @ [CR, LF] @ delim @ rest) = Some (length ?d + 2)"
    using index_of_append [OF d, of rest] by simp
  then have x: "index_from delim body ?start = Some (?stop + 2)"
    unfolding b3 by (subst index_from_at) simp_all
  have "qmid body ?stop 2 = [CR, LF]" unfolding b4 by (rule qmid_at) simp_all
  then have z: "body_end body (?stop + 2) = ?stop" by (simp add: body_end_def ac_simps)
  have h: "qmid body ?pos (int (?pos + length ?h) - int ?pos) = ?h"
    unfolding b2 by (rule qmid_at) simp_all
  have m: "qmid body ?start (int ?stop - int ?start) = ?d"
    unfolding b3 by (rule qmid_at) simp_all
  have l: "?stop + 2 = length pre + length (render_part p)" by (simp add: render_part_def)
  show ?thesis
    by (subst parts_loop.simps)
      (simp only: n q' not_not if_False Let_def s e option.case prod.case x z h m parse_part_text [OF v] simp_thms, simp only: l)
qed

lemma parts_loop_rest:
  "list_all (part_ok boundary) ps \<Longrightarrow> delim = ''--'' @ boundary \<Longrightarrow>
    parts_loop (pre @ rest_of boundary ps) delim (length pre) = ps"
proof (induction ps arbitrary: pre)
  case Nil
  have "qmid (pre @ ''--'') (length pre) 2 = ''--''" by (simp add: qmid_def)
  then show ?case by (subst parts_loop.simps) simp
next
  case (Cons p ps)
  let ?pre = "pre @ render_part p @ delim"
  have e: "pre @ rest_of boundary (p # ps) = ?pre @ rest_of boundary ps" using Cons.prems(2) by simp
  have "parts_loop (?pre @ rest_of boundary ps) delim (length pre) =
      p # parts_loop (?pre @ rest_of boundary ps) delim (length pre + length (render_part p) + length delim)"
    by (rule parts_loop_part) (use Cons.prems in simp_all)
  also have "length pre + length (render_part p) + length delim = length ?pre" by simp
  also have "parts_loop (?pre @ rest_of boundary ps) delim (length ?pre) = ps"
    by (rule Cons.IH) (use Cons.prems in simp_all)
  finally show ?case unfolding e .
qed

text \<open>C34: The splitter recovers a multipart body: for any list of parts with one-line header values and
  data that do not contain the delimiter, splitting the body a client writes for them gives the same
  parts, with their types, descriptions and data, in order.\<close>

theorem multipart_roundtrip:
  assumes "list_all (part_ok boundary) ps"
  shows "ParseMultipartMixed (render_body boundary ps) boundary = ps"
proof -
  have "index_of (''--'' @ boundary) ((''--'' @ boundary) @ rest_of boundary ps) = Some 0"
    by simp
  then show ?thesis
    using parts_loop_rest [OF assms refl, of "''--'' @ boundary"]
    by (simp only: ParseMultipartMixed_def render_rest Let_def option.case add_0_left length_append)
qed

definition example_parts :: "MultipartPart list" where
  "example_parts =
     [\<lparr>mp_contentType = ''application/json'', mp_contentDescription = ''session-request'', mp_data = ''{}''\<rparr>,
      \<lparr>mp_contentType = ''image/jpeg'', mp_contentDescription = ''session-image'', mp_data = []\<rparr>]"

lemma multipart_roundtrip_witness:
  "ParseMultipartMixed (render_body ''abc'' example_parts) ''abc'' = example_parts"
  by (rule multipart_roundtrip) code_simp

text \<open>Where the blank line behind the headers touches the next delimiter, the end of the data lies
  before its start, and the length of the data is negative: the part takes the rest of the body, with
  the parts behind it.\<close>

lemma empty_part_takes_rest:
  "map mp_data (ParseMultipartMixed (''--b'' @ [CR, LF] @ ''A: x'' @ [CR, LF, CR, LF] @ ''--b'' @ [CR, LF] @ ''B: y'' @
      [CR, LF, CR, LF] @ ''hello'' @ [CR, LF] @ ''--b--'') ''b'') =
    [''--b'' @ [CR, LF] @ ''B: y'' @ [CR, LF, CR, LF] @ ''hello'' @ [CR, LF] @ ''--b--'', ''hello'']"
  by code_simp

lemma comma_joined_content_type:
  "NormalizeContentType (''multipart/mixed; boundary=a, multipart/mixed; boundary=a'') = ''multipart/mixed; boundary=a''"
  by code_simp

end
