(* ===== verification/WebRequest.thy ===== *)
theory WebRequest
  imports Multipart Friends
begin

text \<open>
  Requests and responses of the Web API: the query string, the JSON error and success responses of
  \<open>src/webapi_routes_common.h\<close>, and the bearer token check of \<open>src/webapi_auth.cpp\<close>.
  The HTTP server itself, Qt's JSON reader and its number and date conversions are parameters.
\<close>

subsection \<open>Requests and responses\<close>

record http_request =
  hq_authorization :: string                    \<comment> \<open>header, empty when missing\<close>
  hq_contentType :: string                      \<comment> \<open>header, empty when missing\<close>
  hq_query :: "(qstring \<times> qstring) list"        \<comment> \<open>the query items in order\<close>
  hq_body :: string

datatype http_status = HttpBadRequest | HttpUnauthorized | HttpForbidden | HttpNotFound | HttpServerError

datatype http_response =
    JsonError http_status int                   \<comment> \<open>status and code; the text for humans is left out\<close>
  | JsonOk json_object                          \<comment> \<open>the fields in the order the code inserts them\<close>
  | NoContent
  | OctetStream string

record web_functions =
  wx_fromJson :: "string \<Rightarrow> json_object option"   \<comment> \<open>\<open>None\<close>: does not parse or is not an object\<close>
  wx_toLongLong :: "qstring \<Rightarrow> int option"
  wx_toInt :: "qstring \<Rightarrow> int option"
  wx_isoUtc :: "int \<Rightarrow> qstring"
  wx_fromUtf8 :: "string \<Rightarrow> qstring"
  wx_trimmed :: "qstring \<Rightarrow> qstring"
  wx_caseFold :: "qstring \<Rightarrow> qstring"             \<comment> \<open>equal for strings equal up to case\<close>

definition hasQueryItem :: "http_request \<Rightarrow> qstring \<Rightarrow> bool" where
  "hasQueryItem req key \<longleftrightarrow> map_of (hq_query req) key \<noteq> None"

definition queryItemValue :: "http_request \<Rightarrow> qstring \<Rightarrow> qstring" where
  "queryItemValue req key = (case map_of (hq_query req) key of None \<Rightarrow> [] | Some v \<Rightarrow> v)"

definition commaList :: "qstring \<Rightarrow> qstring list" where
  \<comment> \<open>\<open>split(',', Qt::SkipEmptyParts)\<close>\<close>
  "commaList s = filter (\<lambda>t. t \<noteq> []) (split_on CHR '','' s)"

definition queryFields :: "http_request \<Rightarrow> qstring list" where
  "queryFields req = commaList (queryItemValue req ''fields'')"

definition jstrings :: "qstring list \<Rightarrow> json" where
  "jstrings xs = JArray (map JString xs)"

definition joptional :: "bool \<Rightarrow> qstring \<Rightarrow> json \<Rightarrow> json_object" where
  \<comment> \<open>a field inserted only when it is wanted\<close>
  "joptional want key v = (if want then [(key, v)] else [])"

definition juser :: "qstring \<Rightarrow> userid \<Rightarrow> json" where
  "juser onlineId accountId =
     JObject [(''onlineId'', JString onlineId), (''accountId'', JString (qstring_number accountId))]"

subsection \<open>The bearer token\<close>

definition ERR_INVALID_TOKEN :: int where "ERR_INVALID_TOKEN = 0x80920001"
definition ERR_INVALID_HEADER :: int where "ERR_INVALID_HEADER = 0x80920002"

definition Authenticate ::
  "web_functions \<Rightarrow> bool \<Rightarrow> http_request \<Rightarrow> Database \<Rightarrow> http_response + userid \<times> qstring" where
  "Authenticate wx fault req db =
     (if hq_authorization req = []
      then Inl (JsonError HttpUnauthorized ERR_INVALID_HEADER)
      else
        (let authStr = wx_trimmed wx (wx_fromUtf8 wx (hq_authorization req));
             token = wx_trimmed wx (drop 7 authStr)
         in if wx_caseFold wx (take 7 authStr) \<noteq> wx_caseFold wx ''Bearer ''
            then Inl (JsonError HttpUnauthorized ERR_INVALID_HEADER)
            else if token = []
            then Inl (JsonError HttpUnauthorized ERR_INVALID_HEADER)
            else if fault
            then Inl (JsonError HttpServerError ERR_INVALID_TOKEN)
            else (case List.find (\<lambda>(i, r). ur_token r = token) (db_accounts db) of
                    None \<Rightarrow> Inl (JsonError HttpUnauthorized ERR_INVALID_TOKEN)
                  | Some (i, r) \<Rightarrow> Inr (i, ur_username r))))"

definition ResolveTarget ::
  "web_functions \<Rightarrow> bool \<Rightarrow> qstring \<Rightarrow> userid \<times> qstring \<Rightarrow> Database \<Rightarrow> userid option" where
  \<comment> \<open>\<open>me\<close>, the caller's name, an account id, or a name\<close>
  "ResolveTarget wx fault userKey auth db =
     (if wx_caseFold wx userKey = wx_caseFold wx ''me'' \<or> wx_caseFold wx userKey = wx_caseFold wx (snd auth)
      then Some (fst auth)
      else (case wx_toLongLong wx userKey of
              Some v \<Rightarrow> Some v
            | None \<Rightarrow> GetUserId fault userKey db))"

lemma Authenticate_account:
  "Authenticate wx fault req db = Inr (u, n) \<Longrightarrow> \<exists>r. (u, r) \<in> set (db_accounts db) \<and> ur_username r = n \<and> ur_token r \<noteq> []"
  by (auto simp: Authenticate_def Let_def split: if_splits option.splits dest!: find_SomeD)

end
