(* ===== verification/Admin.thy ===== *)
theory Admin
  imports StartUp WebRequest Online
begin

text \<open>
  The general configuration (\<open>src/config.cpp\<close>, \<open>src/config.h\<close>) and the statements of
  \<open>src/database.cpp\<close> for administration and maintenance. A settings file is the table of its
  keys and values as text; Qt's conversions are arguments.
\<close>

subsection \<open>The configuration file\<close>

type_synonym settings = "(qstring, qstring) qhash"

record ConfigManager =
  cg_path :: qstring
  cg_host :: qstring
  cg_unsecured_port :: qstring
  cg_matchingUdpPort :: qstring
  cg_webapiPort :: qstring
  cg_statsEnabled :: bool
  cg_matching2Enabled :: bool
  cg_bloodborneSeamlessCoop :: bool
  cg_statsPort :: qstring
  cg_statsPath :: qstring
  cg_statsCacheLife :: int
  cg_emailValidated :: bool
  cg_adminsList :: "qstring list"
  cg_bannedDomains :: "qstring list"
  cg_registrationSecretKey :: qstring

record config_functions =
  cx_toBool :: "qstring \<Rightarrow> bool"
  cx_toInt :: "qstring \<Rightarrow> int"                 \<comment> \<open>0 when it is no number\<close>

definition settingDefaults :: "(qstring \<times> qstring) list" where
  "settingDefaults =
     [(''Host'', ''127.0.0.1''), (''UnsecuredPort'', ''31313''), (''MatchingUdpPort'', ''31314''), (''WebApiPort'', ''31315''),
      (''StatsEnabled'', ''true''), (''Matching2Enabled'', ''true''), (''BloodborneSeamlessCoop'', ''false''),
      (''StatsPort'', ''31320''), (''StatsPath'', ''stats''), (''StatsCacheLife'', ''30''), (''EmailValidated'', ''false''),
      (''AdminsList'', []), (''RegistrationSecretKey'', [])]"

fun ensureSetting :: "qstring \<times> qstring \<Rightarrow> settings \<Rightarrow> settings" where
  \<comment> \<open>a missing key is written with its default\<close>
  "ensureSetting (key, def) s = (if qfind s key = None then qinsert key def s else s)"

definition bannedDomain :: "text_functions \<Rightarrow> qstring \<Rightarrow> qstring option" where
  "bannedDomain tx line = (let d = tx_toLower tx (tx_trimmed tx line) in if skipped d then None else Some d)"

definition LoadBannedDomains :: "text_functions \<Rightarrow> qstring list option \<Rightarrow> ConfigManager \<Rightarrow> ConfigManager" where
  \<comment> \<open>\<open>None\<close>: \<open>domains_banlist.txt\<close> cannot be read\<close>
  "LoadBannedDomains tx banlist cg =
     cg\<lparr>cg_bannedDomains := (case banlist of None \<Rightarrow> [] | Some ls \<Rightarrow> remdups (List.map_filter (bannedDomain tx) ls))\<rparr>"

definition ParseConfig ::
  "text_functions \<Rightarrow> config_functions \<Rightarrow> qstring \<Rightarrow> qstring list option \<Rightarrow> settings \<Rightarrow> ConfigManager
    \<Rightarrow> ConfigManager \<times> settings" where
  "ParseConfig tx cx path banlist file cg =
     (let s = fold ensureSetting settingDefaults file;
          str = (\<lambda>key. qvalue s key []);
          boolean = (\<lambda>key. cx_toBool cx (str key))
      in (LoadBannedDomains tx banlist
            (cg\<lparr>cg_path := path, cg_host := str ''Host'', cg_unsecured_port := str ''UnsecuredPort'',
                cg_matchingUdpPort := str ''MatchingUdpPort'', cg_webapiPort := str ''WebApiPort'',
                cg_statsEnabled := boolean ''StatsEnabled'', cg_matching2Enabled := boolean ''Matching2Enabled'',
                cg_bloodborneSeamlessCoop := boolean ''BloodborneSeamlessCoop'', cg_statsPort := str ''StatsPort'',
                cg_statsPath := str ''StatsPath'', cg_statsCacheLife := cx_toInt cx (str ''StatsCacheLife''),
                cg_emailValidated := boolean ''EmailValidated'',
                cg_adminsList := (let raw = str ''AdminsList'' in if raw = [] then [] else commaList raw),
                cg_registrationSecretKey := str ''RegistrationSecretKey''\<rparr>), s))"

definition ReloadConfig ::
  "text_functions \<Rightarrow> config_functions \<Rightarrow> qstring \<Rightarrow> qstring list option \<Rightarrow> (qstring \<Rightarrow> settings) \<Rightarrow> ConfigManager
    \<Rightarrow> ConfigManager \<times> (qstring \<Rightarrow> settings)" where
  "ReloadConfig tx cx path banlist files cg =
     (let p = (if path = [] then cg_path cg else path); (cg', s) = ParseConfig tx cx p banlist (files p) cg
      in (cg', files(p := s)))"

definition IsAdmin :: "ConfigManager \<Rightarrow> qstring \<Rightarrow> bool" where
  "IsAdmin cg npid \<longleftrightarrow> npid \<in> set (cg_adminsList cg)"

definition SetHost :: "qstring \<Rightarrow> ConfigManager \<Rightarrow> ConfigManager" where "SetHost v cg = cg\<lparr>cg_host := v\<rparr>"
definition SetUnsecuredPort :: "qstring \<Rightarrow> ConfigManager \<Rightarrow> ConfigManager" where
  "SetUnsecuredPort v cg = cg\<lparr>cg_unsecured_port := v\<rparr>"
definition SetEmailValidated :: "bool \<Rightarrow> ConfigManager \<Rightarrow> ConfigManager" where
  "SetEmailValidated v cg = cg\<lparr>cg_emailValidated := v\<rparr>"
definition SetAdminsList :: "qstring list \<Rightarrow> ConfigManager \<Rightarrow> ConfigManager" where
  "SetAdminsList v cg = cg\<lparr>cg_adminsList := v\<rparr>"

definition account_config :: "ConfigManager \<Rightarrow> config" where
  \<comment> \<open>what the account commands read of it\<close>
  "account_config cg = \<lparr>cf_registrationSecretKey = cg_registrationSecretKey cg, cf_bannedDomains = cg_bannedDomains cg,
     cf_emailValidated = cg_emailValidated cg, cf_matching2Enabled = cg_matching2Enabled cg\<rparr>"

lemma ensure_find:
  "qfind (fold ensureSetting ds s) key =
     (case qfind s key of Some v \<Rightarrow> Some v | None \<Rightarrow> qfind ds key)"
proof (induction ds arbitrary: s)
  case (Cons d ds)
  show ?case by (cases d) (auto simp: Cons.IH qfind_qinsert split: option.split)
qed (simp split: option.split)

lemma ensure_kept: "(\<forall>(k, d) \<in> set ds. qfind s k \<noteq> None) \<Longrightarrow> fold ensureSetting ds s = s"
  by (induction ds) auto

text \<open>Loading writes every missing setting with its default, keeps the others, and is stable: loading
  again what was written gives the same configuration and the same file.\<close>

theorem config_load_stable:
  assumes "ParseConfig tx cx path banlist file cg = (cg', file')"
  shows "ParseConfig tx cx path banlist file' cg' = (cg', file') \<and>
    qfind file' key = (case qfind file key of Some v \<Rightarrow> Some v | None \<Rightarrow> qfind settingDefaults key)"
proof -
  have f: "file' = fold ensureSetting settingDefaults file" using assms by (simp add: ParseConfig_def Let_def)
  have "fold ensureSetting settingDefaults file' = file'"
    by (rule ensure_kept) (auto simp: f ensure_find split: option.splits dest: weak_map_of_SomeI)
  moreover have "qfind file' key = (case qfind file key of Some v \<Rightarrow> Some v | None \<Rightarrow> qfind settingDefaults key)"
    by (simp add: f ensure_find)
  ultimately show ?thesis
    using assms by (auto simp: ParseConfig_def LoadBannedDomains_def Let_def f [symmetric])
qed

subsection \<open>Administration\<close>

definition SetAccountFlag :: "bool \<Rightarrow> (UserRecord \<Rightarrow> UserRecord) \<Rightarrow> userid \<Rightarrow> Database \<Rightarrow> bool \<times> Database" where
  \<comment> \<open>an \<open>UPDATE\<close> of one account's row\<close>
  "SetAccountFlag fault f userId db =
     (if fault then (False, db) else (True, db\<lparr>db_accounts := qmodify userId f (db_accounts db)\<rparr>))"

definition BanUser :: "bool \<Rightarrow> userid \<Rightarrow> bool \<Rightarrow> Database \<Rightarrow> bool \<times> Database" where
  "BanUser fault userId ban = SetAccountFlag fault (\<lambda>r. r\<lparr>ur_banned := ban\<rparr>) userId"

definition SetAdmin :: "bool \<Rightarrow> userid \<Rightarrow> bool \<Rightarrow> Database \<Rightarrow> bool \<times> Database" where
  "SetAdmin fault userId admin = SetAccountFlag fault (\<lambda>r. r\<lparr>ur_admin := admin\<rparr>) userId"

definition GetUsernamesFromIds :: "bool \<Rightarrow> userid set \<Rightarrow> Database \<Rightarrow> (userid \<times> qstring) list" where
  "GetUsernamesFromIds fault ids db =
     (if fault then [] else map (\<lambda>(i, r). (i, ur_username r)) (filter (\<lambda>(i, r). i \<in> ids) (db_accounts db)))"

definition blankComId :: "qstring \<Rightarrow> bool" where
  \<comment> \<open>empty once the NULs are gone\<close>
  "blankComId comId \<longleftrightarrow> list_all (\<lambda>c. c = CHR 0x00) comId"

definition RunMaintenance :: "bool \<Rightarrow> bool \<Rightarrow> ScoreDb \<Rightarrow> ScoreDb" where
  \<comment> \<open>each of the two statements may fail\<close>
  "RunMaintenance faultScore faultTable sd =
     sd\<lparr>sd_scores := (if faultScore then sd_scores sd
                      else filter (\<lambda>((comId, b, u, c), row). \<not> blankComId comId) (sd_scores sd)),
        sd_boards := (if faultTable then sd_boards sd
                      else filter (\<lambda>((comId, b), cfg). \<not> blankComId comId) (sd_boards sd))\<rparr>"

subsection \<open>Time stamps of accounts\<close>

text \<open>
  The table \<open>account_timestamp\<close>, in seconds. A row is written with a new account and outlives it.
\<close>

record AccountTimestamp =
  at_creation :: int
  at_last_login :: "int option"

type_synonym timestamps = "(userid, AccountTimestamp) qhash"

definition InsertTimestamp :: "bool \<Rightarrow> int \<Rightarrow> userid \<Rightarrow> timestamps \<Rightarrow> bool \<times> timestamps" where
  "InsertTimestamp fault now userId ts =
     (if fault \<or> qfind ts userId \<noteq> None then (False, ts)
      else (True, qinsert userId \<lparr>at_creation = now, at_last_login = None\<rparr> ts))"

definition UpdateLoginTime :: "bool \<Rightarrow> int \<Rightarrow> userid \<Rightarrow> timestamps \<Rightarrow> bool \<times> timestamps" where
  "UpdateLoginTime fault now userId ts =
     (if fault then (False, ts) else (True, qmodify userId (\<lambda>t. t\<lparr>at_last_login := Some now\<rparr>) ts))"

definition neverUsed :: "int \<Rightarrow> timestamps \<Rightarrow> userid list" where
  \<comment> \<open>the inner query: created more than 30 days ago and never logged in\<close>
  "neverUsed now ts = map fst (filter (\<lambda>(u, t). at_creation t < now - 30 * 86400 \<and> at_last_login t = None) ts)"

definition CleanNeverUsedAccounts :: "bool \<Rightarrow> int \<Rightarrow> timestamps \<Rightarrow> Database \<Rightarrow> Database" where
  \<comment> \<open>\<open>ON DELETE CASCADE\<close> removes the friendship rows\<close>
  "CleanNeverUsedAccounts fault now ts db =
     (if fault then db
      else db\<lparr>db_accounts := filter (\<lambda>(u, r). u \<notin> set (neverUsed now ts)) (db_accounts db),
              db_friendship := filter (\<lambda>((i, j), s). i \<notin> set (neverUsed now ts) \<and> j \<notin> set (neverUsed now ts)) (db_friendship db)\<rparr>)"

lemma neverUsed_iff:
  "qdistinct ts \<Longrightarrow> u \<in> set (neverUsed now ts) \<longleftrightarrow>
    (\<exists>t. qfind ts u = Some t \<and> at_creation t < now - 30 * 86400 \<and> at_last_login t = None)"
  by (force simp: neverUsed_def qdistinct_def)

lemma qfind_filter_key: "qfind (filter (\<lambda>(k, v). P k) h) k = (if P k then qfind h k else None)"
  by (induction h) auto

text \<open>The clean-up removes exactly the accounts that are older than 30 days and never logged in: an
  account that logged in once is kept for good.\<close>

theorem clean_up_spares_users:
  assumes "qdistinct ts"
  shows "qfind (db_accounts (CleanNeverUsedAccounts False now ts db)) u =
      (if \<exists>t. qfind ts u = Some t \<and> at_creation t < now - 30 * 86400 \<and> at_last_login t = None then None
       else qfind (db_accounts db) u)"
    and "qfind (db_accounts (CleanNeverUsedAccounts False now (snd (UpdateLoginTime False t0 u ts)) db)) u = qfind (db_accounts db) u"
proof -
  have q: "qdistinct (snd (UpdateLoginTime False t0 u ts))"
    using assms by (simp add: UpdateLoginTime_def qmodify_def qdistinct_qinsert split: option.split)
  have r: "qfind (db_accounts (CleanNeverUsedAccounts False now ts' db)) u =
      (if u \<in> set (neverUsed now ts') then None else qfind (db_accounts db) u)" for ts'
    by (simp add: CleanNeverUsedAccounts_def qfind_filter_key [of "\<lambda>u. u \<notin> set (neverUsed now ts')"])
  show "qfind (db_accounts (CleanNeverUsedAccounts False now ts db)) u =
      (if \<exists>t. qfind ts u = Some t \<and> at_creation t < now - 30 * 86400 \<and> at_last_login t = None then None
       else qfind (db_accounts db) u)"
    by (simp add: r neverUsed_iff [OF assms])
  have "u \<notin> set (neverUsed now (snd (UpdateLoginTime False t0 u ts)))"
    unfolding neverUsed_iff [OF q] by (auto simp: UpdateLoginTime_def qmodify_def qfind_qinsert split: option.splits)
  then show "qfind (db_accounts (CleanNeverUsedAccounts False now (snd (UpdateLoginTime False t0 u ts)) db)) u = qfind (db_accounts db) u"
    by (simp add: r)
qed

lemma find_qmodify:
  assumes "\<And>k v. P (k, f v) = P (k, v)" and "qdistinct h"
  shows "List.find P (qmodify u f h) = map_option (\<lambda>(k, v). (k, if k = u then f v else v)) (List.find P h)"
proof -
  have "List.find P (qinsert u (f v) h) = map_option (\<lambda>(k, v). (k, if k = u then f v else v)) (List.find P h)"
    if "qfind h u = Some v" for v
    using that assms(2)
  proof (induction h)
    case (Cons e h)
    obtain k w where e: "e = (k, w)" by (cases e)
    have "List.find P h = map_option (\<lambda>(k, v). (k, if k = u then f v else v)) (List.find P h)" if "u \<notin> fst ` set h"
      using that by (induction h) auto
    with Cons e assms(1) show ?case by (auto simp: qdistinct_def)
  qed simp
  moreover have "List.find P h = map_option (\<lambda>(k, v). (k, if k = u then f v else v)) (List.find P h)" if "qfind h u = None"
    using that by (induction h) (auto split: if_splits)
  ultimately show ?thesis by (auto simp: qmodify_def split: option.split)
qed

text \<open>C32: A ban stops logins and nothing else: after it every login with the account's name and password is
  refused and changes nothing, but its bearer token is accepted by the Web API exactly as before, and
  who is connected stays connected.\<close>

theorem ban_stops_logins_only:
  assumes "qdistinct (db_accounts db)" and "BanUser False u True db = (True, db')"
  shows "(CheckUser au (fa_account fa) (lrq_npid req) (lrq_password req) (lrq_token req) (cf_emailValidated cf) db = Some (u, r) \<longrightarrow>
      CmdLogin au cf fa (Some req) nowMs cs sh db' = ((LoginError, None), cs, sh, [])) \<and>
    Authenticate wx fault hreq db' = Authenticate wx fault hreq db"
proof
  have accounts: "db_accounts db' = qmodify u (\<lambda>r. r\<lparr>ur_banned := True\<rparr>) (db_accounts db)"
    using assms(2) by (auto simp: BanUser_def SetAccountFlag_def)
  have by_name: "List.find (\<lambda>(i, r). nocase (ur_username r) = n) (db_accounts db') =
      map_option (\<lambda>(k, v). (k, if k = u then v\<lparr>ur_banned := True\<rparr> else v)) (List.find (\<lambda>(i, r). nocase (ur_username r) = n) (db_accounts db))" for n
    unfolding accounts by (rule find_qmodify) (use assms(1) in auto)
  show "CheckUser au (fa_account fa) (lrq_npid req) (lrq_password req) (lrq_token req) (cf_emailValidated cf) db = Some (u, r) \<longrightarrow>
      CmdLogin au cf fa (Some req) nowMs cs sh db' = ((LoginError, None), cs, sh, [])"
    by (auto simp: CheckUser_def CmdLogin_def by_name Let_def split: if_splits option.splits)
  have by_token: "List.find (\<lambda>(i, r). ur_token r = tok) (db_accounts db') =
      map_option (\<lambda>(k, v). (k, if k = u then v\<lparr>ur_banned := True\<rparr> else v)) (List.find (\<lambda>(i, r). ur_token r = tok) (db_accounts db))" for tok
    unfolding accounts by (rule find_qmodify) (use assms(1) in auto)
  show "Authenticate wx fault hreq db' = Authenticate wx fault hreq db"
    by (auto simp: Authenticate_def by_token Let_def split: option.split)
qed

definition example_member :: UserRecord where
  "example_member = (example_user_record ''alice'')\<lparr>ur_hash := HashPassword example_auth ''pw'' [1], ur_salt := [1]\<rparr>"

definition example_members :: Database where
  "example_members = \<lparr>db_accounts = [(1, example_member)], db_nextUserId = 2, db_friendship = [], db_titleNames = []\<rparr>"

definition example_login :: LoginRequest where
  "example_login = \<lparr>lrq_npid = ''alice'', lrq_password = ''pw'', lrq_token = [], lrq_title_id = [],
     lrq_title_name = [], lrq_appear_offline = False\<rparr>"

lemma example_member_fields:
  "ur_username example_member = ''alice''" "ur_hash example_member = HashPassword example_auth ''pw'' [1]"
  "ur_salt example_member = [1]"
  by (simp_all add: example_member_def example_user_record_def)

lemma ban_stops_logins_only_witness:
  "CmdLogin example_auth example_config no_faults (Some example_login) 0 (newSession 1 None) SharedState_default
     (snd (BanUser False 1 True example_members)) = ((LoginError, None), newSession 1 None, SharedState_default, [])"
proof -
  have "CheckUser example_auth (fa_account no_faults) (lrq_npid example_login) (lrq_password example_login)
      (lrq_token example_login) (cf_emailValidated example_config) example_members = Some (1, example_member)"
    by (simp add: CheckUser_def example_login_def example_members_def example_member_fields no_faults_def example_config_def)
  moreover have "qdistinct (db_accounts example_members)" by (simp add: example_members_def qdistinct_def)
  moreover have "BanUser False 1 True example_members = (True, snd (BanUser False 1 True example_members))"
    by (simp add: BanUser_def SetAccountFlag_def)
  ultimately show ?thesis using ban_stops_logins_only by blast
qed

end
