(* ===== verification/ClientWire.thy ===== *)
theory ClientWire
  imports ScoreServer
begin

text \<open>
  The sample client's codes (\<open>clientsample/types.h\<close>), its state as far as requests need it, and the
  payloads of requests and replies (\<open>clientsample/client.cpp\<close>).
\<close>

subsection \<open>Codes\<close>

datatype client_command =
  \<comment> \<open>the enumerators the client shares with the server, and its own\<close>
    Common CommandType
  | RegisterHandlers
  | GetRoomList
  | SignalingEstablished
  | ActivationConfirm

definition client_commands :: "(u16 \<times> client_command) list" where
  "client_commands =
    [(0, Common Login), (1, Common Terminate), (2, Common Create), (3, Common Delete), (4, Common SendToken),
     (5, Common SendResetToken), (6, Common ResetPassword), (7, Common ResetState), (8, Common AddFriend),
     (9, Common RemoveFriend), (10, Common AddBlock), (11, Common RemoveBlock), (12, RegisterHandlers),
     (13, Common CreateRoom), (14, Common JoinRoom), (15, Common LeaveRoom), (16, GetRoomList),
     (17, Common RequestSignalingInfos), (18, SignalingEstablished), (19, ActivationConfirm),
     (20, Common SetRoomDataInternal), (21, Common SetRoomDataExternal), (22, Common KickoutRoomMember),
     (30, Common GetBoardInfos), (31, Common CommandType.RecordScore), (32, Common RecordScoreData), (33, Common GetScoreData),
     (34, Common CommandType.GetScoreRange), (35, Common GetScoreFriends), (36, Common GetScoreNpid),
     (37, Common GetScoreAccountId), (38, Common GetScoreGameDataByAccId)]"

definition client_code :: "client_command \<Rightarrow> u16" where
  "client_code cmd = (case List.find (\<lambda>(k, c). c = cmd) client_commands of None \<Rightarrow> 0 | Some (k, _) \<Rightarrow> k)"

definition errorNames :: "(u8 \<times> string) list" where
  "errorNames =
    [(0, ''NoError''), (1, ''Malformed''), (2, ''Invalid''), (3, ''InvalidInput''), (4, ''TooSoon''), (5, ''LoginError''),
     (6, ''LoginAlreadyLoggedIn''), (7, ''LoginInvalidUsername''), (8, ''LoginInvalidPassword''), (9, ''LoginInvalidToken''),
     (10, ''CreationError''), (11, ''CreationExistingUsername''), (12, ''CreationBannedEmail''),
     (13, ''CreationExistingEmail''), (14, ''RoomMissing''), (15, ''RoomAlreadyJoined''), (16, ''RoomFull''),
     (17, ''RoomPasswordMismatch''), (18, ''RoomPasswordMissing''), (19, ''RoomGroupNoJoinLabel''), (20, ''RoomGroupFull''),
     (21, ''RoomGroupJoinLabelNotFound''), (22, ''RoomGroupMaxSlotMismatch''), (23, ''Unauthorized''), (24, ''DbFail''),
     (26, ''NotFound''), (27, ''Blocked''), (28, ''AlreadyFriend''), (29, ''ScoreNotBest''), (30, ''ScoreInvalid''),
     (31, ''ScoreHasData''), (33, ''Unsupported'')]"

definition errorName :: "u8 \<Rightarrow> string" where
  "errorName e = (case map_of errorNames e of None \<Rightarrow> ''Unknown'' | Some name \<Rightarrow> name)"

subsection \<open>Payloads\<close>

definition makeProtoPayload :: "('m \<Rightarrow> bytes) \<Rightarrow> 'm \<Rightarrow> bytes" where
  "makeProtoPayload ser msg = (let s = ser msg in toLe 4 (word_of_nat (length s) :: u32) @ s)"

definition extractBlob :: "bytes \<Rightarrow> nat \<Rightarrow> bytes option" where
  \<comment> \<open>\<open>None\<close>: a signed overflow, or a string copied from beyond the payload\<close>
  "extractBlob p pos =
     (if pos + 4 > length p then Some []
      else (let len = fromLe (take 4 (drop pos p)) :: u32; pos' = pos + 4
            in if int pos' + sint len \<ge> 2 ^ 31 then None
               else if int pos' + sint len > int (length p) then Some []
               else if int pos' + uint len > int (length p) then None
               else Some (take (unat len) (drop pos' p))))"

definition comIdField :: "qstring \<Rightarrow> bytes" where
  \<comment> \<open>12 bytes, zero-padded\<close>
  "comIdField comId =
     (let c = map (\<lambda>ch. word_of_nat (of_char ch)) (take 12 comId) in c @ replicate (12 - length c) 0)"

definition makeScorePayload :: "('m \<Rightarrow> bytes) \<Rightarrow> qstring \<Rightarrow> 'm \<Rightarrow> bytes" where
  "makeScorePayload ser comId msg =
     (let s = ser msg in comIdField comId @ toLe 4 (word_of_nat (length s) :: u32) @ s)"

subsection \<open>Sending\<close>

record client =
  cl_packetCounter :: u64
  cl_pendingFriendNpid :: qstring
  cl_pendingFriendCmd :: client_command

definition new_client :: client where
  "new_client = \<lparr>cl_packetCounter = 1, cl_pendingFriendNpid = [], cl_pendingFriendCmd = Common AddFriend\<rparr>"

type_synonym sent = "bytes \<times> client"

definition client_send :: "client_command \<Rightarrow> bytes \<Rightarrow> client \<Rightarrow> sent" where
  "client_send cmd payload cl =
     (buildPacket (client_code cmd) (cl_packetCounter cl) payload, cl\<lparr>cl_packetCounter := cl_packetCounter cl + 1\<rparr>)"

subsection \<open>Replies\<close>

abbreviation no_error :: u8 where "no_error \<equiv> ErrorType_code NoError"
abbreviation malformed :: u8 where "malformed \<equiv> ErrorType_code Malformed"

definition errorByte :: "bytes \<Rightarrow> u8" where
  "errorByte payload = (if payload = [] then malformed else hd payload)"

definition reply_body :: "(bytes \<Rightarrow> 'm option) \<Rightarrow> bytes \<Rightarrow> (u8 \<times> 'm option) option" where
  \<comment> \<open>error code and, without an error, the message if it can be parsed\<close>
  "reply_body parse payload =
     (if errorByte payload \<noteq> no_error then Some (errorByte payload, None)
      else map_option (\<lambda>blob. (no_error, parse blob)) (extractBlob payload 1))"

lemma extractBlob_appendBlob:
  assumes "length pre + 4 + length b < 2 ^ 31"
  shows "extractBlob (pre @ appendBlob [] b) (length pre) = Some b"
proof -
  let ?sz = "word_of_nat (length b) :: u32"
  have lb: "int (length pre) + 4 + int (length b) < 2 ^ 31" using assms unfolding two31 by simp
  have u: "uint ?sz = int (length b)" by (rule uint_of_nat_small) (use lb in simp)
  then have n: "unat ?sz = length b" by (simp add: unat_eq_nat_uint)
  have d: "appendBlob [] b = toLe 4 ?sz @ b" by (simp add: appendBlob_def appendU32LE_eq)
  have "fromLe (toLe 4 ?sz) = ?sz" by (simp add: fromLe_toLe)
  with lb show ?thesis by (simp add: extractBlob_def d sint_u32 u n Let_def)
qed

end
