(* ===== verification/ClientMatching.thy ===== *)
theory ClientMatching
  imports ClientWire Messages
begin

text \<open>
  The matching half of the sample client (\<open>clientsample/client.cpp\<close>, \<open>client.h\<close>), which speaks an
  older protocol than the server: its own \<open>clientsample/shadnet.proto\<close> and command codes. Messages
  with the fields of the server's reuse their records, or extend them; the client's structures keep
  what the client reads.
\<close>

subsection \<open>Messages\<close>

record RoomMemberMessage = MatchingRoomMemberData +
  pm_group :: MatchingRoomGroup

record CreateJoinMessage =
  cjm_room_data :: MatchingRoomDataInternal
  cjm_members :: "RoomMemberMessage list"
  cjm_me_member_id :: u32
  cjm_owner_member_id :: u32

record CreateRoomMessage =
  crm_room_id :: u64
  crm_server_id :: u32
  crm_world_id :: u32
  crm_lobby_id :: u32
  crm_member_id :: u32
  crm_max_slots :: u32
  crm_flags :: u32
  crm_cur_members :: u32
  crm_details :: CreateJoinMessage

record JoinRoomMessage =
  jrm_room_id :: u64
  jrm_member_id :: u32
  jrm_max_slots :: u32
  jrm_flags :: u32
  jrm_cur_members :: u32
  jrm_details :: CreateJoinMessage

record RegisterHandlersRequest =
  rhq_addr :: string
  rhq_port :: u32
  rhq_ctx_id :: u32
  rhq_service_label :: u32
  rhq_callbacks :: "(bool \<times> u64 \<times> u64) list"

record CreateRoomMessageRequest = CreateRoomRequest +
  crq_req_id :: u32
  crq_allowed_user_count :: u32
  crq_blocked_user_count :: u32
  crq_internal_bin_attr_count :: u32
  crq_user_id_kind :: u32

record JoinRoomMessageRequest = JoinRoomRequest +
  jrq_req_id :: u32
  jrq_join_flags :: u32
  jrq_blocked_user_count :: u32
  jrq_room_password_present :: bool
  jrq_join_group_label_present :: bool
  jrq_user_id_kind :: u32

record SetInternalMessageRequest = SetRoomDataInternalRequest +
  siq_req_id :: u32

record SetExternalMessageRequest = SetRoomDataExternalRequest +
  seq_req_id :: u32

record KickoutMessageRequest = KickoutRoomMemberRequest +
  krq_req_id :: u32

subsection \<open>The client's structures\<close>

record ClientBinAttr =
  cba_attrId :: u32
  cba_data :: bytes

record ClientIntAttr =
  cia_attrId :: u32
  cia_attrValue :: u32

record ClientRoomGroup =
  cgr_groupId :: u32
  cgr_hasPasswd :: bool
  cgr_hasLabel :: bool
  cgr_label :: bytes
  cgr_slots :: u32
  cgr_numMembers :: u32

record ClientGroupConfig =
  cgc_slotCount :: u32
  cgc_hasLabel :: bool
  cgc_label :: bytes
  cgc_hasPassword :: bool

record ClientRoomMember =
  crx_npid :: string
  crx_memberId :: u32
  crx_teamId :: u32
  crx_isOwner :: bool
  crx_group :: ClientRoomGroup
  crx_binAttrsInternal :: "ClientBinAttr list"

record ClientRoomInternal =
  cri_publicSlots :: u32
  cri_privateSlots :: u32
  cri_openPublicSlots :: u32
  cri_openPrivateSlots :: u32
  cri_maxSlot :: u32
  cri_serverId :: u32
  cri_worldId :: u32
  cri_lobbyId :: u32
  cri_roomId :: u64
  cri_passwdSlotMask :: u64
  cri_joinedSlotMask :: u32
  cri_groups :: "ClientRoomGroup list"
  cri_flags :: u32
  cri_binAttrsInternal :: "ClientBinAttr list"

record ClientRoomExternal =
  cre_maxSlot :: u32
  cre_curMembers :: u32
  cre_flags :: u32
  cre_serverId :: u32
  cre_worldId :: u32
  cre_lobbyId :: u64
  cre_roomId :: u64
  cre_passwdSlotMask :: u64
  cre_joinedSlotMask :: u64
  cre_publicSlots :: u32
  cre_privateSlots :: u32
  cre_openPublicSlots :: u32
  cre_openPrivateSlots :: u32
  cre_groups :: "ClientRoomGroup list"
  cre_externalSearchIntAttrs :: "ClientIntAttr list"
  cre_externalSearchBinAttrs :: "ClientBinAttr list"
  cre_externalBinAttrs :: "ClientBinAttr list"
  cre_ownerNpid :: string

record ClientCreateJoin =
  ccj_roomData :: ClientRoomInternal
  ccj_members :: "ClientRoomMember list"
  ccj_meMemberId :: u32
  ccj_ownerMemberId :: u32

definition binAttr_FromProto :: "MatchingBinAttr \<Rightarrow> ClientBinAttr" where
  "binAttr_FromProto pb = \<lparr>cba_attrId = pba_attr_id pb, cba_data = pba_data pb\<rparr>"

definition intAttr_FromProto :: "MatchingIntAttr \<Rightarrow> ClientIntAttr" where
  "intAttr_FromProto pb = \<lparr>cia_attrId = pia_attr_id pb, cia_attrValue = pia_attr_value pb\<rparr>"

definition group_FromProto :: "MatchingRoomGroup \<Rightarrow> ClientRoomGroup" where
  "group_FromProto pb = \<lparr>cgr_groupId = pg_group_id pb, cgr_hasPasswd = pg_has_passwd pb, cgr_hasLabel = pg_has_label pb,
     cgr_label = pg_label pb, cgr_slots = pg_slot_count pb, cgr_numMembers = pg_num_members pb\<rparr>"

definition member_FromProto :: "RoomMemberMessage \<Rightarrow> ClientRoomMember" where
  "member_FromProto pb = \<lparr>crx_npid = pm_npid pb, crx_memberId = pm_member_id pb, crx_teamId = pm_team_id pb,
     crx_isOwner = pm_is_owner pb, crx_group = group_FromProto (pm_group pb),
     crx_binAttrsInternal = map binAttr_FromProto (pm_bin_attrs_internal pb)\<rparr>"

definition roomInternal_FromProto :: "MatchingRoomDataInternal \<Rightarrow> ClientRoomInternal" where
  "roomInternal_FromProto pb = \<lparr>cri_publicSlots = pri_public_slots pb, cri_privateSlots = pri_private_slots pb,
     cri_openPublicSlots = pri_open_public_slots pb, cri_openPrivateSlots = pri_open_private_slots pb,
     cri_maxSlot = pri_max_slot pb, cri_serverId = pri_server_id pb, cri_worldId = pri_world_id pb,
     cri_lobbyId = pri_lobby_id pb, cri_roomId = pri_room_id pb, cri_passwdSlotMask = pri_passwd_slot_mask pb,
     cri_joinedSlotMask = pri_joined_slot_mask pb, cri_groups = map group_FromProto (pri_groups pb),
     cri_flags = pri_flags pb, cri_binAttrsInternal = map binAttr_FromProto (pri_bin_attrs_internal pb)\<rparr>"

definition roomExternal_FromProto :: "MatchingRoomDataExternal \<Rightarrow> ClientRoomExternal" where
  "roomExternal_FromProto pb = \<lparr>cre_maxSlot = prx_max_slot pb, cre_curMembers = prx_cur_members pb, cre_flags = prx_flags pb,
     cre_serverId = prx_server_id pb, cre_worldId = prx_world_id pb, cre_lobbyId = prx_lobby_id pb,
     cre_roomId = prx_room_id pb, cre_passwdSlotMask = prx_passwd_slot_mask pb,
     cre_joinedSlotMask = prx_joined_slot_mask pb, cre_publicSlots = prx_public_slots pb,
     cre_privateSlots = prx_private_slots pb, cre_openPublicSlots = prx_open_public_slots pb,
     cre_openPrivateSlots = prx_open_private_slots pb, cre_groups = map group_FromProto (prx_groups pb),
     cre_externalSearchIntAttrs = map intAttr_FromProto (prx_external_search_int_attrs pb),
     cre_externalSearchBinAttrs = map binAttr_FromProto (prx_external_search_bin_attrs pb),
     cre_externalBinAttrs = map binAttr_FromProto (prx_external_bin_attrs pb), cre_ownerNpid = prx_owner_npid pb\<rparr>"

definition createJoin_FromProto :: "CreateJoinMessage \<Rightarrow> ClientCreateJoin" where
  "createJoin_FromProto pb = \<lparr>ccj_roomData = roomInternal_FromProto (cjm_room_data pb),
     ccj_members = map member_FromProto (cjm_members pb), ccj_meMemberId = cjm_me_member_id pb,
     ccj_ownerMemberId = cjm_owner_member_id pb\<rparr>"

subsection \<open>Parameters of the requests\<close>

record RegisterHandlersParams =
  rhp_addr :: string
  rhp_port :: u32
  rhp_ctxId :: u32
  rhp_serviceLabel :: u32
  rhp_callbacks :: "(bool \<times> u64 \<times> u64) list"

record CreateRoomParams =
  crp_reqId :: u32
  crp_maxSlots :: u32
  crp_teamId :: u32
  crp_worldId :: u32
  crp_lobbyId :: u32
  crp_flags :: u32
  crp_groupConfigCount :: u32
  crp_allowedUserCount :: u32
  crp_blockedUserCount :: u32
  crp_internalBinAttrCount :: u32
  crp_userIdKind :: u32
  crp_allowedOnlineIds :: "string list"
  crp_blockedOnlineIds :: "string list"
  crp_allowedAccountIds :: "u64 list"
  crp_blockedAccountIds :: "u64 list"
  crp_roomPassword :: bytes
  crp_hasPasswdSlotMask :: bool
  crp_passwdSlotMask :: u64
  crp_groupConfigs :: "ClientGroupConfig list"
  crp_joinGroupLabel :: bytes
  crp_internalBinAttrs :: "ClientBinAttr list"
  crp_externalSearchIntAttrs :: "ClientIntAttr list"
  crp_externalSearchBinAttrs :: "ClientBinAttr list"
  crp_externalBinAttrs :: "ClientBinAttr list"
  crp_memberBinAttrs :: "ClientBinAttr list"
  crp_joinGroupLabelPresent :: bool
  crp_roomPasswordPresent :: bool
  crp_sigType :: u32
  crp_sigFlag :: u32
  crp_sigMainMember :: u32

record JoinRoomParams =
  jrp_roomId :: u64
  jrp_reqId :: u32
  jrp_teamId :: u32
  jrp_joinFlags :: u32
  jrp_blockedUserCount :: u32
  jrp_userIdKind :: u32
  jrp_blockedOnlineIds :: "string list"
  jrp_blockedAccountIds :: "u64 list"
  jrp_memberBinAttrs :: "ClientBinAttr list"
  jrp_roomPasswordPresent :: bool
  jrp_joinGroupLabelPresent :: bool

record SetRoomDataInternalParams =
  sip_reqId :: u32
  sip_roomId :: u64
  sip_flagFilter :: u32
  sip_flagAttr :: u32
  sip_binAttrs :: "ClientBinAttr list"
  sip_hasPasswdMask :: bool
  sip_passwdSlotMask :: u64

record SetRoomDataExternalParams =
  sep_reqId :: u32
  sep_roomId :: u64
  sep_searchIntAttrs :: "ClientIntAttr list"
  sep_searchBinAttrs :: "ClientBinAttr list"
  sep_extBinAttrs :: "ClientBinAttr list"

record KickoutRoomMemberParams =
  kop_roomId :: u64
  kop_reqId :: u32
  kop_targetMemberId :: u32
  kop_blockKickFlag :: u32

subsection \<open>Requests\<close>

record matching_protobuf =
  \<comment> \<open>protobuf's encodings and decodings of these messages\<close>
  me_register :: "RegisterHandlersRequest \<Rightarrow> bytes"
  me_create :: "CreateRoomMessageRequest \<Rightarrow> bytes"
  me_join :: "JoinRoomMessageRequest \<Rightarrow> bytes"
  me_leave :: "u64 \<times> u32 \<Rightarrow> bytes"
  me_signaling :: "string \<Rightarrow> bytes"
  me_setInternal :: "SetInternalMessageRequest \<Rightarrow> bytes"
  me_setExternal :: "SetExternalMessageRequest \<Rightarrow> bytes"
  me_kickout :: "KickoutMessageRequest \<Rightarrow> bytes"
  md_create :: "bytes \<Rightarrow> CreateRoomMessage option"
  md_join :: "bytes \<Rightarrow> JoinRoomMessage option"
  md_roomId :: "bytes \<Rightarrow> u64 option"                       \<comment> \<open>the replies with a room id only\<close>
  md_rooms :: "bytes \<Rightarrow> MatchingRoomDataExternal list option"
  md_signaling :: "bytes \<Rightarrow> RequestSignalingInfosReply option"

definition toBin :: "ClientBinAttr \<Rightarrow> MatchingBinAttr" where
  "toBin a = MatchingBinAttr_default\<lparr>pba_attr_id := cba_attrId a, pba_data := cba_data a\<rparr>"

definition toInt :: "ClientIntAttr \<Rightarrow> MatchingIntAttr" where
  "toInt a = \<lparr>pia_attr_id = cia_attrId a, pia_attr_value = cia_attrValue a\<rparr>"

definition toConfig :: "ClientGroupConfig \<Rightarrow> MatchingRoomGroupConfig" where
  "toConfig g = \<lparr>pgc_slot_count = cgc_slotCount g, pgc_has_label = cgc_hasLabel g, pgc_label = cgc_label g,
     pgc_has_passwd = cgc_hasPassword g\<rparr>"

definition client_registerHandlers :: "matching_protobuf \<Rightarrow> RegisterHandlersParams \<Rightarrow> client \<Rightarrow> sent" where
  "client_registerHandlers mp p = client_send RegisterHandlers (makeProtoPayload (me_register mp)
     \<lparr>rhq_addr = rhp_addr p, rhq_port = rhp_port p, rhq_ctx_id = rhp_ctxId p, rhq_service_label = rhp_serviceLabel p,
      rhq_callbacks = rhp_callbacks p\<rparr>)"

definition client_createRoom :: "matching_protobuf \<Rightarrow> CreateRoomParams \<Rightarrow> client \<Rightarrow> sent" where
  \<comment> \<open>an empty password or label and an absent mask stay unset, which is their default\<close>
  "client_createRoom mp p = client_send (Common CreateRoom) (makeProtoPayload (me_create mp)
     \<lparr>crq_max_slots = crp_maxSlots p, crq_team_id = crp_teamId p, crq_world_id = crp_worldId p,
      crq_lobby_id = crp_lobbyId p, crq_flags = crp_flags p, crq_group_config_count = crp_groupConfigCount p,
      crq_external_search_int_attrs = map toInt (crp_externalSearchIntAttrs p),
      crq_external_search_bin_attrs = map toBin (crp_externalSearchBinAttrs p),
      crq_external_bin_attrs = map toBin (crp_externalBinAttrs p), crq_member_bin_attrs = map toBin (crp_memberBinAttrs p),
      crq_join_group_label_present = crp_joinGroupLabelPresent p, crq_room_password_present = crp_roomPasswordPresent p,
      crq_sig_type = crp_sigType p, crq_sig_flag = crp_sigFlag p, crq_sig_main_member = crp_sigMainMember p,
      crq_internal_bin_attrs = map toBin (crp_internalBinAttrs p), crq_allowed_online_ids = crp_allowedOnlineIds p,
      crq_blocked_online_ids = crp_blockedOnlineIds p, crq_allowed_account_ids = crp_allowedAccountIds p,
      crq_blocked_account_ids = crp_blockedAccountIds p, crq_group_configs = map toConfig (crp_groupConfigs p),
      crq_room_password = crp_roomPassword p, crq_has_passwd_slot_mask = crp_hasPasswdSlotMask p,
      crq_passwd_slot_mask = (if crp_hasPasswdSlotMask p then crp_passwdSlotMask p else 0),
      crq_join_group_label = crp_joinGroupLabel p, crq_req_id = crp_reqId p, crq_allowed_user_count = crp_allowedUserCount p,
      crq_blocked_user_count = crp_blockedUserCount p, crq_internal_bin_attr_count = crp_internalBinAttrCount p,
      crq_user_id_kind = crp_userIdKind p\<rparr>)"

definition client_joinRoom :: "matching_protobuf \<Rightarrow> JoinRoomParams \<Rightarrow> client \<Rightarrow> sent" where
  "client_joinRoom mp p = client_send (Common JoinRoom) (makeProtoPayload (me_join mp)
     \<lparr>jrq_room_id = jrp_roomId p, jrq_team_id = jrp_teamId p, jrq_member_bin_attrs = map toBin (jrp_memberBinAttrs p),
      jrq_blocked_online_ids = jrp_blockedOnlineIds p, jrq_blocked_account_ids = jrp_blockedAccountIds p,
      jrq_req_id = jrp_reqId p, jrq_join_flags = jrp_joinFlags p, jrq_blocked_user_count = jrp_blockedUserCount p,
      jrq_room_password_present = jrp_roomPasswordPresent p, jrq_join_group_label_present = jrp_joinGroupLabelPresent p,
      jrq_user_id_kind = jrp_userIdKind p\<rparr>)"

definition client_leaveRoom :: "matching_protobuf \<Rightarrow> u64 \<Rightarrow> u32 \<Rightarrow> client \<Rightarrow> sent" where
  "client_leaveRoom mp roomId reqId = client_send (Common LeaveRoom) (makeProtoPayload (me_leave mp) (roomId, reqId))"

definition client_getRoomList :: "client \<Rightarrow> sent" where
  "client_getRoomList = client_send GetRoomList []"

definition client_requestSignalingInfos :: "matching_protobuf \<Rightarrow> string \<Rightarrow> client \<Rightarrow> sent" where
  "client_requestSignalingInfos mp targetNpid =
     client_send (Common RequestSignalingInfos) (makeProtoPayload (me_signaling mp) targetNpid)"

definition client_setRoomDataInternal :: "matching_protobuf \<Rightarrow> SetRoomDataInternalParams \<Rightarrow> client \<Rightarrow> sent" where
  "client_setRoomDataInternal mp p = client_send (Common SetRoomDataInternal) (makeProtoPayload (me_setInternal mp)
     \<lparr>siq_room_id = sip_roomId p, siq_flag_filter = sip_flagFilter p, siq_flag_attr = sip_flagAttr p,
      siq_bin_attrs = map toBin (sip_binAttrs p), siq_has_passwd_mask = sip_hasPasswdMask p,
      siq_passwd_slot_mask = sip_passwdSlotMask p, siq_req_id = sip_reqId p\<rparr>)"

definition client_setRoomDataExternal :: "matching_protobuf \<Rightarrow> SetRoomDataExternalParams \<Rightarrow> client \<Rightarrow> sent" where
  "client_setRoomDataExternal mp p = client_send (Common SetRoomDataExternal) (makeProtoPayload (me_setExternal mp)
     \<lparr>seq_room_id = sep_roomId p, seq_search_int_attrs = map toInt (sep_searchIntAttrs p),
      seq_search_bin_attrs = map toBin (sep_searchBinAttrs p), seq_ext_bin_attrs = map toBin (sep_extBinAttrs p),
      seq_req_id = sep_reqId p\<rparr>)"

definition client_kickoutRoomMember :: "matching_protobuf \<Rightarrow> KickoutRoomMemberParams \<Rightarrow> client \<Rightarrow> sent" where
  "client_kickoutRoomMember mp p = client_send (Common KickoutRoomMember) (makeProtoPayload (me_kickout mp)
     \<lparr>krq_room_id = kop_roomId p, krq_target_member_id = kop_targetMemberId p, krq_block_kick_flag = kop_blockKickFlag p,
      krq_req_id = kop_reqId p\<rparr>)"

subsection \<open>Replies\<close>

record CreateRoomResult =
  crs_error :: u8
  crs_roomId :: u64
  crs_serverId :: u32
  crs_worldId :: u32
  crs_lobbyId :: u32
  crs_memberId :: u32
  crs_maxSlots :: u32
  crs_flags :: u32
  crs_curMembers :: u32
  crs_details :: "ClientCreateJoin option"            \<comment> \<open>\<open>None\<close>: all fields at their defaults\<close>

record JoinRoomResult =
  jrs_error :: u8
  jrs_roomId :: u64
  jrs_memberId :: u32
  jrs_maxSlots :: u32
  jrs_flags :: u32
  jrs_curMembers :: u32
  jrs_details :: "ClientCreateJoin option"

record SignalingInfosResult =
  sis_error :: u8
  sis_targetNpid :: string
  sis_targetIp :: string
  sis_targetPort :: u32
  sis_targetMemberId :: u32

definition failure :: "u8 \<Rightarrow> u8" where
  \<comment> \<open>a reply without an error code whose message cannot be parsed counts as malformed\<close>
  "failure e = (if e = no_error then malformed else e)"

definition handleCreateRoomReply :: "matching_protobuf \<Rightarrow> bytes \<Rightarrow> CreateRoomResult option" where
  "handleCreateRoomReply mp payload =
     map_option (\<lambda>(e, m). case m of
         None \<Rightarrow> \<lparr>crs_error = failure e, crs_roomId = 0, crs_serverId = 0, crs_worldId = 0, crs_lobbyId = 0, crs_memberId = 0,
                  crs_maxSlots = 0, crs_flags = 0, crs_curMembers = 0, crs_details = None\<rparr>
       | Some pb \<Rightarrow> \<lparr>crs_error = e, crs_roomId = crm_room_id pb, crs_serverId = crm_server_id pb,
                  crs_worldId = crm_world_id pb, crs_lobbyId = crm_lobby_id pb, crs_memberId = crm_member_id pb,
                  crs_maxSlots = crm_max_slots pb, crs_flags = crm_flags pb, crs_curMembers = crm_cur_members pb,
                  crs_details = Some (createJoin_FromProto (crm_details pb))\<rparr>)
       (reply_body (md_create mp) payload)"

definition handleJoinRoomReply :: "matching_protobuf \<Rightarrow> bytes \<Rightarrow> JoinRoomResult option" where
  "handleJoinRoomReply mp payload =
     map_option (\<lambda>(e, m). case m of
         None \<Rightarrow> \<lparr>jrs_error = failure e, jrs_roomId = 0, jrs_memberId = 0, jrs_maxSlots = 0, jrs_flags = 0,
                  jrs_curMembers = 0, jrs_details = None\<rparr>
       | Some pb \<Rightarrow> \<lparr>jrs_error = e, jrs_roomId = jrm_room_id pb, jrs_memberId = jrm_member_id pb,
                  jrs_maxSlots = jrm_max_slots pb, jrs_flags = jrm_flags pb, jrs_curMembers = jrm_cur_members pb,
                  jrs_details = Some (createJoin_FromProto (jrm_details pb))\<rparr>)
       (reply_body (md_join mp) payload)"

definition handleRoomIdReply :: "matching_protobuf \<Rightarrow> bytes \<Rightarrow> (u8 \<times> u64) option" where
  \<comment> \<open>leave, set data and kick out: a message that cannot be parsed leaves room id 0 and no error\<close>
  "handleRoomIdReply mp payload =
     map_option (\<lambda>(e, m). (e, case m of None \<Rightarrow> 0 | Some roomId \<Rightarrow> roomId)) (reply_body (md_roomId mp) payload)"

definition handleRoomListReply :: "matching_protobuf \<Rightarrow> bytes \<Rightarrow> (u8 \<times> ClientRoomExternal list) option" where
  "handleRoomListReply mp payload =
     map_option (\<lambda>(e, m). case m of None \<Rightarrow> (failure e, []) | Some rooms \<Rightarrow> (e, map roomExternal_FromProto rooms))
       (reply_body (md_rooms mp) payload)"

definition handleSignalingInfosReply :: "matching_protobuf \<Rightarrow> bytes \<Rightarrow> SignalingInfosResult option" where
  "handleSignalingInfosReply mp payload =
     map_option (\<lambda>(e, m). case m of
         None \<Rightarrow> \<lparr>sis_error = failure e, sis_targetNpid = [], sis_targetIp = [], sis_targetPort = 0, sis_targetMemberId = 0\<rparr>
       | Some pb \<Rightarrow> \<lparr>sis_error = e, sis_targetNpid = sgr_target_npid pb, sis_targetIp = sgr_target_ip pb,
                  sis_targetPort = sgr_target_port pb, sis_targetMemberId = sgr_target_member_id pb\<rparr>)
       (reply_body (md_signaling mp) payload)"

datatype matching_event =
    OnRegisterHandlers u8
  | OnCreateRoom CreateRoomResult
  | OnJoinRoom JoinRoomResult
  | OnLeaveRoom u8 u64
  | OnRoomList u8 "ClientRoomExternal list"
  | OnSignalingInfos SignalingInfosResult
  | OnSignalingEstablished u8
  | OnActivationConfirm u8
  | OnSetRoomDataInternal u8 u64
  | OnSetRoomDataExternal u8 u64
  | OnKickoutRoomMember u8 u64

definition handleMatchingReply :: "matching_protobuf \<Rightarrow> client_command \<Rightarrow> bytes \<Rightarrow> matching_event list option" where
  "handleMatchingReply mp cmd payload =
     (case cmd of
        RegisterHandlers \<Rightarrow> Some [OnRegisterHandlers (errorByte payload)]
      | GetRoomList \<Rightarrow> map_option (\<lambda>(e, rooms). [OnRoomList e rooms]) (handleRoomListReply mp payload)
      | SignalingEstablished \<Rightarrow> Some [OnSignalingEstablished (errorByte payload)]
      | ActivationConfirm \<Rightarrow> Some [OnActivationConfirm (errorByte payload)]
      | Common CreateRoom \<Rightarrow> map_option (\<lambda>r. [OnCreateRoom r]) (handleCreateRoomReply mp payload)
      | Common JoinRoom \<Rightarrow> map_option (\<lambda>r. [OnJoinRoom r]) (handleJoinRoomReply mp payload)
      | Common LeaveRoom \<Rightarrow> map_option (\<lambda>(e, i). [OnLeaveRoom e i]) (handleRoomIdReply mp payload)
      | Common RequestSignalingInfos \<Rightarrow> map_option (\<lambda>r. [OnSignalingInfos r]) (handleSignalingInfosReply mp payload)
      | Common SetRoomDataInternal \<Rightarrow> map_option (\<lambda>(e, i). [OnSetRoomDataInternal e i]) (handleRoomIdReply mp payload)
      | Common SetRoomDataExternal \<Rightarrow> map_option (\<lambda>(e, i). [OnSetRoomDataExternal e i]) (handleRoomIdReply mp payload)
      | Common KickoutRoomMember \<Rightarrow> map_option (\<lambda>(e, i). [OnKickoutRoomMember e i]) (handleRoomIdReply mp payload)
      | Common _ \<Rightarrow> Some [])"

subsection \<open>Notifications\<close>

record NotifyRequestEvent =
  nre_ctxId :: u32
  nre_serverId :: u32
  nre_worldId :: u32
  nre_lobbyId :: u32
  nre_reqEvent :: u32
  nre_reqId :: u32
  nre_errorCode :: u32
  nre_roomId :: u64
  nre_memberId :: u32
  nre_maxSlots :: u32
  nre_flags :: u32
  nre_isOwner :: bool
  nre_responseBlob :: bytes

record NotifyMemberJoined =
  nmj_roomId :: u64
  nmj_memberId :: u32
  nmj_npid :: string
  nmj_addr :: string
  nmj_port :: u32
  nmj_binAttrs :: "ClientBinAttr list"

record NotifyMemberLeft =
  nml_roomId :: u64
  nml_memberId :: u32
  nml_npid :: string

record NotifySignalingHelper =
  nsh_npid :: string
  nsh_memberId :: u32
  nsh_addr :: string
  nsh_port :: u32

record NotifySignalingEvent =
  nse_eventType :: u32
  nse_roomId :: u64
  nse_memberId :: u32
  nse_connId :: u32

record NotifyRoomDataInternalUpdated =
  nru_roomId :: u64
  nru_flags :: u32
  nru_binAttrs :: "ClientBinAttr list"

record NotifyKickedOut =
  nko_roomId :: u64
  nko_statusCode :: int
  nko_guardValue :: u32

datatype matching_notification =
    OnRequestEvent NotifyRequestEvent
  | OnMemberJoined NotifyMemberJoined
  | OnMemberLeft NotifyMemberLeft
  | OnSignalingHelper NotifySignalingHelper
  | OnSignalingEvent NotifySignalingEvent
  | OnRoomDataInternalUpdated NotifyRoomDataInternalUpdated
  | OnKickedOut NotifyKickedOut

record notification_protobuf =
  \<comment> \<open>decodings of the messages, with the fields the client reads\<close>
  nd_requestEvent :: "bytes \<Rightarrow> NotifyRequestEvent option"
  nd_memberJoined :: "bytes \<Rightarrow> (u64 \<times> u32 \<times> string \<times> string \<times> u32 \<times> MatchingBinAttr list) option"
  nd_memberLeft :: "bytes \<Rightarrow> NotifyMemberLeft option"
  nd_signalingHelper :: "bytes \<Rightarrow> NotifySignalingHelper option"
  nd_signalingEvent :: "bytes \<Rightarrow> NotifySignalingEvent option"
  nd_internalUpdated :: "bytes \<Rightarrow> (u64 \<times> u32 \<times> MatchingBinAttr list) option"
  nd_kickedOut :: "bytes \<Rightarrow> NotifyKickedOut option"

definition option_list :: "('m \<Rightarrow> 'e) \<Rightarrow> 'm option \<Rightarrow> 'e list" where
  \<comment> \<open>a message that cannot be parsed is dropped\<close>
  "option_list f m = (case m of None \<Rightarrow> [] | Some x \<Rightarrow> [f x])"

definition handleMatchingNotification :: "notification_protobuf \<Rightarrow> u16 \<Rightarrow> bytes \<Rightarrow> matching_notification list" where
  "handleMatchingNotification np code blob =
     (if code = 9 then option_list OnRequestEvent (nd_requestEvent np blob)
      else if code = 10 then option_list (\<lambda>(roomId, memberId, npid, addr, port, attrs).
          OnMemberJoined \<lparr>nmj_roomId = roomId, nmj_memberId = memberId, nmj_npid = npid, nmj_addr = addr, nmj_port = port,
            nmj_binAttrs = map binAttr_FromProto attrs\<rparr>) (nd_memberJoined np blob)
      else if code = 11 then option_list OnMemberLeft (nd_memberLeft np blob)
      else if code = 12 then option_list OnSignalingHelper (nd_signalingHelper np blob)
      else if code = 13 then option_list OnSignalingEvent (nd_signalingEvent np blob)
      else if code = 15 then option_list (\<lambda>(roomId, flags, attrs).
          OnRoomDataInternalUpdated \<lparr>nru_roomId = roomId, nru_flags = flags, nru_binAttrs = map binAttr_FromProto attrs\<rparr>)
          (nd_internalUpdated np blob)
      else if code = 16 then option_list OnKickedOut (nd_kickedOut np blob)
      else [])"

subsection \<open>Against this server\<close>

text \<open>The client agrees with the server on every command of accounts, friends and scores, and on no
  matching command: whatever the client asks of rooms, the server refuses as \<open>Invalid\<close>, or answers
  with its features.\<close>

lemma common_codes_agree:
  "list_all (\<lambda>(k, cmd). case cmd of
      Common c \<Rightarrow> (CommandType_of k = Some c) \<longleftrightarrow>
        c \<notin> {CreateRoom, JoinRoom, LeaveRoom, RequestSignalingInfos, SetRoomDataInternal, SetRoomDataExternal, KickoutRoomMember}
    | _ \<Rightarrow> True) client_commands"
  by code_simp

theorem matching_requests_refused:
  "DispatchCommand True (CommandType_of (client_code cmd)) =
     (if cmd = RegisterHandlers then DHandle GetServerFeatures else DReject Invalid)"
  if "cmd \<in> {RegisterHandlers, GetRoomList, Common CreateRoom, Common JoinRoom, Common LeaveRoom, Common RequestSignalingInfos,
    Common SetRoomDataInternal, Common SetRoomDataExternal, Common KickoutRoomMember}"
proof -
  have "list_all (\<lambda>cmd. DispatchCommand True (CommandType_of (client_code cmd)) =
      (if cmd = RegisterHandlers then DHandle GetServerFeatures else DReject Invalid))
    [RegisterHandlers, GetRoomList, Common CreateRoom, Common JoinRoom, Common LeaveRoom, Common RequestSignalingInfos,
     Common SetRoomDataInternal, Common SetRoomDataExternal, Common KickoutRoomMember]"
    by code_simp
  with that show ?thesis by auto
qed

end
