(* ===== verification/SampleClient.thy ===== *)
theory SampleClient
  imports Accounts ClientMatching
begin

text \<open>
  The rest of the sample client (\<open>clientsample/client.cpp\<close>, \<open>connection.cpp\<close>): the requests of the
  account, friend and score commands, the handshake, what it makes of replies and notifications, and
  the way of a question to the server and back. Callbacks are events.
\<close>

subsection \<open>Requests\<close>

record client_protobuf =
  \<comment> \<open>the encodings and decodings the client uses\<close>
  pb_matching :: matching_protobuf
  pb_notifications :: notification_protobuf
  pe_login :: "LoginRequest \<Rightarrow> bytes"
  pe_registration :: "RegistrationRequest \<Rightarrow> bytes"
  pe_friend :: "qstring \<Rightarrow> bytes"
  pe_record :: "RecordScoreRequest \<Rightarrow> bytes"
  pe_recordData :: "RecordScoreGameDataRequest \<Rightarrow> bytes"
  pe_scoreData :: "GetScoreGameDataRequest \<Rightarrow> bytes"
  pe_range :: "GetScoreRangeRequest \<Rightarrow> bytes"
  pe_npids :: "GetScoreNpIdRequest \<Rightarrow> bytes"
  pe_friends :: "GetScoreFriendsRequest \<Rightarrow> bytes"
  pe_accounts :: "GetScoreAccountIdRequest \<Rightarrow> bytes"
  pe_accountData :: "GetScoreGameDataByAccountIdRequest \<Rightarrow> bytes"
  pd_login :: "bytes \<Rightarrow> LoginReply option"
  pd_board :: "bytes \<Rightarrow> ScoreBoardConfig option"
  pd_scores :: "bytes \<Rightarrow> GetScoreResponse option"
  pd_friendQuery :: "bytes \<Rightarrow> qstring option"
  pd_friendNew :: "bytes \<Rightarrow> (qstring \<times> bool) option"
  pd_friendLost :: "bytes \<Rightarrow> qstring option"
  pd_friendStatus :: "bytes \<Rightarrow> (qstring \<times> bool \<times> u64) option"

definition client_login :: "client_protobuf \<Rightarrow> qstring \<Rightarrow> qstring \<Rightarrow> qstring \<Rightarrow> client \<Rightarrow> sent" where
  \<comment> \<open>the fields the client does not know stay at their defaults\<close>
  "client_login pb npid password token =
     client_send (Common Login) (makeProtoPayload (pe_login pb)
       \<lparr>lrq_npid = npid, lrq_password = password, lrq_token = token, lrq_title_id = [], lrq_title_name = [],
        lrq_appear_offline = False\<rparr>)"

definition client_createAccount ::
  "client_protobuf \<Rightarrow> qstring \<Rightarrow> qstring \<Rightarrow> qstring \<Rightarrow> qstring \<Rightarrow> qstring \<Rightarrow> client \<Rightarrow> sent" where
  "client_createAccount pb npid password avatarUrl email secretKey =
     client_send (Common Create) (makeProtoPayload (pe_registration pb)
       \<lparr>rrq_npid = npid, rrq_password = password, rrq_avatar_url = avatarUrl, rrq_email = email,
        rrq_secret_key = secretKey\<rparr>)"

definition sendFriendCommand :: "client_protobuf \<Rightarrow> client_command \<Rightarrow> qstring \<Rightarrow> client \<Rightarrow> sent" where
  "sendFriendCommand pb cmd targetNpid cl =
     client_send cmd (makeProtoPayload (pe_friend pb) targetNpid)
       (cl\<lparr>cl_pendingFriendCmd := cmd, cl_pendingFriendNpid := targetNpid\<rparr>)"

definition client_addFriend :: "client_protobuf \<Rightarrow> qstring \<Rightarrow> client \<Rightarrow> sent" where
  "client_addFriend pb = sendFriendCommand pb (Common AddFriend)"
definition client_removeFriend :: "client_protobuf \<Rightarrow> qstring \<Rightarrow> client \<Rightarrow> sent" where
  "client_removeFriend pb = sendFriendCommand pb (Common RemoveFriend)"
definition client_addBlock :: "client_protobuf \<Rightarrow> qstring \<Rightarrow> client \<Rightarrow> sent" where
  "client_addBlock pb = sendFriendCommand pb (Common AddBlock)"
definition client_removeBlock :: "client_protobuf \<Rightarrow> qstring \<Rightarrow> client \<Rightarrow> sent" where
  "client_removeBlock pb = sendFriendCommand pb (Common RemoveBlock)"

definition getBoardInfos :: "qstring \<Rightarrow> u32 \<Rightarrow> client \<Rightarrow> sent" where
  "getBoardInfos comId boardId = client_send (Common GetBoardInfos) (comIdField comId @ toLe 4 boardId)"

definition recordScore ::
  "client_protobuf \<Rightarrow> qstring \<Rightarrow> u32 \<Rightarrow> int \<Rightarrow> int \<Rightarrow> qstring \<Rightarrow> bytes \<Rightarrow> client \<Rightarrow> sent" where
  "recordScore pb comId boardId pcId score comment gameInfo =
     client_send (Common CommandType.RecordScore) (makeScorePayload (pe_record pb) comId
       \<lparr>rsq_boardid = boardId, rsq_pcid = pcId, rsq_score = score, rsq_comment = comment, rsq_data = gameInfo\<rparr>)"

definition recordScoreData ::
  "client_protobuf \<Rightarrow> qstring \<Rightarrow> u32 \<Rightarrow> int \<Rightarrow> int \<Rightarrow> bytes \<Rightarrow> client \<Rightarrow> sent" where
  "recordScoreData pb comId boardId pcId score content =
     client_send (Common RecordScoreData)
       (makeScorePayload (pe_recordData pb) comId \<lparr>rgd_boardid = boardId, rgd_pcid = pcId, rgd_score = score\<rparr> @
        toLe 4 (word_of_nat (length content) :: u32) @ content)"

definition getScoreData :: "client_protobuf \<Rightarrow> qstring \<Rightarrow> u32 \<Rightarrow> qstring \<Rightarrow> int \<Rightarrow> client \<Rightarrow> sent" where
  "getScoreData pb comId boardId npid pcId =
     client_send (Common GetScoreData) (makeScorePayload (pe_scoreData pb) comId
       \<lparr>ggd_boardid = boardId, ggd_npid = npid, ggd_pcid = pcId\<rparr>)"


definition getScoreNpid ::
  "client_protobuf \<Rightarrow> qstring \<Rightarrow> u32 \<Rightarrow> (qstring \<times> int) list \<Rightarrow> bool \<Rightarrow> bool \<Rightarrow> client \<Rightarrow> sent" where
  "getScoreNpid pb comId boardId targets withComment withGameInfo =
     client_send (Common GetScoreNpid) (makeScorePayload (pe_npids pb) comId
       \<lparr>gnq_boardid = boardId, gnq_npids = targets, gnq_withcomment = withComment, gnq_withgameinfo = withGameInfo\<rparr>)"

definition getScoreAccountId ::
  "client_protobuf \<Rightarrow> qstring \<Rightarrow> u32 \<Rightarrow> (userid \<times> int) list \<Rightarrow> bool \<Rightarrow> bool \<Rightarrow> client \<Rightarrow> sent" where
  "getScoreAccountId pb comId boardId targets withComment withGameInfo =
     client_send (Common GetScoreAccountId) (makeScorePayload (pe_accounts pb) comId
       \<lparr>gaq_boardid = boardId, gaq_ids = targets, gaq_withcomment = withComment, gaq_withgameinfo = withGameInfo\<rparr>)"

definition getScoreGameDataByAccountId :: "client_protobuf \<Rightarrow> qstring \<Rightarrow> u32 \<Rightarrow> userid \<Rightarrow> int \<Rightarrow> client \<Rightarrow> sent" where
  "getScoreGameDataByAccountId pb comId boardId accountId pcId =
     client_send (Common GetScoreGameDataByAccId) (makeScorePayload (pe_accountData pb) comId
       \<lparr>gda_boardid = boardId, gda_accountid = accountId, gda_pcid = pcId\<rparr>)"

definition getScoreFriends ::
  "client_protobuf \<Rightarrow> qstring \<Rightarrow> u32 \<Rightarrow> bool \<Rightarrow> u32 \<Rightarrow> bool \<Rightarrow> bool \<Rightarrow> client \<Rightarrow> sent" where
  "getScoreFriends pb comId boardId includeSelf limit withComment withGameInfo =
     client_send (Common GetScoreFriends) (makeScorePayload (pe_friends pb) comId
       \<lparr>gfq_boardid = boardId, gfq_includeself = includeSelf, gfq_max = limit, gfq_withcomment = withComment,
        gfq_withgameinfo = withGameInfo\<rparr>)"

subsection \<open>Connection\<close>

datatype connect_result =
    Connected bytes                 \<comment> \<open>what is left to read\<close>
  | ServerInfoTimeout
  | NotServerInfo
  | PayloadTimeout
  | VersionMismatch u32

definition client_connect :: "bytes \<Rightarrow> connect_result" where
  \<comment> \<open>of the bytes the server sends before the client would wait in vain; a payload size of \<open>2 ^ 31\<close> or more
      is negative for \<open>recvAll\<close>, which then reads nothing\<close>
  "client_connect s =
     (if length s < 15 then ServerInfoTimeout
      else if s ! 0 \<noteq> PacketType_code ServerInfo then NotServerInfo
      else (let totalSz = hdr_size s;
                payloadSz = (if totalSz > HEADER_SIZE then totalSz - HEADER_SIZE else 0);
                n = nat (sint payloadSz);
                rest = drop 15 s;
                payload = take n rest @ replicate (unat payloadSz - n) 0
            in if length rest < n then PayloadTimeout
               else if payloadSz \<ge> 4 \<and> fromLe (take 4 payload) \<noteq> PROTOCOL_VERSION
               then VersionMismatch (fromLe (take 4 payload))
               else Connected (drop n rest)))"

text \<open>A client that connects accepts the server's first packet and loses nothing behind it.\<close>

lemma handshake_accepted:
  "client_connect (server_info_packet @ rest) = Connected rest"
proof -
  have s: "server_info_packet = [3, 0, 0, 19, 0, 0, 0, 0, 0, 0, 0, 0, 0, 0, 0, 1, 0, 0, 0]" by code_simp
  have c: "fromLe [19, 0, 0, 0 :: u8] = (19 :: u32)" "fromLe [1, 0, 0, 0 :: u8] = (1 :: u32)"
      "PacketType_code ServerInfo = 3" by code_simp+
  have "hdr_size (server_info_packet @ rest) = 19"
    unfolding s by (simp add: hdr_size_def c)
  then show ?thesis
    using c unfolding s by (simp add: client_connect_def HEADER_SIZE_def PROTOCOL_VERSION_def)
qed
definition client_update :: "bytes \<Rightarrow> bytes \<Rightarrow> bool \<Rightarrow> client_packet list \<times> bytes" where
  \<comment> \<open>read buffer, bytes that arrived, whether the server has closed\<close>
  "client_update buf arrived serverClosed =
     (let (pkts, rest) = client_parse (buf @ arrived) in (pkts, if serverClosed then [] else rest))"

subsection \<open>Replies\<close>









definition handleGetScoreDataReply :: "bytes \<Rightarrow> (u8 \<times> bytes) option" where
  \<comment> \<open>the length is not checked: \<open>None\<close> is a copy from beyond the payload\<close>
  "handleGetScoreDataReply payload =
     (if errorByte payload = no_error \<and> length payload \<ge> 5
      then (let blobLen = unat (fromLe (take 4 (drop 1 payload)) :: u32)
            in if 5 + blobLen > length payload then None else Some (no_error, take blobLen (drop 5 payload)))
      else Some (errorByte payload, []))"






subsection \<open>What arrives\<close>





lemma client_code_simps [simp]: "client_code (Common CommandType.GetScoreRange) = 34" by code_simp



lemma score_data_unchecked:
  "handleGetScoreDataReply payload = None \<longleftrightarrow>
    5 \<le> length payload \<and> hd payload = 0 \<and> length payload < 5 + unat (fromLe (take 4 (drop 1 payload)) :: u32)"
  by (auto simp: handleGetScoreDataReply_def errorByte_def Let_def ErrorType_code_def ErrorType_list_def not_less)


subsection \<open>A ranking over the wire\<close>






end
