(* ===== verification/WebSessions.thy ===== *)
theory WebSessions
  imports WebRequest
begin

text \<open>
  The session manager of \<open>src/webapi_routes_session.cpp\<close>: the sessions and invitations that
  \<open>SharedState\<close> of \<open>src/client_session.h\<close> keeps, and the handlers that change them. A
  handler takes the request with the results of its clock and UUID calls, the database (which may
  fail its account queries), the shared state (for who is connected) and the sessions, and gives the
  response, the sessions afterwards and the push events it sends.
\<close>

subsection \<open>State\<close>

record SessionMember =
  sm_userId :: userid
  sm_npid :: qstring
  sm_platform :: qstring
  sm_index :: int
  sm_priority :: int
  sm_joinedAt :: int

record Session =
  sn_sessionId :: qstring
  sn_ownerUserId :: userid
  sn_ownerNpid :: qstring
  sn_sessionName :: qstring
  sn_sessionStatus :: qstring
  sn_localizedSessionNames :: "(qstring, qstring) qhash"
  sn_localizedSessionStatus :: "(qstring, qstring) qhash"
  sn_sessionType :: qstring
  sn_sessionPrivacy :: qstring
  sn_sessionMaxUser :: int
  sn_availablePlatforms :: "qstring list"
  sn_npTitleId :: qstring
  sn_sessionLockFlag :: bool
  sn_sendNotificationFlag :: bool
  sn_sessionImage :: string
  sn_sessionData :: string
  sn_changeableSessionData :: string
  sn_members :: "SessionMember list"
  sn_createdAt :: int

record Invitation =
  iv_invitationId :: qstring
  iv_sessionId :: qstring
  iv_fromUserId :: userid
  iv_fromNpid :: qstring
  iv_toUserId :: userid
  iv_toNpid :: qstring
  iv_message :: qstring
  iv_availablePlatforms :: "qstring list"
  iv_invitationData :: string
  iv_hasInvitationData :: bool
  iv_createdAt :: int
  iv_updatedAt :: int
  iv_validUntil :: int
  iv_used :: bool

record web_state =
  wb_sessions :: "(qstring, Session) qhash"
  wb_invitations :: "(qstring, Invitation) qhash"

definition web_empty :: web_state where
  "web_empty = \<lparr>wb_sessions = [], wb_invitations = []\<rparr>"

definition SESSION_NOT_PERMITTED :: int where "SESSION_NOT_PERMITTED = 2114560"
definition SESSION_FULL :: int where "SESSION_FULL = 2114561"
definition SESSION_ONLY_CREATOR :: int where "SESSION_ONLY_CREATOR = 2114562"
definition SESSION_ONLY_MEMBER :: int where "SESSION_ONLY_MEMBER = 2114563"
definition SESSION_USER_NOT_ONLINE :: int where "SESSION_USER_NOT_ONLINE = 2114564"
definition SESSION_ALREADY_JOINED :: int where "SESSION_ALREADY_JOINED = 2114565"
definition WEBAPI_TOO_LARGE_BODY :: int where "WEBAPI_TOO_LARGE_BODY = 2113539"
definition WEBAPI_RESOURCE_NOT_FOUND :: int where "WEBAPI_RESOURCE_NOT_FOUND = 2113549"
definition WEBAPI_QUERY_PARAM_REQUIRED :: int where "WEBAPI_QUERY_PARAM_REQUIRED = 2113797"
definition WEBAPI_INVALID_BODY :: int where "WEBAPI_INVALID_BODY = 2113920"
definition WEBAPI_INVALID_BODY_PARAM :: int where "WEBAPI_INVALID_BODY_PARAM = 2113922"
definition WEBAPI_INVALID_NUM_ELEMS :: int where "WEBAPI_INVALID_NUM_ELEMS = 2113923"
definition WEBAPI_BODY_PARAM_REQUIRED :: int where "WEBAPI_BODY_PARAM_REQUIRED = 2113926"
definition INVITATION_EXPIRED :: int where "INVITATION_EXPIRED = 2115584"
definition INVITATION_TTL_MS :: int where "INVITATION_TTL_MS = 0"
definition kImageMax :: int where "kImageMax = 160 * 1024"
definition kDataMax :: int where "kDataMax = 1024 * 1024"
definition kChangeableMax :: int where "kChangeableMax = 1024"
definition kInvitationDataMax :: int where "kInvitationDataMax = 1024 * 1024"

abbreviation owner_bind :: qstring where "owner_bind \<equiv> ''owner-bind''"
abbreviation owner_migration :: qstring where "owner_migration \<equiv> ''owner-migration''"

definition isMember :: "Session \<Rightarrow> userid \<Rightarrow> bool" where
  "isMember s userId \<longleftrightarrow> list_ex (\<lambda>m. sm_userId m = userId) (sn_members s)"

definition SessionPermissionError :: "Session \<Rightarrow> userid \<Rightarrow> int" where
  \<comment> \<open>0 is permitted\<close>
  "SessionPermissionError s userId =
     (if sn_sessionType s = owner_bind then (if sn_ownerUserId s = userId then 0 else SESSION_ONLY_CREATOR)
      else (if isMember s userId then 0 else SESSION_ONLY_MEMBER))"

definition SessionPermissionResponse :: "int \<Rightarrow> http_response" where
  "SessionPermissionResponse err = JsonError HttpForbidden err"

definition HasActiveInvitation :: "int \<Rightarrow> web_state \<Rightarrow> qstring \<Rightarrow> userid \<Rightarrow> bool" where
  "HasActiveInvitation nowMs ws sessionId userId \<longleftrightarrow>
     list_ex (\<lambda>iv. iv_toUserId iv = userId \<and> iv_sessionId iv = sessionId \<and> \<not> iv_used iv \<and>
                 \<not> (iv_validUntil iv \<noteq> 0 \<and> nowMs > iv_validUntil iv)) (qvalues (wb_invitations ws))"

subsection \<open>Leaving\<close>

definition removeFirst :: "('a \<Rightarrow> bool) \<Rightarrow> 'a list \<Rightarrow> 'a list" where
  "removeFirst P xs = takeWhile (\<lambda>x. \<not> P x) xs @ tl (dropWhile (\<lambda>x. \<not> P x) xs)"

definition settleOwner :: "userid \<Rightarrow> Session \<Rightarrow> Session option" where
  \<comment> \<open>the session once the user has left it: \<open>None\<close> is deleted\<close>
  "settleOwner userId s =
     (let wasOwner = (sn_ownerUserId s = userId) in
      if sn_sessionType s = owner_bind \<and> wasOwner \<or> sn_members s = [] then None
      else if wasOwner
      then Some (s\<lparr>sn_ownerUserId := sm_userId (hd (sn_members s)), sn_ownerNpid := sm_npid (hd (sn_members s))\<rparr>)
      else Some s)"

definition atIndex :: "userid \<Rightarrow> int \<Rightarrow> SessionMember \<Rightarrow> bool" where
  "atIndex userId index m \<longleftrightarrow> sm_userId m = userId \<and> sm_index m = index"

definition LeaveSessionAtIndex :: "userid \<Rightarrow> int \<Rightarrow> web_state \<Rightarrow> web_state" where
  "LeaveSessionAtIndex userId index ws =
     (case List.find (\<lambda>(k, s). list_ex (atIndex userId index) (sn_members s)) (wb_sessions ws) of
        None \<Rightarrow> ws
      | Some (leaveId, s) \<Rightarrow>
          (case settleOwner userId (s\<lparr>sn_members := removeFirst (atIndex userId index) (sn_members s)\<rparr>) of
             None \<Rightarrow> ws\<lparr>wb_sessions := qremove leaveId (wb_sessions ws)\<rparr>
           | Some s' \<Rightarrow> ws\<lparr>wb_sessions := qinsert leaveId s' (wb_sessions ws)\<rparr>))"

definition RemoveMemberApplyOwner :: "userid \<Rightarrow> Session \<Rightarrow> bool \<times> Session option" where
  \<comment> \<open>whether the user was removed; the session afterwards, \<open>None\<close> if it is to be deleted\<close>
  "RemoveMemberApplyOwner userId sn =
     (if isMember sn userId
      then (True, settleOwner userId (sn\<lparr>sn_members := removeFirst (\<lambda>m. sm_userId m = userId) (sn_members sn)\<rparr>))
      else (False, Some sn))"

subsection \<open>Push events\<close>

record session_event =
  se_dataType :: qstring
  se_body :: json_object            \<comment> \<open>empty: no body\<close>
  se_from :: qstring
  se_to :: qstring
  se_extd :: "(qstring \<times> qstring) list"

type_synonym web_out = "nat \<times> session_event"
type_synonym web_result = "http_response \<times> web_state \<times> web_out list"

definition SendSessionInvitationEvent ::
  "web_functions \<Rightarrow> int \<Rightarrow> SharedState \<Rightarrow> qstring \<Rightarrow> userid \<Rightarrow> qstring \<Rightarrow> userid list \<Rightarrow> qstring
    \<Rightarrow> (userid, qstring) qhash \<Rightarrow> int \<Rightarrow> web_out list" where
  "SendSessionInvitationEvent wx nowMs sh dataType fromUserId fromNpid toUserIds sessionId invitationIds validUntil =
     (let fromPlatform = (case qfind (ss_clients sh) fromUserId of None \<Rightarrow> [] | Some c \<Rightarrow> ce_platform c);
          fromAccountId = qstring_number fromUserId
      in List.map_filter (\<lambda>toId.
           (case qfind (ss_clients sh) toId of
              None \<Rightarrow> None
            | Some c \<Rightarrow>
                (let thisInvitationId = qvalue invitationIds toId [];
                     extd = [(''fromAccountId'', fromAccountId)] @
                       (if fromPlatform \<noteq> [] then [(''fromPlatform'', fromPlatform)] else []) @
                       [(''toAccountId'', qstring_number toId)] @
                       (if sessionId \<noteq> [] then [(''sessionId'', sessionId)] else []) @
                       (if thisInvitationId \<noteq> [] then [(''invitationId'', thisInvitationId)] else []) @
                       (if validUntil \<noteq> 0 then [(''validUntil'', qstring_number validUntil)] else []);
                     body = (if thisInvitationId = [] then []
                       else [(''invitationId'', JString thisInvitationId)] @
                         joptional (sessionId \<noteq> []) ''sessionId'' (JString sessionId) @
                         [(''receivedDate'', JString (wx_isoUtc wx nowMs))] @
                         joptional (validUntil \<noteq> 0) ''expired'' (JBool (nowMs > validUntil)) @
                         [(''fromUser'', juser fromNpid fromUserId)])
                 in Some (ce_send c, \<lparr>se_dataType = dataType, se_body = body, se_from = fromNpid,
                                      se_to = ce_npid c, se_extd = extd\<rparr>)))) toUserIds)"

definition session_event_bytes :: "(qstring \<Rightarrow> bytes) \<Rightarrow> (json_object \<Rightarrow> bytes) \<Rightarrow> session_event \<Rightarrow> bytes" where
  "session_event_bytes toUtf8 toJson e =
     BuildNotification WebApiPushEvent
       (BuildWebApiPushPayload (toUtf8 ''sessionInvitation'') 0 (toUtf8 (se_dataType e))
         (if se_body e = [] then [] else toJson (se_body e)) (toUtf8 (se_from e)) (toUtf8 (se_to e))
         (map (\<lambda>(k, v). (toUtf8 k, toUtf8 v)) (se_extd e)))"

abbreviation join_event :: qstring where "join_event \<equiv> ''np:service:session:game:join:to:member''"
abbreviation update_event :: qstring where "update_event \<equiv> ''np:service:session:game:update:to:member''"
abbreviation remove_event :: qstring where "remove_event \<equiv> ''np:service:session:game:remove:to:member''"
abbreviation invitation_event :: qstring where "invitation_event \<equiv> ''np:service:invitation''"

subsection \<open>Creating\<close>

definition partNamed :: "string \<Rightarrow> MultipartPart list \<Rightarrow> string option" where
  \<comment> \<open>the last part with the description\<close>
  "partNamed d parts = map_option mp_data (List.find (\<lambda>p. mp_contentDescription p = d) (rev parts))"

definition orEmpty :: "string option \<Rightarrow> string" where
  "orEmpty p = (case p of None \<Rightarrow> [] | Some d \<Rightarrow> d)"

definition localizedTexts :: "json_object \<Rightarrow> (qstring, qstring) qhash" where
  "localizedTexts lo = fold (\<lambda>(k, v). qinsert k (jtoString v)) lo []"

definition newWebSession ::
  "json_object \<Rightarrow> (string option \<times> string option \<times> string option) \<Rightarrow> qstring \<Rightarrow> userid \<times> qstring \<Rightarrow> qstring \<Rightarrow> int
    \<Rightarrow> Session" where
  "newWebSession obj blobs sessionId me userPlatform now =
     (let (image, dat, changeable) = blobs;
          privacy = jtoString (jvalue obj ''sessionPrivacy'')
      in \<lparr>sn_sessionId = sessionId, sn_ownerUserId = fst me, sn_ownerNpid = snd me,
          sn_sessionName = jtoString (jvalue obj ''sessionName''),
          sn_sessionStatus = jtoString (jvalue obj ''sessionStatus''),
          sn_localizedSessionNames = localizedTexts (jtoObject (jvalue obj ''localizedSessionNames'')),
          sn_localizedSessionStatus = localizedTexts (jtoObject (jvalue obj ''localizedSessionStatus'')),
          sn_sessionType = jtoString (jvalue obj ''sessionType''),
          sn_sessionPrivacy = (if privacy = [] then ''public'' else privacy),
          sn_sessionMaxUser = jtoInt 0 (jvalue obj ''sessionMaxUser''),
          sn_availablePlatforms = map jtoString (jtoArray (jvalue obj ''availablePlatforms'')),
          sn_npTitleId = jtoString (jvalue obj ''npTitleId''),
          sn_sessionLockFlag = jtoBool False (jvalue obj ''sessionLockFlag''),
          sn_sendNotificationFlag = jtoBool False (jvalue obj ''sendNotificationFlag''),
          sn_sessionImage = orEmpty image, sn_sessionData = orEmpty dat,
          sn_changeableSessionData = orEmpty changeable,
          sn_members = [\<lparr>sm_userId = fst me, sm_npid = snd me, sm_platform = userPlatform,
            sm_index = jtoInt 0 (jvalue obj ''index''), sm_priority = jtoInt 0 (jvalue obj ''priority''),
            sm_joinedAt = now\<rparr>],
          sn_createdAt = now\<rparr>)"

abbreviation web_refuse :: "http_status \<Rightarrow> int \<Rightarrow> web_state \<Rightarrow> web_result" where
  "web_refuse st code ws \<equiv> (JsonError st code, ws, [])"

definition HandleSessionCreate ::
  "web_functions \<Rightarrow> bool \<Rightarrow> http_request \<Rightarrow> qstring \<Rightarrow> int \<Rightarrow> Database \<Rightarrow> SharedState \<Rightarrow> web_state \<Rightarrow> web_result" where
  "HandleSessionCreate wx fault req uuid now db sh ws =
     (case Authenticate wx fault req db of
        Inl r \<Rightarrow> (r, ws, [])
      | Inr me \<Rightarrow>
        (let boundary = ExtractBoundary (NormalizeContentType (hq_contentType req));
             parts = ParseMultipartMixed (hq_body req) boundary;
             image = partNamed ''session-image'' parts;
             dat = partNamed ''session-data'' parts;
             changeable = partNamed ''changeable-session-data'' parts
         in if boundary = []
            then web_refuse HttpBadRequest WEBAPI_INVALID_BODY ws
            else
              (case partNamed ''session-request'' parts of
                 None \<Rightarrow> web_refuse HttpBadRequest WEBAPI_BODY_PARAM_REQUIRED ws
               | Some jsonPart \<Rightarrow>
                 if int (length (orEmpty image)) > kImageMax \<or> int (length (orEmpty dat)) > kDataMax \<or>
                    int (length (orEmpty changeable)) > kChangeableMax
                 then web_refuse HttpBadRequest WEBAPI_TOO_LARGE_BODY ws
                 else
                   (case wx_fromJson wx jsonPart of
                      None \<Rightarrow> web_refuse HttpBadRequest WEBAPI_INVALID_BODY ws
                    | Some obj \<Rightarrow>
                      (let sessionType = jtoString (jvalue obj ''sessionType'');
                           platforms = map jtoString (jtoArray (jvalue obj ''availablePlatforms''))
                       in if sessionType \<noteq> owner_bind \<and> sessionType \<noteq> owner_migration \<or>
                             jtoInt 0 (jvalue obj ''sessionMaxUser'') \<le> 0 \<or> platforms = []
                          then web_refuse HttpBadRequest WEBAPI_INVALID_BODY_PARAM ws
                          else
                            (case qfind (ss_clients sh) (fst me) of
                               None \<Rightarrow> web_refuse HttpForbidden SESSION_USER_NOT_ONLINE ws
                             | Some c \<Rightarrow>
                               if ce_platform c \<notin> set platforms
                               then web_refuse HttpBadRequest WEBAPI_INVALID_BODY_PARAM ws
                               else
                                 (let sessionId = ''001-'' @ uuid;
                                      s = newWebSession obj (image, dat, changeable) sessionId me (ce_platform c) now;
                                      ws1 = LeaveSessionAtIndex (fst me) (jtoInt 0 (jvalue obj ''index'')) ws;
                                      ws2 = ws1\<lparr>wb_sessions := qinsert sessionId s (wb_sessions ws1)\<rparr>
                                  in (JsonOk [(''sessionId'', JString sessionId)], ws2,
                                      if sn_sendNotificationFlag s
                                      then SendSessionInvitationEvent wx now sh join_event (fst me) (snd me) [fst me]
                                             sessionId [] 0
                                      else []))))))))"

subsection \<open>Updating and deleting\<close>

definition updateTexts ::
  "json_object \<Rightarrow> qstring \<Rightarrow> qstring \<Rightarrow> qstring \<times> (qstring, qstring) qhash \<Rightarrow> qstring \<times> (qstring, qstring) qhash" where
  \<comment> \<open>a text and its translations are replaced together when either is there\<close>
  "updateTexts obj key localizedKey old =
     (if jcontains obj key \<or> jcontains obj localizedKey
      then (jtoString (jvalue obj key), localizedTexts (jtoObject (jvalue obj localizedKey)))
      else old)"

definition updateWebSession :: "json_object \<Rightarrow> Session \<Rightarrow> Session" where
  "updateWebSession obj s =
     (let (name, names) = updateTexts obj ''sessionName'' ''localizedSessionNames''
            (sn_sessionName s, sn_localizedSessionNames s);
          (status, statuses) = updateTexts obj ''sessionStatus'' ''localizedSessionStatus''
            (sn_sessionStatus s, sn_localizedSessionStatus s);
          p = map jtoString (jtoArray (jvalue obj ''availablePlatforms''))
      in s\<lparr>sn_sessionName := name, sn_localizedSessionNames := names,
           sn_sessionStatus := status, sn_localizedSessionStatus := statuses,
           sn_sessionPrivacy := (if jcontains obj ''sessionPrivacy'' then jtoString (jvalue obj ''sessionPrivacy'')
                                 else sn_sessionPrivacy s),
           sn_sessionMaxUser := (if jcontains obj ''sessionMaxUser'' then jtoInt 0 (jvalue obj ''sessionMaxUser'')
                                 else sn_sessionMaxUser s),
           sn_sessionLockFlag := (if jcontains obj ''sessionLockFlag'' then jtoBool False (jvalue obj ''sessionLockFlag'')
                                  else sn_sessionLockFlag s),
           sn_availablePlatforms := (if jcontains obj ''availablePlatforms'' \<and> p \<noteq> [] then p
                                     else sn_availablePlatforms s)\<rparr>)"

definition HandleSessionUpdate ::
  "web_functions \<Rightarrow> bool \<Rightarrow> qstring \<Rightarrow> http_request \<Rightarrow> int \<Rightarrow> Database \<Rightarrow> SharedState \<Rightarrow> web_state \<Rightarrow> web_result" where
  "HandleSessionUpdate wx fault sessionId req now db sh ws =
     (case Authenticate wx fault req db of
        Inl r \<Rightarrow> (r, ws, [])
      | Inr me \<Rightarrow>
        (case wx_fromJson wx (hq_body req) of
           None \<Rightarrow> web_refuse HttpBadRequest WEBAPI_INVALID_BODY ws
         | Some obj \<Rightarrow>
           (case qfind (wb_sessions ws) sessionId of
              None \<Rightarrow> web_refuse HttpNotFound WEBAPI_RESOURCE_NOT_FOUND ws
            | Some s \<Rightarrow>
              (let err = SessionPermissionError s (fst me) in
               if err \<noteq> 0 then (SessionPermissionResponse err, ws, [])
               else
                 (let s' = updateWebSession obj s;
                      notify = (sn_sendNotificationFlag s' \<and> sn_sessionPrivacy s' \<noteq> sn_sessionPrivacy s)
                  in (NoContent, ws\<lparr>wb_sessions := qinsert sessionId s' (wb_sessions ws)\<rparr>,
                      if notify
                      then SendSessionInvitationEvent wx now sh update_event (fst me) (snd me)
                             (map sm_userId (sn_members s')) sessionId [] 0
                      else []))))))"

definition HandleSessionDelete ::
  "web_functions \<Rightarrow> bool \<Rightarrow> qstring \<Rightarrow> http_request \<Rightarrow> Database \<Rightarrow> web_state \<Rightarrow> web_result" where
  "HandleSessionDelete wx fault sessionId req db ws =
     (case Authenticate wx fault req db of
        Inl r \<Rightarrow> (r, ws, [])
      | Inr me \<Rightarrow>
        (case qfind (wb_sessions ws) sessionId of
           None \<Rightarrow> web_refuse HttpNotFound WEBAPI_RESOURCE_NOT_FOUND ws
         | Some s \<Rightarrow>
           (let err = SessionPermissionError s (fst me) in
            if err \<noteq> 0 then (SessionPermissionResponse err, ws, [])
            else (NoContent, ws\<lparr>wb_sessions := qremove sessionId (wb_sessions ws)\<rparr>, []))))"

subsection \<open>Joining\<close>

definition queryInt :: "web_functions \<Rightarrow> http_request \<Rightarrow> qstring \<Rightarrow> int \<Rightarrow> int" where
  \<comment> \<open>a number of the query string, the default when it is missing or not a number\<close>
  "queryInt wx req key d =
     (if hasQueryItem req key
      then (case wx_toInt wx (queryItemValue req key) of None \<Rightarrow> d | Some v \<Rightarrow> v) else d)"

definition sessionCapacity :: "Session \<Rightarrow> nat" where
  "sessionCapacity s = (if 0 < sn_sessionMaxUser s \<and> sn_sessionMaxUser s < 256 then nat (sn_sessionMaxUser s) else 256)"

definition rejoin :: "userid \<Rightarrow> int \<Rightarrow> int \<Rightarrow> Session \<Rightarrow> Session" where
  \<comment> \<open>the first entry of the user gets the new priority and time\<close>
  "rejoin userId priority now s =
     s\<lparr>sn_members := takeWhile (\<lambda>m. sm_userId m \<noteq> userId) (sn_members s) @
        (case dropWhile (\<lambda>m. sm_userId m \<noteq> userId) (sn_members s) of
           [] \<Rightarrow> [] | m # ms \<Rightarrow> m\<lparr>sm_priority := priority, sm_joinedAt := now\<rparr> # ms)\<rparr>"

definition HandleSessionJoin ::
  "web_functions \<Rightarrow> bool \<Rightarrow> qstring \<Rightarrow> http_request \<Rightarrow> int \<Rightarrow> Database \<Rightarrow> SharedState \<Rightarrow> web_state \<Rightarrow> web_result" where
  "HandleSessionJoin wx fault sessionId req now db sh ws =
     (case Authenticate wx fault req db of
        Inl r \<Rightarrow> (r, ws, [])
      | Inr me \<Rightarrow>
        (let index = queryInt wx req ''index'' 0;
             priority = queryInt wx req ''priority'' 49
         in if index < 0 \<or> index > 63
            then web_refuse HttpBadRequest WEBAPI_INVALID_BODY_PARAM ws
            else
              (case qfind (ss_clients sh) (fst me) of
                 None \<Rightarrow> web_refuse HttpForbidden SESSION_USER_NOT_ONLINE ws
               | Some c \<Rightarrow>
                 (case qfind (wb_sessions ws) sessionId of
                    None \<Rightarrow> web_refuse HttpNotFound WEBAPI_RESOURCE_NOT_FOUND ws
                  | Some s \<Rightarrow>
                    (case List.find (\<lambda>m. sm_userId m = fst me) (sn_members s) of
                       Some m \<Rightarrow>
                         if sm_index m \<noteq> index
                         then web_refuse HttpForbidden SESSION_ALREADY_JOINED ws
                         else (NoContent,
                               ws\<lparr>wb_sessions := qinsert sessionId (rejoin (fst me) priority now s) (wb_sessions ws)\<rparr>, [])
                     | None \<Rightarrow>
                         if sn_sessionLockFlag s
                         then web_refuse HttpForbidden SESSION_NOT_PERMITTED ws
                         else if length (sn_members s) \<ge> sessionCapacity s
                         then web_refuse HttpForbidden SESSION_FULL ws
                         else
                           (let ws1 = LeaveSessionAtIndex (fst me) index ws;
                                m = \<lparr>sm_userId = fst me, sm_npid = snd me, sm_platform = ce_platform c,
                                     sm_index = index, sm_priority = priority, sm_joinedAt = now\<rparr>;
                                s' = s\<lparr>sn_members := sn_members s @ [m]\<rparr>
                            in (NoContent, ws1\<lparr>wb_sessions := qinsert sessionId s' (wb_sessions ws1)\<rparr>,
                                if sn_sendNotificationFlag s
                                then SendSessionInvitationEvent wx now sh join_event (fst me) (snd me)
                                       (filter (\<lambda>u. u \<noteq> fst me) (map sm_userId (sn_members s'))) sessionId [] 0
                                else [])))))))"

subsection \<open>Leaving by request\<close>

definition HandleSessionLeave ::
  "web_functions \<Rightarrow> bool \<Rightarrow> qstring \<Rightarrow> qstring \<Rightarrow> http_request \<Rightarrow> int \<Rightarrow> Database \<Rightarrow> SharedState \<Rightarrow> web_state \<Rightarrow> web_result" where
  "HandleSessionLeave wx fault sessionId memberKey req now db sh ws =
     (case Authenticate wx fault req db of
        Inl r \<Rightarrow> (r, ws, [])
      | Inr me \<Rightarrow>
        (case ResolveTarget wx fault memberKey me db of
           None \<Rightarrow> (NoContent, ws, [])
         | Some targetId \<Rightarrow>
           (case qfind (wb_sessions ws) sessionId of
              None \<Rightarrow> (NoContent, ws, [])
            | Some sn \<Rightarrow>
              if targetId \<noteq> fst me \<and> sn_ownerUserId sn \<noteq> fst me
              then web_refuse HttpForbidden SESSION_NOT_PERMITTED ws
              else
                (let (removed, after) = RemoveMemberApplyOwner targetId sn;
                     leftNpid = (case List.find (\<lambda>m. sm_userId m = targetId) (rev (sn_members sn)) of
                                   None \<Rightarrow> [] | Some m \<Rightarrow> sm_npid m)
                 in if \<not> removed then (NoContent, ws, [])
                    else
                      (NoContent,
                       ws\<lparr>wb_sessions := (case after of None \<Rightarrow> qremove sessionId (wb_sessions ws)
                                          | Some s' \<Rightarrow> qinsert sessionId s' (wb_sessions ws))\<rparr>,
                       if sn_sendNotificationFlag sn
                       then SendSessionInvitationEvent wx now sh remove_event targetId leftNpid
                              (map sm_userId (sn_members sn)) sessionId [] 0
                       else [])))))"

definition leaverNpid :: "userid \<Rightarrow> Session list \<Rightarrow> qstring" where
  \<comment> \<open>the user's name in the first session that has one\<close>
  "leaverNpid userId sns =
     foldl (\<lambda>n s. if n \<noteq> [] then n
              else (case List.find (\<lambda>m. sm_userId m = userId) (sn_members s) of None \<Rightarrow> [] | Some m \<Rightarrow> sm_npid m)) [] sns"

definition leftMembers :: "userid \<Rightarrow> Session \<Rightarrow> userid list" where
  \<comment> \<open>the members that remain, whether or not the session goes on\<close>
  "leftMembers userId s = map sm_userId (removeFirst (\<lambda>m. sm_userId m = userId) (sn_members s))"

definition PurgeUserFromSessions ::
  "web_functions \<Rightarrow> int \<Rightarrow> userid \<Rightarrow> SharedState \<Rightarrow> web_state \<Rightarrow> web_state \<times> web_out list" where
  "PurgeUserFromSessions wx now userId sh ws =
     (let npid = leaverNpid userId (qvalues (wb_sessions ws));
          events = filter (\<lambda>(k, s). isMember s userId \<and> sn_sendNotificationFlag s \<and> leftMembers userId s \<noteq> []) (wb_sessions ws)
      in (ws\<lparr>wb_sessions := List.map_filter (\<lambda>(k, s). map_option (Pair k) (snd (RemoveMemberApplyOwner userId s))) (wb_sessions ws)\<rparr>,
          concat (map (\<lambda>(k, s). SendSessionInvitationEvent wx now sh remove_event userId npid (leftMembers userId s) k [] 0) events)))"

subsection \<open>Invitations\<close>

definition inviteTarget :: "web_functions \<Rightarrow> bool \<Rightarrow> Database \<Rightarrow> json \<Rightarrow> (userid \<times> qstring) option" where
  "inviteTarget wx fault db v =
     (let entry = jtoString v;
          byName = map_option (\<lambda>i. (i, entry)) (GetUserId fault entry db)
      in case wx_toLongLong wx entry of
           None \<Rightarrow> byName
         | Some asId \<Rightarrow>
             if asId \<noteq> 0 then Some (asId, case GetUsername fault asId db of None \<Rightarrow> [] | Some n \<Rightarrow> n) else byName)"

definition newInvitation ::
  "qstring \<Rightarrow> qstring \<Rightarrow> Session \<Rightarrow> userid \<times> qstring \<Rightarrow> userid \<times> qstring \<Rightarrow> qstring \<Rightarrow> string option \<Rightarrow> int \<Rightarrow> Invitation" where
  "newInvitation invitationId sessionId s me target msg dat now =
     \<lparr>iv_invitationId = invitationId, iv_sessionId = sessionId, iv_fromUserId = fst me, iv_fromNpid = snd me,
      iv_toUserId = fst target, iv_toNpid = snd target, iv_message = msg,
      iv_availablePlatforms = sn_availablePlatforms s, iv_invitationData = orEmpty dat,
      iv_hasInvitationData = (dat \<noteq> None), iv_createdAt = now, iv_updatedAt = now,
      iv_validUntil = (if INVITATION_TTL_MS > 0 then now + INVITATION_TTL_MS else 0), iv_used = False\<rparr>"

definition invitationId_of :: "qstring \<Rightarrow> qstring" where
  "invitationId_of uuid = ''002-'' @ uuid"

definition HandleSessionInvite ::
  "web_functions \<Rightarrow> bool \<Rightarrow> qstring \<Rightarrow> http_request \<Rightarrow> (nat \<Rightarrow> qstring) \<Rightarrow> int \<Rightarrow> Database \<Rightarrow> SharedState \<Rightarrow> web_state
    \<Rightarrow> web_result" where
  "HandleSessionInvite wx fault sessionId req uuids now db sh ws =
     (case Authenticate wx fault req db of
        Inl r \<Rightarrow> (r, ws, [])
      | Inr me \<Rightarrow>
        (let boundary = ExtractBoundary (NormalizeContentType (hq_contentType req));
             parts = ParseMultipartMixed (hq_body req) boundary;
             dat = partNamed ''invitation-data'' parts
         in if boundary = []
            then web_refuse HttpBadRequest WEBAPI_INVALID_BODY ws
            else
              (case partNamed ''invitation-request'' parts of
                 None \<Rightarrow> web_refuse HttpBadRequest WEBAPI_BODY_PARAM_REQUIRED ws
               | Some jsonPart \<Rightarrow>
                 if int (length (orEmpty dat)) > kInvitationDataMax
                 then web_refuse HttpBadRequest WEBAPI_TOO_LARGE_BODY ws
                 else
                   (case wx_fromJson wx jsonPart of
                      None \<Rightarrow> web_refuse HttpBadRequest WEBAPI_INVALID_BODY ws
                    | Some obj \<Rightarrow>
                      (let recipients = List.map_filter (inviteTarget wx fault db) (jtoArray (jvalue obj ''to'')) in
                       if recipients = []
                       then web_refuse HttpBadRequest WEBAPI_INVALID_NUM_ELEMS ws
                       else
                         (case qfind (wb_sessions ws) sessionId of
                            None \<Rightarrow> web_refuse HttpNotFound WEBAPI_RESOURCE_NOT_FOUND ws
                          | Some s \<Rightarrow>
                            (let news = map (\<lambda>(i, r). newInvitation (invitationId_of (uuids i)) sessionId s me r
                                     (jtoString (jvalue obj ''message'')) dat now) (enumerate 0 recipients);
                                 ids = fold (\<lambda>iv. qinsert (iv_toUserId iv) (iv_invitationId iv)) news []
                             in (NoContent,
                                 ws\<lparr>wb_invitations := fold (\<lambda>iv. qinsert (iv_invitationId iv) iv) news (wb_invitations ws)\<rparr>,
                                 SendSessionInvitationEvent wx now sh invitation_event (fst me) (snd me)
                                   (map fst recipients) sessionId ids
                                   (if INVITATION_TTL_MS > 0 then now + INVITATION_TTL_MS else 0)))))))))"

definition HandleInvitationUse ::
  "web_functions \<Rightarrow> bool \<Rightarrow> qstring \<Rightarrow> http_request \<Rightarrow> int \<Rightarrow> Database \<Rightarrow> web_state \<Rightarrow> web_result" where
  "HandleInvitationUse wx fault invitationId req now db ws =
     (case Authenticate wx fault req db of
        Inl r \<Rightarrow> (r, ws, [])
      | Inr me \<Rightarrow>
        (case wx_fromJson wx (hq_body req) of
           None \<Rightarrow> web_refuse HttpBadRequest WEBAPI_INVALID_BODY ws
         | Some obj \<Rightarrow>
           if jvalue obj ''usedFlag'' \<noteq> JBool True
           then web_refuse HttpBadRequest WEBAPI_INVALID_BODY_PARAM ws
           else
             (case qfind (wb_invitations ws) invitationId of
                None \<Rightarrow> web_refuse HttpNotFound WEBAPI_RESOURCE_NOT_FOUND ws
              | Some iv \<Rightarrow>
                if iv_toUserId iv \<noteq> fst me
                then web_refuse HttpNotFound WEBAPI_RESOURCE_NOT_FOUND ws
                else if (iv_validUntil iv \<noteq> 0 \<and> now > iv_validUntil iv) \<or> iv_used iv
                then web_refuse HttpNotFound INVITATION_EXPIRED ws
                else (NoContent,
                      ws\<lparr>wb_invitations := qinsert invitationId (iv\<lparr>iv_used := True, iv_updatedAt := now\<rparr>)
                            (wb_invitations ws)\<rparr>, []))))"

end
