(* ===== verification/WebQueries.thy ===== *)
theory WebQueries
  imports WebSessions
begin

text \<open>
  The read-only handlers of \<open>src/webapi_routes_session.cpp\<close>: the session lists, one session's
  information, members and data, and the invitations a user received. A handler gives its response.
\<close>

subsection \<open>Choosing sessions\<close>

record SessionRow =
  rw_sessionId :: qstring
  rw_platform :: qstring
  rw_sessionName :: qstring
  rw_locName :: "(qstring, qstring) qhash"
  rw_createdAt :: int
  rw_availablePlatforms :: "qstring list"
  rw_memberCount :: nat
  rw_lockFlag :: bool
  rw_index :: int
  rw_priority :: int
  rw_joinedAt :: int

definition visibleTo :: "int \<Rightarrow> web_state \<Rightarrow> userid \<Rightarrow> Session \<Rightarrow> bool" where
  "visibleTo nowMs ws callerId s \<longleftrightarrow>
     sn_sessionPrivacy s \<noteq> ''private'' \<or> isMember s callerId \<or>
     HasActiveInvitation nowMs ws (sn_sessionId s) callerId"

definition sessionRow :: "userid \<Rightarrow> Session \<Rightarrow> SessionRow option" where
  \<comment> \<open>the last entry of the user counts\<close>
  "sessionRow targetId s =
     map_option (\<lambda>tm. \<lparr>rw_sessionId = sn_sessionId s, rw_platform = sm_platform tm, rw_sessionName = sn_sessionName s,
         rw_locName = sn_localizedSessionNames s, rw_createdAt = sn_createdAt s,
         rw_availablePlatforms = sn_availablePlatforms s, rw_memberCount = length (sn_members s),
         rw_lockFlag = sn_sessionLockFlag s, rw_index = sm_index tm, rw_priority = sm_priority tm,
         rw_joinedAt = sm_joinedAt tm\<rparr>)
       (List.find (\<lambda>m. sm_userId m = targetId) (rev (sn_members s)))"

definition visibleRows :: "int \<Rightarrow> web_state \<Rightarrow> userid \<Rightarrow> userid \<Rightarrow> SessionRow list" where
  "visibleRows nowMs ws targetId callerId =
     List.map_filter (sessionRow targetId) (filter (visibleTo nowMs ws callerId) (qvalues (wb_sessions ws)))"

definition bestRow :: "SessionRow list \<Rightarrow> SessionRow option" where
  \<comment> \<open>the first with the highest priority, among those the latest joined\<close>
  "bestRow rows =
     foldl (\<lambda>best r. case best of
        None \<Rightarrow> Some r
      | Some b \<Rightarrow>
          if rw_priority r > rw_priority b \<or> rw_priority r = rw_priority b \<and> rw_joinedAt r > rw_joinedAt b
          then Some r else best) None rows"

definition CollectUserSessions ::
  "int \<Rightarrow> web_state \<Rightarrow> userid \<Rightarrow> userid \<Rightarrow> int list option \<Rightarrow> SessionRow list" where
  \<comment> \<open>the last argument is the index filter, if the query has one\<close>
  "CollectUserSessions nowMs ws targetId callerId indexFilter =
     (let rows = visibleRows nowMs ws targetId callerId in
      case indexFilter of
        Some f \<Rightarrow> filter (\<lambda>r. rw_index r \<in> set f) rows
      | None \<Rightarrow> (case bestRow rows of None \<Rightarrow> [] | Some b \<Rightarrow> [b]))"

definition ParseIndexFilter :: "web_functions \<Rightarrow> http_request \<Rightarrow> int list option" where
  "ParseIndexFilter wx req =
     (if hasQueryItem req ''index''
      then Some (List.map_filter (wx_toInt wx) (commaList (queryItemValue req ''index''))) else None)"

definition localized :: "qstring \<Rightarrow> qstring \<Rightarrow> (qstring, qstring) qhash \<Rightarrow> qstring" where
  \<comment> \<open>the translation when a language is asked for and there is one\<close>
  "localized npLanguage text translations = (if npLanguage = [] then text else qvalue translations npLanguage text)"

subsection \<open>Session lists\<close>

definition rowFields :: "http_request \<Rightarrow> bool \<Rightarrow> SessionRow \<Rightarrow> json_object" where
  "rowFields req isDefault r =
     (let fields = queryFields req;
          want = (\<lambda>f. f \<in> set fields)
      in joptional (isDefault \<or> want ''platform'') ''platform'' (JString (rw_platform r)) @
         joptional (isDefault \<or> want ''sessionId'') ''sessionId'' (JString (rw_sessionId r)) @
         joptional (want ''sessionName'') ''sessionName''
           (JString (localized (queryItemValue req ''npLanguage'') (rw_sessionName r) (rw_locName r))) @
         joptional (want ''sessionCreateTimestamp'') ''sessionCreateTimestamp'' (JNum (rw_createdAt r)) @
         joptional (want ''availablePlatforms'') ''availablePlatforms'' (jstrings (rw_availablePlatforms r)) @
         joptional (want ''memberCount'') ''memberCount'' (JNum (int (rw_memberCount r))) @
         joptional (want ''sessionLockFlag'') ''sessionLockFlag'' (JBool (rw_lockFlag r)) @
         joptional (want ''index'') ''index'' (JNum (rw_index r)) @
         joptional (want ''priority'') ''priority'' (JNum (rw_priority r)))"

definition listFields :: "http_request \<Rightarrow> SessionRow \<Rightarrow> json_object" where
  "listFields req r =
     (let fields = queryFields req; isDefault = (fields = []) in
      joptional (isDefault \<or> ''platform'' \<in> set fields) ''platform'' (JString (rw_platform r)) @
      joptional (isDefault \<or> ''sessionId'' \<in> set fields) ''sessionId'' (JString (rw_sessionId r)) @
      joptional (''index'' \<in> set fields) ''index'' (JNum (rw_index r)) @
      joptional (''priority'' \<in> set fields) ''priority'' (JNum (rw_priority r)))"

definition HandleSessionList ::
  "web_functions \<Rightarrow> bool \<Rightarrow> qstring \<Rightarrow> http_request \<Rightarrow> int \<Rightarrow> Database \<Rightarrow> web_state \<Rightarrow> http_response" where
  "HandleSessionList wx fault userKey req nowMs db ws =
     (case Authenticate wx fault req db of
        Inl r \<Rightarrow> r
      | Inr me \<Rightarrow>
        (let selected = (case ResolveTarget wx fault userKey me db of
               None \<Rightarrow> []
             | Some targetId \<Rightarrow> CollectUserSessions nowMs ws targetId (fst me) (ParseIndexFilter wx req));
             n = JNum (int (length selected))
         in JsonOk [(''sessions'', JArray (map (JObject \<circ> listFields req) selected)), (''start'', JNum 0),
                    (''size'', n), (''totalResults'', n)]))"

definition HandleMultiUserSessions ::
  "web_functions \<Rightarrow> bool \<Rightarrow> http_request \<Rightarrow> int \<Rightarrow> Database \<Rightarrow> web_state \<Rightarrow> http_response" where
  "HandleMultiUserSessions wx fault req nowMs db ws =
     (case Authenticate wx fault req db of
        Inl r \<Rightarrow> r
      | Inr me \<Rightarrow>
        if \<not> hasQueryItem req ''accountIds''
        then JsonError HttpBadRequest WEBAPI_QUERY_PARAM_REQUIRED
        else
          (let ids = commaList (queryItemValue req ''accountIds'');
               fields = queryFields req
           in if ids = [] \<or> length ids > 50
              then JsonError HttpBadRequest WEBAPI_INVALID_NUM_ELEMS
              else
                JsonOk [(''users'', JArray (List.map_filter (\<lambda>accId.
                  (let rows = CollectUserSessions nowMs ws accId (fst me) (ParseIndexFilter wx req) in
                   if rows = [] then None
                   else Some (JObject
                     [(''onlineId'', JString (case GetUsername fault accId db of None \<Rightarrow> [] | Some n \<Rightarrow> n)),
                      (''accountId'', JString (qstring_number accId)),
                      (''sessions'', JArray (map (JObject \<circ>
                         rowFields req (fields = [] \<or> ''@default'' \<in> set fields)) rows))])))
                  (List.map_filter (wx_toLongLong wx) ids)))]))"

subsection \<open>One session\<close>

definition jmember :: "bool \<Rightarrow> Database \<Rightarrow> SessionMember \<Rightarrow> json" where
  "jmember fault db m =
     JObject [(''accountId'', JString (qstring_number (sm_userId m))),
       (''onlineId'', JString (case GetUsername fault (sm_userId m) db of None \<Rightarrow> sm_npid m | Some n \<Rightarrow> n)),
       (''platform'', JString (sm_platform m))]"

definition accessSession ::
  "int \<Rightarrow> qstring \<Rightarrow> userid \<Rightarrow> web_state \<Rightarrow> http_response + Session" where
  \<comment> \<open>the session, if it is there and the caller may read it\<close>
  "accessSession nowMs sessionId callerId ws =
     (case qfind (wb_sessions ws) sessionId of
        None \<Rightarrow> Inl (JsonError HttpNotFound WEBAPI_RESOURCE_NOT_FOUND)
      | Some s \<Rightarrow>
          if visibleTo nowMs ws callerId s then Inr s
          else Inl (JsonError HttpForbidden SESSION_NOT_PERMITTED))"

definition sessionInfo :: "http_request \<Rightarrow> bool \<Rightarrow> Database \<Rightarrow> Session \<Rightarrow> json_object" where
  "sessionInfo req fault db s =
     (let fields = queryFields req;
          npLanguage = queryItemValue req ''npLanguage''
      in (if fields = [] \<or> ''@default'' \<in> set fields
          then [(''sessionPrivacy'', JString (sn_sessionPrivacy s)), (''sessionMaxUser'', JNum (sn_sessionMaxUser s)),
                (''sessionType'', JString (sn_sessionType s)),
                (''sessionName'', JString (localized npLanguage (sn_sessionName s) (sn_localizedSessionNames s))),
                (''sessionStatus'', JString (localized npLanguage (sn_sessionStatus s) (sn_localizedSessionStatus s))),
                (''sessionCreateTimestamp'', JNum (sn_createdAt s)),
                (''sessionCreator'', juser (case GetUsername fault (sn_ownerUserId s) db of
                    None \<Rightarrow> sn_ownerNpid s | Some n \<Rightarrow> n) (sn_ownerUserId s)),
                (''availablePlatforms'', jstrings (sn_availablePlatforms s))]
          else []) @
         joptional (''members'' \<in> set fields) ''members'' (JArray (map (jmember fault db) (sn_members s))) @
         joptional (''sessionLockFlag'' \<in> set fields) ''sessionLockFlag'' (JBool (sn_sessionLockFlag s)) @
         joptional (''sendNotificationFlag'' \<in> set fields) ''sendNotificationFlag'' (JBool (sn_sendNotificationFlag s)))"

definition HandleSessionGet ::
  "web_functions \<Rightarrow> bool \<Rightarrow> qstring \<Rightarrow> http_request \<Rightarrow> int \<Rightarrow> Database \<Rightarrow> web_state \<Rightarrow> http_response" where
  "HandleSessionGet wx fault sessionId req nowMs db ws =
     (case Authenticate wx fault req db of
        Inl r \<Rightarrow> r
      | Inr me \<Rightarrow> (case accessSession nowMs sessionId (fst me) ws of
                     Inl r \<Rightarrow> r | Inr s \<Rightarrow> JsonOk (sessionInfo req fault db s)))"

definition HandleSessionMembers ::
  "web_functions \<Rightarrow> bool \<Rightarrow> qstring \<Rightarrow> http_request \<Rightarrow> int \<Rightarrow> Database \<Rightarrow> web_state \<Rightarrow> http_response" where
  "HandleSessionMembers wx fault sessionId req nowMs db ws =
     (case Authenticate wx fault req db of
        Inl r \<Rightarrow> r
      | Inr me \<Rightarrow> (case accessSession nowMs sessionId (fst me) ws of
                     Inl r \<Rightarrow> r
                   | Inr s \<Rightarrow> JsonOk [(''members'', JArray (map (jmember fault db) (sn_members s)))]))"

definition callerPlatform :: "SharedState \<Rightarrow> userid \<Rightarrow> qstring" where
  \<comment> \<open>empty when the caller is not connected\<close>
  "callerPlatform sh userId = (case qfind (ss_clients sh) userId of None \<Rightarrow> [] | Some c \<Rightarrow> ce_platform c)"

definition platformExcluded :: "qstring \<Rightarrow> qstring list \<Rightarrow> bool" where
  "platformExcluded platform platforms \<longleftrightarrow> platform \<noteq> [] \<and> platforms \<noteq> [] \<and> platform \<notin> set platforms"

definition HandleSessionGetData ::
  "web_functions \<Rightarrow> bool \<Rightarrow> qstring \<Rightarrow> http_request \<Rightarrow> int \<Rightarrow> Database \<Rightarrow> SharedState \<Rightarrow> web_state \<Rightarrow> http_response" where
  "HandleSessionGetData wx fault sessionId req nowMs db sh ws =
     (case Authenticate wx fault req db of
        Inl r \<Rightarrow> r
      | Inr me \<Rightarrow>
        (case qfind (wb_sessions ws) sessionId of
           None \<Rightarrow> JsonError HttpNotFound WEBAPI_RESOURCE_NOT_FOUND
         | Some s \<Rightarrow>
           (let member = isMember s (fst me);
                private = (sn_sessionPrivacy s = ''private'');
                invited = (private \<and> \<not> member \<and> HasActiveInvitation nowMs ws sessionId (fst me))
            in if platformExcluded (callerPlatform sh (fst me)) (sn_availablePlatforms s)
               then JsonError HttpForbidden SESSION_NOT_PERMITTED
               else if private \<and> \<not> member \<and> \<not> invited
               then JsonError HttpForbidden SESSION_NOT_PERMITTED
               else OctetStream (sn_sessionData s))))"

subsection \<open>Friends' sessions\<close>

definition friendsTop ::
  "int \<Rightarrow> web_state \<Rightarrow> userid \<Rightarrow> (userid \<times> qstring) list \<Rightarrow> SessionRow list" where
  \<comment> \<open>each friend's best session, every session once, in the order of the friends\<close>
  "friendsTop nowMs ws callerId friends =
     foldl (\<lambda>acc (friendId, _).
        (case CollectUserSessions nowMs ws friendId callerId None of
           [] \<Rightarrow> acc
         | r # _ \<Rightarrow> if rw_sessionId r \<in> set (map rw_sessionId acc) then acc else acc @ [r])) [] friends"

definition sessionFriends ::
  "web_state \<Rightarrow> (userid \<times> qstring) list \<Rightarrow> qstring \<Rightarrow> json list" where
  "sessionFriends ws friends sid =
     (case qfind (wb_sessions ws) sid of
        None \<Rightarrow> []
      | Some s \<Rightarrow> List.map_filter (\<lambda>m. map_option (\<lambda>n.
            JObject [(''onlineId'', JString n), (''accountId'', JString (qstring_number (sm_userId m))),
              (''platform'', JString (sm_platform m))])
          (qfind (fold (\<lambda>(i, n). qinsert i n) friends []) (sm_userId m))) (sn_members s))"

definition friendsRow :: "http_request \<Rightarrow> web_state \<Rightarrow> (userid \<times> qstring) list \<Rightarrow> SessionRow \<Rightarrow> json_object" where
  "friendsRow req ws friends r =
     (let fields = queryFields req; want = (\<lambda>f. f \<in> set fields) in
      joptional (fields = [] \<or> want ''@default'' \<or> want ''sessionId'') ''sessionId'' (JString (rw_sessionId r)) @
      joptional (want ''sessionName'') ''sessionName''
        (JString (localized (queryItemValue req ''npLanguage'') (rw_sessionName r) (rw_locName r))) @
      joptional (want ''sessionCreateTimestamp'') ''sessionCreateTimestamp'' (JNum (rw_createdAt r)) @
      joptional (want ''availablePlatforms'') ''availablePlatforms'' (jstrings (rw_availablePlatforms r)) @
      joptional (want ''memberCount'') ''memberCount'' (JNum (int (rw_memberCount r))) @
      joptional (want ''sessionLockFlag'') ''sessionLockFlag'' (JBool (rw_lockFlag r)) @
      joptional (want ''friends'') ''friends'' (JArray (sessionFriends ws friends (rw_sessionId r))))"

definition HandleFriendsSessions ::
  "web_functions \<Rightarrow> faults \<Rightarrow> http_request \<Rightarrow> int \<Rightarrow> Database \<Rightarrow> web_state \<Rightarrow> http_response" where
  "HandleFriendsSessions wx fa req nowMs db ws =
     (case Authenticate wx (fa_account fa) req db of
        Inl r \<Rightarrow> r
      | Inr me \<Rightarrow>
        (let limit = (let v = queryInt wx req ''limit'' 100 in if v < 0 then 0 else if v > 100 then 100 else v);
             offset = (let v = queryInt wx req ''offset'' 0 in if v \<ge> 0 then v else 0);
             friends = (if queryItemValue req ''sessionApplicationType'' = ''party'' then []
                        else rl_friends (GetRelationships fa (fst me) db));
             order = friendsTop nowMs ws (fst me) friends;
             arr = map (JObject \<circ> friendsRow req ws friends) (take (nat limit) (drop (nat offset) order))
         in JsonOk [(''sessions'', JArray arr), (''start'', JNum offset), (''size'', JNum (int (length arr))),
                    (''totalResults'', JNum (int (length order)))]))"

subsection \<open>Invitations received\<close>

definition findInvitation :: "qstring \<Rightarrow> userid \<Rightarrow> web_state \<Rightarrow> Invitation option" where
  \<comment> \<open>another user's invitation does not exist for the caller\<close>
  "findInvitation invitationId userId ws =
     (case qfind (wb_invitations ws) invitationId of
        None \<Rightarrow> None | Some iv \<Rightarrow> if iv_toUserId iv \<noteq> userId then None else Some iv)"

definition ivExpired :: "int \<Rightarrow> Invitation \<Rightarrow> bool" where
  "ivExpired nowMs iv \<longleftrightarrow> iv_validUntil iv \<noteq> 0 \<and> nowMs > iv_validUntil iv"

definition invitedSession :: "http_request \<Rightarrow> Session \<Rightarrow> json_object" where
  "invitedSession req sn =
     (let fields = queryFields req; npLanguage = queryItemValue req ''npLanguage'' in
      [(''sessionId'', JString (sn_sessionId sn)), (''sessionType'', JString (sn_sessionType sn)),
       (''sessionPrivacy'', JString (sn_sessionPrivacy sn)), (''sessionMaxUser'', JNum (sn_sessionMaxUser sn)),
       (''sessionName'', JString (localized npLanguage (sn_sessionName sn) (sn_localizedSessionNames sn))),
       (''sessionStatus'', JString (localized npLanguage (sn_sessionStatus sn) (sn_localizedSessionStatus sn))),
       (''sessionCreator'', juser (sn_ownerNpid sn) (sn_ownerUserId sn)),
       (''sessionCreateTimestamp'', JNum (sn_createdAt sn))] @
      joptional (''session.sessionLockFlag'' \<in> set fields) ''sessionLockFlag'' (JBool (sn_sessionLockFlag sn)) @
      joptional (''members'' \<in> set fields) ''members''
        (JArray (map (\<lambda>m. JObject [(''accountId'', JString (qstring_number (sm_userId m))),
           (''onlineId'', JString (sm_npid m)), (''platform'', JString (sm_platform m))]) (sn_members sn))))"

definition HandleInvitationGet ::
  "web_functions \<Rightarrow> bool \<Rightarrow> qstring \<Rightarrow> http_request \<Rightarrow> int \<Rightarrow> Database \<Rightarrow> web_state \<Rightarrow> http_response" where
  "HandleInvitationGet wx fault invitationId req nowMs db ws =
     (case Authenticate wx fault req db of
        Inl r \<Rightarrow> r
      | Inr me \<Rightarrow>
        (case findInvitation invitationId (fst me) ws of
           None \<Rightarrow> JsonError HttpNotFound WEBAPI_RESOURCE_NOT_FOUND
         | Some iv \<Rightarrow>
           (let fields = queryFields req;
                wantSession = (''session'' \<in> set fields \<or> ''session.sessionLockFlag'' \<in> set fields)
            in JsonOk
                 ((if fields = [] \<or> ''@default'' \<in> set fields
                   then [(''receivedDate'', JString (wx_isoUtc wx (iv_createdAt iv))),
                         (''expired'', JBool (ivExpired nowMs iv)), (''usedFlag'', JBool (iv_used iv)),
                         (''message'', JString (iv_message iv)),
                         (''availablePlatforms'', jstrings (iv_availablePlatforms iv)),
                         (''fromUser'', juser (iv_fromNpid iv) (iv_fromUserId iv))]
                   else []) @
                  (case qfind (wb_sessions ws) (iv_sessionId iv) of
                     None \<Rightarrow> []
                   | Some sn \<Rightarrow> joptional wantSession ''session'' (JObject (invitedSession req sn)))))))"

definition HandleInvitationData ::
  "web_functions \<Rightarrow> bool \<Rightarrow> qstring \<Rightarrow> http_request \<Rightarrow> int \<Rightarrow> Database \<Rightarrow> SharedState \<Rightarrow> web_state \<Rightarrow> http_response" where
  "HandleInvitationData wx fault invitationId req nowMs db sh ws =
     (case Authenticate wx fault req db of
        Inl r \<Rightarrow> r
      | Inr me \<Rightarrow>
        (case findInvitation invitationId (fst me) ws of
           None \<Rightarrow> JsonError HttpNotFound WEBAPI_RESOURCE_NOT_FOUND
         | Some iv \<Rightarrow>
           if ivExpired nowMs iv \<or> iv_used iv then JsonError HttpNotFound INVITATION_EXPIRED
           else if platformExcluded (callerPlatform sh (fst me)) (iv_availablePlatforms iv)
           then JsonError HttpNotFound WEBAPI_RESOURCE_NOT_FOUND
           else if iv_hasInvitationData iv then OctetStream (iv_invitationData iv)
           else (case qfind (wb_sessions ws) (iv_sessionId iv) of
                   None \<Rightarrow> JsonError HttpNotFound WEBAPI_RESOURCE_NOT_FOUND
                 | Some sn \<Rightarrow> OctetStream (if sn_sessionData sn \<noteq> [] then sn_sessionData sn
                                            else sn_changeableSessionData sn))))"

definition invitationEntry :: "web_functions \<Rightarrow> http_request \<Rightarrow> int \<Rightarrow> Invitation \<Rightarrow> json_object" where
  "invitationEntry wx req nowMs iv =
     (let fields = queryFields req; want = (\<lambda>f. f \<in> set fields) in
      [(''invitationId'', JString (iv_invitationId iv)), (''usedFlag'', JBool (iv_used iv))] @
      joptional (want ''sessionId'') ''sessionId'' (JString (iv_sessionId iv)) @
      joptional (want ''receivedDate'') ''receivedDate'' (JString (wx_isoUtc wx (iv_createdAt iv))) @
      joptional (want ''expired'') ''expired'' (JBool (ivExpired nowMs iv)) @
      joptional (want ''updateDate'') ''updateDate'' (JString (wx_isoUtc wx (iv_updatedAt iv))) @
      joptional (want ''fromUser'') ''fromUser'' (juser (iv_fromNpid iv) (iv_fromUserId iv)))"

definition HandleInvitationList ::
  "web_functions \<Rightarrow> bool \<Rightarrow> http_request \<Rightarrow> int \<Rightarrow> Database \<Rightarrow> web_state \<Rightarrow> http_response" where
  "HandleInvitationList wx fault req nowMs db ws =
     (case Authenticate wx fault req db of
        Inl r \<Rightarrow> r
      | Inr me \<Rightarrow>
        (let arr = map (JObject \<circ> invitationEntry wx req nowMs)
               (filter (\<lambda>iv. iv_toUserId iv = fst me) (qvalues (wb_invitations ws)));
             n = JNum (int (length arr))
         in JsonOk [(''invitations'', JArray arr), (''start'', JNum 0), (''size'', n), (''totalResult'', n)]))"

end
