(* ===== verification/WebInvariant.thy ===== *)
theory WebInvariant
  imports WebQueries
begin

text \<open>
  What the session manager keeps true: every session is stored under its id, has distinct members of
  whom the owner is one, at most 256 of them, and no user holds the same index in two sessions; every
  invitation is stored under its id.
\<close>

subsection \<open>The invariant\<close>

definition seats :: "Session \<Rightarrow> (userid \<times> int) set" where
  "seats s = set (map (\<lambda>m. (sm_userId m, sm_index m)) (sn_members s))"

definition session_ok :: "qstring \<Rightarrow> Session \<Rightarrow> bool" where
  "session_ok k s \<longleftrightarrow>
     k = sn_sessionId s \<and> sn_sessionType s \<in> {owner_bind, owner_migration} \<and>
     distinct (map sm_userId (sn_members s)) \<and> length (sn_members s) \<le> 256 \<and>
     (sn_ownerUserId s, sn_ownerNpid s) \<in> (\<lambda>m. (sm_userId m, sm_npid m)) ` set (sn_members s)"

definition one_per_index :: "(qstring, Session) qhash \<Rightarrow> bool" where
  "one_per_index h \<longleftrightarrow>
     (\<forall>k s k' s'. (k, s) \<in> set h \<longrightarrow> (k', s') \<in> set h \<longrightarrow> k \<noteq> k' \<longrightarrow> seats s \<inter> seats s' = {})"

definition web_ok :: "web_state \<Rightarrow> bool" where
  [inv_defs]: "web_ok ws \<longleftrightarrow>
     qdistinct (wb_sessions ws) \<and> (\<forall>k s. (k, s) \<in> set (wb_sessions ws) \<longrightarrow> session_ok k s) \<and>
     one_per_index (wb_sessions ws) \<and>
     qdistinct (wb_invitations ws) \<and> (\<forall>k iv. (k, iv) \<in> set (wb_invitations ws) \<longrightarrow> iv_invitationId iv = k)"

lemma web_ok_empty: "web_ok web_empty"
  by (simp add: web_ok_def web_empty_def one_per_index_def)

lemma web_ok_seats:
  "web_ok ws \<Longrightarrow> (k, s) \<in> set (wb_sessions ws) \<Longrightarrow> (k', s') \<in> set (wb_sessions ws) \<Longrightarrow> k' \<noteq> k \<Longrightarrow> x \<in> seats s \<Longrightarrow> x \<notin> seats s'"
  unfolding web_ok_def one_per_index_def by (metis disjoint_iff)

lemma one_per_indexI:
  "(\<And>k s k' s' x. (k, s) \<in> set h \<Longrightarrow> (k', s') \<in> set h \<Longrightarrow> k \<noteq> k' \<Longrightarrow> x \<in> seats s \<Longrightarrow> x \<in> seats s' \<Longrightarrow> False) \<Longrightarrow> one_per_index h"
  unfolding one_per_index_def by (metis disjoint_iff)

lemma isMember_set: "isMember s u \<longleftrightarrow> u \<in> sm_userId ` set (sn_members s)"
  by (auto simp: isMember_def list_ex_iff image_iff)

lemma seats_member: "(u, i) \<in> seats s \<Longrightarrow> isMember s u"
  by (auto simp: seats_def isMember_set)

lemma web_ok_session: "web_ok ws \<Longrightarrow> qfind (wb_sessions ws) k = Some s \<Longrightarrow> session_ok k s"
  by (auto simp: web_ok_def qfind_in_set)

lemma web_ok_remove:
  assumes "web_ok ws"
  shows "web_ok (ws\<lparr>wb_sessions := qremove k (wb_sessions ws)\<rparr>)"
proof -
  have "one_per_index (qremove k (wb_sessions ws))"
    by (rule one_per_indexI) (auto simp: set_qremove dest: web_ok_seats [OF assms])
  with assms show ?thesis by (simp add: web_ok_def set_qremove)
qed

lemma web_ok_put:
  assumes "web_ok ws" "session_ok k s"
    and new: "\<And>k' s' x. (k', s') \<in> set (wb_sessions ws) \<Longrightarrow> k' \<noteq> k \<Longrightarrow> x \<in> seats s \<Longrightarrow> x \<notin> seats s'"
  shows "web_ok (ws\<lparr>wb_sessions := qinsert k s (wb_sessions ws)\<rparr>)"
proof -
  have d: "qdistinct (wb_sessions ws)" using assms(1) by (simp add: web_ok_def)
  have "one_per_index (qinsert k s (wb_sessions ws))"
    by (rule one_per_indexI) (auto simp: set_qinsert [OF d] dest: new web_ok_seats [OF assms(1)])
  with assms(1,2) d show ?thesis by (auto simp: web_ok_def set_qinsert)
qed

lemma web_ok_shrink:
  \<comment> \<open>a session replaced by one with no further seats\<close>
  assumes "web_ok ws" "qfind (wb_sessions ws) k = Some s0" "session_ok k s" "seats s \<subseteq> seats s0"
  shows "web_ok (ws\<lparr>wb_sessions := qinsert k s (wb_sessions ws)\<rparr>)"
proof (rule web_ok_put [OF assms(1,3)])
  fix k' s' x assume "(k', s') \<in> set (wb_sessions ws)" "k' \<noteq> k" "x \<in> seats s"
  then show "x \<notin> seats s'"
    using web_ok_seats [OF assms(1) map_of_SomeD [OF assms(2)]] assms(4) by blast
qed

subsection \<open>Leaving\<close>

lemma removeFirst_filter:
  "distinct (map f xs) \<Longrightarrow> (\<And>x. x \<in> set xs \<Longrightarrow> P x \<Longrightarrow> f x = u) \<Longrightarrow> removeFirst P xs = filter (\<lambda>x. \<not> P x) xs"
proof (induction xs)
  case Nil
  then show ?case by (simp add: removeFirst_def)
next
  case (Cons x xs)
  show ?case
  proof (cases "P x")
    case True
    then have "f x = u" using Cons.prems(2) by simp
    then have "\<not> P y" if "y \<in> set xs" for y
      using that Cons.prems by (metis list.set_intros(2) distinct.simps(2) list.map(2) image_eqI list.set_map)
    then have "filter (\<lambda>x. \<not> P x) xs = xs" by (simp add: filter_id_conv)
    with True show ?thesis by (simp add: removeFirst_def)
  next
    case False
    with Cons show ?thesis by (simp add: removeFirst_def)
  qed
qed

lemma settleOwner_ok:
  assumes "session_ok k s" and P: "\<And>m. m \<in> set (sn_members s) \<Longrightarrow> P m \<Longrightarrow> sm_userId m = u"
    and "settleOwner u (s\<lparr>sn_members := removeFirst P (sn_members s)\<rparr>) = Some s'"
  shows "session_ok k s' \<and> sn_members s' = filter (\<lambda>m. \<not> P m) (sn_members s)"
proof -
  have f: "removeFirst P (sn_members s) = filter (\<lambda>m. \<not> P m) (sn_members s)"
    using assms(1) by (intro removeFirst_filter [where f = sm_userId and u = u]) (auto simp: session_ok_def P)
  have d: "distinct (map sm_userId (filter (\<lambda>m. \<not> P m) (sn_members s)))"
    using assms(1) by (simp add: session_ok_def distinct_map_filter)
  have l: "length (filter (\<lambda>m. \<not> P m) (sn_members s)) \<le> 256"
    using assms(1) by (simp add: session_ok_def) (meson length_filter_le le_trans)
  show ?thesis
  proof (cases "sn_ownerUserId s = u")
    case False
    obtain m where m: "m \<in> set (sn_members s)" "sm_userId m = sn_ownerUserId s" "sm_npid m = sn_ownerNpid s"
      using assms(1) by (auto simp: session_ok_def)
    with False P have "\<not> P m" by metis
    with m have o: "(sn_ownerUserId s, sn_ownerNpid s) \<in> (\<lambda>m. (sm_userId m, sm_npid m)) ` set (filter (\<lambda>m. \<not> P m) (sn_members s))"
      by force
    from False assms(3) f have "s' = s\<lparr>sn_members := filter (\<lambda>m. \<not> P m) (sn_members s)\<rparr>"
      by (simp add: settleOwner_def split: if_splits)
    with o d l assms(1) show ?thesis by (simp add: session_ok_def)
  next
    case True
    let ?ms = "filter (\<lambda>m. \<not> P m) (sn_members s)"
    from True assms(3) f have n: "?ms \<noteq> []"
      and "s' = s\<lparr>sn_members := ?ms, sn_ownerUserId := sm_userId (hd ?ms), sn_ownerNpid := sm_npid (hd ?ms)\<rparr>"
      by (simp_all add: settleOwner_def split: if_splits)
    moreover have "(sm_userId (hd ?ms), sm_npid (hd ?ms)) \<in> (\<lambda>m. (sm_userId m, sm_npid m)) ` set ?ms"
      by (rule imageI [where f = "\<lambda>m. (sm_userId m, sm_npid m)"]) (rule hd_in_set [OF n])
    ultimately show ?thesis using d l assms(1) by (simp add: session_ok_def del: filter_empty_conv)
  qed
qed

lemma seats_filter: "sn_members s' = filter Q (sn_members s) \<Longrightarrow> seats s' \<subseteq> seats s"
  by (auto simp: seats_def)

lemma atIndex_user: "atIndex u i m \<Longrightarrow> sm_userId m = u"
  by (simp add: atIndex_def)

lemma seats_atIndex: "(u, i) \<in> seats s \<longleftrightarrow> list_ex (atIndex u i) (sn_members s)"
  by (auto simp: seats_def list_ex_iff atIndex_def)

lemma find_entry:
  "qdistinct h \<Longrightarrow> List.find (\<lambda>(k, s). P s) h = Some (k, s) \<Longrightarrow> qfind h k = Some s \<and> P s"
  by (auto dest!: find_SomeD simp: qfind_in_set)

lemma LeaveSessionAtIndex_ok:
  assumes "web_ok ws"
  shows "web_ok (LeaveSessionAtIndex u i ws)"
    and "(k, s) \<in> set (wb_sessions (LeaveSessionAtIndex u i ws)) \<Longrightarrow> (u, i) \<notin> seats s"
    and "qfind (wb_sessions ws) k = Some s \<Longrightarrow> (u, i) \<notin> seats s \<Longrightarrow>
      qfind (wb_sessions (LeaveSessionAtIndex u i ws)) k = Some s"
    and "wb_invitations (LeaveSessionAtIndex u i ws) = wb_invitations ws"
proof -
  let ?f = "List.find (\<lambda>(k, s). list_ex (atIndex u i) (sn_members s)) (wb_sessions ws)"
  have dist: "qdistinct (wb_sessions ws)" using assms by (simp add: web_ok_def)
  show "wb_invitations (LeaveSessionAtIndex u i ws) = wb_invitations ws"
    by (simp add: LeaveSessionAtIndex_def split: option.split)
  have *: "web_ok (LeaveSessionAtIndex u i ws) \<and>
      (\<forall>k s. (k, s) \<in> set (wb_sessions (LeaveSessionAtIndex u i ws)) \<longrightarrow> (u, i) \<notin> seats s) \<and>
      (\<forall>k s. qfind (wb_sessions ws) k = Some s \<and> (u, i) \<notin> seats s \<longrightarrow>
        qfind (wb_sessions (LeaveSessionAtIndex u i ws)) k = Some s)"
  proof (cases ?f)
    case None
    then have "\<forall>k s. (k, s) \<in> set (wb_sessions ws) \<longrightarrow> (u, i) \<notin> seats s"
      by (auto simp: find_None_iff seats_atIndex)
    with None assms show ?thesis by (simp add: LeaveSessionAtIndex_def)
  next
    case (Some p)
    obtain k0 s0 where p: "p = (k0, s0)" by (cases p)
    have s0: "qfind (wb_sessions ws) k0 = Some s0" "list_ex (atIndex u i) (sn_members s0)"
      using find_entry [OF dist, where P = "\<lambda>s. list_ex (atIndex u i) (sn_members s)"] Some p by auto
    then have only: "(u, i) \<in> seats s0" by (simp add: seats_atIndex)
    have other: "(u, i) \<notin> seats s" if "(k, s) \<in> set (wb_sessions ws)" "k \<noteq> k0" for k s
      using that web_ok_seats [OF assms map_of_SomeD [OF s0(1)]] only by blast
    show ?thesis
    proof (cases "settleOwner u (s0\<lparr>sn_members := removeFirst (atIndex u i) (sn_members s0)\<rparr>)")
      case None
      then have L: "LeaveSessionAtIndex u i ws = ws\<lparr>wb_sessions := qremove k0 (wb_sessions ws)\<rparr>"
        using Some p by (simp add: LeaveSessionAtIndex_def)
      show ?thesis unfolding L
        using web_ok_remove [OF assms] other only s0 by (auto simp: set_qremove qfind_qremove)
    next
      case (Some s')
      then have L: "LeaveSessionAtIndex u i ws = ws\<lparr>wb_sessions := qinsert k0 s' (wb_sessions ws)\<rparr>"
        using \<open>?f = Some p\<close> p by (simp add: LeaveSessionAtIndex_def)
      have s': "session_ok k0 s'" "sn_members s' = filter (\<lambda>m. \<not> atIndex u i m) (sn_members s0)"
        using settleOwner_ok [OF web_ok_session [OF assms s0(1)] _ Some] by (auto simp: atIndex_user)
      have "web_ok (ws\<lparr>wb_sessions := qinsert k0 s' (wb_sessions ws)\<rparr>)"
        by (rule web_ok_shrink [OF assms s0(1) s'(1) seats_filter [OF s'(2)]])
      moreover have "(u, i) \<notin> seats s'" by (simp add: seats_atIndex s'(2) list_ex_iff)
      ultimately show ?thesis unfolding L
        using other only s0 dist by (auto simp: set_qinsert qfind_qinsert)
    qed
  qed
  from * show "web_ok (LeaveSessionAtIndex u i ws)" by blast
  from * show "(k, s) \<in> set (wb_sessions (LeaveSessionAtIndex u i ws)) \<Longrightarrow> (u, i) \<notin> seats s" by blast
  from * show "qfind (wb_sessions ws) k = Some s \<Longrightarrow> (u, i) \<notin> seats s \<Longrightarrow>
      qfind (wb_sessions (LeaveSessionAtIndex u i ws)) k = Some s" by blast
qed

lemma RemoveMember_ok:
  assumes "session_ok k s" and "RemoveMemberApplyOwner u s = (r, Some s')"
  shows "session_ok k s' \<and> sn_members s' = filter (\<lambda>m. sm_userId m \<noteq> u) (sn_members s)"
proof (cases "isMember s u")
  case True
  with assms(2) have "settleOwner u (s\<lparr>sn_members := removeFirst (\<lambda>m. sm_userId m = u) (sn_members s)\<rparr>) = Some s'"
    by (simp add: RemoveMemberApplyOwner_def)
  from settleOwner_ok [OF assms(1) _ this] show ?thesis by simp
next
  case False
  then have "filter (\<lambda>m. sm_userId m \<noteq> u) (sn_members s) = sn_members s"
    by (auto simp: isMember_set filter_id_conv)
  with False assms show ?thesis by (simp add: RemoveMemberApplyOwner_def)
qed

lemma map_filter_keys:
  "qdistinct h \<Longrightarrow> qdistinct (List.map_filter (\<lambda>(k, s). map_option (Pair k) (g s)) h)"
  "(k, s') \<in> set (List.map_filter (\<lambda>(k, s). map_option (Pair k) (g s)) h) \<longleftrightarrow> (\<exists>s. (k, s) \<in> set h \<and> g s = Some s')"
proof -
  have m: "(k, s') \<in> set (List.map_filter (\<lambda>(k, s). map_option (Pair k) (g s)) h) \<longleftrightarrow> (\<exists>s. (k, s) \<in> set h \<and> g s = Some s')"
    for k s' and h :: "('a \<times> 'b) list"
    by (induction h) (auto simp: List.map_filter_simps split: option.splits)
  show "(k, s') \<in> set (List.map_filter (\<lambda>(k, s). map_option (Pair k) (g s)) h) \<longleftrightarrow> (\<exists>s. (k, s) \<in> set h \<and> g s = Some s')"
    by (rule m)
  have "fst ` set (List.map_filter (\<lambda>(k, s). map_option (Pair k) (g s)) h) \<subseteq> fst ` set h" for h :: "('a \<times> 'b) list"
    by (force simp: m)
  then have "k \<notin> fst ` set (List.map_filter (\<lambda>(k, s). map_option (Pair k) (g s)) h)" if "k \<notin> fst ` set h" for k and h :: "('a \<times> 'b) list"
    using that by blast
  then show "qdistinct h \<Longrightarrow> qdistinct (List.map_filter (\<lambda>(k, s). map_option (Pair k) (g s)) h)"
    by (induction h) (auto simp only: List.map_filter_simps qdistinct_def split: option.splits prod.splits,
        simp_all)
qed

lemma Purge_sessions:
  "wb_sessions (fst (PurgeUserFromSessions wx now u sh ws)) =
    List.map_filter (\<lambda>(k, s). map_option (Pair k) (snd (RemoveMemberApplyOwner u s))) (wb_sessions ws)"
  "wb_invitations (fst (PurgeUserFromSessions wx now u sh ws)) = wb_invitations ws"
  by (simp_all add: PurgeUserFromSessions_def Let_def)

lemma Purge_ok:
  assumes "web_ok ws"
  shows "web_ok (fst (PurgeUserFromSessions wx now u sh ws))"
proof -
  let ?h = "wb_sessions (fst (PurgeUserFromSessions wx now u sh ws))"
  have old: "\<exists>s. (k, s) \<in> set (wb_sessions ws) \<and> session_ok k s' \<and> seats s' \<subseteq> seats s" if "(k, s') \<in> set ?h" for k s'
  proof -
    from that obtain s r where s: "(k, s) \<in> set (wb_sessions ws)" "RemoveMemberApplyOwner u s = (r, Some s')"
      by (auto simp: Purge_sessions map_filter_keys) (metis prod.collapse)
    moreover have "session_ok k s" using s(1) assms by (simp add: web_ok_def)
    ultimately show ?thesis using RemoveMember_ok seats_filter by blast
  qed
  have "one_per_index ?h"
  proof (rule one_per_indexI)
    fix k s k' s' x
    assume a: "(k, s) \<in> set ?h" "(k', s') \<in> set ?h" "k \<noteq> k'" "x \<in> seats s" "x \<in> seats s'"
    obtain t where t: "(k, t) \<in> set (wb_sessions ws)" "seats s \<subseteq> seats t" using old [OF a(1)] by blast
    obtain t' where t': "(k', t') \<in> set (wb_sessions ws)" "seats s' \<subseteq> seats t'" using old [OF a(2)] by blast
    have "x \<notin> seats t'" by (rule web_ok_seats [OF assms t(1) t'(1)]) (use a t in auto)
    with a t' show False by blast
  qed
  moreover have "qdistinct ?h" using assms by (simp add: Purge_sessions web_ok_def map_filter_keys(1))
  moreover have "session_ok k s'" if "(k, s') \<in> set ?h" for k s' using old [OF that] by blast
  ultimately show ?thesis using assms by (simp add: web_ok_def Purge_sessions(2))
qed

subsection \<open>Joining\<close>

lemma web_ok_take_seat:
  \<comment> \<open>a session with one further seat, after the user left that index elsewhere\<close>
  assumes ws: "web_ok ws" and s: "session_ok k s" "seats s \<subseteq> insert (u, i) old"
    and old: "\<And>k' s' x. (k', s') \<in> set (wb_sessions (LeaveSessionAtIndex u i ws)) \<Longrightarrow> k' \<noteq> k \<Longrightarrow> x \<in> old \<Longrightarrow> x \<notin> seats s'"
  shows "web_ok ((LeaveSessionAtIndex u i ws)\<lparr>wb_sessions := qinsert k s (wb_sessions (LeaveSessionAtIndex u i ws))\<rparr>)"
proof (rule web_ok_put [OF LeaveSessionAtIndex_ok(1) [OF ws] s(1)])
  fix k' s' x assume a: "(k', s') \<in> set (wb_sessions (LeaveSessionAtIndex u i ws))" "k' \<noteq> k" "x \<in> seats s"
  show "x \<notin> seats s'"
  proof (cases "x = (u, i)")
    case True
    with LeaveSessionAtIndex_ok(2) [OF ws a(1)] show ?thesis by simp
  next
    case False
    with a s(2) have "x \<in> old" by blast
    with old a show ?thesis by blast
  qed
qed

lemma newWebSession_sel:
  "sn_sessionId (newWebSession obj blobs k me pf now) = k"
  "sn_sessionType (newWebSession obj blobs k me pf now) = jtoString (jvalue obj ''sessionType'')"
  "sn_ownerUserId (newWebSession obj blobs k me pf now) = fst me"
  "sn_ownerNpid (newWebSession obj blobs k me pf now) = snd me"
  "sn_members (newWebSession obj blobs k me pf now) = [\<lparr>sm_userId = fst me, sm_npid = snd me, sm_platform = pf,
     sm_index = jtoInt 0 (jvalue obj ''index''), sm_priority = jtoInt 0 (jvalue obj ''priority''), sm_joinedAt = now\<rparr>]"
  by (simp_all only: newWebSession_def Let_def case_prod_unfold Session.simps)

lemma newWebSession_ok:
  assumes "jtoString (jvalue obj ''sessionType'') \<in> {owner_bind, owner_migration}"
  shows "session_ok k (newWebSession obj blobs k me pf now)"
    and "seats (newWebSession obj blobs k me pf now) = {(fst me, jtoInt 0 (jvalue obj ''index''))}"
  using assms by (simp_all only: newWebSession_sel session_ok_def seats_def) simp_all

lemma updateWebSession_ok:
  "sn_members (updateWebSession obj s) = sn_members s"
  "session_ok k (updateWebSession obj s) \<longleftrightarrow> session_ok k s"
  "seats (updateWebSession obj s) = seats s"
  by (simp_all add: updateWebSession_def session_ok_def seats_def Let_def split: prod.split)

lemma rejoin_keys:
  "map (\<lambda>m. (sm_userId m, sm_npid m, sm_index m)) (sn_members (rejoin u p now s)) =
    map (\<lambda>m. (sm_userId m, sm_npid m, sm_index m)) (sn_members s)"
proof -
  let ?k = "\<lambda>m. (sm_userId m, sm_npid m, sm_index m)" and ?P = "\<lambda>m. sm_userId m \<noteq> u"
  let ?c = "\<lambda>ms. case dropWhile ?P ms of [] \<Rightarrow> [] | m # ms \<Rightarrow> m\<lparr>sm_priority := p, sm_joinedAt := now\<rparr> # ms"
  have c: "map ?k (?c (sn_members s)) = map ?k (dropWhile ?P (sn_members s))"
    by (cases "dropWhile ?P (sn_members s)") (simp_all only: list.case list.map, simp)
  have "sn_members (rejoin u p now s) = takeWhile ?P (sn_members s) @ ?c (sn_members s)"
    by (simp add: rejoin_def)
  then have "map ?k (sn_members (rejoin u p now s)) = map ?k (takeWhile ?P (sn_members s)) @ map ?k (dropWhile ?P (sn_members s))"
    by (simp only: map_append c)
  then show ?thesis by (simp only: map_append [symmetric] takeWhile_dropWhile_id)
qed

lemma rejoin_ok:
  "session_ok k (rejoin u p now s) \<longleftrightarrow> session_ok k s"
  "seats (rejoin u p now s) = seats s"
proof -
  let ?k = "\<lambda>m. (sm_userId m, sm_npid m, sm_index m)"
  have e: "map (g \<circ> ?k) (sn_members (rejoin u p now s)) = map (g \<circ> ?k) (sn_members s)" for g :: "_ \<Rightarrow> 'z"
    by (simp only: map_map [symmetric] rejoin_keys)
  have "map sm_userId (sn_members (rejoin u p now s)) = map sm_userId (sn_members s)"
    using e [of fst] by (simp add: comp_def)
  moreover have n: "map (\<lambda>m. (sm_userId m, sm_npid m)) (sn_members (rejoin u p now s)) = map (\<lambda>m. (sm_userId m, sm_npid m)) (sn_members s)"
    using e [of "\<lambda>(a, b, c). (a, b)"] by (simp add: comp_def)
  moreover have "map (\<lambda>m. (sm_userId m, sm_index m)) (sn_members (rejoin u p now s)) = map (\<lambda>m. (sm_userId m, sm_index m)) (sn_members s)"
    using e [of "\<lambda>(a, b, c). (a, c)"] by (simp add: comp_def)
  moreover have "sn_sessionId (rejoin u p now s) = sn_sessionId s" "sn_sessionType (rejoin u p now s) = sn_sessionType s"
      "sn_ownerUserId (rejoin u p now s) = sn_ownerUserId s" "sn_ownerNpid (rejoin u p now s) = sn_ownerNpid s"
    by (simp_all add: rejoin_def)
  moreover from n have "length (sn_members (rejoin u p now s)) = length (sn_members s)"
    "(\<lambda>m. (sm_userId m, sm_npid m)) ` set (sn_members (rejoin u p now s)) = (\<lambda>m. (sm_userId m, sm_npid m)) ` set (sn_members s)"
    by (rule map_eq_imp_length_eq, metis list.set_map)
  ultimately show "session_ok k (rejoin u p now s) \<longleftrightarrow> session_ok k s" "seats (rejoin u p now s) = seats s"
    by (simp_all only: session_ok_def seats_def)
qed

lemma join_member_ok:
  assumes "session_ok k s" "\<not> isMember s u" "length (sn_members s) < 256"
  shows "session_ok k (s\<lparr>sn_members := sn_members s @ [\<lparr>sm_userId = u, sm_npid = n, sm_platform = pf, sm_index = i, sm_priority = p, sm_joinedAt = t\<rparr>]\<rparr>)"
    and "seats (s\<lparr>sn_members := sn_members s @ [\<lparr>sm_userId = u, sm_npid = n, sm_platform = pf, sm_index = i, sm_priority = p, sm_joinedAt = t\<rparr>]\<rparr>)
      = insert (u, i) (seats s)"
  using assms by (auto simp: session_ok_def seats_def isMember_set)

end
