(* ===== verification/WebMachine.thy ===== *)
theory WebMachine
  imports WebInvariant
begin

text \<open>
  All requests that change sessions or invitations as one machine. Each does one of the changes of
  the relation \<open>web_change\<close>, and those keep the invariant of \<open>WebInvariant\<close>.
\<close>

subsection \<open>The machine\<close>

datatype web_event =
    WeCreate bool http_request qstring int            \<comment> \<open>failing queries, request, UUID, clock\<close>
  | WeUpdate bool qstring http_request int
  | WeDelete bool qstring http_request
  | WeJoin bool qstring http_request int
  | WeLeave bool qstring qstring http_request int
  | WeInvite bool qstring http_request "nat \<Rightarrow> qstring" int
  | WeUse bool qstring http_request int

fun web_handle :: "web_functions \<Rightarrow> Database \<Rightarrow> SharedState \<Rightarrow> web_state \<Rightarrow> web_event \<Rightarrow> web_result" where
  "web_handle wx db sh ws (WeCreate fault req uuid now) = HandleSessionCreate wx fault req uuid now db sh ws"
| "web_handle wx db sh ws (WeUpdate fault k req now) = HandleSessionUpdate wx fault k req now db sh ws"
| "web_handle wx db sh ws (WeDelete fault k req) = HandleSessionDelete wx fault k req db ws"
| "web_handle wx db sh ws (WeJoin fault k req now) = HandleSessionJoin wx fault k req now db sh ws"
| "web_handle wx db sh ws (WeLeave fault k m req now) = HandleSessionLeave wx fault k m req now db sh ws"
| "web_handle wx db sh ws (WeInvite fault k req uuids now) = HandleSessionInvite wx fault k req uuids now db sh ws"
| "web_handle wx db sh ws (WeUse fault i req now) = HandleInvitationUse wx fault i req now db ws"

abbreviation web_after :: "web_result \<Rightarrow> web_state" where
  "web_after r \<equiv> fst (snd r)"

fun web_sender :: "web_functions \<Rightarrow> Database \<Rightarrow> web_event \<Rightarrow> http_response + userid \<times> qstring" where
  "web_sender wx db (WeCreate fault req uuid now) = Authenticate wx fault req db"
| "web_sender wx db (WeUpdate fault k req now) = Authenticate wx fault req db"
| "web_sender wx db (WeDelete fault k req) = Authenticate wx fault req db"
| "web_sender wx db (WeJoin fault k req now) = Authenticate wx fault req db"
| "web_sender wx db (WeLeave fault k m req now) = Authenticate wx fault req db"
| "web_sender wx db (WeInvite fault k req uuids now) = Authenticate wx fault req db"
| "web_sender wx db (WeUse fault i req now) = Authenticate wx fault req db"

lemma web_unauthenticated: "web_sender wx db e = Inl r \<Longrightarrow> web_handle wx db sh ws e = (r, ws, [])"
  by (cases e) (simp_all add: HandleSessionCreate_def HandleSessionUpdate_def HandleSessionDelete_def
      HandleSessionJoin_def HandleSessionLeave_def HandleSessionInvite_def HandleInvitationUse_def)

subsection \<open>What a request may change\<close>

definition put_session :: "qstring \<Rightarrow> Session \<Rightarrow> web_state \<Rightarrow> web_state" where
  "put_session k s ws = ws\<lparr>wb_sessions := qinsert k s (wb_sessions ws)\<rparr>"

definition take_seat :: "userid \<Rightarrow> int \<Rightarrow> qstring \<Rightarrow> Session \<Rightarrow> web_state \<Rightarrow> web_state" where
  \<comment> \<open>the user leaves the index elsewhere and the session is stored with the user in it\<close>
  "take_seat u i k s ws = put_session k s (LeaveSessionAtIndex u i ws)"

definition web_caller :: "Database \<Rightarrow> SharedState \<Rightarrow> userid \<Rightarrow> bool" where
  \<comment> \<open>has an account and is connected\<close>
  "web_caller db sh u \<longleftrightarrow> u \<in> fst ` set (db_accounts db) \<and> qfind (ss_clients sh) u \<noteq> None"

inductive web_change :: "Database \<Rightarrow> SharedState \<Rightarrow> web_state \<Rightarrow> web_state \<Rightarrow> bool"
  for db :: Database and sh :: SharedState where
  change_nothing: "web_change db sh ws ws"
| change_create: "web_change db sh ws (take_seat u i k s ws)"
    if "web_caller db sh u" and "session_ok k s" and "seats s = {(u, i)}"
| change_join: "web_change db sh ws (take_seat (sm_userId m) (sm_index m) k (s\<lparr>sn_members := sn_members s @ [m]\<rparr>) ws)"
    if "web_caller db sh (sm_userId m)" and "qfind (wb_sessions ws) k = Some s"
      and "\<not> isMember s (sm_userId m)" and "length (sn_members s) < 256"
| change_session: "web_change db sh ws (put_session k s' ws)"
    if "qfind (wb_sessions ws) k = Some s" and "session_ok k s \<Longrightarrow> session_ok k s' \<and> seats s' \<subseteq> seats s"
| change_remove: "web_change db sh ws (ws\<lparr>wb_sessions := qremove k (wb_sessions ws)\<rparr>)"
| change_invitations: "web_change db sh ws (ws\<lparr>wb_invitations := fold (\<lambda>iv. qinsert (iv_invitationId iv) iv) ivs (wb_invitations ws)\<rparr>)"

inductive_cases web_changeE: "web_change db sh ws ws'"

lemma fold_invitations:
  "qdistinct h \<Longrightarrow> \<forall>k iv. (k, iv) \<in> set h \<longrightarrow> iv_invitationId iv = k \<Longrightarrow>
    qdistinct (fold (\<lambda>iv. qinsert (iv_invitationId iv) iv) ivs h) \<and>
    (\<forall>k iv. (k, iv) \<in> set (fold (\<lambda>iv. qinsert (iv_invitationId iv) iv) ivs h) \<longrightarrow> iv_invitationId iv = k)"
proof (induction ivs arbitrary: h)
  case (Cons iv ivs)
  have "(k, i) \<in> set (qinsert (iv_invitationId iv) iv h) \<Longrightarrow> iv_invitationId i = k" for k i
    using Cons.prems(2) unfolding set_qinsert [OF Cons.prems(1)] by blast
  then show ?case
    unfolding fold_Cons comp_apply by (intro Cons.IH allI impI qdistinct_qinsert Cons.prems(1))
qed simp

lemma web_change_ok: "web_change db sh ws ws' \<Longrightarrow> web_ok ws \<Longrightarrow> web_ok ws'"
proof (induction rule: web_change.induct)
  case (change_create u k s i ws)
  then show ?case unfolding take_seat_def put_session_def by (intro web_ok_take_seat [where old = "{}"]) auto
next
  case (change_join m ws k s)
  let ?s = "s\<lparr>sn_members := sn_members s @ [m]\<rparr>" and ?ws = "LeaveSessionAtIndex (sm_userId m) (sm_index m) ws"
  have s: "session_ok k s" by (rule web_ok_session [OF change_join(5,2)])
  obtain u n pf i p t where m: "m = \<lparr>sm_userId = u, sm_npid = n, sm_platform = pf, sm_index = i, sm_priority = p, sm_joinedAt = t\<rparr>"
    by (rule SessionMember.cases)
  have j: "session_ok k ?s" "seats ?s = insert (sm_userId m, sm_index m) (seats s)"
    using join_member_ok [OF s change_join(3,4) [unfolded m SessionMember.simps], of n pf i p t] by (simp_all only: m SessionMember.simps)
  have "qfind (wb_sessions ?ws) k = Some s"
    using LeaveSessionAtIndex_ok(3) [OF change_join(5,2)] seats_member change_join(3) by blast
  from map_of_SomeD [OF this] have "x \<notin> seats s'" if "(k', s') \<in> set (wb_sessions ?ws)" "k' \<noteq> k" "x \<in> seats s" for k' s' x
    using that web_ok_seats [OF LeaveSessionAtIndex_ok(1) [OF change_join(5)]] by blast
  with j change_join show ?case
    unfolding take_seat_def put_session_def by (intro web_ok_take_seat [where old = "seats s"]) auto
next
  case (change_session ws k s s')
  then show ?case
    unfolding put_session_def using web_ok_shrink [OF change_session(3,1)] web_ok_session by blast
next
  case (change_remove ws k)
  then show ?case by (rule web_ok_remove)
next
  case (change_invitations ws ivs)
  then show ?case using fold_invitations [of "wb_invitations ws" ivs] by (simp add: web_ok_def)
qed

definition participants :: "web_state \<Rightarrow> userid set" where
  "participants ws = {u. \<exists>k s. (k, s) \<in> set (wb_sessions ws) \<and> isMember s u}"

lemma isMember_seats: "isMember s u \<longleftrightarrow> u \<in> fst ` seats s"
  by (force simp: isMember_set seats_def)

lemma participants_put:
  "web_ok ws \<Longrightarrow> participants (put_session k s ws) \<subseteq> {u. isMember s u} \<union> participants ws"
  by (auto simp: participants_def put_session_def web_ok_def set_qinsert)

lemma participants_in: "qfind (wb_sessions ws) k = Some s \<Longrightarrow> {u. isMember s u} \<subseteq> participants ws"
  by (auto simp: participants_def dest!: map_of_SomeD)

lemma Leave_participants:
  assumes "web_ok ws" shows "participants (LeaveSessionAtIndex u i ws) \<subseteq> participants ws"
proof (cases "List.find (\<lambda>(k, s). list_ex (atIndex u i) (sn_members s)) (wb_sessions ws)")
  case None
  then show ?thesis by (simp add: LeaveSessionAtIndex_def)
next
  case (Some p)
  obtain k s0 where p: "p = (k, s0)" by (cases p)
  have s0: "qfind (wb_sessions ws) k = Some s0"
    using find_entry [where P = "\<lambda>s. list_ex (atIndex u i) (sn_members s)", of "wb_sessions ws"] Some p assms
    by (simp add: web_ok_def)
  show ?thesis
  proof (cases "settleOwner u (s0\<lparr>sn_members := removeFirst (atIndex u i) (sn_members s0)\<rparr>)")
    case None
    with \<open>_ = Some p\<close> show ?thesis by (auto simp: LeaveSessionAtIndex_def p participants_def set_qremove)
  next
    case (Some s)
    with \<open>_ = Some p\<close> have "LeaveSessionAtIndex u i ws = put_session k s ws"
      by (simp add: LeaveSessionAtIndex_def p put_session_def)
    moreover have "fst ` seats s \<subseteq> fst ` seats s0"
      by (rule image_mono) (use settleOwner_ok [OF web_ok_session [OF assms s0] _ Some] seats_filter atIndex_user in blast)
    moreover have "fst ` seats s0 \<subseteq> participants ws"
      using participants_in [OF s0] by (simp add: isMember_seats)
    moreover have "participants (put_session k s ws) \<subseteq> fst ` seats s \<union> participants ws"
      using participants_put [OF assms, of k s] by (simp add: isMember_seats)
    ultimately show ?thesis by (metis Un_least order_refl order_trans)
  qed
qed

lemma web_change_participants:
  "web_change db sh ws ws' \<Longrightarrow> web_ok ws \<Longrightarrow> participants ws' \<subseteq> participants ws \<union> {u. web_caller db sh u}"
proof (induction rule: web_change.induct)
  case (change_create u k s i ws)
  have "{u. isMember s u} = {u}" using change_create(3) by (simp add: isMember_seats)
  with participants_put [OF LeaveSessionAtIndex_ok(1) [OF change_create(4)], of k s u i] change_create(1)
    Leave_participants [OF change_create(4), of u i] show ?case by (auto simp: take_seat_def)
next
  case (change_join m ws k s)
  let ?s = "s\<lparr>sn_members := sn_members s @ [m]\<rparr>" and ?u = "sm_userId m" and ?i = "sm_index m"
  have "{u. isMember ?s u} \<subseteq> insert ?u (participants ws)"
    using participants_in [OF change_join(2)] by (auto simp: isMember_set)
  with participants_put [OF LeaveSessionAtIndex_ok(1) [OF change_join(5)], of k ?s ?u ?i] change_join(1)
    Leave_participants [OF change_join(5), of ?u ?i] show ?case unfolding take_seat_def by blast
next
  case (change_session ws k s s')
  have "{u. isMember s' u} \<subseteq> {u. isMember s u}"
    using change_session web_ok_session [OF change_session(3,1)] by (auto simp: isMember_seats)
  with participants_put [OF change_session(3), of k s'] participants_in [OF change_session(1)] show ?case by blast
next
  case (change_remove ws k)
  then show ?case by (auto simp: participants_def set_qremove)
qed (simp_all add: participants_def)

subsection \<open>What each handler changes\<close>

lemma web_callerI:
  "Authenticate wx fault req db = Inr me \<Longrightarrow> qfind (ss_clients sh) (fst me) = Some c \<Longrightarrow> web_caller db sh (fst me)"
  using Authenticate_account [of wx fault req db "fst me" "snd me"] by (force simp: web_caller_def)

definition requestParts :: "http_request \<Rightarrow> MultipartPart list" where
  "requestParts req = ParseMultipartMixed (hq_body req) (ExtractBoundary (NormalizeContentType (hq_contentType req)))"

definition requestBlobs :: "http_request \<Rightarrow> string option \<times> string option \<times> string option" where
  "requestBlobs req = (partNamed ''session-image'' (requestParts req), partNamed ''session-data'' (requestParts req),
     partNamed ''changeable-session-data'' (requestParts req))"

lemma Create_result:
  assumes "HandleSessionCreate wx fault req uuid now db sh ws = (r, ws', out)"
  shows "(ws' = ws \<and> out = [] \<and> (\<forall>f. r \<noteq> JsonOk f)) \<or>
    (\<exists>me c json obj. Authenticate wx fault req db = Inr me \<and> qfind (ss_clients sh) (fst me) = Some c \<and>
      partNamed ''session-request'' (requestParts req) = Some json \<and> wx_fromJson wx json = Some obj \<and>
      jtoString (jvalue obj ''sessionType'') \<in> {owner_bind, owner_migration} \<and>
      ce_platform c \<in> set (map jtoString (jtoArray (jvalue obj ''availablePlatforms''))) \<and>
      ws' = take_seat (fst me) (jtoInt 0 (jvalue obj ''index'')) (''001-'' @ uuid)
        (newWebSession obj (requestBlobs req) (''001-'' @ uuid) me (ce_platform c) now) ws \<and>
      r = JsonOk [(''sessionId'', JString (''001-'' @ uuid))])"
    (is "?kept \<or> ?made")
proof (cases "Authenticate wx fault req db")
  case (Inl x)
  have "HandleSessionCreate wx fault req uuid now db sh ws = (x, ws, [])" "\<forall>f. x \<noteq> JsonOk f"
    using Inl by (simp_all add: HandleSessionCreate_def) (auto simp: Authenticate_def Let_def split: if_splits option.splits)
  with assms show ?thesis by simp
next
  case me: (Inr me)
  let ?json = "partNamed ''session-request'' (requestParts req)"
  note a = assms [unfolded HandleSessionCreate_def me Let_def sum.case, folded requestParts_def]
  show ?thesis
  proof (cases "?json")
    case None
    with a show ?thesis by (auto split: if_splits)
  next
    case json: (Some json)
    note a = a [unfolded json option.case]
    show ?thesis
    proof (cases "wx_fromJson wx json")
      case None
      with a show ?thesis by (auto split: if_splits)
    next
      case obj: (Some obj)
      note a = a [unfolded obj option.case]
      show ?thesis
      proof (cases "qfind (ss_clients sh) (fst me)")
        case None
        with a show ?thesis by (auto split: if_splits)
      next
        case (Some c)
        note a = a [unfolded Some option.case]
        show ?thesis
        proof (rule disjCI)
          assume "\<not> ?made"
          then show ?kept using a me json obj Some
            by (auto simp: requestBlobs_def take_seat_def put_session_def split: if_splits)
        qed
      qed
    qed
  qed
qed

lemma Create_change:
  "web_change db sh ws (web_after (HandleSessionCreate wx fault req uuid now db sh ws))"
proof -
  obtain r ws' out where h: "HandleSessionCreate wx fault req uuid now db sh ws = (r, ws', out)" by (rule prod_cases3)
  from Create_result [OF h] have "web_change db sh ws ws'"
  proof (elim disjE exE conjE)
    fix me json obj and c :: ClientEntry
    let ?s = "newWebSession obj (requestBlobs req) (''001-'' @ uuid) me (ce_platform c) now"
    assume "Authenticate wx fault req db = Inr me" "qfind (ss_clients sh) (fst me) = Some c"
      and t: "jtoString (jvalue obj ''sessionType'') \<in> {owner_bind, owner_migration}"
      and w: "ws' = take_seat (fst me) (jtoInt 0 (jvalue obj ''index'')) (''001-'' @ uuid) ?s ws"
    then have "web_caller db sh (fst me)" by (intro web_callerI)
    then show ?thesis unfolding w by (rule change_create) (rule newWebSession_ok [OF t])+
  qed (simp add: change_nothing)
  then show ?thesis by (simp add: h)
qed

lemma Update_change: "web_change db sh ws (web_after (HandleSessionUpdate wx fault k req now db sh ws))"
proof -
  have "web_change db sh ws (put_session k (updateWebSession obj s) ws)" if "qfind (wb_sessions ws) k = Some s" for obj s
    by (rule change_session [OF that]) (simp add: updateWebSession_ok)
  then show ?thesis
    by (auto simp: HandleSessionUpdate_def Let_def put_session_def change_nothing split: sum.split option.split)
qed

lemma Delete_change: "web_change db sh ws (web_after (HandleSessionDelete wx fault k req db ws))"
  by (auto simp: HandleSessionDelete_def Let_def change_nothing change_remove split: sum.split option.split)

lemma find_member: "List.find (\<lambda>m. sm_userId m = u) (sn_members s) = None \<longleftrightarrow> \<not> isMember s u"
  by (auto simp: find_None_iff isMember_set)

lemma sessionCapacity_le: "sessionCapacity s \<le> 256"
  by (auto simp: sessionCapacity_def)

definition joinedSession :: "web_functions \<Rightarrow> http_request \<Rightarrow> int \<Rightarrow> userid \<times> qstring \<Rightarrow> ClientEntry \<Rightarrow> Session \<Rightarrow> Session" where
  "joinedSession wx req now me c s =
     s\<lparr>sn_members := sn_members s @
       [\<lparr>sm_userId = fst me, sm_npid = snd me, sm_platform = ce_platform c, sm_index = queryInt wx req ''index'' 0,
         sm_priority = queryInt wx req ''priority'' 49, sm_joinedAt = now\<rparr>]\<rparr>"

lemma Join_result:
  assumes "Authenticate wx fault req db = Inr me"
  shows "HandleSessionJoin wx fault k req now db sh ws =
     (let i = queryInt wx req ''index'' 0 in
      if i < 0 \<or> i > 63 then web_refuse HttpBadRequest WEBAPI_INVALID_BODY_PARAM ws
      else case (qfind (ss_clients sh) (fst me), qfind (wb_sessions ws) k) of
        (None, _) \<Rightarrow> web_refuse HttpForbidden SESSION_USER_NOT_ONLINE ws
      | (Some c, None) \<Rightarrow> web_refuse HttpNotFound WEBAPI_RESOURCE_NOT_FOUND ws
      | (Some c, Some s) \<Rightarrow>
         (case List.find (\<lambda>m. sm_userId m = fst me) (sn_members s) of
            Some m \<Rightarrow>
              if sm_index m \<noteq> i
              then web_refuse HttpForbidden SESSION_ALREADY_JOINED ws
              else (NoContent, put_session k (rejoin (fst me) (queryInt wx req ''priority'' 49) now s) ws, [])
          | None \<Rightarrow>
          if sn_sessionLockFlag s then web_refuse HttpForbidden SESSION_NOT_PERMITTED ws
          else if sessionCapacity s \<le> length (sn_members s) then web_refuse HttpForbidden SESSION_FULL ws
          else (NoContent, take_seat (fst me) i k (joinedSession wx req now me c s) ws,
                if sn_sendNotificationFlag s
                then SendSessionInvitationEvent wx now sh join_event (fst me) (snd me)
                       (filter (\<lambda>u. u \<noteq> fst me) (map sm_userId (sn_members s))) k [] 0
                else [])))"
  using assms unfolding HandleSessionJoin_def
  by (auto simp: Let_def take_seat_def put_session_def joinedSession_def split: option.split)

lemma Join_change: "web_change db sh ws (web_after (HandleSessionJoin wx fault k req now db sh ws))"
proof (cases "Authenticate wx fault req db")
  case (Inl x)
  then show ?thesis by (simp add: HandleSessionJoin_def change_nothing)
next
  case (Inr me)
  have "web_change db sh ws (take_seat (fst me) (queryInt wx req ''index'' 0) k (joinedSession wx req now me c s) ws)"
    if "qfind (ss_clients sh) (fst me) = Some c" "qfind (wb_sessions ws) k = Some s" "\<not> isMember s (fst me)"
      "length (sn_members s) < sessionCapacity s" for c s
    unfolding joinedSession_def using web_callerI [OF Inr that(1)] that(2-4) sessionCapacity_le [of s]
    by (intro change_join [where m = "\<lparr>sm_userId = fst me, sm_npid = snd me, sm_platform = ce_platform c,
      sm_index = queryInt wx req ''index'' 0, sm_priority = queryInt wx req ''priority'' 49, sm_joinedAt = now\<rparr>", simplified]) simp_all
  moreover have "web_change db sh ws (put_session k (rejoin u p now s) ws)" if "qfind (wb_sessions ws) k = Some s" for u p s
    by (rule change_session [OF that]) (simp add: rejoin_ok)
  ultimately show ?thesis
    by (auto simp: Join_result [OF Inr] Let_def change_nothing not_le find_member split: option.split)
qed

lemma RemoveMember_seats:
  "session_ok k s \<Longrightarrow> RemoveMemberApplyOwner u s = (r, Some s') \<Longrightarrow> session_ok k s' \<and> seats s' \<subseteq> seats s"
  using RemoveMember_ok seats_filter by blast

lemma Leave_change: "web_change db sh ws (web_after (HandleSessionLeave wx fault k mk req now db sh ws))"
proof -
  have "web_change db sh ws (put_session k s' ws)"
    if "qfind (wb_sessions ws) k = Some s" "RemoveMemberApplyOwner u s = (r, Some s')" for u r s s'
    by (rule change_session [OF that(1)]) (rule RemoveMember_seats [OF _ that(2)])
  then show ?thesis
    by (auto simp: HandleSessionLeave_def Let_def change_nothing change_remove put_session_def
        split: sum.split option.split prod.split)
qed

lemma Invite_result:
  assumes "Authenticate wx fault req db = Inr me"
  shows "(\<exists>st code. HandleSessionInvite wx fault k req uuids now db sh ws = web_refuse st code ws) \<or>
    (\<exists>json obj rs s. partNamed ''invitation-request'' (requestParts req) = Some json \<and> wx_fromJson wx json = Some obj \<and>
      qfind (wb_sessions ws) k = Some s \<and> rs \<noteq> [] \<and>
      rs = List.map_filter (inviteTarget wx fault db) (jtoArray (jvalue obj ''to'')) \<and>
      HandleSessionInvite wx fault k req uuids now db sh ws =
       (let news = map (\<lambda>(i, r). newInvitation (invitationId_of (uuids i)) k s me r
              (jtoString (jvalue obj ''message'')) (partNamed ''invitation-data'' (requestParts req)) now) (enumerate 0 rs)
        in (NoContent, ws\<lparr>wb_invitations := fold (\<lambda>iv. qinsert (iv_invitationId iv) iv) news (wb_invitations ws)\<rparr>,
            SendSessionInvitationEvent wx now sh invitation_event (fst me) (snd me) (map fst rs) k
              (fold (\<lambda>iv. qinsert (iv_toUserId iv) (iv_invitationId iv)) news [])
              (if INVITATION_TTL_MS > 0 then now + INVITATION_TTL_MS else 0))))"
    (is "?refused \<or> ?sent")
proof (rule disjCI)
  assume n: "\<not> ?sent"
  show ?refused
  proof (cases "partNamed ''invitation-request'' (requestParts req)")
    case None
    with assms show ?thesis by (auto simp: HandleSessionInvite_def Let_def requestParts_def [symmetric])
  next
    case json: (Some json)
    show ?thesis
    proof (cases "wx_fromJson wx json")
      case None
      with assms json show ?thesis by (auto simp: HandleSessionInvite_def Let_def requestParts_def [symmetric])
    next
      case obj: (Some obj)
      with assms json n show ?thesis
        by (auto simp: HandleSessionInvite_def Let_def requestParts_def [symmetric] split: option.split if_splits)
    qed
  qed
qed

lemma Invite_change: "web_change db sh ws (web_after (HandleSessionInvite wx fault k req uuids now db sh ws))"
proof (cases "Authenticate wx fault req db")
  case (Inl x)
  then show ?thesis by (simp add: HandleSessionInvite_def change_nothing)
next
  case (Inr me)
  from Invite_result [OF this, of k uuids now sh ws] show ?thesis
    by (elim disjE exE conjE) (simp_all only: Let_def fst_conv snd_conv change_nothing change_invitations)
qed

lemma Use_change: "web_ok ws \<Longrightarrow> web_change db sh ws (web_after (HandleInvitationUse wx fault i req now db ws))"
proof -
  assume ok: "web_ok ws"
  have "web_change db sh ws (ws\<lparr>wb_invitations := qinsert i (iv\<lparr>iv_used := True, iv_updatedAt := now\<rparr>) (wb_invitations ws)\<rparr>)"
    if "qfind (wb_invitations ws) i = Some iv" for iv
  proof -
    have "iv_invitationId iv = i" using map_of_SomeD [OF that] ok by (simp add: web_ok_def)
    then show ?thesis
      using change_invitations [of db sh ws "[iv\<lparr>iv_used := True, iv_updatedAt := now\<rparr>]"] by simp
  qed
  then show ?thesis
    by (auto simp: HandleInvitationUse_def change_nothing split: sum.split option.split)
qed

lemma web_handle_change: "web_ok ws \<Longrightarrow> web_change db sh ws (web_after (web_handle wx db sh ws e))"
  by (cases e) (simp_all add: Create_change Update_change Delete_change Join_change Leave_change Invite_change Use_change)

lemma web_handle_ok: "web_ok ws \<Longrightarrow> web_ok (web_after (web_handle wx db sh ws e))"
  using web_handle_change web_change_ok by blast

lemma web_handle_participants:
  "web_ok ws \<Longrightarrow> participants (web_after (web_handle wx db sh ws e)) \<subseteq> participants ws \<union> {u. web_caller db sh u}"
  using web_handle_change web_change_participants by blast

lemma Purge_participants:
  assumes "web_ok ws"
  shows "participants (fst (PurgeUserFromSessions wx now u sh ws)) \<subseteq> participants ws - {u}"
proof
  fix v assume "v \<in> participants (fst (PurgeUserFromSessions wx now u sh ws))"
  then obtain k s s' r where s: "(k, s) \<in> set (wb_sessions ws)" "RemoveMemberApplyOwner u s = (r, Some s')" "isMember s' v"
    by (auto simp: participants_def Purge_sessions map_filter_keys) (metis prod.collapse)
  moreover have "session_ok k s" using s(1) assms by (simp add: web_ok_def)
  from RemoveMember_ok [OF this s(2)] have "sn_members s' = filter (\<lambda>m. sm_userId m \<noteq> u) (sn_members s)" by simp
  ultimately show "v \<in> participants ws - {u}" by (auto simp: participants_def isMember_set)
qed

interpretation web: invariant_machine "\<lambda>ws (db, sh, e). web_after (web_handle wx db sh ws e)" "\<lambda>_. True" web_ok for wx
  by unfold_locales (auto simp: web_handle_ok)

subsection \<open>A small server\<close>

definition crlf :: string where "crlf = [CHR 0x0D, CHR 0x0A]"

definition example_create_object :: json_object where
  "example_create_object = [(''sessionType'', JString ''owner-migration''), (''sessionMaxUser'', JNum 4),
     (''availablePlatforms'', JArray [JString ''PS4'']), (''sessionPrivacy'', JString ''private''),
     (''sendNotificationFlag'', JBool True)]"

definition example_json :: "string \<Rightarrow> json_object option" where
  "example_json s =
     (if s = ''{create}'' then Some example_create_object
      else if s = ''{bind}'' then Some ((''sessionType'', JString ''owner-bind'') # tl example_create_object)
      else if s = ''{invite}'' then Some [(''to'', JArray [JString ''bobby''])]
      else if s = ''{use}'' then Some [(''usedFlag'', JBool True)]
      else None)"

definition example_web :: web_functions where
  "example_web = \<lparr>wx_fromJson = example_json,
     wx_toLongLong = (\<lambda>s. None), wx_toInt = (\<lambda>s. None), wx_isoUtc = (\<lambda>t. []),
     wx_fromUtf8 = (\<lambda>s. s), wx_trimmed = (\<lambda>s. s), wx_caseFold = nocase\<rparr>"

definition example_visit :: "string \<Rightarrow> http_request" where
  "example_visit token = \<lparr>hq_authorization = ''Bearer '' @ token, hq_contentType = [], hq_query = [], hq_body = []\<rparr>"

definition example_upload :: "string \<Rightarrow> string \<Rightarrow> string \<Rightarrow> http_request" where
  "example_upload token part json = (example_visit token)\<lparr>hq_contentType := ''multipart/mixed; boundary=b'',
     hq_body := ''--b'' @ crlf @ ''Content-Description: '' @ part @ crlf @ crlf @ json @ crlf @ ''--b--''\<rparr>"

definition example_tokens :: Database where
  "example_tokens =
     (let account = (\<lambda>n tok. \<lparr>ur_username = n, ur_hash = [], ur_salt = [], ur_avatarUrl = [], ur_email = [],
            ur_emailCheck = n, ur_token = tok, ur_admin = False, ur_statAgent = False, ur_banned = False\<rparr>)
      in \<lparr>db_accounts = [(1, account ''alice'' ''ta''), (2, account ''bobby'' ''tb'')], db_nextUserId = 3,
          db_friendship = [((1, 2), FRIEND, FRIEND)], db_titleNames = []\<rparr>)"

definition example_console :: "qstring \<Rightarrow> nat \<Rightarrow> ClientEntry" where
  "example_console n c = \<lparr>ce_npid = n, ce_send = c, ce_matchingContextId = 0, ce_friends = [], ce_gameStatus = [],
     ce_gameData = [], ce_localizedGameStatus = [], ce_npTitleId = [], ce_titleName = [], ce_platform = ''PS4'',
     ce_presenceUpdatedAt = 0, ce_appearOffline = False, ce_notifyWithData = False\<rparr>"

definition example_consoles :: SharedState where
  "example_consoles = SharedState_default\<lparr>ss_clients := [(1, example_console ''alice'' 11), (2, example_console ''bobby'' 12)]\<rparr>"

definition example_created :: web_result where
  "example_created = web_handle example_web example_tokens example_consoles web_empty
     (WeCreate False (example_upload ''ta'' ''session-request'' ''{create}'') ''x'' 8)"

definition example_joined :: web_result where
  "example_joined = web_handle example_web example_tokens example_consoles (web_after example_created)
     (WeJoin False ''001-x'' (example_visit ''tb'') 9)"

definition example_invited :: web_result where
  "example_invited = web_handle example_web example_tokens example_consoles (web_after example_created)
     (WeInvite False ''001-x'' (example_upload ''ta'' ''invitation-request'' ''{invite}'') (\<lambda>n. ''i'') 9)"

definition example_bound :: web_result where
  "example_bound = web_handle example_web example_tokens example_consoles web_empty
     (WeCreate False (example_upload ''ta'' ''session-request'' ''{bind}'') ''x'' 8)"

lemma example_created_ok:
  "fst example_created = JsonOk [(''sessionId'', JString ''001-x'')]"
  "fst example_joined = NoContent"
  "map (\<lambda>(k, s). (k, sn_ownerUserId s, map sm_userId (sn_members s))) (wb_sessions (web_after example_joined)) =
     [(''001-x'', 1, [1, 2])]"
  by code_simp+

lemma example_web_ok: "web_ok (web_after example_created)" "web_ok (web_after example_joined)"
    "web_ok (web_after example_bound)"
  unfolding example_joined_def example_created_def example_bound_def by (intro web_handle_ok web_ok_empty)+

end
