(* ===== verification/WebPeople.thy ===== *)
theory WebPeople
  imports WebRequest Presence
begin

text \<open>
  The Web API about people: presence (\<open>webapi_routes_presence.cpp\<close>), friend and block lists
  (\<open>webapi_routes_users.cpp\<close>), profiles (\<open>webapi_routes_profile.cpp\<close>) and the helpers
  of \<open>webapi_routes_common.h\<close> they share. Base64 and the comparison of names up to case are
  parameters.
\<close>

subsection \<open>Shared helpers\<close>

record people_functions =
  wp_base64 :: "qstring \<Rightarrow> qstring"             \<comment> \<open>of the UTF-8 bytes\<close>
  wp_compare :: "qstring \<Rightarrow> qstring \<Rightarrow> int"      \<comment> \<open>\<open>QString::compare\<close>, case-insensitive\<close>

definition UP_INVALID_QUERY_PARAM :: int where "UP_INVALID_QUERY_PARAM = 2105601"
definition UP_QUERY_PARAM_REQUIRED :: int where "UP_QUERY_PARAM_REQUIRED = 2105605"
definition UP_ACCESS_DENIED_OWNERSHIP :: int where "UP_ACCESS_DENIED_OWNERSHIP = 2105358"
definition UP_NON_FRIEND_NOT_ALLOWED :: int where "UP_NON_FRIEND_NOT_ALLOWED = 2107904"
definition DefaultRegion :: qstring where "DefaultRegion = ''us''"

definition EncodeNpId :: "people_functions \<Rightarrow> qstring \<Rightarrow> json" where
  "EncodeNpId wp onlineId = JString (wp_base64 wp onlineId)"

definition ParsePaging :: "web_functions \<Rightarrow> http_request \<Rightarrow> int \<Rightarrow> int \<Rightarrow> nat \<times> nat" where
  \<comment> \<open>limit and offset\<close>
  "ParsePaging wx req fallbackDefault maxLimit =
     (let limit = (case wx_toInt wx (queryItemValue req ''limit'') of None \<Rightarrow> fallbackDefault | Some v \<Rightarrow> v);
          offset = (case wx_toInt wx (queryItemValue req ''offset'') of None \<Rightarrow> 0 | Some v \<Rightarrow> if v < 0 then 0 else v)
      in (nat (max 0 (min limit maxLimit)), nat offset))"

definition defaultFields :: "http_request \<Rightarrow> qstring list" where
  \<comment> \<open>the fields asked for, \<open>@default\<close> when none are\<close>
  "defaultFields req =
     (let f = queryItemValue req ''fields'' in commaList (if f = [] then ''@default'' else f))"

definition onlineStatus :: "bool \<Rightarrow> json" where
  "onlineStatus online = JString (if online then ''online'' else ''offline'')"

definition MakePresenceEntry ::
  "bool \<Rightarrow> qstring \<Rightarrow> qstring \<Rightarrow> qstring \<Rightarrow> qstring \<Rightarrow> qstring \<Rightarrow> bool \<Rightarrow> bool \<Rightarrow> json_object" where
  "MakePresenceEntry online platform gameStatus gameData npTitleId titleName includeDetail forcePlatform =
     [(''onlineStatus'', onlineStatus online)] @
     joptional (online \<or> forcePlatform) ''platform'' (JString (if platform = [] then ''PS4'' else platform)) @
     (if online \<and> includeDetail
      then joptional (gameStatus \<noteq> []) ''gameStatus'' (JString gameStatus) @
           joptional (gameData \<noteq> []) ''gameData'' (JString gameData) @
           joptional (npTitleId \<noteq> [] \<or> titleName \<noteq> []) ''gameTitleInfo''
             (JObject (joptional (npTitleId \<noteq> []) ''npTitleId'' (JString npTitleId) @
                       joptional (titleName \<noteq> []) ''titleName'' (JString titleName)))
      else [])"

definition MakePresence ::
  "qstring \<Rightarrow> bool \<Rightarrow> qstring \<Rightarrow> qstring \<Rightarrow> qstring \<Rightarrow> qstring \<Rightarrow> qstring \<Rightarrow> bool \<Rightarrow> bool \<Rightarrow> qstring \<Rightarrow> json_object" where
  "MakePresence presenceType online platform gameStatus gameData npTitleId titleName detail inSameGame platReq =
     (let platOk = (platReq = [] \<or> platReq = ''PS4'') in
      [(''onlineStatus'', onlineStatus online),
       (if presenceType = ''platform''
        then (''platformInfoList'', JArray (if platOk
               then [JObject (MakePresenceEntry online ''PS4'' gameStatus [] npTitleId titleName detail True)] else []))
        else if presenceType = ''incontext''
        then (''incontextInfoList'', JArray (if online \<and> inSameGame \<and> platOk
               then [JObject (MakePresenceEntry online ''PS4'' gameStatus gameData npTitleId titleName detail True)] else []))
        else (''primaryInfo'', JObject (MakePresenceEntry online platform gameStatus [] npTitleId titleName detail False)))])"

definition IsSelf :: "web_functions \<Rightarrow> qstring \<Rightarrow> userid \<times> qstring \<Rightarrow> bool" where
  "IsSelf wx userKey auth \<longleftrightarrow>
     wx_caseFold wx userKey = wx_caseFold wx ''me'' \<or> wx_caseFold wx userKey = wx_caseFold wx (snd auth) \<or>
     userKey = qstring_number (fst auth)"

definition comId_of :: "SharedState \<Rightarrow> userid \<Rightarrow> qstring" where
  "comId_of sh userId = qvalue (ss_usageClientGame sh) userId []"

definition firstLanguage :: "qstring \<Rightarrow> qstring \<Rightarrow> (qstring, qstring) qhash \<Rightarrow> qstring" where
  \<comment> \<open>the text in the first of the languages there is a translation for\<close>
  "firstLanguage npLanguages text localized =
     (case List.map_filter (qfind localized) (commaList npLanguages) of [] \<Rightarrow> text | t # _ \<Rightarrow> t)"

definition owner_only :: "web_functions \<Rightarrow> bool \<Rightarrow> qstring \<Rightarrow> http_request \<Rightarrow> Database \<Rightarrow> http_response + userid \<times> qstring" where
  \<comment> \<open>the checks the routes about oneself begin with\<close>
  "owner_only wx fault userKey req db =
     (case Authenticate wx fault req db of
        Inl r \<Rightarrow> Inl r
      | Inr me \<Rightarrow> if IsSelf wx userKey me then Inr me else Inl (JsonError HttpForbidden UP_ACCESS_DENIED_OWNERSHIP))"

subsection \<open>Presence\<close>

record presence_event =
  pe_dataType :: qstring
  pe_body :: json_object                     \<comment> \<open>empty: no body\<close>
  pe_from :: qstring
  pe_to :: qstring

type_synonym presence_result = "http_response \<times> SharedState \<times> (nat \<times> presence_event) list"

definition presence_event_bytes :: "(qstring \<Rightarrow> bytes) \<Rightarrow> (json_object \<Rightarrow> bytes) \<Rightarrow> presence_event \<Rightarrow> bytes" where
  "presence_event_bytes toUtf8 toJson e =
     BuildNotification WebApiPushEvent
       (BuildWebApiPushPayload (toUtf8 kInGame) 0 (toUtf8 (pe_dataType e))
         (if pe_body e = [] then [] else toJson (pe_body e)) (toUtf8 (pe_from e)) (toUtf8 (pe_to e)) [])"

definition presenceRecipients :: "SharedState \<Rightarrow> userid \<Rightarrow> ClientEntry list" where
  \<comment> \<open>the connected friends to tell: those in the same game, or all when the user's game is not known\<close>
  "presenceRecipients sh userId =
     (let updaterComId = comId_of sh userId in
      case qfind (ss_clients sh) userId of
        None \<Rightarrow> []
      | Some self \<Rightarrow>
          List.map_filter (qfind (ss_clients sh))
            (filter (\<lambda>fid. updaterComId = [] \<or> sameGame sh updaterComId fid) (qkeys (ce_friends self))))"

definition pushPresence :: "SharedState \<Rightarrow> userid \<times> qstring \<Rightarrow> qstring \<times> json_object \<Rightarrow> (nat \<times> presence_event) list" where
  "pushPresence sh me = (\<lambda>(dataType, body).
     map (\<lambda>c. (ce_send c, \<lparr>pe_dataType = dataType, pe_body = body, pe_from = snd me, pe_to = ce_npid c\<rparr>))
       (presenceRecipients sh (fst me)))"

definition writePresence :: "json_object \<Rightarrow> bool \<Rightarrow> int \<Rightarrow> ClientEntry \<Rightarrow> ClientEntry" where
  "writePresence obj reqNotify nowSecs c =
     (let c1 = (if reqNotify then c\<lparr>ce_notifyWithData := True\<rparr> else c);
          c2 = (if jcontains obj ''gameStatus'' then c1\<lparr>ce_gameStatus := jtoString (jvalue obj ''gameStatus'')\<rparr> else c1);
          c3 = (if jcontains obj ''gameData'' then c2\<lparr>ce_gameData := jtoString (jvalue obj ''gameData'')\<rparr> else c2);
          c4 = (if jcontains obj ''localizedGameStatus''
                then c3\<lparr>ce_localizedGameStatus :=
                       fold (\<lambda>v h. let le = jtoObject v; lang = jtoString (jvalue le ''npLanguage'')
                                    in if lang = [] then h else qinsert lang (jtoString (jvalue le ''gameStatus'')) h)
                         (jtoArray (jvalue obj ''localizedGameStatus'')) []\<rparr>
                else c3)
      in c4\<lparr>ce_presenceUpdatedAt := nowSecs\<rparr>)"

definition HandlePresenceWrite ::
  "web_functions \<Rightarrow> bool \<Rightarrow> qstring \<Rightarrow> qstring \<Rightarrow> http_request \<Rightarrow> int \<Rightarrow> Database \<Rightarrow> SharedState \<Rightarrow> presence_result" where
  "HandlePresenceWrite wx fault leaf userKey req nowSecs db sh =
     (case owner_only wx fault userKey req db of
        Inl r \<Rightarrow> (r, sh, [])
      | Inr me \<Rightarrow>
        (let obj = (case wx_fromJson wx (hq_body req) of None \<Rightarrow> [] | Some ob \<Rightarrow> ob);
             has = jcontains obj
         in if leaf = ''gameStatus'' \<and> \<not> has ''gameStatus''
            then (JsonError HttpBadRequest UP_QUERY_PARAM_REQUIRED, sh, [])
            else if has ''localizedGameStatus'' \<and> \<not> has ''gameStatus''
            then (JsonError HttpBadRequest UP_QUERY_PARAM_REQUIRED, sh, [])
            else
              (let reqNotify = (queryItemValue req ''notificationWithData'' = ''true'');
                   sh' = sh\<lparr>ss_clients := qmodify (fst me) (writePresence obj reqNotify nowSecs) (ss_clients sh)\<rparr>;
                   self = qfind (ss_clients sh') (fst me);
                   appearOffline = (case self of None \<Rightarrow> False | Some c \<Rightarrow> ce_appearOffline c);
                   notify = (case self of None \<Rightarrow> False | Some c \<Rightarrow> ce_notifyWithData c);
                   event = (\<lambda>dataType f. if has f then [(dataType, if notify then [(f, jvalue obj f)] else [])] else [])
               in if appearOffline then (NoContent, sh', [])
                  else (NoContent, sh',
                        concat (map (pushPresence sh' me) (event kStatus ''gameStatus'' @ event kData ''gameData''))))))"

datatype DeleteField = GameData | GameStatus

definition deletePresence :: "DeleteField \<Rightarrow> int \<Rightarrow> ClientEntry \<Rightarrow> ClientEntry" where
  "deletePresence field nowSecs c =
     (case field of
        GameData \<Rightarrow> c\<lparr>ce_gameData := [], ce_notifyWithData := False\<rparr>
      | GameStatus \<Rightarrow> c\<lparr>ce_gameStatus := [], ce_localizedGameStatus := []\<rparr>)\<lparr>ce_presenceUpdatedAt := nowSecs\<rparr>"

definition HandlePresenceDelete ::
  "web_functions \<Rightarrow> bool \<Rightarrow> DeleteField \<Rightarrow> qstring \<Rightarrow> qstring \<Rightarrow> http_request \<Rightarrow> int \<Rightarrow> Database \<Rightarrow> SharedState
    \<Rightarrow> presence_result" where
  "HandlePresenceDelete wx fault field dataType userKey req nowSecs db sh =
     (case owner_only wx fault userKey req db of
        Inl r \<Rightarrow> (r, sh, [])
      | Inr me \<Rightarrow>
        (let sh' = sh\<lparr>ss_clients := qmodify (fst me) (deletePresence field nowSecs) (ss_clients sh)\<rparr>
         in if (case qfind (ss_clients sh') (fst me) of None \<Rightarrow> False | Some c \<Rightarrow> ce_appearOffline c)
            then (NoContent, sh', [])
            else (NoContent, sh', pushPresence sh' me (dataType, []))))"

definition inSameGame :: "SharedState \<Rightarrow> userid \<Rightarrow> userid \<Rightarrow> bool" where
  \<comment> \<open>the target is connected and last seen in the caller's game\<close>
  "inSameGame sh callerId targetId \<longleftrightarrow>
     qfind (ss_clients sh) targetId \<noteq> None \<and> comId_of sh callerId \<noteq> [] \<and> comId_of sh callerId = comId_of sh targetId"

definition presenceTarget :: "web_functions \<Rightarrow> bool \<Rightarrow> qstring \<Rightarrow> userid \<times> qstring \<Rightarrow> Database \<Rightarrow> userid" where
  \<comment> \<open>0 when the key is nobody's\<close>
  "presenceTarget wx fault userKey me db =
     (if IsSelf wx userKey me then fst me
      else (case wx_toLongLong wx userKey of
              Some v \<Rightarrow> v
            | None \<Rightarrow> (case GetUserId fault userKey db of None \<Rightarrow> 0 | Some i \<Rightarrow> i)))"

definition shownPresence :: "http_request \<Rightarrow> SharedState \<Rightarrow> userid \<Rightarrow> userid \<Rightarrow> json_object" where
  "shownPresence req sh callerId targetId =
     (let type = queryItemValue req ''type'';
          detail = (queryItemValue req ''presenceDetail'' = ''true'');
          platReq = queryItemValue req ''platform'';
          same = inSameGame sh callerId targetId
      in case qfind (ss_clients sh) targetId of
           None \<Rightarrow> MakePresence type False [] [] [] [] [] detail False platReq
         | Some c \<Rightarrow>
             MakePresence type (same \<or> \<not> ce_appearOffline c) (ce_platform c)
               (if same then firstLanguage (queryItemValue req ''npLanguages'') (ce_gameStatus c) (ce_localizedGameStatus c)
                else [])
               (if same then ce_gameData c else []) (ce_npTitleId c) (ce_titleName c) detail same platReq)"

definition HandlePresenceGet ::
  "web_functions \<Rightarrow> people_functions \<Rightarrow> faults \<Rightarrow> qstring \<Rightarrow> http_request \<Rightarrow> Database \<Rightarrow> SharedState \<Rightarrow> http_response" where
  "HandlePresenceGet wx wp fa userKey req db sh =
     (case Authenticate wx (fa_account fa) req db of
        Inl r \<Rightarrow> r
      | Inr me \<Rightarrow>
        (let type = queryItemValue req ''type'';
             self = IsSelf wx userKey me;
             targetId = presenceTarget wx (fa_account fa) userKey me db
         in if type = [] then JsonError HttpBadRequest UP_QUERY_PARAM_REQUIRED
            else if type \<noteq> ''primary'' \<and> type \<noteq> ''platform'' \<and> type \<noteq> ''incontext''
            then JsonError HttpBadRequest UP_INVALID_QUERY_PARAM
            else if queryItemValue req ''platform'' \<noteq> [] \<and> type = ''primary''
            then JsonError HttpBadRequest UP_INVALID_QUERY_PARAM
            else if \<not> (self \<or> targetId \<noteq> 0 \<and> targetId \<in> fst ` set (rl_friends (GetRelationships fa (fst me) db)))
            then JsonError HttpForbidden UP_NON_FRIEND_NOT_ALLOWED
            else JsonOk
              [(''npId'', EncodeNpId wp (case GetUsername (fa_account fa) targetId db of
                  None \<Rightarrow> if self then snd me else userKey | Some n \<Rightarrow> n)),
               (''presence'', JObject (shownPresence req sh (fst me) targetId))]))"

end
