(* ===== verification/WebOnline.thy ===== *)
theory WebOnline
  imports WebMachine WebPeople Online
begin

text \<open>
  The Web API and the game connections as one machine over one database, one shared state and the
  sessions: a game connection that ends takes its user out of all sessions, and a request is answered
  on the accounts and connections there are. Membership in a session is tied to being connected.
  The presence routes write the shared state the game connections use; they leave alone who is
  connected and who is whose friend.
\<close>

subsection \<open>The machine\<close>

record portal =
  pt_community :: community
  pt_web :: web_state

datatype portal_event =
    PeCommunity community_event
  | PeWeb web_event
  | PePresenceWrite bool qstring qstring http_request int
  | PePresenceDelete bool DeleteField qstring qstring http_request int

abbreviation pt_db :: "portal \<Rightarrow> Database" where
  "pt_db pt \<equiv> cm_db (pt_community pt)"

abbreviation pt_shared :: "portal \<Rightarrow> SharedState" where
  "pt_shared pt \<equiv> cm_shared (pt_community pt)"

definition leaveWebSessions ::
  "web_functions \<Rightarrow> int \<Rightarrow> ClientSession \<Rightarrow> SharedState \<Rightarrow> web_state \<Rightarrow> web_state \<times> web_out list" where
  \<comment> \<open>what \<open>CleanupOnDisconnect\<close> does to the sessions, between leaving the room and removing the client\<close>
  "leaveWebSessions wx nowMs cs sh ws =
     (if \<not> cs_authenticated cs then (ws, [])
      else PurgeUserFromSessions wx nowMs (my_id cs) (fst (snd (CleanupMatchingOnDisconnect cs sh))) ws)"

definition set_pt_shared :: "SharedState \<Rightarrow> portal \<Rightarrow> portal" where
  "set_pt_shared sh pt = pt\<lparr>pt_community := set_shared sh (pt_db pt) (pt_community pt)\<rparr>"

definition portal_step :: "auth_functions \<Rightarrow> config \<Rightarrow> web_functions \<Rightarrow> portal \<Rightarrow> portal_event \<Rightarrow> portal" where
  "portal_step au cf wx pt e =
     (case e of
        PeCommunity c \<Rightarrow>
          \<lparr>pt_community = community_step au cf (pt_community pt) c,
           pt_web = (case c of
               EvHangUp conn nowMs \<Rightarrow>
                 fst (leaveWebSessions wx nowMs (cm_session (pt_community pt) conn) (pt_shared pt) (pt_web pt))
             | _ \<Rightarrow> pt_web pt)\<rparr>
      | PeWeb r \<Rightarrow> pt\<lparr>pt_web := web_after (web_handle wx (pt_db pt) (pt_shared pt) (pt_web pt) r)\<rparr>
      | PePresenceWrite fault leaf userKey req nowSecs \<Rightarrow>
          set_pt_shared (fst (snd (HandlePresenceWrite wx fault leaf userKey req nowSecs (pt_db pt) (pt_shared pt)))) pt
      | PePresenceDelete fault field dataType userKey req nowSecs \<Rightarrow>
          set_pt_shared (fst (snd (HandlePresenceDelete wx fault field dataType userKey req nowSecs (pt_db pt) (pt_shared pt)))) pt)"

fun portal_event_ok :: "portal_event \<Rightarrow> bool" where
  "portal_event_ok (PeCommunity e) = event_ok e"
| "portal_event_ok _ = True"

definition initial_portal :: portal where
  "initial_portal = \<lparr>pt_community = initial_community, pt_web = web_empty\<rparr>"

subsection \<open>Members are connected\<close>

definition attached :: "Database \<Rightarrow> SharedState \<Rightarrow> userid \<Rightarrow> bool" where
  \<comment> \<open>connected, unless the account was deleted\<close>
  "attached db sh u \<longleftrightarrow> u < db_nextUserId db \<and> (has_account db u \<longrightarrow> listed sh u \<noteq> None)"

definition portal_ok :: "portal \<Rightarrow> bool" where
  [inv_defs]: "portal_ok pt \<longleftrightarrow>
     people_ok (pt_community pt) \<and> web_ok (pt_web pt) \<and>
     participants (pt_web pt) \<subseteq> {u. attached (pt_db pt) (pt_shared pt) u}"

lemma attachedI:
  assumes "attached db sh u" and "db_nextUserId db \<le> db_nextUserId db'"
    and "has_account db' u \<Longrightarrow> has_account db u" and "has_account db' u \<Longrightarrow> listed sh u \<noteq> None \<Longrightarrow> listed sh' u \<noteq> None"
  shows "attached db' sh' u"
  using assms by (auto simp: attached_def)

lemma attached_same:
  "attached db sh u \<Longrightarrow> listed sh u \<noteq> None \<longrightarrow> listed sh' u \<noteq> None \<Longrightarrow> attached db sh' u"
  by (auto simp: attached_def)

lemma listed_entries:
  "listed (fst (befriendOnline cs n b sh)) u = None \<longleftrightarrow> listed sh u = None"
  "listed (fst (unfriendOnline cs n b sh)) u = None \<longleftrightarrow> listed sh u = None"
  by (auto simp: befriendOnline_def unfriendOnline_def Let_def)

lemma listed_fold: "listed (fold (\<lambda>(v, _). addFriendEntry v w n) fr sh) u \<noteq> None \<longleftrightarrow> listed sh u \<noteq> None"
proof (induction fr arbitrary: sh)
  case (Cons p fr)
  then show ?case by (cases p) (auto simp: Cons.IH)
qed simp

lemma listed_login:
  "listed sh u \<noteq> None \<Longrightarrow> listed (fst (snd (snd (CmdLogin au cf fa req nowMs cs sh db)))) u \<noteq> None"
proof -
  assume u: "listed sh u \<noteq> None"
  have "listed (fst (registerLogin q w conn rels sh)) u \<noteq> None" for q w conn rels
    using u listed_fold [of w "lrq_npid q" "rl_friends rels" sh u]
    by (auto simp: registerLogin_def Let_def listed_def qfind_qinsert)
  then show ?thesis
    using u listed_cong [of "UsageOnLogin _"] by (auto simp: CmdLogin_def Let_def case_prod_unfold split: option.split)
qed

lemma listed_friend: "listed (fst (snd (friend_command opr fa req cs sh db))) u = None \<longleftrightarrow> listed sh u = None"
  using friend_command_shared [of opr fa req cs sh db] by (elim UnE) (auto simp only: listed_entries singleton_iff mem_Collect_eq)

definition account_part :: "Database \<Rightarrow> (userid, UserRecord) qhash \<times> userid" where
  "account_part db = (db_accounts db, db_nextUserId db)"

lemma account_part_writes [simp]:
  "account_part (snd (SetRelStatus fault a b x y db)) = account_part db"
  "account_part (snd (DeleteRel fault a b db)) = account_part db"
  "account_part (snd (SetTitleName fault i n db)) = account_part db"
  by (simp_all add: account_part_def SetRelStatus_def DeleteRel_def SetTitleName_def Let_def split: prod.split)

lemma account_part_store [simp]: "account_part (snd (storeOrDelete fa a b x y db)) = account_part db"
  by (simp add: storeOrDelete_def)

lemma friend_accounts: "account_part (fst (snd (snd (friend_command opr fa req cs sh db)))) = account_part db"
  by (cases opr; cases req; simp add: friend_command_defs Let_def case_prod_unfold split: option.split)

lemma attached_part: "account_part db' = account_part db \<Longrightarrow> attached db' sh u = attached db sh u"
  by (simp add: attached_def account_part_def has_account_def)

lemma hangup_listed:
  assumes "CleanupOnDisconnect nowMs cs sh = (cs', sh', outs, fouts)" and "cs_authenticated cs \<Longrightarrow> u \<noteq> my_id cs"
  shows "listed sh' u = listed sh u"
proof -
  let ?sh1 = "fst (snd (CleanupMatchingOnDisconnect cs sh))" and ?cs1 = "fst (CleanupMatchingOnDisconnect cs sh)"
  have id: "my_id ?cs1 = my_id cs"
    by (auto simp: CleanupMatchingOnDisconnect_def Let_def DoLeaveRoom_def case_prod_unfold ResetMatchingRoomState_def split: option.split)
  have l: "listed (fst (removeClient cs1 sh1)) = (listed sh1)(my_id cs1 := None)" for cs1 sh1
    by (auto simp: removeClient_def listed_def fun_eq_iff qfind_qremove split: option.split)
  have "listed ?sh1 = listed sh" using people_eqD(1) [of ?sh1 sh] by simp
  moreover have "sh' = sh \<or> (cs_authenticated cs \<and> sh' = UsageOnLogout (my_id ?cs1) (fst (removeClient ?cs1 ?sh1)))"
    using assms(1) by (auto simp: CleanupOnDisconnect_def Let_def case_prod_unfold split: if_splits)
  ultimately show ?thesis
    using assms(2) listed_cong [of "UsageOnLogout (my_id ?cs1) (fst (removeClient ?cs1 ?sh1))" "fst (removeClient ?cs1 ?sh1)"]
    by (auto simp: l id)
qed

lemma matching_listed:
  assumes "event_ok (EvMatching e)"
  shows "listed (sv_shared (matching_step sv e)) = listed (sv_shared sv)"
proof -
  let ?sh = "sv_shared sv" and ?sh' = "sv_shared (matching_step sv e)"
  have "people ?sh' = people ?sh \<or>
      (\<exists>q cs. ?sh' = res_shared (CmdContextStart q cs ?sh) \<or> ?sh' = res_shared (CmdContextStop q cs ?sh))"
    using assms by (cases e) auto
  moreover have "listed (setClientContext v ctx ?sh) = listed ?sh" for v ctx
    by (simp add: listed_def fun_eq_iff qfind_qmodify option.map_comp comp_def setClientContext_def)
  then have "listed (res_shared (CmdContextStart q cs ?sh)) = listed ?sh" "listed (res_shared (CmdContextStop q' cs ?sh)) = listed ?sh" for q q' cs
    by (auto simp: CmdContextStart_def CmdContextStop_def Let_def split: option.split)
  ultimately show ?thesis using people_eqD(1) by metis
qed

lemma attached_step:
  assumes people: "people_ok cm" and ev: "event_ok e" and u: "attached (cm_db cm) (cm_shared cm) u"
    and stays: "\<And>c t. e = EvHangUp c t \<Longrightarrow> cs_authenticated (cm_session cm c) \<Longrightarrow> u \<noteq> my_id (cm_session cm c)"
  shows "attached (cm_db (community_step au cf cm e)) (cm_shared (community_step au cf cm e)) u"
proof (cases e)
  case (EvCreate c fault req salt token)
  obtain r db' where r: "CmdCreate au cf fault req salt token (cm_db cm) = (r, db')" by (cases rule: prod.exhaust)
  from r have "attached db' (cm_shared cm) u"
    by (cases rule: Create_database) (use u in \<open>auto simp: attached_def has_account_def qfind_qinsert split: if_splits\<close>)
  with u EvCreate r show ?thesis by simp
next
  case (EvLogin c fa req nowMs)
  then show ?thesis
    using u attached_same [OF u, of "fst (snd (snd (CmdLogin au cf fa req nowMs (cm_session cm c) (cm_shared cm) (cm_db cm))))"]
      listed_login by (auto simp: result_simps)
next
  case (EvDelete c fault dat)
  obtain r cs' sh' db' where r: "CmdDelete au fault dat (cm_session cm c) (cm_shared cm) (cm_db cm) = (r, cs', sh', db')"
    by (cases "CmdDelete au fault dat (cm_session cm c) (cm_shared cm) (cm_db cm)")
  then have "attached db' sh' u"
    using u by (auto simp: CmdDelete_def Let_def DeleteUser_def attached_def has_account_def listed_def qfind_qremove
        split: option.splits if_splits prod.splits)
  with u EvDelete r show ?thesis by (simp add: set_session_def)
next
  case (EvFriend c opr fa req)
  then show ?thesis
    using u by (simp add: result_simps attached_part [OF friend_accounts]) (simp add: attached_def listed_friend del: not_None_eq)
next
  case (EvAppear c req)
  have "listed (fst (snd (CmdSetAppearOffline req (cm_session cm c) (cm_shared cm)))) = listed (cm_shared cm)"
    by (auto simp: CmdSetAppearOffline_def Let_def listed_def fun_eq_iff qfind_qmodify option.map_comp comp_def split: option.split)
  with u EvAppear show ?thesis by (simp add: result_simps attached_def)
next
  case (EvScore c fault cmd dat)
  have "account_part (fst (snd (attributeGame fault cmd dat (cm_session cm c) (cm_shared cm) (cm_db cm)))) = account_part (cm_db cm)"
    "ss_clients (fst (attributeGame fault cmd dat (cm_session cm c) (cm_shared cm) (cm_db cm))) = ss_clients (cm_shared cm)"
    by (simp_all add: attributeGame_def Let_def case_prod_unfold usage_frame)
  then have "attached (fst (snd (attributeGame fault cmd dat (cm_session cm c) (cm_shared cm) (cm_db cm))))
      (fst (attributeGame fault cmd dat (cm_session cm c) (cm_shared cm) (cm_db cm))) u"
    using u listed_cong attached_part by (metis attached_def)
  with u EvScore show ?thesis by (simp add: result_simps)
next
  case (EvMatching m)
  with ev have "listed (sv_shared (matching_step (cm_server cm) m)) = listed (cm_shared cm)"
    by (intro matching_listed) simp
  with u EvMatching show ?thesis by (simp add: attached_def)
next
  case (EvHangUp c nowMs)
  then show ?thesis
    using u stays hangup_listed [of nowMs "cm_session cm c" "cm_shared cm"]
    by (cases "CleanupOnDisconnect nowMs (cm_session cm c) (cm_shared cm)") (auto simp: set_session_def attached_def)
qed (use u in \<open>simp add: set_session_def\<close>)

lemma web_caller_attached: "people_ok cm \<Longrightarrow> web_caller (cm_db cm) (cm_shared cm) u \<Longrightarrow> attached (cm_db cm) (cm_shared cm) u"
  by (auto simp: web_caller_def attached_def listed_def people_ok_def accounts_ok_def has_account_def map_of_eq_None_iff
      image_iff split: if_splits)

lemma writes_friends [simp]:
  "ce_friends (writePresence ob reqNotify nowSecs c) = ce_friends c" "ce_friends (deletePresence field nowSecs c) = ce_friends c"
  by (auto simp: writePresence_def deletePresence_def Let_def split: DeleteField.split)

lemma presence_write_shared:
  "fst (snd (HandlePresenceWrite wx fault leaf userKey req nowSecs db sh)) = sh \<or>
   (\<exists>u ob n. fst (snd (HandlePresenceWrite wx fault leaf userKey req nowSecs db sh)) =
      sh\<lparr>ss_clients := qmodify u (writePresence ob n nowSecs) (ss_clients sh)\<rparr>)"
  unfolding HandlePresenceWrite_def Let_def by (simp split: sum.split) blast

lemma presence_delete_shared:
  "fst (snd (HandlePresenceDelete wx fault field dataType userKey req nowSecs db sh)) = sh \<or>
   (\<exists>u. fst (snd (HandlePresenceDelete wx fault field dataType userKey req nowSecs db sh)) =
      sh\<lparr>ss_clients := qmodify u (deletePresence field nowSecs) (ss_clients sh)\<rparr>)"
  unfolding HandlePresenceDelete_def Let_def by (simp split: sum.split) blast

lemma same_friends:
  assumes "\<And>c. ce_friends (f c) = ce_friends c"
  shows "listed (sh\<lparr>ss_clients := qmodify u f (ss_clients sh)\<rparr>) = listed sh"
  using assms by (simp add: listed_def fun_eq_iff qfind_qmodify option.map_comp comp_def)

lemma presence_listed:
  fixes db :: Database
  assumes "sh' = fst (snd (HandlePresenceWrite wx fault leaf userKey req nowSecs db sh)) \<or>
    sh' = fst (snd (HandlePresenceDelete wx fault field dataType userKey req nowSecs db sh))"
  shows "listed sh' = listed sh \<and> (qdistinct (ss_clients sh) \<longrightarrow> qdistinct (ss_clients sh'))"
  using assms presence_write_shared [of wx fault leaf userKey req nowSecs db sh]
    presence_delete_shared [of wx fault field dataType userKey req nowSecs db sh]
  by (elim disjE exE) (simp_all add: same_friends)

lemma set_pt_shared_ok:
  assumes "portal_ok pt" and "listed sh = listed (pt_shared pt) \<and> (qdistinct (ss_clients (pt_shared pt)) \<longrightarrow> qdistinct (ss_clients sh))"
  shows "portal_ok (set_pt_shared sh pt)"
  using assms by (auto simp: portal_ok_def people_ok_def set_pt_shared_def set_shared_def online_ok_def attached_def)

lemma portal_ok_step:
  assumes ok: "portal_ok pt" and ev: "portal_event_ok e"
  shows "portal_ok (portal_step au cf wx pt e)"
proof (cases e)
  case (PeWeb r)
  let ?ws = "web_after (web_handle wx (pt_db pt) (pt_shared pt) (pt_web pt) r)"
  have "participants ?ws \<subseteq> participants (pt_web pt) \<union> {u. web_caller (pt_db pt) (pt_shared pt) u}"
    using ok by (intro web_handle_participants) (simp add: portal_ok_def)
  with ok web_caller_attached [of "pt_community pt"] have "participants ?ws \<subseteq> {u. attached (pt_db pt) (pt_shared pt) u}"
    by (auto simp: portal_ok_def)
  with ok PeWeb show ?thesis by (simp add: portal_step_def portal_ok_def web_handle_ok)
next
  case (PeCommunity c)
  let ?cm = "pt_community pt" and ?pt = "portal_step au cf wx pt e"
  have p: "people_ok (community_step au cf ?cm c)"
    using ok ev PeCommunity by (simp add: portal_ok_def people_ok_step)
  have w: "web_ok (pt_web ?pt)"
    using ok PeCommunity by (auto simp: portal_step_def portal_ok_def leaveWebSessions_def Purge_ok split: community_event.split)
  have "participants (pt_web ?pt) \<subseteq> participants (pt_web pt)"
    and gone: "c = EvHangUp conn t \<Longrightarrow> cs_authenticated (cm_session ?cm conn) \<Longrightarrow>
      my_id (cm_session ?cm conn) \<notin> participants (pt_web ?pt)" for conn t
    using ok PeCommunity Purge_participants [of "pt_web pt"]
    by (auto simp: portal_step_def portal_ok_def leaveWebSessions_def split: community_event.split) blast+
  then have "attached (cm_db (community_step au cf ?cm c)) (cm_shared (community_step au cf ?cm c)) u"
    if "u \<in> participants (pt_web ?pt)" for u
    using that ok ev PeCommunity by (intro attached_step) (auto simp: portal_ok_def)
  with p w PeCommunity show ?thesis by (auto simp: portal_ok_def portal_step_def)
qed (use set_pt_shared_ok [OF ok presence_listed [OF disjI1 [OF refl]]] set_pt_shared_ok [OF ok presence_listed [OF disjI2 [OF refl]]]
    in \<open>simp_all add: portal_step_def\<close>)

interpretation portal: invariant_machine "portal_step au cf wx" portal_event_ok portal_ok for au cf wx
  by unfold_locales (rule portal_ok_step)

lemma initial_portal_ok: "portal_ok initial_portal"
  using initial_community_ok by (simp add: portal_ok_def initial_portal_def web_ok_empty) (simp add: participants_def web_empty_def)

subsection \<open>Reachable states\<close>

text \<open>C3: Whatever game connections and Web API requests happen in whatever order, as long as the database
  answers its queries to the game commands: every session is stored under its own id, is of one of the
  two types, has at most 256 members, no user twice, and its owner among them; no user holds the same
  index in two sessions; and every member whose account still exists is connected.\<close>

theorem reachable_sessions_ok:
  fixes au :: auth_functions and cf :: config and wx :: web_functions
  assumes "list_all portal_event_ok es"
  defines "pt \<equiv> foldl (portal_step au cf wx) initial_portal es"
  shows "(\<forall>k s. (k, s) \<in> set (wb_sessions (pt_web pt)) \<longrightarrow> session_ok k s) \<and> one_per_index (wb_sessions (pt_web pt)) \<and>
    (\<forall>u \<in> participants (pt_web pt). has_account (pt_db pt) u \<longrightarrow> qfind (ss_clients (pt_shared pt)) u \<noteq> None)"
proof -
  have "portal_ok pt" unfolding pt_def by (rule portal.run_inv [OF initial_portal_ok assms(1)])
  then show ?thesis by (auto simp: portal_ok_def web_ok_def attached_def listed_def)
qed

definition example_day :: "portal_event list" where
  "example_day = map PeCommunity (butlast example_life) @
     [PeWeb (WeCreate False (example_upload ''ta'' ''session-request'' ''{create}'') ''x'' 8), PeWeb (WeJoin False ''001-x'' (example_visit ''tb'') 9)]"


lemma example_day_ok: "list_all portal_event_ok example_day"
  by (simp add: example_day_def example_life_def no_faults_def)

lemma reachable_sessions_ok_witness:
  "one_per_index (wb_sessions (pt_web (foldl (portal_step example_auth example_config example_web) initial_portal example_day)))"
  using reachable_sessions_ok [OF example_day_ok] by blast

end
