(* ===== verification/WebRules.thy ===== *)
theory WebRules
  imports WebOnline
begin

text \<open>
  The rules of sessions and invitations: who sees a private session, who may change an owner's
  session, what joining and leaving do to the members and the owner, and that an invitation is used
  once.
\<close>

subsection \<open>Who may look\<close>

lemma HasActiveInvitation_iff:
  assumes "web_ok ws"
  shows "HasActiveInvitation now ws k u \<longleftrightarrow>
    (\<exists>i iv. qfind (wb_invitations ws) i = Some iv \<and> iv_toUserId iv = u \<and> iv_sessionId iv = k \<and> \<not> iv_used iv \<and>
       (iv_validUntil iv = 0 \<or> now \<le> iv_validUntil iv))"
proof -
  have "qdistinct (wb_invitations ws)" using assms by (simp add: web_ok_def)
  then have "iv \<in> set (qvalues (wb_invitations ws)) \<longleftrightarrow> (\<exists>i. qfind (wb_invitations ws) i = Some iv)" for iv
    by (force simp: qfind_in_set)
  then show ?thesis unfolding HasActiveInvitation_def list_ex_iff Bex_def by (auto simp: not_less)
qed

lemma session_key: "web_ok ws \<Longrightarrow> qfind (wb_sessions ws) k = Some s \<Longrightarrow> sn_sessionId s = k"
  by (drule (1) web_ok_session) (simp add: session_ok_def)

lemma qfind_values: "qdistinct h \<Longrightarrow> v \<in> set (qvalues h) \<longleftrightarrow> (\<exists>k. qfind h k = Some v)"
  by (force simp: qfind_in_set)

lemma set_map_filter: "x \<in> set (List.map_filter f xs) \<longleftrightarrow> (\<exists>y \<in> set xs. f y = Some x)"
  by (induction xs) (auto simp: List.map_filter_simps split: option.split)

lemma visibleRows_iff:
  assumes "web_ok ws"
  shows "r \<in> set (visibleRows now ws t c) \<longleftrightarrow>
    (\<exists>k s. qfind (wb_sessions ws) k = Some s \<and> visibleTo now ws c s \<and> sessionRow t s = Some r)"
proof -
  have "qdistinct (wb_sessions ws)" using assms by (simp add: web_ok_def)
  from qfind_values [OF this] show ?thesis unfolding visibleRows_def set_map_filter set_filter Bex_def by blast
qed

lemma bestRow_append:
  "bestRow (rows @ [r]) = (case bestRow rows of None \<Rightarrow> Some r
     | Some b \<Rightarrow> if rw_priority r > rw_priority b \<or> rw_priority r = rw_priority b \<and> rw_joinedAt r > rw_joinedAt b
                 then Some r else Some b)"
  by (simp add: bestRow_def split: option.split)

lemma bestRow_best:
  "(bestRow rows = None \<longleftrightarrow> rows = []) \<and>
   (\<forall>b. bestRow rows = Some b \<longrightarrow> b \<in> set rows \<and>
     (\<forall>r \<in> set rows. rw_priority r < rw_priority b \<or> rw_priority r = rw_priority b \<and> rw_joinedAt r \<le> rw_joinedAt b))"
proof (induction rows rule: rev_induct)
  case Nil
  then show ?case by (simp add: bestRow_def)
next
  case (snoc r rows)
  show ?case
  proof (cases "bestRow rows")
    case None
    with snoc have "bestRow (rows @ [r]) = Some r" "rows = []" unfolding bestRow_append by simp_all
    then show ?thesis by simp
  next
    case (Some b)
    with snoc have b: "b \<in> set rows" "\<And>r. r \<in> set rows \<Longrightarrow> rw_priority r < rw_priority b \<or>
        rw_priority r = rw_priority b \<and> rw_joinedAt r \<le> rw_joinedAt b" by auto
    show ?thesis
    proof (cases "rw_priority r > rw_priority b \<or> rw_priority r = rw_priority b \<and> rw_joinedAt r > rw_joinedAt b")
      case True
      then have "rw_priority x < rw_priority r \<or> rw_priority x = rw_priority r \<and> rw_joinedAt x \<le> rw_joinedAt r"
        if "x \<in> set rows" for x
        using b(2) [OF that] by linarith
      with True Some show ?thesis by (auto simp: bestRow_append)
    next
      case False
      with b Some show ?thesis by (auto simp: bestRow_append)
    qed
  qed
qed

lemma Collect_visible: "r \<in> set (CollectUserSessions now ws t c f) \<Longrightarrow> r \<in> set (visibleRows now ws t c)"
  using bestRow_best [of "visibleRows now ws t c"]
  by (auto simp: CollectUserSessions_def Let_def split: option.splits)

lemma sessionRow_id: "sessionRow t s = Some r \<Longrightarrow> rw_sessionId r = sn_sessionId s"
  by (auto simp: sessionRow_def)

text \<open>C8: A private session is closed to strangers: in a well-formed state the routes for its information
  and for its members answer an authenticated user with them exactly when the user is a member or has
  an unused invitation to it that has not expired, and the route for its data besides only when the
  user's platform is one of the session's; everybody else is refused by these three routes, and the
  selection all lists of sessions are made from (\<open>CollectUserSessions\<close>) leaves it out. Sessions that
  are not private are open to all. (A fourth route, the one that reads an invitation, has a looser
  rule: see \<open>used_invitation_shows_session\<close>.)\<close>

theorem private_session_closed:
  fixes now :: int
  assumes ws: "web_ok ws" and me: "Authenticate wx fault req db = Inr me" and s: "qfind (wb_sessions ws) k = Some s"
  defines "may \<equiv> sn_sessionPrivacy s \<noteq> ''private'' \<or> isMember s (fst me) \<or>
    (\<exists>i iv. qfind (wb_invitations ws) i = Some iv \<and> iv_toUserId iv = fst me \<and> iv_sessionId iv = k \<and> \<not> iv_used iv \<and>
       (iv_validUntil iv = 0 \<or> now \<le> iv_validUntil iv))"
  shows "HandleSessionGet wx fault k req now db ws =
      (if may then JsonOk (sessionInfo req fault db s) else JsonError HttpForbidden SESSION_NOT_PERMITTED) \<and>
    HandleSessionMembers wx fault k req now db ws =
      (if may then JsonOk [(''members'', JArray (map (jmember fault db) (sn_members s)))]
       else JsonError HttpForbidden SESSION_NOT_PERMITTED) \<and>
    HandleSessionGetData wx fault k req now db sh ws =
      (if may \<and> \<not> platformExcluded (callerPlatform sh (fst me)) (sn_availablePlatforms s)
       then OctetStream (sn_sessionData s) else JsonError HttpForbidden SESSION_NOT_PERMITTED) \<and>
    (k \<in> rw_sessionId ` set (CollectUserSessions now ws target (fst me) f) \<longrightarrow> may)"
proof -
  have v: "visibleTo now ws (fst me) s = may"
    by (simp add: visibleTo_def may_def session_key [OF ws s] HasActiveInvitation_iff [OF ws] not_less)
  have "may" if "k \<in> rw_sessionId ` set (CollectUserSessions now ws target (fst me) f)"
  proof -
    from that obtain r where r: "r \<in> set (visibleRows now ws target (fst me))" "rw_sessionId r = k"
      using Collect_visible by blast
    then obtain k' s' where s': "qfind (wb_sessions ws) k' = Some s'" "visibleTo now ws (fst me) s'" "sessionRow target s' = Some r"
      by (auto simp: visibleRows_iff [OF ws])
    with r session_key [OF ws s'(1)] sessionRow_id have "k' = k" by auto
    with s s' v show ?thesis by simp
  qed
  then show ?thesis
    using me s v unfolding may_def [symmetric]
    by (auto simp: HandleSessionGet_def HandleSessionMembers_def HandleSessionGetData_def accessSession_def Let_def
        visibleTo_def session_key [OF ws s])
qed

text \<open>An invitation that is used or has expired no longer opens the session, but reading the invitation
  itself still shows its recipient the session's name, status and owner, and its members.\<close>

theorem used_invitation_shows_session:
  assumes "Authenticate wx fault req db = Inr me" and "findInvitation i (fst me) ws = Some iv"
    and "qfind (wb_sessions ws) (iv_sessionId iv) = Some s"
    and "queryFields req = [''session'', ''members'']"
  shows "HandleInvitationGet wx fault i req now db ws = JsonOk [(''session'', JObject (invitedSession req s))] \<and>
    (''members'', JArray (map (\<lambda>m. JObject [(''accountId'', JString (qstring_number (sm_userId m))),
       (''onlineId'', JString (sm_npid m)), (''platform'', JString (sm_platform m))]) (sn_members s)))
      \<in> set (invitedSession req s)"
  using assms by (simp add: HandleInvitationGet_def Let_def joptional_def invitedSession_def)

subsection \<open>Which session is shown\<close>

text \<open>C26: \<open>CollectUserSessions\<close> without an index filter shows at most one session of the user: none exactly
  when the user is in no session the caller may see, and otherwise one with the highest priority, and
  among those of this priority one joined last. With a filter it shows exactly the visible sessions at
  the indexes asked for.\<close>

theorem best_session_shown:
  fixes target caller :: userid and now :: int
  assumes ws: "web_ok ws"
  defines "seen \<equiv> {r. \<exists>k s. qfind (wb_sessions ws) k = Some s \<and> visibleTo now ws caller s \<and> sessionRow target s = Some r}"
  shows "(seen = {} \<longrightarrow> CollectUserSessions now ws target caller None = []) \<and>
    (seen \<noteq> {} \<longrightarrow> (\<exists>b \<in> seen. CollectUserSessions now ws target caller None = [b] \<and>
       (\<forall>r \<in> seen. rw_priority r < rw_priority b \<or> rw_priority r = rw_priority b \<and> rw_joinedAt r \<le> rw_joinedAt b))) \<and>
    set (CollectUserSessions now ws target caller (Some is)) = {r \<in> seen. rw_index r \<in> set is}"
proof -
  have rows: "set (visibleRows now ws target caller) = seen"
    unfolding seen_def by (intro set_eqI) (simp only: visibleRows_iff [OF ws] mem_Collect_eq)
  show ?thesis
    using bestRow_best [of "visibleRows now ws target caller"] rows
    by (cases "bestRow (visibleRows now ws target caller)") (auto simp: CollectUserSessions_def Let_def)
qed

subsection \<open>Leaving on disconnection\<close>

lemma qfind_map_filter:
  "qdistinct h \<Longrightarrow> qfind (List.map_filter (\<lambda>(k, s). map_option (Pair k) (g s)) h) k = Option.bind (qfind h k) g"
proof (induction h)
  case (Cons p h)
  obtain k' s where p: "p = (k', s)" by (cases p)
  from Cons.prems have "qdistinct h" and n: "qfind h k' = None"
    by (auto simp: qdistinct_def p map_of_eq_None_iff)
  then have IH: "qfind (List.map_filter (\<lambda>(k, s). map_option (Pair k) (g s)) h) k = Option.bind (qfind h k) g"
    using Cons.IH by simp
  show ?case
    using IH n by (cases "g s") (auto simp: p List.map_filter_simps)
qed (simp add: List.map_filter_simps)

lemma Purge_find:
  "web_ok ws \<Longrightarrow> qfind (wb_sessions (fst (PurgeUserFromSessions wx now u sh ws))) k =
    Option.bind (qfind (wb_sessions ws) k) (\<lambda>s. snd (RemoveMemberApplyOwner u s))"
  by (simp add: Purge_sessions qfind_map_filter web_ok_def)

lemma removeFirst_user:
  "session_ok k s \<Longrightarrow> removeFirst (\<lambda>m. sm_userId m = u) (sn_members s) = filter (\<lambda>m. sm_userId m \<noteq> u) (sn_members s)"
  by (rule removeFirst_filter [where f = sm_userId and u = u]) (simp_all add: session_ok_def)

lemma map_map_filter: "map f (List.map_filter g xs) = List.map_filter (\<lambda>x. map_option f (g x)) xs"
  by (induction xs) (auto simp: List.map_filter_simps split: option.split)

lemma Send_receivers:
  "map fst (SendSessionInvitationEvent wx now sh dt from npid ids sid invs until) =
    List.map_filter (\<lambda>v. map_option ce_send (qfind (ss_clients sh) v)) ids"
  unfolding SendSessionInvitationEvent_def Let_def map_map_filter
  by (rule arg_cong [where f = "\<lambda>g. List.map_filter g ids"]) (simp add: fun_eq_iff split: option.split)

text \<open>C14: When an authenticated connection ends, its user is taken out of every session: the user is a
  member of none afterwards, the sessions without the user stay exactly as they were, one left without
  members or by its owner under owner-bind is gone, and in the others the remaining members keep their
  seats and their order, the first of them becoming the owner when the owner left. The end of a
  connection that is not authenticated - because there was no login, or because its user deleted the
  account - changes no session.\<close>

theorem purge_removes_user:
  fixes wx :: web_functions and now :: int and cs :: ClientSession and sh :: SharedState
  assumes ws: "web_ok ws"
  defines "u \<equiv> my_id cs" and "ws' \<equiv> fst (leaveWebSessions wx now cs sh ws)"
  shows "if \<not> cs_authenticated cs then ws' = ws
    else qfind (wb_sessions ws') k =
      (case qfind (wb_sessions ws) k of
         None \<Rightarrow> None
       | Some s \<Rightarrow>
           (let ms = filter (\<lambda>m. sm_userId m \<noteq> u) (sn_members s) in
            if \<not> isMember s u then Some s
            else if ms = [] \<or> sn_sessionType s = owner_bind \<and> sn_ownerUserId s = u then None
            else if sn_ownerUserId s = u
            then Some (s\<lparr>sn_members := ms, sn_ownerUserId := sm_userId (hd ms), sn_ownerNpid := sm_npid (hd ms)\<rparr>)
            else Some (s\<lparr>sn_members := ms\<rparr>))) \<and>
    u \<notin> participants ws' \<and> wb_invitations ws' = wb_invitations ws"
proof (cases "cs_authenticated cs")
  case True
  let ?sh = "fst (snd (CleanupMatchingOnDisconnect cs sh))"
  have w: "ws' = fst (PurgeUserFromSessions wx now u ?sh ws)"
    using True by (simp add: ws'_def u_def leaveWebSessions_def)
  have "u \<notin> participants ws'" using Purge_participants [OF ws, of wx now u ?sh] unfolding w by blast
  moreover have "wb_invitations ws' = wb_invitations ws" by (simp add: w Purge_sessions)
  moreover have "snd (RemoveMemberApplyOwner u s) =
      (let ms = filter (\<lambda>m. sm_userId m \<noteq> u) (sn_members s) in
       if \<not> isMember s u then Some s
       else if ms = [] \<or> sn_sessionType s = owner_bind \<and> sn_ownerUserId s = u then None
       else if sn_ownerUserId s = u
       then Some (s\<lparr>sn_members := ms, sn_ownerUserId := sm_userId (hd ms), sn_ownerNpid := sm_npid (hd ms)\<rparr>)
       else Some (s\<lparr>sn_members := ms\<rparr>))" if "qfind (wb_sessions ws) k = Some s" for s
    using removeFirst_user [OF web_ok_session [OF ws that], of u]
    by (simp add: RemoveMemberApplyOwner_def settleOwner_def Let_def)
  ultimately show ?thesis
    using True by (simp add: w Purge_find [OF ws] split: option.split)
qed (simp add: ws'_def leaveWebSessions_def)

subsection \<open>Joining\<close>

lemma Leave_others:
  \<comment> \<open>leaving one index changes a session at most by the user's own entry and, where the user owned it, its owner\<close>
  assumes ws: "web_ok ws" and s': "qfind (wb_sessions (LeaveSessionAtIndex u i ws)) k = Some s'"
  obtains s where "qfind (wb_sessions ws) k = Some s" and
    "sn_members s' = filter (\<lambda>m. \<not> atIndex u i m) (sn_members s)" and "sn_ownerUserId s \<noteq> u \<longrightarrow> s' = s\<lparr>sn_members := sn_members s'\<rparr>"
proof (cases "List.find (\<lambda>(k, s). list_ex (atIndex u i) (sn_members s)) (wb_sessions ws)")
  case None
  then have "LeaveSessionAtIndex u i ws = ws" by (simp add: LeaveSessionAtIndex_def)
  with s' have w: "qfind (wb_sessions ws) k = Some s'" by simp
  then have "\<not> list_ex (atIndex u i) (sn_members s')"
    using None map_of_SomeD [OF w] by (auto simp: find_None_iff)
  then have "sn_members s' = filter (\<lambda>m. \<not> atIndex u i m) (sn_members s')"
    by (simp add: list_ex_iff filter_id_conv)
  with w that show ?thesis by simp
next
  case (Some p)
  obtain k0 s0 where p: "p = (k0, s0)" by (cases p)
  have s0: "qfind (wb_sessions ws) k0 = Some s0"
    using find_entry [where P = "\<lambda>s. list_ex (atIndex u i) (sn_members s)", of "wb_sessions ws"] Some p ws
    by (simp add: web_ok_def)
  let ?s0 = "s0\<lparr>sn_members := removeFirst (atIndex u i) (sn_members s0)\<rparr>"
  have rf: "removeFirst (atIndex u i) (sn_members s0) = filter (\<lambda>m. \<not> atIndex u i m) (sn_members s0)"
    using web_ok_session [OF ws s0]
    by (intro removeFirst_filter [where f = sm_userId and u = u]) (auto simp: session_ok_def atIndex_user)
  show ?thesis
  proof (cases "k = k0")
    case True
    then have "settleOwner u ?s0 = Some s'"
      using s' Some p by (auto simp: LeaveSessionAtIndex_def qfind_qremove qfind_qinsert split: option.splits)
    with that [of s0] s0 True rf show ?thesis by (auto simp: settleOwner_def Let_def split: if_splits)
  next
    case False
    then have w: "qfind (wb_sessions ws) k = Some s'"
      using s' Some p by (auto simp: LeaveSessionAtIndex_def qfind_qremove qfind_qinsert split: option.splits)
    have "(u, i) \<in> seats s0" using find_SomeD [OF Some] p by (simp add: seats_atIndex)
    from web_ok_seats [OF ws map_of_SomeD [OF s0] map_of_SomeD [OF w] False this]
    have "sn_members s' = filter (\<lambda>m. \<not> atIndex u i m) (sn_members s')"
      by (simp add: seats_atIndex list_ex_iff filter_id_conv)
    with w that show ?thesis by simp
  qed
qed

lemma Leave_keeps:
  assumes ws: "web_ok ws" and s: "qfind (wb_sessions ws) k = Some s" and o: "sn_ownerUserId s \<noteq> u"
  shows "\<exists>ms. qfind (wb_sessions (LeaveSessionAtIndex u i ws)) k = Some (s\<lparr>sn_members := ms\<rparr>) \<and>
    filter (\<lambda>m. sm_userId m \<noteq> u) ms = filter (\<lambda>m. sm_userId m \<noteq> u) (sn_members s)"
proof -
  have "qfind (wb_sessions (LeaveSessionAtIndex u i ws)) k \<noteq> None"
  proof (cases "List.find (\<lambda>(k, s). list_ex (atIndex u i) (sn_members s)) (wb_sessions ws)")
    case None
    then show ?thesis using s by (simp add: LeaveSessionAtIndex_def)
  next
    case (Some p)
    obtain k0 s0 where p: "p = (k0, s0)" by (cases p)
    have s0: "qfind (wb_sessions ws) k0 = Some s0"
      using find_entry [where P = "\<lambda>s. list_ex (atIndex u i) (sn_members s)", of "wb_sessions ws"] Some p ws
      by (simp add: web_ok_def)
    have "settleOwner u (s0\<lparr>sn_members := removeFirst (atIndex u i) (sn_members s0)\<rparr>) \<noteq> None" if "k0 = k"
    proof -
      have "s0 = s" using that s s0 by simp
      moreover obtain m where "m \<in> set (sn_members s)" "sm_userId m = sn_ownerUserId s"
        using web_ok_session [OF ws s] by (auto simp: session_ok_def)
      moreover have "removeFirst (atIndex u i) (sn_members s) = filter (\<lambda>m. \<not> atIndex u i m) (sn_members s)"
        using web_ok_session [OF ws s]
        by (intro removeFirst_filter [where f = sm_userId and u = u]) (auto simp: session_ok_def atIndex_user)
      ultimately have "m \<in> set (removeFirst (atIndex u i) (sn_members s0))" using o by (simp add: atIndex_def)
      then show ?thesis using o \<open>s0 = s\<close> by (auto simp: settleOwner_def Let_def)
    qed
    then show ?thesis
      using Some p s by (auto simp: LeaveSessionAtIndex_def qfind_qremove qfind_qinsert split: option.split)
  qed
  then obtain s' where s': "qfind (wb_sessions (LeaveSessionAtIndex u i ws)) k = Some s'" by auto
  obtain t where t: "qfind (wb_sessions ws) k = Some t" "sn_members s' = filter (\<lambda>m. \<not> atIndex u i m) (sn_members t)"
      "sn_ownerUserId t \<noteq> u \<longrightarrow> s' = t\<lparr>sn_members := sn_members s'\<rparr>"
    by (rule Leave_others [OF ws s'])
  have "filter (\<lambda>m. sm_userId m \<noteq> u) (sn_members s') = filter (\<lambda>m. sm_userId m \<noteq> u) (sn_members s)"
    using t(1,2) s by (auto simp: atIndex_def intro: filter_cong)
  moreover have "s' = s\<lparr>sn_members := sn_members s'\<rparr>" using t(1,3) s o by simp
  ultimately show ?thesis using s' by metis
qed

text \<open>C12: Joining: when a request of a user who is not in the session succeeds, the index was between 0 and
  63, the session was unlocked and had a free place; afterwards the user is its last member, at that
  index, and everything else in it is as before; the user has left that index everywhere else, which
  takes at most the user's own entries out of other sessions and leaves sessions in which the user did
  not hold the index untouched; and exactly the connected members, if the session wants it, are told.\<close>

theorem session_join_effect:
  assumes ws: "web_ok ws" and me: "Authenticate wx fault req db = Inr me" and s: "qfind (wb_sessions ws) k = Some s"
    and new: "\<not> isMember s (fst me)" and r: "HandleSessionJoin wx fault k req now db sh ws = (NoContent, ws', outs)"
  defines "i \<equiv> queryInt wx req ''index'' 0"
  shows "0 \<le> i \<and> i \<le> 63 \<and> \<not> sn_sessionLockFlag s \<and> length (sn_members s) < sessionCapacity s \<and>
    (\<exists>c. qfind (ss_clients sh) (fst me) = Some c \<and>
      qfind (wb_sessions ws') k = Some (s\<lparr>sn_members := sn_members s @ [\<lparr>sm_userId = fst me, sm_npid = snd me,
        sm_platform = ce_platform c, sm_index = i, sm_priority = queryInt wx req ''priority'' 49, sm_joinedAt = now\<rparr>]\<rparr>)) \<and>
    (\<forall>k' t'. k' \<noteq> k \<longrightarrow> qfind (wb_sessions ws') k' = Some t' \<longrightarrow>
      (\<exists>t. qfind (wb_sessions ws) k' = Some t \<and> sn_members t' = filter (\<lambda>m. \<not> atIndex (fst me) i m) (sn_members t))) \<and>
    (\<forall>k' t. k' \<noteq> k \<longrightarrow> qfind (wb_sessions ws) k' = Some t \<longrightarrow> (fst me, i) \<notin> seats t \<longrightarrow> qfind (wb_sessions ws') k' = Some t) \<and>
    map fst outs = (if sn_sendNotificationFlag s
       then List.map_filter (\<lambda>m. map_option ce_send (qfind (ss_clients sh) (sm_userId m))) (sn_members s) else [])"
proof -
  have f: "List.find (\<lambda>m. sm_userId m = fst me) (sn_members s) = None" using new by (simp add: find_member)
  have m: "filter (\<lambda>u. u \<noteq> fst me) (map sm_userId (sn_members s)) = map sm_userId (sn_members s)"
    using new unfolding filter_id_conv isMember_set set_map by blast
  from r obtain c where c: "qfind (ss_clients sh) (fst me) = Some c" and i: "0 \<le> i" "i \<le> 63"
    and l: "\<not> sn_sessionLockFlag s" "length (sn_members s) < sessionCapacity s"
    and w: "ws' = take_seat (fst me) i k (joinedSession wx req now me c s) ws"
    and o: "outs = (if sn_sendNotificationFlag s
                then SendSessionInvitationEvent wx now sh join_event (fst me) (snd me) (map sm_userId (sn_members s)) k [] 0
                else [])"
    unfolding Join_result [OF me] Let_def s m i_def [symmetric] by (auto simp: f m split: option.splits if_splits)
  have o: "map fst outs = (if sn_sendNotificationFlag s
       then List.map_filter (\<lambda>m. map_option ce_send (qfind (ss_clients sh) (sm_userId m))) (sn_members s) else [])"
    unfolding o by (simp add: Send_receivers List.map_filter_def filter_map comp_def)
  have "\<exists>t. qfind (wb_sessions ws) k' = Some t \<and> sn_members t' = filter (\<lambda>m. \<not> atIndex (fst me) i m) (sn_members t)"
    if "k' \<noteq> k" "qfind (wb_sessions ws') k' = Some t'" for k' t'
  proof -
    have "qfind (wb_sessions (LeaveSessionAtIndex (fst me) i ws)) k' = Some t'"
      using that by (simp add: w take_seat_def put_session_def qfind_qinsert)
    from Leave_others [OF ws this] show ?thesis by metis
  qed
  moreover have "qfind (wb_sessions ws') k' = Some t"
    if "k' \<noteq> k" "qfind (wb_sessions ws) k' = Some t" "(fst me, i) \<notin> seats t" for k' t
    using LeaveSessionAtIndex_ok(3) [OF ws that(2,3)] that(1) by (simp add: w take_seat_def put_session_def qfind_qinsert)
  moreover have "qfind (wb_sessions ws') k = Some (joinedSession wx req now me c s)"
    by (simp add: w take_seat_def put_session_def qfind_qinsert)
  ultimately show ?thesis using c i l o unfolding joinedSession_def i_def by blast
qed

subsection \<open>Whose session it is\<close>

definition others :: "userid \<Rightarrow> Session \<Rightarrow> Session" where
  \<comment> \<open>the session without the user's own entry\<close>
  "others u s = s\<lparr>sn_members := filter (\<lambda>m. sm_userId m \<noteq> u) (sn_members s)\<rparr>"

lemma others_members: "others u (s\<lparr>sn_members := ms\<rparr>) = s\<lparr>sn_members := filter (\<lambda>m. sm_userId m \<noteq> u) ms\<rparr>"
  by (simp add: others_def)

lemma others_rejoin: "others u (rejoin u p now s) = others u s"
proof -
  let ?P = "\<lambda>m. sm_userId m \<noteq> u" and ?ms = "sn_members s"
  let ?c = "case dropWhile ?P ?ms of [] \<Rightarrow> [] | m # ms \<Rightarrow> m\<lparr>sm_priority := p, sm_joinedAt := now\<rparr> # ms"
  have c: "filter ?P ?c = filter ?P (dropWhile ?P ?ms)"
  proof (cases "dropWhile ?P ?ms")
    case (Cons m ns)
    then have "sm_userId m = u" by (metis (mono_tags) hd_dropWhile list.distinct(1) list.sel(1))
    with Cons show ?thesis by simp
  next
    case Nil
    then show ?thesis by (simp only: list.case)
  qed
  have "filter ?P (takeWhile ?P ?ms @ ?c) = filter ?P (takeWhile ?P ?ms @ dropWhile ?P ?ms)"
    by (simp only: filter_append c)
  then have "filter ?P (takeWhile ?P ?ms @ ?c) = filter ?P ?ms" by (simp only: takeWhile_dropWhile_id)
  then show ?thesis unfolding rejoin_def others_members by (simp add: others_def)
qed

text \<open>What a request of a user who is not the owner leaves of an owner's session.\<close>

definition kept_but_for :: "userid \<Rightarrow> qstring \<Rightarrow> Session \<Rightarrow> web_state \<Rightarrow> bool" where
  "kept_but_for u k s ws \<longleftrightarrow> (\<exists>s'. qfind (wb_sessions ws) k = Some s' \<and> others u s' = others u s)"

lemma kept_refl: "qfind (wb_sessions ws) k = Some s \<Longrightarrow> kept_but_for u k s ws"
  by (simp add: kept_but_for_def)

lemma kept_put: "kept_but_for u k s (put_session k' s' ws) \<longleftrightarrow> (if k' = k then others u s' = others u s else kept_but_for u k s ws)"
  by (auto simp: kept_but_for_def put_session_def qfind_qinsert)

lemma kept_remove: "k' \<noteq> k \<Longrightarrow> kept_but_for u k s (ws\<lparr>wb_sessions := qremove k' (wb_sessions ws)\<rparr>) \<longleftrightarrow> kept_but_for u k s ws"
  by (simp add: kept_but_for_def qfind_qremove)

lemma kept_Leave:
  "web_ok ws \<Longrightarrow> qfind (wb_sessions ws) k = Some s \<Longrightarrow> sn_ownerUserId s \<noteq> u \<Longrightarrow> kept_but_for u k s (LeaveSessionAtIndex u i ws)"
  using Leave_keeps [of ws k s u i] by (auto simp: kept_but_for_def others_def)

lemma RemoveMember_kept:
  assumes s: "session_ok k s" and o: "sn_ownerUserId s \<noteq> u"
  shows "\<exists>s'. snd (RemoveMemberApplyOwner u s) = Some s' \<and> others u s' = others u s"
proof -
  obtain m where "m \<in> set (sn_members s)" "sm_userId m = sn_ownerUserId s"
    using s by (auto simp: session_ok_def)
  then have "filter (\<lambda>m. sm_userId m \<noteq> u) (sn_members s) \<noteq> []" using o by (simp add: filter_empty_conv) metis
  then show ?thesis
    using removeFirst_user [OF s, of u] o by (simp add: RemoveMemberApplyOwner_def settleOwner_def Let_def others_def)
qed

text \<open>C10: A session of type owner-bind belongs to its creator: whatever request another user sends, the session
  is still there afterwards with the same owner, name, settings and data, and the same members in the
  same order except for the sender's own entry. (A new session could only take its place if its UUID
  were not new.)\<close>

theorem owner_bind_belongs_to_owner:
  assumes ws: "web_ok ws" and me: "web_sender wx db e = Inr me"
    and s: "qfind (wb_sessions ws) k = Some s" "sn_sessionType s = owner_bind" and o: "sn_ownerUserId s \<noteq> fst me"
    and fresh: "\<And>fault req uuid now. e = WeCreate fault req uuid now \<Longrightarrow> k \<noteq> ''001-'' @ uuid"
  shows "\<exists>s'. qfind (wb_sessions (web_after (web_handle wx db sh ws e))) k = Some s' \<and>
    s'\<lparr>sn_members := filter (\<lambda>m. sm_userId m \<noteq> fst me) (sn_members s')\<rparr> =
    s\<lparr>sn_members := filter (\<lambda>m. sm_userId m \<noteq> fst me) (sn_members s)\<rparr>"
proof -
  note keep = kept_refl [OF s(1), of "fst me"]
  note leave = kept_Leave [OF ws s(1) o]
  have forbidden: "SessionPermissionError s (fst me) \<noteq> 0"
    using s(2) o by (simp add: SessionPermissionError_def SESSION_ONLY_CREATOR_def)
  have "kept_but_for (fst me) k s (web_after (web_handle wx db sh ws e))"
  proof (cases e)
    case (WeCreate fault req uuid now)
    obtain r ws' out where h: "HandleSessionCreate wx fault req uuid now db sh ws = (r, ws', out)" by (rule prod_cases3)
    from Create_result [OF h] me keep leave fresh [OF WeCreate] show ?thesis
      by (auto simp: WeCreate h take_seat_def kept_put)
  next
    case (WeUpdate fault k' req now)
    with me keep forbidden s(1) show ?thesis
      by (auto simp: HandleSessionUpdate_def Let_def put_session_def [symmetric] kept_put split: option.split)
  next
    case (WeDelete fault k' req)
    with me keep forbidden s(1) show ?thesis
      by (cases "k' = k") (auto simp: HandleSessionDelete_def Let_def kept_remove split: option.split)
  next
    case (WeJoin fault k' req now)
    with me have "Authenticate wx fault req db = Inr me" by simp
    with WeJoin keep leave s(1) show ?thesis
      by (auto simp: Join_result Let_def kept_put others_rejoin take_seat_def joinedSession_def others_members others_def [symmetric]
          split: option.split)
  next
    case (WeLeave fault k' mk req now)
    with me keep RemoveMember_kept [OF web_ok_session [OF ws s(1)] o] s(1) o show ?thesis
      by (cases "k' = k") (auto simp: HandleSessionLeave_def Let_def kept_remove kept_put put_session_def [symmetric]
          split: option.split prod.split)
  next
    case (WeInvite fault k' req uuids now)
    with me have a: "Authenticate wx fault req db = Inr me" by simp
    from Invite_result [OF a, of k' uuids now sh ws] keep show ?thesis
      by (elim disjE exE conjE) (simp_all add: WeInvite Let_def kept_but_for_def)
  next
    case (WeUse fault i req now)
    with me keep show ?thesis
      by (auto simp: HandleInvitationUse_def kept_but_for_def split: option.split)
  qed
  then show ?thesis by (simp add: kept_but_for_def others_def)
qed

subsection \<open>Invitations\<close>

definition spent :: "qstring \<Rightarrow> userid \<Rightarrow> web_state \<Rightarrow> bool" where
  "spent i u ws \<longleftrightarrow> (\<exists>iv. qfind (wb_invitations ws) i = Some iv \<and> iv_used iv \<and> iv_toUserId iv = u)"

definition other_ids :: "qstring \<Rightarrow> web_event \<Rightarrow> bool" where
  \<comment> \<open>the request makes no invitation of this id\<close>
  "other_ids i e \<longleftrightarrow> (\<forall>fault k req uuids now n. e = WeInvite fault k req uuids now \<longrightarrow> invitationId_of (uuids n) \<noteq> i)"

lemma Leave_invitations: "wb_invitations (LeaveSessionAtIndex u i ws) = wb_invitations ws"
  by (simp add: LeaveSessionAtIndex_def split: option.split)

lemma invitations_kept:
  assumes "\<And>fault k req uuids now. e \<noteq> WeInvite fault k req uuids now" and "\<And>fault i req now. e \<noteq> WeUse fault i req now"
  shows "wb_invitations (web_after (web_handle wx db sh ws e)) = wb_invitations ws"
proof (cases e)
  case (WeCreate fault req uuid now)
  obtain r ws' out where h: "HandleSessionCreate wx fault req uuid now db sh ws = (r, ws', out)" by (rule prod_cases3)
  from Create_result [OF h] show ?thesis by (auto simp: WeCreate h take_seat_def put_session_def Leave_invitations)
qed (use assms in \<open>auto simp: HandleSessionUpdate_def HandleSessionDelete_def HandleSessionJoin_def
    HandleSessionLeave_def Let_def Leave_invitations split: sum.split option.split prod.split\<close>)

lemma qfind_fold_other:
  "\<forall>x \<in> set xs. f x \<noteq> i \<Longrightarrow> qfind (fold (\<lambda>x. qinsert (f x) x) xs h) i = qfind h i"
  by (induction xs arbitrary: h) (auto simp: qfind_qinsert)

lemma spent_step:
  assumes "spent i u ws" and "other_ids i e"
  shows "spent i u (web_after (web_handle wx db sh ws e))"
proof (cases e)
  case (WeInvite fault k req uuids now)
  show ?thesis
  proof (cases "Authenticate wx fault req db")
    case (Inl r)
    with assms WeInvite web_unauthenticated [of wx db e r] show ?thesis by simp
  next
    case (Inr me)
    have "\<forall>iv \<in> set (map (\<lambda>(n, r). newInvitation (invitationId_of (uuids n)) k s me r msg dat now) (enumerate 0 rs)). iv_invitationId iv \<noteq> i"
      for s msg dat rs
      using assms(2) by (auto simp: other_ids_def WeInvite newInvitation_def)
    from qfind_fold_other [OF this] Invite_result [OF Inr, of k uuids now sh ws] assms(1) show ?thesis
      by (elim disjE exE conjE) (simp_all add: WeInvite Let_def spent_def)
  qed
next
  case (WeUse fault i' req now)
  with assms(1) show ?thesis
    by (auto simp: HandleInvitationUse_def spent_def qfind_qinsert split: sum.split option.split)
qed (use assms(1) invitations_kept [of e wx db sh ws] in \<open>simp_all add: spent_def\<close>)

interpretation spent: invariant_machine "\<lambda>ws (db, sh, e). web_after (web_handle wx db sh ws e)"
    "\<lambda>(db, sh, e). other_ids i e" "spent i u" for wx i u
  by unfold_locales (auto simp: spent_step)

text \<open>C20: An invitation is used at most once: a use that is accepted comes from the user it was sent to, and the
  invitation was unused and had not expired; after it, whatever requests follow (none of which makes
  an invitation of the same id), every further use and every request for its data by that user is
  answered that the invitation has expired, and changes nothing.\<close>

theorem invitation_used_once:
  assumes use: "HandleInvitationUse wx fault i req now db ws = (NoContent, ws', outs)"
    and me: "Authenticate wx fault req db = Inr me"
    and es: "list_all (\<lambda>(db, sh, e). other_ids i e) es"
    and again: "Authenticate wx fault' req' db' = Inr me" "wx_fromJson wx (hq_body req') = Some obj"
      "jvalue obj ''usedFlag'' = JBool True"
  defines "ws2 \<equiv> foldl (\<lambda>ws (db, sh, e). web_after (web_handle wx db sh ws e)) ws' es"
  shows "(\<exists>iv. qfind (wb_invitations ws) i = Some iv \<and> iv_toUserId iv = fst me \<and> \<not> iv_used iv \<and>
       (iv_validUntil iv = 0 \<or> now \<le> iv_validUntil iv)) \<and>
    HandleInvitationUse wx fault' i req' now' db' ws2 = (JsonError HttpNotFound INVITATION_EXPIRED, ws2, []) \<and>
    HandleInvitationData wx fault' i req' now' db' sh' ws2 = JsonError HttpNotFound INVITATION_EXPIRED"
proof -
  from use me obtain iv where iv: "qfind (wb_invitations ws) i = Some iv" "iv_toUserId iv = fst me" "\<not> iv_used iv"
      "iv_validUntil iv = 0 \<or> now \<le> iv_validUntil iv"
    and w: "ws' = ws\<lparr>wb_invitations := qinsert i (iv\<lparr>iv_used := True, iv_updatedAt := now\<rparr>) (wb_invitations ws)\<rparr>"
    by (auto simp: HandleInvitationUse_def split: option.splits if_splits)
  have "spent i (fst me) ws'" using iv by (simp add: spent_def w qfind_qinsert)
  then have "spent i (fst me) ws2" unfolding ws2_def using es by (rule spent.run_inv)
  then obtain iv2 where "qfind (wb_invitations ws2) i = Some iv2" "iv_used iv2" "iv_toUserId iv2 = fst me"
    by (auto simp: spent_def)
  with iv again show ?thesis
    by (auto simp: HandleInvitationUse_def HandleInvitationData_def findInvitation_def)
qed

subsection \<open>What joining does not ask\<close>

text \<open>\<open>HandleSessionJoin\<close> lets anyone in: its answer is the same whatever the privacy and the platforms of the
  session are and whatever invitations there are, so a user who is refused the information of a private
  session may still join it.\<close>

theorem private_session_joinable:
  "fst (HandleSessionJoin wx fault k req now db sh ws) =
   fst (HandleSessionJoin wx fault k req now db sh
     (ws\<lparr>wb_sessions := map (\<lambda>(k, s). (k, s\<lparr>sn_sessionPrivacy := p, sn_availablePlatforms := q\<rparr>)) (wb_sessions ws),
         wb_invitations := ivs\<rparr>))"
proof (cases "Authenticate wx fault req db")
  case (Inr me)
  have "qfind (map (\<lambda>(k, s). (k, f s)) h) k = map_option f (qfind h k)" for f :: "Session \<Rightarrow> Session" and h
    by (induction h) auto
  then show ?thesis
    by (auto simp: Join_result [OF Inr] Let_def sessionCapacity_def split: option.split)
qed (simp add: HandleSessionJoin_def)

subsection \<open>The data of a session\<close>

text \<open>C28: The data a game uploads with a new session are what its creator downloads: if a request to make a
  session succeeds, a request of the same user for the data of the session it named gives the bytes of
  the part described as \<open>session-data\<close>, or none if there was no such part.\<close>

theorem session_data_roundtrip:
  assumes make: "HandleSessionCreate wx fault req uuid now db sh ws = (JsonOk f, ws', outs)"
    and me: "Authenticate wx fault req db = Authenticate wx fault' req' db'"
  defines "parts \<equiv> ParseMultipartMixed (hq_body req) (ExtractBoundary (NormalizeContentType (hq_contentType req)))"
  shows "f = [(''sessionId'', JString (''001-'' @ uuid))] \<and>
    HandleSessionGetData wx fault' (''001-'' @ uuid) req' now' db' sh ws' =
      OctetStream (case partNamed ''session-data'' parts of None \<Rightarrow> [] | Some d \<Rightarrow> d)"
proof -
  from Create_result [OF make] obtain me c json obj where c: "Authenticate wx fault req db = Inr me"
      "qfind (ss_clients sh) (fst me) = Some c"
    and w: "ws' = take_seat (fst me) (jtoInt 0 (jvalue obj ''index'')) (''001-'' @ uuid)
        (newWebSession obj (requestBlobs req) (''001-'' @ uuid) me (ce_platform c) now) ws"
    and p: "ce_platform c \<in> set (map jtoString (jtoArray (jvalue obj ''availablePlatforms'')))"
    and f: "f = [(''sessionId'', JString (''001-'' @ uuid))]"
    by auto
  let ?s = "newWebSession obj (requestBlobs req) (''001-'' @ uuid) me (ce_platform c) now"
  have s: "qfind (wb_sessions ws') (''001-'' @ uuid) = Some ?s"
    by (simp add: w take_seat_def put_session_def qfind_qinsert)
  have "\<not> platformExcluded (callerPlatform sh (fst me)) (sn_availablePlatforms ?s)"
    using c p by (simp add: platformExcluded_def callerPlatform_def newWebSession_def Let_def case_prod_unfold)
  moreover have "isMember ?s (fst me)" by (simp add: isMember_def newWebSession_sel)
  moreover have "sn_sessionData ?s = orEmpty (partNamed ''session-data'' parts)"
    by (simp add: newWebSession_def Let_def requestBlobs_def requestParts_def parts_def)
  moreover have "Authenticate wx fault' req' db' = Inr me" using me c by simp
  ultimately show ?thesis
    using c(2) s f by (simp add: HandleSessionGetData_def Let_def orEmpty_def)
qed

definition session_of :: "web_result \<Rightarrow> Session" where
  "session_of r = (case qfind (wb_sessions (web_after r)) ''001-x'' of Some s \<Rightarrow> s)"

lemma session_ofI: "\<not> Option.is_none (qfind (wb_sessions (web_after r)) ''001-x'') \<Longrightarrow> qfind (wb_sessions (web_after r)) ''001-x'' = Some (session_of r)"
  by (auto simp: session_of_def Option.is_none_def split: option.split)

lemma example_sessions:
  "qfind (wb_sessions (web_after example_created)) ''001-x'' = Some (session_of example_created)"
  "qfind (wb_sessions (web_after example_bound)) ''001-x'' = Some (session_of example_bound)"
  by (rule session_ofI, code_simp)+

lemma example_facts:
  "Authenticate example_web False (example_visit ''tb'') example_tokens = Inr (2, ''bobby'')"
  "Authenticate example_web False (example_visit ''ta'') example_tokens = Inr (1, ''alice'')"
  "Authenticate example_web False (example_upload ''ta'' ''session-request'' ''{create}'') example_tokens = Inr (1, ''alice'')"
  "wb_invitations (web_after example_created) = []"
  "sn_sessionPrivacy (session_of example_created) = ''private''"
  "\<not> isMember (session_of example_created) 2"
  "sn_sessionType (session_of example_bound) = owner_bind"
  "sn_ownerUserId (session_of example_bound) = 1"
  by code_simp+

lemma private_session_closed_witness:
  "HandleSessionGet example_web False ''001-x'' (example_visit ''tb'') 9 example_tokens (web_after example_created) =
     JsonError HttpForbidden SESSION_NOT_PERMITTED"
  using private_session_closed [OF example_web_ok(1) example_facts(1) example_sessions(1), of 9 SharedState_default 1 None]
  by (simp add: example_facts)

lemma best_session_shown_witness:
  "CollectUserSessions 9 web_empty 1 1 None = []"
  using best_session_shown [OF web_ok_empty, of 9 1 1 "[]"] by (simp add: web_empty_def)

definition example_leaver :: ClientSession where
  "example_leaver = (newSession 12 None)\<lparr>cs_authenticated := True,
     cs_info := ClientInfo_default\<lparr>ci_userId := 2, ci_npid := ''bobby''\<rparr>\<rparr>"

lemma example_leaver: "cs_authenticated example_leaver" "my_id example_leaver = 2"
  by (simp_all add: example_leaver_def)

lemma purge_removes_user_witness:
  "2 \<notin> participants (fst (leaveWebSessions example_web 10 example_leaver example_consoles (web_after example_joined)))"
  using purge_removes_user [OF example_web_ok(2), where cs = example_leaver and wx = example_web and now = 10
      and sh = example_consoles and k = "[]"]
  by (simp add: example_leaver del: not_Some_eq split: option.splits)

lemma example_told:
  "sn_sendNotificationFlag (session_of example_created)"
  "List.map_filter (\<lambda>m. map_option ce_send (qfind (ss_clients example_consoles) (sm_userId m)))
     (sn_members (session_of example_created)) = [11]"
  by code_simp+

lemma session_join_effect_witness:
  "map fst (snd (snd example_joined)) = [11]"
proof -
  obtain ws' outs where j: "example_joined = (NoContent, ws', outs)" using example_created_ok(2) by (metis prod.collapse)
  then have "HandleSessionJoin example_web False ''001-x'' (example_visit ''tb'') 9 example_tokens example_consoles
      (web_after example_created) = (NoContent, ws', outs)" by (simp add: example_joined_def)
  from session_join_effect [OF example_web_ok(1) example_facts(1) example_sessions(1) _ this] show ?thesis
    using example_facts(6) example_told by (simp add: j)
qed

lemma owner_bind_belongs_to_owner_witness:
  "\<exists>s'. qfind (wb_sessions (web_after (web_handle example_web example_tokens example_consoles (web_after example_bound)
      (WeDelete False ''001-x'' (example_visit ''tb''))))) ''001-x'' = Some s'"
  using owner_bind_belongs_to_owner [OF example_web_ok(3) _ example_sessions(2) example_facts(7), of example_web example_tokens
      "WeDelete False ''001-x'' (example_visit ''tb'')" "(2, ''bobby'')" example_consoles]
  by (auto simp: example_facts)

definition example_use :: http_request where
  "example_use = (example_visit ''tb'')\<lparr>hq_body := ''{use}''\<rparr>"

definition example_used :: web_result where
  "example_used = HandleInvitationUse example_web False ''002-i'' example_use 10 example_tokens (web_after example_invited)"

lemma example_used_ok:
  "fst example_used = NoContent" "Authenticate example_web False example_use example_tokens = Inr (2, ''bobby'')"
  "\<not> Option.is_none (wx_fromJson example_web (hq_body example_use))"
  "jvalue (case wx_fromJson example_web (hq_body example_use) of Some x \<Rightarrow> x) ''usedFlag'' = JBool True"
  by code_simp+

lemma invitation_used_once_witness:
  "HandleInvitationUse example_web False ''002-i'' example_use 12 example_tokens (web_after example_used) =
    (JsonError HttpNotFound INVITATION_EXPIRED, web_after example_used, [])"
proof -
  obtain ws' outs where u: "example_used = (NoContent, ws', outs)" using example_used_ok(1) by (metis prod.collapse)
  obtain obj where o: "wx_fromJson example_web (hq_body example_use) = Some obj" "jvalue obj ''usedFlag'' = JBool True"
    using example_used_ok(3,4) by (auto simp: Option.is_none_def split: option.splits)
  from invitation_used_once [OF u [unfolded example_used_def] example_used_ok(2) _ example_used_ok(2) o, of "[]"]
  show ?thesis by (simp add: u)
qed

definition example_data_upload :: http_request where
  "example_data_upload = (example_visit ''ta'')\<lparr>hq_contentType := ''multipart/mixed; boundary=b'',
     hq_body := ''--b'' @ crlf @ ''Content-Description: session-request'' @ crlf @ crlf @ ''{create}'' @ crlf @
       ''--b'' @ crlf @ ''Content-Description: session-data'' @ crlf @ crlf @ ''bytes'' @ crlf @ ''--b--''\<rparr>"

definition example_stored :: web_result where
  "example_stored = HandleSessionCreate example_web False example_data_upload ''x'' 8 example_tokens example_consoles web_empty"

lemma example_stored_ok:
  "fst example_stored = JsonOk [(''sessionId'', JString ''001-x'')]"
  "Authenticate example_web False example_data_upload example_tokens = Authenticate example_web False (example_visit ''ta'') example_tokens"
  "partNamed ''session-data'' (ParseMultipartMixed (hq_body example_data_upload)
     (ExtractBoundary (NormalizeContentType (hq_contentType example_data_upload)))) = Some ''bytes''"
  by code_simp+

lemma session_data_roundtrip_witness:
  "HandleSessionGetData example_web False ''001-x'' (example_visit ''ta'') 9 example_tokens example_consoles (web_after example_stored) =
    OctetStream ''bytes''"
proof -
  obtain ws' outs where m: "example_stored = (JsonOk [(''sessionId'', JString ''001-x'')], ws', outs)"
    using example_stored_ok(1) by (metis prod.collapse)
  from session_data_roundtrip [OF m [unfolded example_stored_def] example_stored_ok(2), of 9] example_stored_ok(3)
  show ?thesis by (simp add: m)
qed

end
