(* ===== verification/WebLists.thy ===== *)
theory WebLists
  imports WebPeople
begin

text \<open>
  Friend lists, block lists (\<open>webapi_routes_users.cpp\<close>) and profiles
  (\<open>webapi_routes_profile.cpp\<close>).
\<close>

subsection \<open>Lists of users\<close>

definition GetAvatarUrl :: "bool \<Rightarrow> userid \<Rightarrow> Database \<Rightarrow> qstring option" where
  "GetAvatarUrl fault userId db = (if fault then None else map_option ur_avatarUrl (qfind (db_accounts db) userId))"

definition listPage :: "nat \<times> nat \<Rightarrow> 'a list \<Rightarrow> 'a list" where
  \<comment> \<open>limit and offset\<close>
  "listPage paging xs = take (fst paging) (drop (snd paging) xs)"

definition listBody :: "qstring \<Rightarrow> nat \<times> nat \<Rightarrow> json list \<Rightarrow> nat \<Rightarrow> json_object" where
  "listBody key paging entries totalResults =
     [(key, JArray entries), (''start'', JNum (int (snd paging))), (''size'', JNum (int (length entries))),
      (''totalResults'', JNum (int totalResults))]"

definition BuildUserList ::
  "people_functions \<Rightarrow> (userid \<times> qstring) list \<Rightarrow> qstring \<Rightarrow> bool \<Rightarrow> bool \<Rightarrow> bool \<Rightarrow> nat \<times> nat \<Rightarrow> json_object" where
  "BuildUserList wp users key wantUser wantRegion wantNpId paging =
     listBody key paging
       (map (\<lambda>(i, n). JObject
          (joptional wantUser ''user'' (juser n i) @
           joptional wantRegion ''region'' (JString DefaultRegion) @
           joptional wantNpId ''npId'' (EncodeNpId wp n))) (listPage paging users))
       (length users)"

fun insertBy :: "('a \<Rightarrow> 'a \<Rightarrow> bool) \<Rightarrow> 'a \<Rightarrow> 'a list \<Rightarrow> 'a list" where
  "insertBy lt x [] = [x]"
| "insertBy lt x (y # ys) = (if lt y x then y # insertBy lt x ys else x # y # ys)"

definition stable_sort :: "('a \<Rightarrow> 'a \<Rightarrow> bool) \<Rightarrow> 'a list \<Rightarrow> 'a list" where
  \<comment> \<open>\<open>std::stable_sort\<close> with a strict weak order\<close>
  "stable_sort lt xs = foldr (insertBy lt) xs []"

definition seenOnline :: "SharedState \<Rightarrow> userid \<Rightarrow> userid \<Rightarrow> bool" where
  "seenOnline sh callerId userId =
     (case qfind (ss_clients sh) userId of
        None \<Rightarrow> False | Some c \<Rightarrow> inSameGame sh callerId userId \<or> \<not> ce_appearOffline c)"

definition filterFriends :: "SharedState \<Rightarrow> userid \<Rightarrow> qstring \<Rightarrow> (userid \<times> qstring) list \<Rightarrow> (userid \<times> qstring) list" where
  "filterFriends sh callerId flt friends =
     (if flt = ''online'' then filter (\<lambda>(i, n). seenOnline sh callerId i) friends
      else if flt = ''incontext'' then filter (\<lambda>(i, n). inSameGame sh callerId i) friends
      else friends)"

definition friendBefore ::
  "people_functions \<Rightarrow> SharedState \<Rightarrow> userid \<Rightarrow> bool \<Rightarrow> qstring \<Rightarrow> qstring
    \<Rightarrow> userid \<times> qstring \<Rightarrow> userid \<times> qstring \<Rightarrow> bool" where
  \<comment> \<open>the order asked for; without presence everyone counts as offline\<close>
  "friendBefore wp sh callerId wantPresence sortKey direction a b =
     (let desc = (direction = ''desc'');
          rank = (\<lambda>i. if wantPresence \<and> seenOnline sh callerId i then 0 else (1 :: int));
          c = wp_compare wp (snd a) (snd b)
      in if take 12 sortKey = ''onlineStatus'' \<and> rank (fst a) \<noteq> rank (fst b)
         then (if desc then rank (fst a) > rank (fst b) else rank (fst a) < rank (fst b))
         else if take 12 sortKey = ''onlineStatus'' \<and> sortKey \<noteq> ''onlineStatus+onlineId'' then False
         else (if desc then c > 0 else c < 0))"

definition friendPresence :: "http_request \<Rightarrow> SharedState \<Rightarrow> userid \<Rightarrow> userid \<Rightarrow> json_object" where
  "friendPresence req sh callerId friendId =
     (let type = queryItemValue req ''presenceType'';
          detail = (queryItemValue req ''presenceDetail'' = ''true'');
          same = inSameGame sh callerId friendId
      in case qfind (ss_clients sh) friendId of
           None \<Rightarrow> MakePresence type False [] [] [] [] [] detail False []
         | Some c \<Rightarrow>
             if seenOnline sh callerId friendId
             then MakePresence type True (ce_platform c)
                    (if same then firstLanguage (queryItemValue req ''npLanguages'') (ce_gameStatus c) (ce_localizedGameStatus c)
                     else [])
                    (if same then ce_gameData c else []) (ce_npTitleId c) (ce_titleName c) detail same []
             else MakePresence type False [] [] [] [] [] detail False [])"

definition friendEntry ::
  "people_functions \<Rightarrow> bool \<Rightarrow> Database \<Rightarrow> SharedState \<Rightarrow> http_request \<Rightarrow> userid \<Rightarrow> userid \<times> qstring \<Rightarrow> json_object" where
  "friendEntry wp fault db sh req callerId fr =
     (let asked = defaultFields req; want = (\<lambda>f. f \<in> set asked); isDefault = want ''@default'';
          avatar = (case GetAvatarUrl fault (fst fr) db of None \<Rightarrow> [] | Some a \<Rightarrow> a)
      in joptional (isDefault \<or> want ''user'') ''user'' (juser (snd fr) (fst fr)) @
         joptional (isDefault \<or> want ''npId'') ''npId'' (EncodeNpId wp (snd fr)) @
         joptional (isDefault \<or> want ''region'') ''region'' (JString DefaultRegion) @
         joptional (want ''personalDetail'' \<or> want ''personalDetail.displayName'') ''personalDetail''
           (JObject [(''displayName'', JString (snd fr))]) @
         joptional ((want ''avatarUrl'' \<or> want ''avatarUrls'') \<and> avatar \<noteq> []) ''avatarUrl'' (JString avatar) @
         joptional (want ''isOfficiallyVerified'') ''isOfficiallyVerified'' (JBool False) @
         joptional (queryItemValue req ''presenceType'' \<noteq> []) ''presence'' (JObject (friendPresence req sh callerId (fst fr))))"

definition chosenFriends ::
  "people_functions \<Rightarrow> SharedState \<Rightarrow> http_request \<Rightarrow> userid \<Rightarrow> (userid \<times> qstring) list \<Rightarrow> (userid \<times> qstring) list" where
  \<comment> \<open>the friends filtered and sorted\<close>
  "chosenFriends wp sh req callerId friends =
     (let wantPresence = (queryItemValue req ''presenceType'' \<noteq> []);
          kept = (if wantPresence then filterFriends sh callerId (queryItemValue req ''filter'') friends else friends);
          sortKey = queryItemValue req ''sort''
      in if sortKey = [] then kept
         else stable_sort (friendBefore wp sh callerId wantPresence sortKey (queryItemValue req ''direction'')) kept)"

definition BuildFriendList ::
  "people_functions \<Rightarrow> bool \<Rightarrow> Database \<Rightarrow> SharedState \<Rightarrow> http_request \<Rightarrow> userid \<Rightarrow> nat \<times> nat
    \<Rightarrow> (userid \<times> qstring) list \<Rightarrow> json_object" where
  "BuildFriendList wp fault db sh req callerId paging friends =
     (let chosen = chosenFriends wp sh req callerId friends in
      listBody ''friendList'' paging (map (JObject \<circ> friendEntry wp fault db sh req callerId) (listPage paging chosen))
        (length chosen))"

definition HandleFriendList ::
  "web_functions \<Rightarrow> people_functions \<Rightarrow> faults \<Rightarrow> qstring \<Rightarrow> http_request \<Rightarrow> Database \<Rightarrow> SharedState \<Rightarrow> http_response" where
  "HandleFriendList wx wp fa userKey req db sh =
     (case owner_only wx (fa_account fa) userKey req db of
        Inl r \<Rightarrow> r
      | Inr me \<Rightarrow>
        (let presenceType = queryItemValue req ''presenceType'';
             sortKey = queryItemValue req ''sort''
         in if \<not> hasQueryItem req ''friendStatus'' then JsonError HttpBadRequest UP_QUERY_PARAM_REQUIRED
            else if queryItemValue req ''friendStatus'' \<noteq> ''friend'' then JsonError HttpBadRequest UP_INVALID_QUERY_PARAM
            else if presenceType \<notin> {[], ''primary'', ''platform'', ''incontext''}
            then JsonError HttpBadRequest UP_INVALID_QUERY_PARAM
            else if (sortKey = ''onlineStatus'' \<or> sortKey = ''onlineStatus+onlineId'') \<and> presenceType = []
            then JsonError HttpBadRequest UP_INVALID_QUERY_PARAM
            else JsonOk (BuildFriendList wp (fa_account fa) db sh req (fst me) (ParsePaging wx req 100 500)
                   (rl_friends (GetRelationships fa (fst me) db)))))"

definition HandleBlockList ::
  "web_functions \<Rightarrow> people_functions \<Rightarrow> faults \<Rightarrow> qstring \<Rightarrow> qstring \<Rightarrow> http_request \<Rightarrow> Database \<Rightarrow> http_response" where
  \<comment> \<open>\<open>blockList\<close> and \<open>blockingUsers\<close>, which differ in the key\<close>
  "HandleBlockList wx wp fa key userKey req db =
     (case owner_only wx (fa_account fa) userKey req db of
        Inl r \<Rightarrow> r
      | Inr me \<Rightarrow>
        (let asked = defaultFields req in
         JsonOk (BuildUserList wp (rl_blocked (GetRelationships fa (fst me) db)) key
           (''@default'' \<in> set asked \<or> ''user'' \<in> set asked) False (''npId'' \<in> set asked)
           (ParsePaging wx req 2000 2000))))"

definition HandleFriendOnlineIdLists ::
  "web_functions \<Rightarrow> faults \<Rightarrow> http_request \<Rightarrow> Database \<Rightarrow> http_response" where
  "HandleFriendOnlineIdLists wx fa req db =
     (case Authenticate wx (fa_account fa) req db of
        Inl r \<Rightarrow> r
      | Inr me \<Rightarrow>
        if \<not> hasQueryItem req ''accountIds'' then JsonError HttpBadRequest UP_QUERY_PARAM_REQUIRED
        else
          (let ids = commaList (queryItemValue req ''accountIds'') in
           if ids = [] \<or> length ids > 10 then JsonError HttpBadRequest UP_INVALID_QUERY_PARAM
           else JsonOk [(''friendOnlineIdLists'', JArray (map (\<lambda>accId. JObject
             [(''user'', juser (case GetUsername (fa_account fa) accId db of None \<Rightarrow> [] | Some n \<Rightarrow> n) accId),
              (''friendOnlineIdLists'', JArray (map (\<lambda>(i, n). juser n i) (rl_friends (GetRelationships fa accId db))))])
             (List.map_filter (wx_toLongLong wx) ids)))]))"

subsection \<open>Profiles\<close>

definition profilePresence :: "SharedState \<Rightarrow> userid \<Rightarrow> userid \<Rightarrow> json_object" where
  "profilePresence sh userId callerUserId =
     (case qfind (ss_clients sh) userId of
        None \<Rightarrow> MakePresenceEntry False [] [] [] [] [] True False
      | Some c \<Rightarrow>
          (let self = (callerUserId = userId);
               sameGame = (\<not> self \<and> inSameGame sh callerUserId userId)
           in MakePresenceEntry (self \<or> sameGame \<or> \<not> ce_appearOffline c) (ce_platform c)
                (if self \<or> sameGame then ce_gameStatus c else []) [] (ce_npTitleId c) (ce_titleName c) True False))"

definition BuildProfile ::
  "people_functions \<Rightarrow> bool \<Rightarrow> Database \<Rightarrow> SharedState \<Rightarrow> userid \<Rightarrow> qstring \<Rightarrow> qstring list \<Rightarrow> userid \<Rightarrow> json_object" where
  "BuildProfile wp fault db sh userId onlineId asked callerUserId =
     (let want = (\<lambda>f. f \<in> set asked); isDefault = want ''@default'';
          avatar = (case GetAvatarUrl fault userId db of None \<Rightarrow> [] | Some a \<Rightarrow> a)
      in joptional (isDefault \<or> want ''user'') ''user'' (juser onlineId userId) @
         joptional (isDefault \<or> want ''region'') ''region'' (JString DefaultRegion) @
         joptional (isDefault \<or> want ''npId'') ''npId'' (EncodeNpId wp onlineId) @
         joptional ((isDefault \<or> want ''avatarUrl'' \<or> want ''avatarUrls'') \<and> avatar \<noteq> []) ''avatarUrl'' (JString avatar) @
         joptional (isDefault \<or> want ''aboutMe'') ''aboutMe'' (JString []) @
         joptional (isDefault \<or> want ''languagesUsed'') ''languagesUsed'' (JArray []) @
         joptional (want ''personalDetail'' \<or> want ''personalDetail.displayName'') ''personalDetail''
           (JObject [(''displayName'', JString onlineId)]) @
         joptional (want ''isOfficiallyVerified'') ''isOfficiallyVerified'' (JBool False) @
         joptional (want ''presence'') ''presence''
           (JObject [(''primaryInfo'', JObject (profilePresence sh userId callerUserId))]))"

definition BuildProfiles ::
  "web_functions \<Rightarrow> people_functions \<Rightarrow> bool \<Rightarrow> Database \<Rightarrow> SharedState \<Rightarrow> qstring list \<Rightarrow> qstring list \<Rightarrow> userid
    \<Rightarrow> json_object" where
  "BuildProfiles wx wp fault db sh accountIds asked callerUserId =
     (let arr = List.map_filter (\<lambda>accId. map_option (\<lambda>name.
              JObject (BuildProfile wp fault db sh accId name asked callerUserId)) (GetUsername fault accId db))
            (List.map_filter (wx_toLongLong wx) accountIds)
      in [(''profiles'', JArray arr), (''size'', JNum (int (length arr)))])"

definition profileIds :: "web_functions \<Rightarrow> bool \<Rightarrow> http_request \<Rightarrow> Database \<Rightarrow> http_response + qstring list" where
  "profileIds wx fault req db =
     (let listed = (\<lambda>key. commaList (queryItemValue req key));
          invalid = JsonError HttpBadRequest UP_INVALID_QUERY_PARAM
      in if hasQueryItem req ''accountIds''
         then (if listed ''accountIds'' = [] \<or> length (listed ''accountIds'') > 50 then Inl invalid
               else Inr (listed ''accountIds''))
         else if hasQueryItem req ''onlineId''
         then (if listed ''onlineId'' = [] \<or> length (listed ''onlineId'') > 50 then Inl invalid
               else Inr (List.map_filter (\<lambda>oid. map_option qstring_number (GetUserId fault oid db)) (listed ''onlineId'')))
         else Inl (JsonError HttpBadRequest UP_QUERY_PARAM_REQUIRED))"

definition HandleProfiles ::
  "web_functions \<Rightarrow> people_functions \<Rightarrow> bool \<Rightarrow> http_request \<Rightarrow> Database \<Rightarrow> SharedState \<Rightarrow> http_response" where
  "HandleProfiles wx wp fault req db sh =
     (case Authenticate wx fault req db of
        Inl r \<Rightarrow> r
      | Inr me \<Rightarrow>
        (case profileIds wx fault req db of
           Inl r \<Rightarrow> r
         | Inr ids \<Rightarrow> JsonOk (BuildProfiles wx wp fault db sh ids (defaultFields req) (fst me))))"

definition HandleProfile ::
  "web_functions \<Rightarrow> people_functions \<Rightarrow> bool \<Rightarrow> qstring \<Rightarrow> http_request \<Rightarrow> Database \<Rightarrow> SharedState \<Rightarrow> http_response" where
  "HandleProfile wx wp fault userKey req db sh =
     (case owner_only wx fault userKey req db of
        Inl r \<Rightarrow> r
      | Inr me \<Rightarrow> JsonOk (BuildProfile wp fault db sh (fst me)
          (case GetUsername fault (fst me) db of None \<Rightarrow> snd me | Some n \<Rightarrow> n) (defaultFields req) (fst me)))"

definition HandleRealNameAvailable ::
  "web_functions \<Rightarrow> bool \<Rightarrow> qstring \<Rightarrow> http_request \<Rightarrow> Database \<Rightarrow> http_response" where
  "HandleRealNameAvailable wx fault userKey req db =
     (case owner_only wx fault userKey req db of Inl r \<Rightarrow> r | Inr me \<Rightarrow> JsonOk [])"

end
