(* ===== verification/PeopleRules.thy ===== *)
theory PeopleRules
  imports WebLists WebOnline "HOL-Library.Multiset" "HOL-Library.Product_Lexorder" "HOL-Library.List_Lexorder"
begin

text \<open>
  What the presence, friend list and profile routes promise: who learns what about whom, what a
  presence write changes and tells, and the order of the friend list.
\<close>

subsection \<open>What one user sees of another\<close>

text \<open>
  The specification the routes are held against: a caller sees nothing of a user who appears offline
  in another game, the platform and title of any other connected user, and the status and data of
  the game only in the same game.
\<close>

definition visiblePresence ::
  "SharedState \<Rightarrow> userid \<Rightarrow> userid
    \<Rightarrow> ((qstring \<times> qstring \<times> qstring) \<times> (qstring \<times> qstring \<times> (qstring, qstring) qhash) option) option" where
  "visiblePresence sh caller t =
     (case qfind (ss_clients sh) t of
        None \<Rightarrow> None
      | Some c \<Rightarrow>
          let title = (ce_platform c, ce_npTitleId c, ce_titleName c)
          in if inSameGame sh caller t
             then Some (title, Some (ce_gameStatus c, ce_gameData c, ce_localizedGameStatus c))
             else if ce_appearOffline c then None else Some (title, None))"

definition alike :: "userid \<Rightarrow> SharedState \<Rightarrow> SharedState \<Rightarrow> bool" where
  \<comment> \<open>states the caller cannot tell apart\<close>
  "alike caller sh sh' \<longleftrightarrow>
     qfind (ss_clients sh') caller = qfind (ss_clients sh) caller \<and>
     (\<forall>t. visiblePresence sh' caller t = visiblePresence sh caller t)"

definition presenceOf :: "qstring \<Rightarrow> qstring \<Rightarrow> bool \<Rightarrow> qstring
    \<Rightarrow> ((qstring \<times> qstring \<times> qstring) \<times> (qstring \<times> qstring \<times> (qstring, qstring) qhash) option) option \<Rightarrow> json_object" where
  "presenceOf type langs detail platReq v =
     (case v of
        None \<Rightarrow> MakePresence type False [] [] [] [] [] detail False platReq
      | Some ((p, i, n), d) \<Rightarrow>
          (case d of
             None \<Rightarrow> MakePresence type True p [] [] i n detail False platReq
           | Some (gs, gd, loc) \<Rightarrow> MakePresence type True p (firstLanguage langs gs loc) gd i n detail True platReq))"

lemma MakePresence_offline:
  "MakePresence type False p gs gd i n detail same platReq = MakePresence type False [] [] [] [] [] detail False platReq"
  by (simp add: MakePresence_def MakePresenceEntry_def Let_def joptional_def)

lemma visible_cases:
  "inSameGame sh caller t \<longleftrightarrow> (\<exists>x d. visiblePresence sh caller t = Some (x, Some d))"
  "seenOnline sh caller t \<longleftrightarrow> visiblePresence sh caller t \<noteq> None"
  by (auto simp: visiblePresence_def seenOnline_def inSameGame_def Let_def split: option.splits)

lemma shownPresence_view:
  "shownPresence req sh caller t =
     presenceOf (queryItemValue req ''type'') (queryItemValue req ''npLanguages'')
       (queryItemValue req ''presenceDetail'' = ''true'') (queryItemValue req ''platform'') (visiblePresence sh caller t)"
proof (cases "qfind (ss_clients sh) t")
  case (Some c)
  then show ?thesis
    by (cases "inSameGame sh caller t"; cases "ce_appearOffline c")
      (simp_all add: shownPresence_def presenceOf_def visiblePresence_def
        MakePresence_offline [of _ "ce_platform c" "[]" "[]" "ce_npTitleId c" "ce_titleName c"])
qed (simp add: shownPresence_def presenceOf_def visiblePresence_def)

lemma friendPresence_view:
  "friendPresence req sh caller t =
     presenceOf (queryItemValue req ''presenceType'') (queryItemValue req ''npLanguages'')
       (queryItemValue req ''presenceDetail'' = ''true'') [] (visiblePresence sh caller t)"
  by (auto simp: friendPresence_def presenceOf_def visiblePresence_def seenOnline_def Let_def split: option.split)

lemma profilePresence_view:
  "t \<noteq> caller \<Longrightarrow> profilePresence sh t caller =
     (case visiblePresence sh caller t of
        None \<Rightarrow> MakePresenceEntry False [] [] [] [] [] True False
      | Some ((p, i, n), d) \<Rightarrow>
          MakePresenceEntry True p (case d of None \<Rightarrow> [] | Some (gs, _) \<Rightarrow> gs) [] i n True False)"
  by (auto simp: profilePresence_def visiblePresence_def MakePresenceEntry_def joptional_def Let_def split: option.split)

lemma alike_friends:
  assumes "alike caller sh sh'"
  shows "inSameGame sh' caller = inSameGame sh caller" "seenOnline sh' caller = seenOnline sh caller"
    "friendPresence req sh' caller = friendPresence req sh caller"
    "shownPresence req sh' caller = shownPresence req sh caller"
  using assms by (auto simp: fun_eq_iff visible_cases friendPresence_view shownPresence_view alike_def)

lemma alike_profile:
  assumes "alike caller sh sh'"
  shows "profilePresence sh' t caller = profilePresence sh t caller"
proof (cases "t = caller")
  case True
  with assms show ?thesis by (auto simp: alike_def profilePresence_def split: option.split)
qed (use assms in \<open>simp add: alike_def profilePresence_view\<close>)

lemma alike_answers:
  assumes "Authenticate wx (fa_account fa) req db = Inr me" and "alike (fst me) sh sh'"
  shows "HandlePresenceGet wx wp fa key req db sh' = HandlePresenceGet wx wp fa key req db sh"
    "HandleFriendList wx wp fa key req db sh' = HandleFriendList wx wp fa key req db sh"
    "HandleProfiles wx wp (fa_account fa) req db sh' = HandleProfiles wx wp (fa_account fa) req db sh"
    "HandleProfile wx wp (fa_account fa) key req db sh' = HandleProfile wx wp (fa_account fa) key req db sh"
proof -
  note same = alike_friends [OF assms(2)] alike_profile [OF assms(2)]
  show "HandlePresenceGet wx wp fa key req db sh' = HandlePresenceGet wx wp fa key req db sh"
    by (simp add: HandlePresenceGet_def assms(1) same Let_def)
  have "friendEntry wp f db sh' req (fst me) = friendEntry wp f db sh req (fst me)" for f
    by (rule ext) (simp add: friendEntry_def same Let_def)
  moreover have "chosenFriends wp sh' req (fst me) = chosenFriends wp sh req (fst me)"
    by (rule ext) (simp add: chosenFriends_def filterFriends_def friendBefore_def [abs_def] same Let_def)
  ultimately show "HandleFriendList wx wp fa key req db sh' = HandleFriendList wx wp fa key req db sh"
    by (simp add: HandleFriendList_def BuildFriendList_def owner_only_def assms(1) Let_def)
  have "BuildProfile wp f db sh' t n asked (fst me) = BuildProfile wp f db sh t n asked (fst me)" for f t n asked
    by (simp add: BuildProfile_def same Let_def)
  then show "HandleProfiles wx wp (fa_account fa) req db sh' = HandleProfiles wx wp (fa_account fa) req db sh"
    "HandleProfile wx wp (fa_account fa) key req db sh' = HandleProfile wx wp (fa_account fa) key req db sh"
    by (simp_all add: HandleProfiles_def BuildProfiles_def HandleProfile_def owner_only_def assms(1) split: sum.split)
qed

definition putClient :: "userid \<Rightarrow> ClientEntry \<Rightarrow> SharedState \<Rightarrow> SharedState" where
  "putClient t c sh = sh\<lparr>ss_clients := qinsert t c (ss_clients sh)\<rparr>"

definition dropClient :: "userid \<Rightarrow> SharedState \<Rightarrow> SharedState" where
  "dropClient t sh = sh\<lparr>ss_clients := qremove t (ss_clients sh)\<rparr>"

lemma client_changes [simp]:
  "qfind (ss_clients (putClient t c sh)) u = (if u = t then Some c else qfind (ss_clients sh) u)"
  "qfind (ss_clients (dropClient t sh)) u = (if u = t then None else qfind (ss_clients sh) u)"
  "comId_of (putClient t c sh) u = comId_of sh u" "comId_of (dropClient t sh) u = comId_of sh u"
  by (simp_all add: putClient_def dropClient_def qfind_qinsert qfind_qremove comId_of_def)

lemma alike_except:
  assumes "\<And>u. u \<noteq> t \<Longrightarrow> qfind (ss_clients sh') u = qfind (ss_clients sh) u" and "comId_of sh' = comId_of sh"
    and "t \<noteq> caller" and "visiblePresence sh' caller t = visiblePresence sh caller t"
  shows "alike caller sh sh'"
proof -
  have "inSameGame sh' caller u = inSameGame sh caller u" if "u \<noteq> t" for u
    using that assms(1,2) by (simp add: inSameGame_def)
  then have "visiblePresence sh' caller u = visiblePresence sh caller u" if "u \<noteq> t" for u
    using that assms(1) by (simp add: visiblePresence_def Let_def split: option.split)
  then have "visiblePresence sh' caller u = visiblePresence sh caller u" for u using assms(4) by (cases "u = t") simp_all
  then show ?thesis using assms(1,3) by (simp add: alike_def)
qed

lemma alike_details:
  assumes "qfind (ss_clients sh) t = Some c" and "\<not> inSameGame sh caller t" and "t \<noteq> caller"
  shows "alike caller sh (putClient t (c\<lparr>ce_gameStatus := gs, ce_gameData := gd, ce_localizedGameStatus := loc\<rparr>) sh)"
  by (rule alike_except [OF _ _ assms(3)])
    (use assms in \<open>auto simp: visiblePresence_def inSameGame_def\<close>)

lemma alike_gone:
  assumes "qfind (ss_clients sh) t = Some c" and "ce_appearOffline c" and "\<not> inSameGame sh caller t" and "t \<noteq> caller"
  shows "alike caller sh (dropClient t sh)"
  by (rule alike_except [OF _ _ assms(4)])
    (use assms in \<open>auto simp: visiblePresence_def\<close>)

text \<open>C15: A user in another game keeps its game status and data to itself: no answer of the presence,
  friend list and profile routes to another user depends on them. And if it appears offline, the
  answers are those given when it is not connected at all.\<close>

theorem other_games_hidden:
  fixes wp :: people_functions and key :: qstring
  assumes "Authenticate wx (fa_account fa) req db = Inr me" and "t \<noteq> fst me"
    and "qfind (ss_clients sh) t = Some c" and "\<not> inSameGame sh (fst me) t"
  defines "answers \<equiv> \<lambda>s. (HandlePresenceGet wx wp fa key req db s, HandleFriendList wx wp fa key req db s,
    HandleProfiles wx wp (fa_account fa) req db s, HandleProfile wx wp (fa_account fa) key req db s)"
  shows "answers (putClient t (c\<lparr>ce_gameStatus := gs, ce_gameData := gd, ce_localizedGameStatus := loc\<rparr>) sh) = answers sh \<and>
    (ce_appearOffline c \<longrightarrow> answers (dropClient t sh) = answers sh)"
  using alike_answers [OF assms(1) alike_details [OF assms(3,4,2)]]
    alike_answers [OF assms(1) alike_gone [OF assms(3) _ assms(4,2)]] by (simp add: answers_def)

text \<open>C18: Presence is given to the user itself and to its mutual friends: on a consistent friendship
  table a caller who asks for someone else with valid parameters gets the answer exactly when the
  two asked each other to be friends, and otherwise is told that it is not a friend.\<close>

theorem presence_for_friends_only:
  assumes "friendship_ok db" and "\<not> fa_account fa" and "\<not> fa_rel_read fa"
    and "Authenticate wx False req db = Inr me" and "\<not> IsSelf wx key me"
    and "queryItemValue req ''type'' \<in> {''primary'', ''platform'', ''incontext''}"
    and "queryItemValue req ''platform'' = [] \<or> queryItemValue req ''type'' \<noteq> ''primary''"
  defines "t \<equiv> presenceTarget wx False key me db"
  shows "if t \<noteq> 0 \<and> mutual db (fst me) t
    then \<exists>body. HandlePresenceGet wx wp fa key req db sh = JsonOk body
    else HandlePresenceGet wx wp fa key req db sh = JsonError HttpForbidden UP_NON_FRIEND_NOT_ALLOWED"
proof -
  have f: "t \<in> fst ` set (rl_friends (GetRelationships fa (fst me) db)) \<longleftrightarrow> mutual db (fst me) t"
    using friends_listed [OF assms(1-3), of "fst me"] by simp
  have "fa_account fa = False" using assms(2) by simp
  then show ?thesis
    using assms(4-7) f by (auto simp: HandlePresenceGet_def t_def Let_def)
qed

text \<open>C16: A presence write of a connected user changes only that user's entry: status and data when
  the body has them, the localized status only when the body has one, the data notifications latched
  on, and the time of the update; everything else of the entry is kept. A user who appears offline tells nobody. Otherwise the status member
  first and then the data member, if written, is announced by one event to each connected friend in
  the list in memory that is in the same game - to each connected friend when the game of the user is
  not known - with the new value in it only when the user asked for notifications with data.\<close>

theorem presence_write_effect:
  assumes "Authenticate wx fault req db = Inr me" and "IsSelf wx userKey me" and "qfind (ss_clients sh) (fst me) = Some c"
    and w: "HandlePresenceWrite wx fault leaf userKey req nowSecs db sh = (NoContent, sh', outs)"
  defines "obj \<equiv> (case wx_fromJson wx (hq_body req) of None \<Rightarrow> [] | Some ob \<Rightarrow> ob)"
    and "withData \<equiv> ce_notifyWithData c \<or> queryItemValue req ''notificationWithData'' = ''true''"
    and "told \<equiv> List.map_filter (qfind (ss_clients sh')) (filter (\<lambda>u. comId_of sh (fst me) = [] \<or>
           qfind (ss_usageClientGame sh) u = Some (comId_of sh (fst me))) (qkeys (ce_friends c)))"
  shows "(\<exists>c'. qfind (ss_clients sh') (fst me) = Some c' \<and>
      ce_gameStatus c' = (if jcontains obj ''gameStatus'' then jtoString (jvalue obj ''gameStatus'') else ce_gameStatus c) \<and>
      ce_gameData c' = (if jcontains obj ''gameData'' then jtoString (jvalue obj ''gameData'') else ce_gameData c) \<and>
      (\<not> jcontains obj ''localizedGameStatus'' \<longrightarrow> ce_localizedGameStatus c' = ce_localizedGameStatus c) \<and>
      ce_notifyWithData c' = withData \<and> ce_presenceUpdatedAt c' = nowSecs \<and>
      c'\<lparr>ce_gameStatus := ce_gameStatus c, ce_gameData := ce_gameData c, ce_localizedGameStatus := ce_localizedGameStatus c,
         ce_notifyWithData := ce_notifyWithData c, ce_presenceUpdatedAt := ce_presenceUpdatedAt c\<rparr> = c) \<and>
    (\<forall>u. u \<noteq> fst me \<longrightarrow> qfind (ss_clients sh') u = qfind (ss_clients sh) u) \<and>
    sh' = sh\<lparr>ss_clients := ss_clients sh'\<rparr> \<and>
    outs = (if ce_appearOffline c then []
      else concat (map (\<lambda>(key, dt). if jcontains obj key
             then map (\<lambda>f. (ce_send f, \<lparr>pe_dataType = dt, pe_body = (if withData then [(key, jvalue obj key)] else []),
                                     pe_from = snd me, pe_to = ce_npid f\<rparr>)) told
             else []) [(''gameStatus'', kStatus), (''gameData'', kData)]))"
proof -
  let ?f = "writePresence obj (queryItemValue req ''notificationWithData'' = ''true'') nowSecs"
  let ?sh = "sh\<lparr>ss_clients := qmodify (fst me) ?f (ss_clients sh)\<rparr>"
  let ?events = "(if jcontains obj ''gameStatus'' then [(kStatus, if withData then [(''gameStatus'', jvalue obj ''gameStatus'')] else [])] else []) @
    (if jcontains obj ''gameData'' then [(kData, if withData then [(''gameData'', jvalue obj ''gameData'')] else [])] else [])"
  have own: "qfind (ss_clients ?sh) (fst me) = Some (?f c)" using assms(3) by (simp add: qfind_qmodify)
  have keep: "ce_appearOffline (?f c) = ce_appearOffline c" "ce_notifyWithData (?f c) = withData" "ce_friends (?f c) = ce_friends c"
    by (simp_all add: writePresence_def withData_def Let_def)
  have o: "owner_only wx fault userKey req db = Inr me" using assms(1,2) by (simp add: owner_only_def)
  have r: "sh' = ?sh" "outs = (if ce_appearOffline c then [] else concat (map (pushPresence ?sh me) ?events))"
    using w own keep by (auto simp: HandlePresenceWrite_def o obj_def [symmetric] Let_def split: if_splits)
  have com: "comId_of ?sh = comId_of sh" "sameGame ?sh = sameGame sh" by (simp_all add: comId_of_def sameGame_def fun_eq_iff)
  have "presenceRecipients ?sh (fst me) = told"
    unfolding presenceRecipients_def own com Let_def option.case keep told_def r(1) sameGame_def ..
  then have events: "outs = (if ce_appearOffline c then []
      else concat (map (\<lambda>(key, dt). if jcontains obj key
             then map (\<lambda>f. (ce_send f, \<lparr>pe_dataType = dt, pe_body = (if withData then [(key, jvalue obj key)] else []),
                                     pe_from = snd me, pe_to = ce_npid f\<rparr>)) told
             else []) [(''gameStatus'', kStatus), (''gameData'', kData)]))"
    unfolding r(2) pushPresence_def by simp
  have "c' \<lparr>ce_gameStatus := ce_gameStatus c, ce_gameData := ce_gameData c, ce_localizedGameStatus := ce_localizedGameStatus c,
         ce_notifyWithData := ce_notifyWithData c, ce_presenceUpdatedAt := ce_presenceUpdatedAt c\<rparr> = c" if "c' = ?f c" for c'
    by (simp add: that writePresence_def Let_def)
  moreover have "ce_gameStatus (?f c) = (if jcontains obj ''gameStatus'' then jtoString (jvalue obj ''gameStatus'') else ce_gameStatus c)"
    "ce_gameData (?f c) = (if jcontains obj ''gameData'' then jtoString (jvalue obj ''gameData'') else ce_gameData c)"
    "\<not> jcontains obj ''localizedGameStatus'' \<longrightarrow> ce_localizedGameStatus (?f c) = ce_localizedGameStatus c"
    "ce_presenceUpdatedAt (?f c) = nowSecs"
    by (simp_all add: writePresence_def Let_def)
  ultimately show ?thesis
    using own keep(2) r(1) events by (intro conjI) (auto simp: qfind_qmodify)
qed

subsection \<open>The order of the friend list\<close>

lemma mset_insertBy: "mset (insertBy lt x ys) = add_mset x (mset ys)"
  by (induction ys) auto

lemma mset_stable_sort [simp]: "mset (stable_sort lt xs) = mset xs"
  by (induction xs) (simp_all add: stable_sort_def mset_insertBy)

lemma stable_sort_Cons: "stable_sort lt (x # xs) = insertBy lt x (stable_sort lt xs)"
  by (simp add: stable_sort_def)

lemma insertBy_filter:
  assumes "\<And>y. P y \<Longrightarrow> P x \<Longrightarrow> \<not> lt y x"
  shows "filter P (insertBy lt x ys) = filter P (x # ys)"
  using assms by (induction ys) auto

lemma stable_sort_filter:
  assumes "\<And>x y. P y \<Longrightarrow> P x \<Longrightarrow> \<not> lt y x"
  shows "filter P (stable_sort lt xs) = filter P xs"
  using assms by (induction xs) (simp_all add: stable_sort_def insertBy_filter)

lemma stable_sort_up: "stable_sort (\<lambda>a b. k a < k b) xs = sort_key k xs"
proof -
  have "insertBy (\<lambda>a b. k a < k b) x ys = insort_key k x ys" for x ys
    by (induction ys) auto
  then have "insertBy (\<lambda>a b. k a < k b) = insort_key k" by (intro ext)
  then show ?thesis by (simp add: stable_sort_def sort_key_def)
qed

lemma insertBy_sorted:
  "sorted_wrt (\<lambda>a b. k b \<le> k a) ys \<Longrightarrow> sorted_wrt (\<lambda>a b. k b \<le> k a) (insertBy (\<lambda>a b. k b < (k a :: 'b::linorder)) x ys)"
proof (induction ys)
  case (Cons y ys)
  have "set (insertBy (\<lambda>a b. k b < k a) x ys) = insert x (set ys)"
    using arg_cong [OF mset_insertBy, of set_mset "\<lambda>a b. k b < k a" x ys] by simp
  with Cons show ?case by auto
qed simp

lemma stable_sort_down: "stable_sort (\<lambda>a b. k b < (k a :: 'b::linorder)) xs = rev (sort_key k (rev xs))"
proof -
  let ?s = "stable_sort (\<lambda>a b. k b < k a) xs"
  have "sorted_wrt (\<lambda>a b. k b \<le> k a) ?s"
    by (induction xs) (simp_all add: stable_sort_def insertBy_sorted)
  then have "sorted (map k (rev ?s))" by (simp add: rev_map [symmetric] sorted_wrt_rev sorted_wrt_map)
  moreover have "filter (\<lambda>x. c = k x) (rev ?s) = filter (\<lambda>x. c = k x) (rev xs)" for c
    using stable_sort_filter [of "\<lambda>x. c = k x" "\<lambda>a b. k b < k a" xs] by (simp add: rev_filter [symmetric])
  ultimately have "sort_key k (rev xs) = rev ?s" by (intro properties_for_sort_key) simp_all
  then show ?thesis by simp
qed

lemma sort_key_online_first:
  "sort_key (\<lambda>(i, n). \<not> P i) xs = filter (\<lambda>(i, n). P i) xs @ filter (\<lambda>(i, n). \<not> P i) xs"
proof (rule properties_for_sort_key)
  let ?ys = "filter (\<lambda>(i, n). P i) xs @ filter (\<lambda>(i, n). \<not> P i) xs"
  have all: "sorted_wrt R zs" if "\<And>x y. x \<in> set zs \<Longrightarrow> y \<in> set zs \<Longrightarrow> R x y" for R and zs :: "('a \<times> 'b) list"
    using that by (induction zs) auto
  show "sorted (map (\<lambda>(i, n). \<not> P i) ?ys)"
    by (auto simp: sorted_map sorted_wrt_append simp del: map_append intro!: all)
qed (auto simp: case_prod_unfold)

text \<open>C17: With a comparison of names that is consistent with some linear order, the friend list sorted by
  status and name is the list of the friends that pass the filter, sorted stably by being offline and
  then by name, or the other way round for a descending order; without names online friends come
  first and keep their order.\<close>

theorem friend_list_order:
  fixes name_key :: "qstring \<Rightarrow> 'k::linorder" and sh :: SharedState and caller :: userid and friends :: "(userid \<times> qstring) list"
  assumes "\<And>a b. wp_compare wp a b < 0 \<longleftrightarrow> name_key a < name_key b"
    and "\<And>a b. wp_compare wp a b > 0 \<longleftrightarrow> name_key b < name_key a"
    and "queryItemValue req ''presenceType'' \<noteq> []"
  defines "kept \<equiv> filterFriends sh caller (queryItemValue req ''filter'') friends"
    and "by_status \<equiv> (\<lambda>(i, n). (\<not> seenOnline sh caller i, name_key n))"
    and "down \<equiv> queryItemValue req ''direction'' = ''desc''"
  shows "(queryItemValue req ''sort'' = ''onlineStatus+onlineId'' \<longrightarrow>
      chosenFriends wp sh req caller friends = (if down then rev (sort_key by_status (rev kept)) else sort_key by_status kept)) \<and>
    (queryItemValue req ''sort'' = ''onlineId'' \<longrightarrow>
      chosenFriends wp sh req caller friends =
        (if down then rev (sort_key (name_key \<circ> snd) (rev kept)) else sort_key (name_key \<circ> snd) kept)) \<and>
    (queryItemValue req ''sort'' = ''onlineStatus'' \<and> \<not> down \<longrightarrow>
      chosenFriends wp sh req caller friends =
        filter (\<lambda>(i, n). seenOnline sh caller i) kept @ filter (\<lambda>(i, n). \<not> seenOnline sh caller i) kept)"
proof -
  have chosen: "chosenFriends wp sh req caller friends = stable_sort (friendBefore wp sh caller True (queryItemValue req ''sort'') (queryItemValue req ''direction'')) kept"
    if "queryItemValue req ''sort'' \<noteq> []"
    using assms(3) that by (simp add: chosenFriends_def kept_def Let_def)
  have "friendBefore wp sh caller True ''onlineStatus+onlineId'' (queryItemValue req ''direction'') =
      (if down then (\<lambda>a b. by_status b < by_status a) else (\<lambda>a b. by_status a < by_status b))"
    using assms(1,2) by (auto simp: fun_eq_iff friendBefore_def by_status_def down_def Let_def less_bool_def)
  then have both: "stable_sort (friendBefore wp sh caller True ''onlineStatus+onlineId'' (queryItemValue req ''direction'')) kept =
      (if down then rev (sort_key by_status (rev kept)) else sort_key by_status kept)"
    using stable_sort_up [of by_status kept] stable_sort_down [of by_status kept] by simp
  have "friendBefore wp sh caller True ''onlineId'' (queryItemValue req ''direction'') =
      (if down then (\<lambda>a b. (name_key \<circ> snd) b < (name_key \<circ> snd) a) else (\<lambda>a b. (name_key \<circ> snd) a < (name_key \<circ> snd) b))"
    using assms(1,2) by (auto simp: fun_eq_iff friendBefore_def down_def Let_def)
  then have name: "stable_sort (friendBefore wp sh caller True ''onlineId'' (queryItemValue req ''direction'')) kept =
      (if down then rev (sort_key (name_key \<circ> snd) (rev kept)) else sort_key (name_key \<circ> snd) kept)"
    using stable_sort_up [of "name_key \<circ> snd" kept] stable_sort_down [of "name_key \<circ> snd" kept] by simp
  have "friendBefore wp sh caller True ''onlineStatus'' (queryItemValue req ''direction'') =
      (\<lambda>a b. (\<lambda>(i, n). \<not> seenOnline sh caller i) a < (\<lambda>(i, n). \<not> seenOnline sh caller i) b)" if "\<not> down"
    using that by (auto simp: fun_eq_iff friendBefore_def down_def Let_def less_bool_def)
  then have status: "stable_sort (friendBefore wp sh caller True ''onlineStatus'' (queryItemValue req ''direction'')) kept =
      filter (\<lambda>(i, n). seenOnline sh caller i) kept @ filter (\<lambda>(i, n). \<not> seenOnline sh caller i) kept" if "\<not> down"
    using that stable_sort_up [of "\<lambda>(i, n). \<not> seenOnline sh caller i" kept] sort_key_online_first [of "seenOnline sh caller" kept]
    by simp
  show ?thesis using chosen both name status by simp
qed

subsection \<open>Examples\<close>

definition example_key :: "qstring \<Rightarrow> nat list" where
  "example_key n = map of_char (nocase n)"

definition example_people :: people_functions where
  "example_people = \<lparr>wp_base64 = (\<lambda>s. s),
     wp_compare = (\<lambda>a b. if example_key a < example_key b then -1 else if example_key b < example_key a then 1 else 0)\<rparr>"

definition example_ask :: "string \<Rightarrow> (qstring \<times> qstring) list \<Rightarrow> http_request" where
  "example_ask token items = (example_visit token)\<lparr>hq_query := items\<rparr>"

definition example_lobby :: "bool \<Rightarrow> SharedState" where
  \<comment> \<open>alice and bobby are connected and friends; bobby may appear offline\<close>
  "example_lobby hidden = SharedState_default\<lparr>ss_clients :=
     [(1, (example_console ''alice'' 11)\<lparr>ce_friends := [(2, ''bobby'')]\<rparr>),
      (2, (example_console ''bobby'' 12)\<lparr>ce_friends := [(1, ''alice'')], ce_appearOffline := hidden\<rparr>)]\<rparr>"

lemma example_lobby_facts:
  "Authenticate example_web (fa_account no_faults) (example_ask ''ta'' [(''type'', ''primary'')]) example_tokens = Inr (1, ''alice'')"
  "qfind (ss_clients (example_lobby True)) 2 =
     Some ((example_console ''bobby'' 12)\<lparr>ce_friends := [(1, ''alice'')], ce_appearOffline := True\<rparr>)"
  "\<not> inSameGame (example_lobby True) (fst (1, ''alice'')) 2"
  "ce_appearOffline ((example_console ''bobby'' 12)\<lparr>ce_friends := [(1, ''alice'')], ce_appearOffline := True\<rparr>)"
  by code_simp+

lemma other_games_hidden_witness:
  "HandlePresenceGet example_web example_people no_faults ''bobby'' (example_ask ''ta'' [(''type'', ''primary'')]) example_tokens
     (dropClient 2 (example_lobby True)) =
   HandlePresenceGet example_web example_people no_faults ''bobby'' (example_ask ''ta'' [(''type'', ''primary'')]) example_tokens
     (example_lobby True)"
  using other_games_hidden [OF example_lobby_facts(1) _ example_lobby_facts(2,3), of example_people "''bobby''"]
    example_lobby_facts(4) by simp

lemma example_friends:
  "friendship_ok example_tokens" "\<not> IsSelf example_web ''bobby'' (1, ''alice'')"
  "queryItemValue (example_ask ''ta'' [(''type'', ''primary'')]) ''type'' = ''primary''"
  "queryItemValue (example_ask ''ta'' [(''type'', ''primary'')]) ''platform'' = []"
  "presenceTarget example_web False ''bobby'' (1, ''alice'') example_tokens = 2"
  "mutual example_tokens 1 2"
  "fa_account no_faults = False" "fa_rel_read no_faults = False"
  by code_simp+

lemma presence_for_friends_only_witness:
  "\<exists>body. HandlePresenceGet example_web example_people no_faults ''bobby'' (example_ask ''ta'' [(''type'', ''primary'')])
     example_tokens (example_lobby False) = JsonOk body"
  using presence_for_friends_only [of example_tokens no_faults example_web "example_ask ''ta'' [(''type'', ''primary'')]"
      "(1, ''alice'')" "''bobby''" example_people "example_lobby False"] example_lobby_facts(1)
  by (simp add: example_friends)

definition example_status :: http_request where
  "example_status = (example_ask ''ta'' [(''notificationWithData'', ''true'')])\<lparr>hq_body := ''{status}''\<rparr>"

definition example_status_web :: web_functions where
  "example_status_web = example_web\<lparr>wx_fromJson := (\<lambda>s. Some [(''gameStatus'', JString ''fishing'')])\<rparr>"

lemma example_written:
  "Authenticate example_status_web False example_status example_tokens = Inr (1, ''alice'')"
  "IsSelf example_status_web ''me'' (1, ''alice'')"
  "qfind (ss_clients (example_lobby False)) (fst (1, ''alice'')) = Some ((example_console ''alice'' 11)\<lparr>ce_friends := [(2, ''bobby'')]\<rparr>)"
  "fst (HandlePresenceWrite example_status_web False ''gameStatus'' ''me'' example_status 5 example_tokens (example_lobby False)) = NoContent"
  by code_simp+

lemma presence_write_effect_witness:
  "\<exists>c. qfind (ss_clients (fst (snd (HandlePresenceWrite example_status_web False ''gameStatus'' ''me'' example_status 5
      example_tokens (example_lobby False))))) 1 = Some c \<and> ce_notifyWithData c"
proof -
  obtain sh' outs where w: "HandlePresenceWrite example_status_web False ''gameStatus'' ''me'' example_status 5
      example_tokens (example_lobby False) = (NoContent, sh', outs)"
    using example_written(4) by (metis prod.collapse)
  moreover have "queryItemValue example_status ''notificationWithData'' = ''true''" by code_simp
  ultimately show ?thesis
    using presence_write_effect [OF example_written(1-3) w] by auto
qed

lemma example_compare:
  "wp_compare example_people a b < 0 \<longleftrightarrow> example_key a < example_key b"
  "wp_compare example_people a b > 0 \<longleftrightarrow> example_key b < example_key a"
  by (auto simp: example_people_def)

definition example_sorted :: http_request where
  "example_sorted = example_ask ''ta'' [(''presenceType'', ''primary''), (''sort'', ''onlineId'')]"

lemma example_sort_key: "sort_key (example_key \<circ> snd) [(2 :: userid, ''bobby''), (3, ''Anna'')] = [(3, ''Anna''), (2, ''bobby'')]"
  by code_simp

lemma example_sorted_items:
  "queryItemValue example_sorted ''presenceType'' \<noteq> []" "queryItemValue example_sorted ''sort'' = ''onlineId''"
  "queryItemValue example_sorted ''filter'' = []" "queryItemValue example_sorted ''direction'' = []"
  by code_simp+

lemma friend_list_order_witness:
  "chosenFriends example_people (example_lobby False) example_sorted 1 [(2, ''bobby''), (3, ''Anna'')] = [(3, ''Anna''), (2, ''bobby'')]"
  using friend_list_order [OF example_compare example_sorted_items(1), of "example_lobby False" 1 "[(2, ''bobby''), (3, ''Anna'')]"]
  by (simp add: example_sorted_items filterFriends_def example_sort_key del: sort_key_simps)

end
