(* ===== verification/Spec2Isabelle.thy ===== *)
theory Spec2Isabelle
  imports BrokerRoutes Stats Admin SampleClient WebRules PeopleRules
begin

text \<open>
  A model of the shadNet server (C++ and Qt, directory \<open>src\<close>): the service a PlayStation 4
  emulator talks to for accounts, friends, presence, matchmaking, scores and, for one game, the
  exchange of summon signs.

  \<^bold>\<open>How the program works.\<close> A client opens a TCP connection, which becomes a
  \<open>ClientSession\<close>. Bytes are buffered until a whole request packet is there
  (\<open>OnReadyRead\<close>), the packet is dispatched on its command (\<open>DispatchCommand\<close>), and
  the command handler reads its arguments through a \<open>StreamExtractor\<close>, changes its session,
  the \<open>SharedState\<close> of all sessions and the SQLite database, writes a reply and sends
  notification packets to other connected users. Apart from that a UDP socket answers address pings
  (\<open>stun_server.cpp\<close>), and an HTTP server carries the Web API: game sessions and invitations
  to them, profiles and presence, and the Bloodborne summon broker.

  \<^bold>\<open>Theories and sources.\<close>
  \<^item> \<open>Prelude\<close>: integer types, Qt's hash tables as association lists (\<open>qfind\<close>,
    \<open>qinsert\<close>, \<open>qremove\<close>), and the interfaces \<open>keyed_store\<close>,
    \<open>invariant_machine\<close> and \<open>bounded_machine\<close>.
  \<^item> \<open>Stream\<close>: \<open>stream_extractor.h\<close>, \<open>proto_utils.h\<close>. \<open>Framing\<close>: the codes
    of \<open>protocol.h\<close>, the receive loop, dispatch and packet builders of
    \<open>client_session.cpp\<close>, and the sample client's packet builder and parser.
  \<^item> \<open>Rooms\<close>: \<open>matching_types.h\<close>, \<open>matching.h\<close>. \<open>Messages\<close>: the
    matching messages of \<open>shadnet.proto\<close> and the functions that fill them.
    \<open>Shared\<close>: \<open>SharedState\<close>, sessions and matching notifications.
    \<open>RoomCommands\<close>, \<open>RoomQueries\<close>: the handlers of \<open>cmd_matching.cpp\<close>.
    \<open>RoomInvariant\<close>: what they keep true of a room and of the room table.
    \<open>Matching\<close>: all of them as one machine (\<open>matching_step\<close>) and its properties.
  \<^item> \<open>Broker\<close>: \<open>bloodborne_summon_broker.cpp\<close>. \<open>BrokerRoutes\<close>: the HTTP
    routes around it, \<open>webapi_routes_bloodborne.cpp\<close>.
  \<^item> \<open>Usage\<close>: the usage counters of \<open>client_session.h\<close>. \<open>Relations\<close>: the
    account, friendship and title tables of \<open>database.cpp\<close>. \<open>Friends\<close>:
    \<open>cmd_friend.cpp\<close>. \<open>Accounts\<close>: \<open>cmd_account.cpp\<close>, the account statements of
    \<open>database.cpp\<close> and \<open>CleanupOnDisconnect\<close>. \<open>Presence\<close>: the presence commands of
    \<open>client_session.cpp\<close>.
  \<^item> \<open>Online\<close>: connections, accounts, friends, presence, usage and matching as one machine
    (\<open>community_step\<close>) over one database and one shared state.
  \<^item> \<open>ScoreBoard\<close>: \<open>score_cache.cpp\<close>. \<open>ScoreServer\<close>: \<open>score_db.cpp\<close>,
    \<open>score_files.h\<close>, \<open>cmd_score.cpp\<close> and \<open>InitScoreSystem\<close> of \<open>server.cpp\<close>,
    as one machine (\<open>score_step\<close>).
  \<^item> \<open>Json\<close>: Qt's JSON values and byte strings as far as the Web API uses them.
    \<open>Multipart\<close>: the multipart parser of \<open>webapi_routes_session.cpp\<close>.
    \<open>WebRequest\<close>: requests, responses (\<open>webapi_routes_common.h\<close>) and the bearer token
    (\<open>webapi_auth.cpp\<close>). \<open>WebSessions\<close>, \<open>WebQueries\<close>: the handlers of
    \<open>webapi_routes_session.cpp\<close> that change sessions and invitations, and those that only read
    them. \<open>WebInvariant\<close>: what they keep true. \<open>WebMachine\<close>: all of them as one machine
    (\<open>web_handle\<close>) and the changes it can make (\<open>web_change\<close>). \<open>WebRules\<close>: who may
    see, change, join and leave a session. \<open>WebPeople\<close>: \<open>webapi_routes_common.h\<close> and
    \<open>webapi_routes_presence.cpp\<close>. \<open>WebLists\<close>: \<open>webapi_routes_users.cpp\<close> and
    \<open>webapi_routes_profile.cpp\<close>. \<open>PeopleRules\<close>: what one user learns of another and the
    order of the friend list. \<open>WebOnline\<close>: the Web API and the community machine
    together (\<open>portal_step\<close>), where the end of a connection ends its user's memberships and presence
    writes change the entries of connected users.
  \<^item> \<open>StartUp\<close>: the configuration files \<open>scoreboards.cfg\<close> and \<open>worlds.cfg\<close>
    (\<open>server.cpp\<close>) and the UDP helper (\<open>stun_server.cpp\<close>). \<open>Admin\<close>: the general
    configuration (\<open>config.cpp\<close>) and the statements of \<open>database.cpp\<close> for administration.
    \<open>Stats\<close>: the statistics page, \<open>stats_server.cpp\<close>.
  \<^item> \<open>ClientWire\<close>: the codes, payloads and state of the sample client (\<open>clientsample\<close>).
    \<open>ClientMatching\<close>: its matching half, which follows an older protocol. \<open>SampleClient\<close>: its
    other requests, what it makes of replies and notifications, and the way of a question to the
    server and back.

  \<^bold>\<open>How it is modelled.\<close> A C++ struct is a record with the fields in the order of the source
  (prefixed by two letters), an enumeration a datatype, an integer a word of its width where it can
  wrap and otherwise \<open>int\<close> or \<open>nat\<close>, a \<open>QString\<close> a list of characters, a
  \<open>QByteArray\<close> a list of bytes, a \<open>QHash\<close> an association list with distinct keys (its
  iteration order is not specified by Qt; nothing proved depends on it beyond the order in which
  messages are listed). A handler is a function from its arguments, the session, the shared state and
  the database to an error code, the new states and the list of packets it sends, each with the
  connection it goes to. Reading outside an array or with a negative size is the value
  \<open>None\<close>. The database is a record of finite maps keyed by the primary keys the schema
  declares; each statement does what its SQL says, and which statements fail is an argument. The
  clock and random draws are arguments.

  Code that is not in the repository is a parameter: protobuf's encoding and decoding
  (\<open>serialize\<close>, \<open>parse\<close>), SHA-256, Qt's case conversion, trimming and number parsing
  (\<open>auth_functions\<close>, \<open>text_functions\<close>, \<open>wire_functions\<close>), and Qt's JSON and
  Base64 (in \<open>Broker\<close>), and its JSON reader, number and date conversions (\<open>web_functions\<close>,
  in \<open>WebRequest\<close>), its Base64 and comparison of names (\<open>people_functions\<close>, in
  \<open>WebPeople\<close>), its conversions of settings (\<open>config_functions\<close>, in \<open>Admin\<close>), and the
  sample client's messages (\<open>client_protobuf\<close> and the two records in it). Theorems that need a law of such a function state it as a hypothesis
  and have a witness with a concrete function.

  \<^bold>\<open>What is shown.\<close>
  \<^item> Transport: requests and notifications arrive complete, in order and once whatever the
    segmentation of the stream; when exactly the receive loop hangs; who may call what before login.
  \<^item> Matching: the invariant of rooms and indexes over every run of the machine (as long as fewer
    than \<open>2 ^ 64 - 1\<close> rooms were asked for, so that room ids do not repeat), the effect of joining,
    leaving, kicking and messaging, the search, and that refused commands change nothing.
  \<^item> Summon broker: the invariant of its table, the life cycle of a sign, exclusiveness and delivery
    of claims with and without seamless co-op, the search (whose distances wrap around at 64 bits:
    exact for coordinates below \<open>2 ^ 29\<close>, and \<open>far_sign_matches\<close> beyond), and the exactness of its
    member scanner on compact JSON.
  \<^item> People: over every run of the community machine the tables are well-formed and the friend lists
    in memory agree with the database on the accounts there are; the friend commands refine an abstract store of two relations;
    login, registration and presence reach exactly the right users; usage counters count.
  \<^item> Scores: every cached table is sorted and indexed exactly; the cache is the top of the database
    as long as records improve and carry new times, and not otherwise; queries answer with the right
    ranks; uploaded data come back.
  \<^item> Sessions: over every run of the whole server the sessions are well-formed and their members
    connected; to whom the routes about a session show a private one (and that the route about an
    invitation shows it for longer) and who may change an owner's; what joining and leaving do;
    that an invitation is used once; that uploads come back and the multipart parser recovers its parts.
  \<^item> Presence: what a presence write changes and whom it tells; presence is for friends, users who
    appear offline in another game look unconnected, and game status and data stay within the game;
    the friend list is a stable sort by the keys asked for.
  \<^item> Summons over HTTP, statistics and administration: a claim posted by one player is what the other's
    next request is answered with; answers of the statistics page are no older than their configured life,
    and its usage page counts the users last seen in each game; what a ban stops and what it leaves.
  \<^item> Sample client: a ranking asked for over the wire comes back whole; which of its commands the
    server knows.

  \<^bold>\<open>Bounds.\<close> The receive loop is a \<open>partial_function (option)\<close>: \<open>None\<close> is a
  loop that does not end, and the inputs for which it is \<open>None\<close> are characterised. All other
  recursions are total functions with measures. Room ids are 64-bit, member ids and slots 16-bit, flags
  32-bit, distances of signs signed 64-bit; rank limits are assumed to fit an \<open>int\<close> where configuration
  could exceed it. A room has the number of slots its creator asked for, and the code keeps slots
  apart only up to 64: where a theorem needs this it says so.

  \<^bold>\<open>Not modelled.\<close> Locks and races between threads: every command is one step. Sockets, TLS,
  timers and logging. In the Web API, the table of URL routes and the texts of errors meant for humans.
  The command line of the sample client (\<open>clientsample/main.cpp\<close>) and the test programs.
\<close>

end
